(* ===== verification/Karst_Prelude.thy ===== *)
theory Karst_Prelude
  imports "HOL-Library.Word" "HOL-Library.State_Monad" "HOL-Library.Multiset"
    "HOL-Library.List_Lexorder" "HOL-Library.Char_ord"
begin

text \<open>
  Shared vocabulary of the development.

  A Go \<open>[]byte\<close> and a Go \<open>string\<close> are both sequences of bytes; a HOL \<open>char\<close> is
  one byte, so both are the HOL type \<open>string\<close> (\<open>bytes\<close> below) and the conversions
  between them are the identity. The unsigned and signed machine integers are words;
  \<open>int64\<close> is a 64-bit word compared with the signed comparisons. A Go function that
  returns an error is a HOL function into a sum, \<open>Inl\<close> for the error, and the idiom
  \<open>if !cond { return err }\<close> is \<open>require cond err\<close>.

  The theory holds the big-endian and base64 encodings of the Go standard library, the
  length-prefixed field that every hashed transcript of the program is built from, and the
  locale of self-delimiting encodings that the codecs and the hash transcripts share.
\<close>

type_synonym bytes = string
type_synonym uint16 = "16 word"
type_synonym uint32 = "32 word"
type_synonym uint64 = "64 word"
type_synonym int64 = "64 word"

named_theorems result_simps \<open>characteristic equations of the error combinators\<close>
named_theorems codec_simps \<open>encodings and the lengths of encodings\<close>
named_theorems reader_simps \<open>a reader applied to an encoding of its value\<close>

section \<open>Errors as values\<close>

fun ebind :: "'e + 'a \<Rightarrow> ('a \<Rightarrow> 'e + 'b) \<Rightarrow> 'e + 'b" where
  "ebind (Inl e) f = Inl e"
| "ebind (Inr x) f = f x"

definition require :: "bool \<Rightarrow> 'e \<Rightarrow> 'e + unit" where
  "require b e = (if b then Inr () else Inl e)"

lemma ebind_eq_Inr [result_simps]:
  "ebind m f = Inr y \<longleftrightarrow> (\<exists>x. m = Inr x \<and> f x = Inr y)"
  by (cases m) auto

lemma ebind_eq_Inl:
  "ebind m f = Inl e \<longleftrightarrow> m = Inl e \<or> (\<exists>x. m = Inr x \<and> f x = Inl e)"
  by (cases m) auto

lemma ebindE:
  assumes "ebind m f = Inr y" obtains x where "m = Inr x" and "f x = Inr y"
  using assms by (auto simp: result_simps)

lemma if_InrE:
  assumes "(if c then m else n) = Inr y" obtains "c" and "m = Inr y" | "\<not> c" and "n = Inr y"
  using assms by (cases c) auto

lemma require_eq_Inr [result_simps]: "require b e = Inr u \<longleftrightarrow> b"
  by (simp add: require_def)

lemma require_eq_Inl: "require b e = Inl e' \<longleftrightarrow> \<not> b \<and> e' = e"
  by (auto simp: require_def)

lemma require_True [simp]: "require True e = Inr ()"
  and require_False [simp]: "require False e = Inl e"
  by (simp_all add: require_def)

text \<open>An error passed on with its context added.\<close>

definition wrap_err :: "('a \<Rightarrow> 'b) \<Rightarrow> 'a + 'c \<Rightarrow> 'b + 'c" where
  "wrap_err f r = (case r of Inl e \<Rightarrow> Inl (f e) | Inr a \<Rightarrow> Inr a)"

lemma wrap_err_Inr [result_simps]: "wrap_err f r = Inr a \<longleftrightarrow> r = Inr a"
  and wrap_err_simps [simp]: "wrap_err f (Inl e) = Inl (f e)" "wrap_err f (Inr b) = Inr b"
  by (auto simp: wrap_err_def split: sum.splits)

lemma wrap_err_Inl: "wrap_err f r = Inl e \<longleftrightarrow> (\<exists>x. r = Inl x \<and> e = f x)"
  by (auto simp: wrap_err_def split: sum.splits)

text \<open>A loop over a slice whose body may return early with an error.\<close>

fun eforeach :: "('s \<Rightarrow> 'a \<Rightarrow> 'e + 's) \<Rightarrow> 's \<Rightarrow> 'a list \<Rightarrow> 'e + 's" where
  "eforeach f s [] = Inr s"
| "eforeach f s (x # xs) = ebind (f s x) (\<lambda>s'. eforeach f s' xs)"

fun emap :: "('a \<Rightarrow> 'e + 'b) \<Rightarrow> 'a list \<Rightarrow> 'e + 'b list" where
  "emap f [] = Inr []"
| "emap f (x # xs) = ebind (f x) (\<lambda>y. ebind (emap f xs) (\<lambda>ys. Inr (y # ys)))"

lemma eforeach_append:
  "eforeach f s (xs @ ys) = ebind (eforeach f s xs) (\<lambda>s'. eforeach f s' ys)"
proof (induction xs arbitrary: s)
  case (Cons x xs)
  then show ?case by (cases "f s x") auto
qed simp

lemma eforeach_invariant:
  assumes "\<And>s x s'. I s \<Longrightarrow> x \<in> set xs \<Longrightarrow> f s x = Inr s' \<Longrightarrow> I s'"
    and "I s" and "eforeach f s xs = Inr s'"
  shows "I s'"
  using assms
proof (induction xs arbitrary: s)
  case (Cons x xs)
  from Cons.prems(3) obtain t where step: "f s x = Inr t" and rest: "eforeach f t xs = Inr s'"
    by (auto simp: result_simps)
  have "I t" by (rule Cons.prems(1) [OF Cons.prems(2) _ step]) simp
  show ?case
    by (rule Cons.IH [OF _ \<open>I t\<close> rest]) (rule Cons.prems(1), auto)
qed simp

lemma emap_eq_Inr:
  "emap f xs = Inr ys \<longleftrightarrow> list_all2 (\<lambda>x y. f x = Inr y) xs ys"
proof (induction xs arbitrary: ys)
  case (Cons x xs)
  then show ?case by (cases ys) (auto simp: result_simps)
qed auto

lemma emap_append:
  "emap f (xs @ ys) = ebind (emap f xs) (\<lambda>us. ebind (emap f ys) (\<lambda>vs. Inr (us @ vs)))"
proof (induction xs)
  case Nil
  show ?case by (cases "emap f ys") auto
next
  case (Cons x xs)
  then show ?case by (cases "f x"; cases "emap f xs"; cases "emap f ys") auto
qed

lemma emap_Inr_map: "(\<And>x. x \<in> set xs \<Longrightarrow> f x = Inr (g x)) \<Longrightarrow> emap f xs = Inr (map g xs)"
  by (induction xs) auto

lemma foldl_append: "foldl (\<lambda>out x. out @ f x) out xs = out @ concat (map f xs)"
  by (induction xs arbitrary: out) simp_all

section \<open>Big-endian integers\<close>

text \<open>\<open>be n x\<close> is the \<open>n\<close>-byte big-endian form of \<open>x\<close> (the low \<open>n\<close> bytes, as
  \<open>binary.BigEndian.PutUint32\<close> and \<open>PutUint64\<close> write them); \<open>unbe\<close> reads one.\<close>

fun be :: "nat \<Rightarrow> nat \<Rightarrow> bytes" where
  "be 0 x = []"
| "be (Suc n) x = be n (x div 256) @ [char_of x]"

definition unbe :: "bytes \<Rightarrow> nat" where
  "unbe bs = foldl (\<lambda>a c. a * 256 + of_char c) 0 bs"

lemma unbe_Nil [simp]: "unbe [] = 0"
  and unbe_snoc [simp]: "unbe (bs @ [c]) = unbe bs * 256 + of_char c"
  by (simp_all add: unbe_def)

lemma length_be [simp]: "length (be n x) = n"
  by (induction n arbitrary: x) auto

lemma unbe_be: "unbe (be n x) = x mod 256 ^ n"
proof (induction n arbitrary: x)
  case (Suc n)
  have "x mod (256 * 256 ^ n) = 256 * (x div 256 mod 256 ^ n) + x mod 256"
    by (rule mod_mult2_eq)
  with Suc show ?case by (simp del: mod_mult_self1 mod_mult_self2)
qed simp

lemma be_unbe: "be (length bs) (unbe bs) = bs"
proof (induction bs rule: rev_induct)
  case (snoc c bs)
  have "(unbe bs * 256 + of_char c) mod 256 = of_char c"
    by simp
  then have "char_of (unbe bs * 256 + of_char c) = c"
    by (metis char_of_char char_of_mod_256)
  moreover have "(unbe bs * 256 + of_char c) div 256 = unbe bs"
    using nat_of_char_less_256 [of c] by simp
  ultimately show ?case using snoc by simp
qed simp

lemma unbe_less: "unbe bs < 256 ^ length bs"
proof (induction bs rule: rev_induct)
  case (snoc c bs)
  have "unbe bs * 256 + of_char c < (unbe bs + 1) * 256"
    using nat_of_char_less_256 [of c] by (simp add: algebra_simps)
  also have "\<dots> \<le> 256 ^ length bs * 256"
    using snoc by (intro mult_right_mono) auto
  finally show ?case by (simp add: mult.commute)
qed simp

definition putUint32 :: "uint32 \<Rightarrow> bytes" where
  "putUint32 v = be 4 (unat v)"

definition getUint32 :: "bytes \<Rightarrow> uint32" where
  "getUint32 bs = word_of_nat (unbe bs)"

definition putUint64 :: "uint64 \<Rightarrow> bytes" where
  "putUint64 v = be 8 (unat v)"

definition getUint64 :: "bytes \<Rightarrow> uint64" where
  "getUint64 bs = word_of_nat (unbe bs)"

lemma length_putUint32 [simp]: "length (putUint32 v) = 4"
  by (simp add: putUint32_def)

lemma length_putUint64 [simp]: "length (putUint64 v) = 8"
  by (simp add: putUint64_def)

lemma unat_lt32: "unat (v :: uint32) < 4294967296"
  using unsigned_less [of v] by simp

lemma unat_lt64: "unat (v :: uint64) < 18446744073709551616"
  using unsigned_less [of v] by simp

lemma get_put32 [simp]: "getUint32 (putUint32 v) = v"
  using unat_lt32 [of v] by (simp add: getUint32_def putUint32_def unbe_be)

lemma get_put64 [simp]: "getUint64 (putUint64 v) = v"
  using unat_lt64 [of v] by (simp add: getUint64_def putUint64_def unbe_be)

lemma put_get32: 
  assumes "length bs = 4"
  shows "putUint32 (getUint32 bs) = bs"
proof -
  have "unbe bs < 4294967296"
    using unbe_less [of bs] assms by simp
  then have "unat (getUint32 bs) = unbe bs"
    by (simp add: getUint32_def unat_of_nat)
  then show ?thesis
    using be_unbe [of bs] by (simp only: putUint32_def assms)
qed

lemma put_get64:
  assumes "length bs = 8"
  shows "putUint64 (getUint64 bs) = bs"
proof -
  have "unbe bs < 18446744073709551616"
    using unbe_less [of bs] assms by simp
  then have "unat (getUint64 bs) = unbe bs"
    by (simp add: getUint64_def unat_of_nat)
  then show ?thesis
    using be_unbe [of bs] by (simp only: putUint64_def assms)
qed

lemma putUint32_inj [simp]: "putUint32 a = putUint32 b \<longleftrightarrow> a = b"
  by (metis get_put32)

lemma putUint64_inj [simp]: "putUint64 a = putUint64 b \<longleftrightarrow> a = b"
  by (metis get_put64)

section \<open>Self-delimiting encodings\<close>

text \<open>An encoding is self-delimiting on the values it accepts when the encoded value and
  the bytes after it can both be read off a concatenation. Every transcript the program
  hashes is a concatenation of such fields, so its injectivity is this law, applied field by
  field.\<close>

locale self_delimiting =
  fixes enc :: "'a \<Rightarrow> bytes" and ok :: "'a \<Rightarrow> bool"
  assumes delimits: "ok a \<Longrightarrow> ok b \<Longrightarrow> enc a @ r = enc b @ s \<Longrightarrow> a = b \<and> r = s"
begin

lemma append_eq_iff: "ok a \<Longrightarrow> ok b \<Longrightarrow> enc a @ r = enc b @ s \<longleftrightarrow> a = b \<and> r = s"
  using delimits by blast

lemma enc_eq_iff: "ok a \<Longrightarrow> ok b \<Longrightarrow> enc a = enc b \<longleftrightarrow> a = b"
  using append_eq_iff [of a b "[]" "[]"] by simp

lemma concat_eq_iff:
  assumes "list_all ok xs" and "list_all ok ys" and "length xs = length ys"
  shows "concat (map enc xs) @ r = concat (map enc ys) @ s \<longleftrightarrow> xs = ys \<and> r = s"
  using assms(3,1,2)
proof (induction xs ys rule: list_induct2)
  case (Cons x xs y ys)
  then show ?case by (auto simp: append_eq_iff)
qed simp

end

text \<open>A fixed-width injective encoding is self-delimiting on every value.\<close>

locale fixed_width =
  fixes fenc :: "'a \<Rightarrow> bytes" and width :: nat
  assumes width: "length (fenc a) = width"
    and inj: "fenc a = fenc b \<Longrightarrow> a = b"

sublocale fixed_width \<subseteq> self_delimiting fenc "\<lambda>_. True"
proof
  fix a b r s
  assume eq: "fenc a @ r = fenc b @ s"
  moreover have "length (fenc a) = length (fenc b)" by (simp add: width)
  ultimately have "fenc a = fenc b \<and> r = s" by simp
  with inj show "a = b \<and> r = s" by blast
qed

interpretation be32: fixed_width putUint32 4
  by unfold_locales simp_all

interpretation be64: fixed_width putUint64 8
  by unfold_locales simp_all

text \<open>The length-prefixed field: a four-byte big-endian length, then the bytes. The length
  is converted to \<open>uint32\<close> first, so it wraps for a field of \<open>2 ^ 32\<close> bytes or more;
  below that size the field is self-delimiting.\<close>

definition lpfield :: "bytes \<Rightarrow> bytes" where
  "lpfield f = putUint32 (word_of_nat (length f)) @ f"

definition fits32 :: "bytes \<Rightarrow> bool" where
  "fits32 f \<longleftrightarrow> length f < 4294967296"

lemma unat_len32: "fits32 f \<Longrightarrow> unat (word_of_nat (length f) :: uint32) = length f"
  by (simp add: fits32_def unat_of_nat)

lemma length_lpfield [codec_simps]: "length (lpfield f) = 4 + length f"
  by (simp add: lpfield_def)

lemma lpfield_not_Nil [simp]: "lpfield f \<noteq> []"
  by (simp add: lpfield_def flip: length_greater_0_conv)

interpretation lp: self_delimiting lpfield fits32
proof
  fix a b r s
  assume ok: "fits32 a" "fits32 b" and eq: "lpfield a @ r = lpfield b @ s"
  from eq have "(word_of_nat (length a) :: uint32) = word_of_nat (length b)"
    and tl: "a @ r = b @ s"
    by (auto simp: lpfield_def be32.append_eq_iff)
  then have "length a = length b"
    using ok by (metis unat_len32)
  with tl show "a = b \<and> r = s" by simp
qed

lemma fits32_small [simp]: "length f \<le> 4294967295 \<Longrightarrow> fits32 f"
  by (simp add: fits32_def)

section \<open>Base64\<close>

text \<open>\<open>base64.StdEncoding.EncodeToString\<close>: six bits per character, three bytes per
  group, padded with \<open>=\<close>.\<close>

definition b64alphabet :: string where
  "b64alphabet = ''ABCDEFGHIJKLMNOPQRSTUVWXYZabcdefghijklmnopqrstuvwxyz0123456789+/''"

fun sextets :: "nat \<Rightarrow> nat \<Rightarrow> string" where
  "sextets 0 n = []"
| "sextets (Suc k) n = sextets k (n div 64) @ [b64alphabet ! (n mod 64)]"

fun base64 :: "bytes \<Rightarrow> string" where
  "base64 [] = []"
| "base64 [a] = sextets 2 (unbe [a] * 16) @ ''==''"
| "base64 [a, b] = sextets 3 (unbe [a, b] * 4) @ ''=''"
| "base64 (a # b # c # bs) = sextets 4 (unbe [a, b, c]) @ base64 bs"

lemma length_b64alphabet: "length b64alphabet = 64"
  by (simp add: b64alphabet_def)

lemma distinct_b64alphabet: "distinct b64alphabet"
  by code_simp

lemma pad_notin_alphabet: "CHR ''='' \<notin> set b64alphabet"
  by (simp add: b64alphabet_def)

lemma length_sextets [simp]: "length (sextets k n) = k"
  by (induction k arbitrary: n) auto

lemma set_sextets: "set (sextets k n) \<subseteq> set b64alphabet"
  by (induction k arbitrary: n) (auto simp: length_b64alphabet)

lemma sextets_inj:
  "sextets k n = sextets k m \<Longrightarrow> n < 64 ^ k \<Longrightarrow> m < 64 ^ k \<Longrightarrow> n = m"
proof (induction k arbitrary: n m)
  case (Suc k)
  have bounds: "n div 64 < 64 ^ k" "m div 64 < 64 ^ k"
    using Suc.prems(2,3) by (simp_all add: less_mult_imp_div_less mult.commute)
  have "sextets k (n div 64) = sextets k (m div 64)"
    using Suc.prems(1) by simp
  then have "n div 64 = m div 64"
    using bounds by (rule Suc.IH)
  moreover have "n mod 64 = m mod 64"
    using Suc.prems(1) by (simp add: nth_eq_iff_index_eq distinct_b64alphabet length_b64alphabet)
  ultimately show ?case by (metis div_mult_mod_eq)
qed simp

lemma unbe_inj: "length as = length bs \<Longrightarrow> unbe as = unbe bs \<Longrightarrow> as = bs"
  by (metis be_unbe)

lemma length_base64: "length (base64 bs) = 4 * ((length bs + 2) div 3)"
proof (induction bs rule: base64.induct)
  case (4 a b c bs)
  have "(length (a # b # c # bs) + 2) div 3 = 1 + (length bs + 2) div 3"
    by (simp add: div_add_self2 [symmetric])
  with 4 show ?case by simp
qed simp_all

lemma base64_eq_Nil [simp]: "base64 bs = [] \<longleftrightarrow> bs = []"
  using length_base64 [of bs] by (cases bs rule: base64.cases) (auto simp flip: length_0_conv)

lemma pad_notin_sextets: "CHR ''='' \<notin> set (sextets k n)"
  using set_sextets pad_notin_alphabet by blast

lemma base64_group_inj:
  "sextets 4 (unbe [a, b, c]) = sextets 4 (unbe [x, y, z]) \<Longrightarrow> [a, b, c] = [x, y, z]"
  "sextets 3 (unbe [a, b] * 4) = sextets 3 (unbe [x, y] * 4) \<Longrightarrow> [a, b] = [x, y]"
  "sextets 2 (unbe [a] * 16) = sextets 2 (unbe [x] * 16) \<Longrightarrow> [a] = [x]"
  using unbe_less [of "[a, b, c]"] unbe_less [of "[x, y, z]"] unbe_less [of "[a, b]"]
    unbe_less [of "[x, y]"] unbe_less [of "[a]"] unbe_less [of "[x]"]
  by (auto dest!: sextets_inj intro!: unbe_inj [of "[a, b, c]" "[x, y, z]", simplified]
      unbe_inj [of "[a, b]" "[x, y]", simplified] unbe_inj [of "[a]" "[x]", simplified])

lemma base64_pads: "count_list (base64 bs) (CHR ''='') = 2 * length bs mod 3"
proof (induction bs rule: base64.induct)
  case (4 a b c bs)
  have "2 * length (a # b # c # bs) mod 3 = 2 * length bs mod 3"
    by (simp del: mult_Suc_right, presburger)
  then show ?case using 4 pad_notin_sextets by (simp add: count_notin)
qed (simp_all add: count_notin pad_notin_sextets)

lemma groups_and_pads: "3 * ((n + 2) div 3) = n + 2 * n mod (3 :: nat)"
proof -
  have "n = 3 * (n div 3) + n mod 3" by simp
  then obtain q r where nq: "n = 3 * q + r" and r: "r < 3"
    by (metis mod_less_divisor zero_less_numeral)
  from r consider "r = 0" | "r = 1" | "r = 2" by linarith
  then show ?thesis using nq by cases (simp_all, presburger+)
qed

lemma base64_inj:
  assumes "base64 as = base64 bs"
  shows "as = bs"
proof -
  have "(length as + 2) div 3 = (length bs + 2) div 3"
    using assms length_base64 [of as] length_base64 [of bs] by simp
  moreover have "2 * length as mod 3 = 2 * length bs mod 3"
    using assms base64_pads [of as] base64_pads [of bs] by simp
  ultimately have "length as = length bs"
    using groups_and_pads [of "length as"] groups_and_pads [of "length bs"] by linarith
  then show ?thesis using assms
  proof (induction as arbitrary: bs rule: base64.induct)
    case (4 a b c as)
    have "length bs = Suc (Suc (Suc (length as)))" using 4(2) by simp
    then obtain x y z r where bs: "bs = x # y # z # r" by (auto simp: length_Suc_conv)
    with 4 have "[a, b, c] = [x, y, z]" by (intro base64_group_inj(1)) simp
    with 4 bs show ?case by simp
  next
    case (2 a)
    then obtain x where "bs = [x]" by (cases bs) auto
    with 2 base64_group_inj(3) [of a x] show ?case by simp
  next
    case (3 a b)
    then obtain x y where "bs = [x, y]" by (cases bs rule: base64.cases) auto
    with 3 base64_group_inj(2) [of a b x y] show ?case by simp
  qed simp
qed

section \<open>Hexadecimal\<close>

text \<open>\<open>hex.EncodeToString\<close>, and \<open>%x\<close> on bytes: two lower-case digits per byte.\<close>

definition hexdigit :: "nat \<Rightarrow> char" where
  "hexdigit n = ''0123456789abcdef'' ! (n mod 16)"

definition hex :: "bytes \<Rightarrow> string" where
  "hex b = concat (map (\<lambda>c. [hexdigit (of_char c div 16), hexdigit (of_char c mod 16)]) b)"

lemma length_hex [simp]: "length (hex b) = 2 * length b"
  by (induction b) (simp_all add: hex_def)

lemma hexdigit_inj: "m < 16 \<Longrightarrow> n < 16 \<Longrightarrow> hexdigit m = hexdigit n \<Longrightarrow> m = n"
  by (simp add: hexdigit_def nth_eq_iff_index_eq)

lemma hex_inj: "hex a = hex b \<longleftrightarrow> a = b"
proof
  assume "hex a = hex b"
  then show "a = b"
  proof (induction a arbitrary: b)
    case (Cons x a)
    then obtain y b' where b: "b = y # b'" by (cases b) (simp_all add: hex_def)
    have lt: "(of_char x :: nat) div 16 < 16" "(of_char y :: nat) div 16 < 16"
      using nat_of_char_less_256 [of x] nat_of_char_less_256 [of y] by (simp_all add: less_mult_imp_div_less)
    from Cons.prems b have "hexdigit (of_char x div 16) = hexdigit (of_char y div 16)"
      "hexdigit (of_char x mod 16) = hexdigit (of_char y mod 16)" "hex a = hex b'" by (simp_all add: hex_def)
    with hexdigit_inj [OF lt] hexdigit_inj [of "of_char x mod 16" "of_char y mod 16"]
    have "(of_char x :: nat) div 16 = of_char y div 16" "(of_char x :: nat) mod 16 = of_char y mod 16" by simp_all
    then have "(of_char x :: nat) = of_char y" by (metis div_mult_mod_eq)
    with Cons.IH [OF \<open>hex a = hex b'\<close>] b show ?case by simp
  qed (cases b, simp_all add: hex_def)
qed simp

end
