(* ===== verification/Hash_Chain.thy ===== *)
theory Hash_Chain
  imports Karst_Prelude
begin

text \<open>Hash chains over an abstract record type: the interface both append-only logs of the control
  plane rely on (\<^verbatim>\<open>audit/audit.go\<close> and \<^verbatim>\<open>bedrock/log.go\<close>). A log supplies the injective byte
  string \<^verbatim>\<open>link prev e\<close> that is hashed for record \<^verbatim>\<open>e\<close> after head \<^verbatim>\<open>prev\<close>; the locale shows that
  the head commits to every record of the chain, or else exhibits two of the chain's own hash
  inputs that collide. The hash function is an argument of every statement.\<close>

definition chain_head :: "(bytes \<Rightarrow> 'e \<Rightarrow> bytes) \<Rightarrow> (bytes \<Rightarrow> bytes) \<Rightarrow> bytes \<Rightarrow> 'e list \<Rightarrow> bytes" where
  "chain_head link H p es = foldl (\<lambda>p e. H (link p e)) p es"

definition link_at :: "(bytes \<Rightarrow> 'e \<Rightarrow> bytes) \<Rightarrow> (bytes \<Rightarrow> bytes) \<Rightarrow> bytes \<Rightarrow> 'e list \<Rightarrow> nat \<Rightarrow> bytes" where
  "link_at link H p es i = link (chain_head link H p (take i es)) (es ! i)"

definition chains_collide ::
    "(bytes \<Rightarrow> 'e \<Rightarrow> bytes) \<Rightarrow> (bytes \<Rightarrow> bytes) \<Rightarrow> bytes \<Rightarrow> 'e list \<Rightarrow> 'e list \<Rightarrow> bool" where
  "chains_collide link H p es es' \<longleftrightarrow> (\<exists>i<length es. \<exists>j<length es'.
     link_at link H p es i \<noteq> link_at link H p es' j
     \<and> H (link_at link H p es i) = H (link_at link H p es' j))"

lemma chain_head_simps [simp]:
  "chain_head link H p [] = p"
  "chain_head link H p (e # es) = chain_head link H (H (link p e)) es"
  "chain_head link H p (es @ es') = chain_head link H (chain_head link H p es) es'"
  by (simp_all add: chain_head_def)

lemma link_at_append [simp]: "i < length es \<Longrightarrow> link_at link H p (es @ es') i = link_at link H p es i"
  by (simp add: link_at_def nth_append)

lemma link_at_length [simp]: "link_at link H p (es @ e # es') (length es) = link (chain_head link H p es) e"
  by (simp add: link_at_def)

lemma chain_head_H: "es \<noteq> [] \<Longrightarrow> \<exists>x. chain_head link H p es = H x"
  by (cases es rule: rev_cases) auto

lemma chains_collide_append:
  "chains_collide link H p es es' \<Longrightarrow> chains_collide link H p (es @ ds) (es' @ ds')"
  unfolding chains_collide_def
  by (metis length_append link_at_append trans_less_add1)

lemma chains_collide_last:
  assumes "H (link (chain_head link H p es) e) = H (link (chain_head link H p es') e')"
    and "link (chain_head link H p es) e \<noteq> link (chain_head link H p es') e'"
  shows "chains_collide link H p (es @ [e]) (es' @ [e'])"
  unfolding chains_collide_def
  by (rule exI [of _ "length es"], rule conjI, simp, rule exI [of _ "length es'"]) (use assms in simp)

locale chain_link =
  fixes link :: "bytes \<Rightarrow> 'e \<Rightarrow> bytes" and core :: "'e \<Rightarrow> 'c" and ok :: "'e \<Rightarrow> bool"
  assumes link_inj: "fits32 p \<Longrightarrow> fits32 p' \<Longrightarrow> ok e \<Longrightarrow> ok e' \<Longrightarrow> link p e = link p' e' \<Longrightarrow> p = p' \<and> core e = core e'"
    and link_core: "core e = core e' \<Longrightarrow> link p e = link p e'"
begin

lemma head_fits32: "(\<And>x. fits32 (H x)) \<Longrightarrow> fits32 p \<Longrightarrow> fits32 (chain_head link H p es)"
  by (cases es rule: rev_cases) auto

lemma head_core: "map core es = map core es' \<Longrightarrow> chain_head link H p es = chain_head link H p es'"
proof (induction es arbitrary: es' p)
  case (Cons e es)
  then obtain d ds where es': "es' = d # ds" "core e = core d" "map core es = map core ds" by auto
  show ?case using Cons.IH [OF es'(3)] link_core [OF es'(2)] by (simp add: es'(1))
qed simp

lemma head_commits:
  assumes H: "\<And>x. fits32 (H x)" "\<And>x. H x \<noteq> p" and p: "fits32 p"
    and "list_all ok es" and "list_all ok es'"
    and "chain_head link H p es = chain_head link H p es'"
  shows "map core es = map core es' \<or> chains_collide link H p es es'"
  using assms(4-6)
proof (induction es arbitrary: es' rule: rev_induct)
  case Nil
  then have "p = chain_head link H p es'" by simp
  then have "es' = []" using chain_head_H [of es' link H p] H(2) by metis
  then show ?case by simp
next
  case (snoc e es)
  from snoc.prems(3) have hd: "H (link (chain_head link H p es) e) = chain_head link H p es'" by simp
  have "es' \<noteq> []" using hd H(2) by auto
  then obtain ds d where es': "es' = ds @ [d]" by (cases es' rule: rev_cases) auto
  show ?case
  proof (cases "link (chain_head link H p es) e = link (chain_head link H p ds) d")
    case True
    then have "chain_head link H p es = chain_head link H p ds" and "core e = core d"
      using link_inj [of "chain_head link H p es" "chain_head link H p ds" e d]
        head_fits32 [OF H(1) p] snoc.prems es' by auto
    with snoc.IH [of ds] snoc.prems es' show ?thesis
      using chains_collide_append [of link H p es ds "[e]" "[d]"] by auto
  next
    case False
    with hd es' show ?thesis using chains_collide_last [of H link p es e ds d] by simp
  qed
qed

text \<open>Two chains whose heads agree after \<^verbatim>\<open>n\<close> records agree on those records, whatever follows.\<close>

lemma prefix_commits:
  assumes "\<And>x. fits32 (H x)" "\<And>x. H x \<noteq> p" "fits32 p" "list_all ok es" "list_all ok es'"
    and "n \<le> length es" and "m \<le> length es'"
    and "chain_head link H p (take n es) = chain_head link H p (take m es')"
  shows "map core (take n es) = map core (take m es') \<or> chains_collide link H p es es'"
proof -
  have "list_all ok (take n es)" "list_all ok (take m es')"
    using assms(4,5) by (auto simp: list_all_iff dest: in_set_takeD)
  from head_commits [OF assms(1-3) this assms(8)] show ?thesis
    using chains_collide_append [of link H p "take n es" "take m es'" "drop n es" "drop m es'"] by auto
qed

end

end
