(* ===== verification/Bedrock_Log.thy ===== *)
theory Bedrock_Log
  imports Hash_Chain
begin

text \<open>
  The Bedrock log's data and its encodings, \<open>bedrock/log.go\<close> and the constants of
  \<open>bedrock/sign.go\<close>: the entry and the signature, the bounds-checked cursor, the
  entry and log codec, and the body of each operation with its builder and its parser.

  The cursor is state threaded through many calls, so its reads are actions of the state
  monad. An error is sticky, as in the code: once it is set every read returns zero values
  and moves nothing. The lemmas give both directions of every codec: a reader applied to
  an encoding returns the value, and whatever a parser accepts is byte for byte the encoding
  of the value it returns.
\<close>

section \<open>Operations, tiers and sizes\<close>

definition OpGenesis :: string where "OpGenesis = ''genesis''"

definition OpAuthorityList :: string where "OpAuthorityList = ''authority-list''"

definition OpNodeSign :: string where "OpNodeSign = ''node-sign''"

definition OpNodeRevoke :: string where "OpNodeRevoke = ''node-revoke''"

definition OpQuorumChange :: string where "OpQuorumChange = ''quorum-change''"

definition OpAnchor :: string where "OpAnchor = ''anchor''"

definition OpDisable :: string where "OpDisable = ''disable''"

lemmas op_defs = OpGenesis_def OpAuthorityList_def OpNodeSign_def OpNodeRevoke_def
  OpQuorumChange_def OpAnchor_def OpDisable_def

datatype Tier = TierRoot | TierAuthority

definition TierOf :: "string \<Rightarrow> Tier \<times> bool" where
  "TierOf op =
     (if op = OpGenesis \<or> op = OpAuthorityList \<or> op = OpDisable then (TierRoot, True)
      else if op = OpNodeSign \<or> op = OpNodeRevoke \<or> op = OpQuorumChange \<or> op = OpAnchor
      then (TierAuthority, True)
      else (TierRoot, False))"

definition ChainLabel :: bytes where "ChainLabel = ''karst-bedrock-v1''"

definition RootPublicKeySize :: nat where "RootPublicKeySize = 2592"

definition RootSignatureSize :: nat where "RootSignatureSize = 4627"

definition AuthorityPublicKeySize :: nat where "AuthorityPublicKeySize = 2592"

definition AuthoritySignatureSize :: nat where "AuthoritySignatureSize = 4627"

definition NodeIdentityKeySize :: nat where "NodeIdentityKeySize = 2592"

definition AnchorPublicKeySize :: nat where "AnchorPublicKeySize = 2592"

definition AnchorSignatureSize :: nat where "AnchorSignatureSize = 4627"

definition KemPublicKeySize :: nat where "KemPublicKeySize = 1568"

definition maxSigners :: uint32 where "maxSigners = 64"

definition maxLogEntries :: uint32 where "maxLogEntries = 1048576"

lemmas size_defs = RootPublicKeySize_def RootSignatureSize_def AuthorityPublicKeySize_def
  AuthoritySignatureSize_def NodeIdentityKeySize_def AnchorPublicKeySize_def
  AnchorSignatureSize_def KemPublicKeySize_def

lemma unat_maxSigners [simp]: "unat maxSigners = 64"
  by (simp add: maxSigners_def)

lemma unat_maxLogEntries [simp]: "unat maxLogEntries = 1048576"
  by (simp add: maxLogEntries_def)

section \<open>Entries\<close>

record Signature =
  SignerIndex :: uint32
  Sig :: bytes

text \<open>\<open>Hash\<close> is not on the wire: a decoded entry has none, and verification fills it in.\<close>

record Entry =
  Seq :: uint64
  Time :: int64
  Op :: string
  Body :: bytes
  Sigs :: "Signature list"
  Hash :: bytes

text \<open>The error \<open>ErrMalformed\<close> with the reason its message gives.\<close>

datatype malformed =
    Truncated
  | SeqTimeWidth
  | TooManySignatures uint32
  | TrailingAfterEntry
  | TooManyEntries uint32
  | InEntry nat malformed
  | TrailingAfterLog
  | BadGenesisBody
  | BadAuthorityListBody
  | BadNodeSignBody
  | IdentityKeyWidth nat
  | KemKeyWidth nat
  | EmptySignHandle
  | BadNodeRevokeBody
  | EmptyRevokeHandle
  | BadQuorumChangeBody
  | BadAnchorBody
  | BadDisableBody

section \<open>Length-prefixed fields\<close>

definition appendLP :: "bytes \<Rightarrow> bytes \<Rightarrow> bytes" where
  "appendLP dst field = dst @ putUint32 (word_of_nat (length field)) @ field"

definition appendBE32 :: "bytes \<Rightarrow> uint32 \<Rightarrow> bytes" where
  "appendBE32 dst v = dst @ putUint32 v"

definition appendBE64 :: "bytes \<Rightarrow> uint64 \<Rightarrow> bytes" where
  "appendBE64 dst v = dst @ putUint64 v"

definition be64 :: "uint64 \<Rightarrow> bytes" where
  "be64 v = putUint64 v"

text \<open>Writing a field to the running hash appends it to the hashed input.\<close>

definition writeLP :: "bytes \<Rightarrow> bytes \<Rightarrow> bytes" where
  "writeLP h field = h @ putUint32 (word_of_nat (length field)) @ field"

lemma append_fields [codec_simps]:
  "appendLP dst f = dst @ lpfield f"
  "writeLP dst f = dst @ lpfield f"
  "appendBE32 dst v = dst @ putUint32 v"
  "appendBE64 dst w = dst @ putUint64 w"
  "be64 w = putUint64 w"
  by (simp_all add: appendLP_def writeLP_def appendBE32_def appendBE64_def be64_def lpfield_def)

lemma foldl_appendLP [codec_simps]:
  "foldl appendLP dst fs = dst @ concat (map lpfield fs)"
  using foldl_append [of lpfield dst fs] by (simp add: codec_simps [abs_def])

section \<open>The cursor\<close>

record cursor =
  cur_b :: bytes
  cur_pos :: nat
  cur_err :: bool

definition new_cursor :: "bytes \<Rightarrow> cursor" where
  "new_cursor b = \<lparr>cur_b = b, cur_pos = 0, cur_err = False\<rparr>"

definition cursor_fail :: "cursor \<Rightarrow> cursor" where
  "cursor_fail c = c\<lparr>cur_err := True\<rparr>"

definition cursor_u32 :: "(cursor, uint32) state" where
  "cursor_u32 = State (\<lambda>c.
     if cur_err c then (0, c)
     else if cur_pos c + 4 > length (cur_b c) then (0, cursor_fail c)
     else (getUint32 (take 4 (drop (cur_pos c) (cur_b c))), c\<lparr>cur_pos := cur_pos c + 4\<rparr>))"

definition cursor_u64 :: "(cursor, uint64) state" where
  "cursor_u64 = State (\<lambda>c.
     if cur_err c then (0, c)
     else if cur_pos c + 8 > length (cur_b c) then (0, cursor_fail c)
     else (getUint64 (take 8 (drop (cur_pos c) (cur_b c))), c\<lparr>cur_pos := cur_pos c + 8\<rparr>))"

definition cursor_lp :: "(cursor, bytes) state" where
  "cursor_lp = do {
     n \<leftarrow> cursor_u32;
     c \<leftarrow> State_Monad.get;
     if cur_err c then State_Monad.return []
     else if cur_pos c + unat n > length (cur_b c)
     then do { State_Monad.set (cursor_fail c); State_Monad.return [] }
     else do {
       State_Monad.set (c\<lparr>cur_pos := cur_pos c + unat n\<rparr>);
       State_Monad.return (take (unat n) (drop (cur_pos c) (cur_b c)))
     }
   }"

definition cursor_done :: "cursor \<Rightarrow> bool" where
  "cursor_done c \<longleftrightarrow> \<not> cur_err c \<and> cur_pos c = length (cur_b c)"

text \<open>\<open>at pre rest\<close> is a cursor without an error that has consumed \<open>pre\<close> and has
  \<open>rest\<close> left. An action is sticky when it does nothing to a cursor already in error, and
  \<open>consumes m R\<close> says that the action \<open>m\<close>, when it ends without an error, has consumed
  bytes that \<open>R\<close> relates to its result. Both compose along the state monad; the rule for
  \<open>bind\<close> passes the bytes still to be consumed to the continuation, so a parser is
  verified by one pass over its reads.\<close>

definition at :: "bytes \<Rightarrow> bytes \<Rightarrow> cursor" where
  "at pre rest = \<lparr>cur_b = pre @ rest, cur_pos = length pre, cur_err = False\<rparr>"

definition sticky :: "(cursor, 'a) state \<Rightarrow> bool" where
  "sticky m \<longleftrightarrow> (\<forall>c. cur_err c \<longrightarrow> snd (run_state m c) = c)"

definition consumes :: "(cursor, 'a) state \<Rightarrow> ('a \<Rightarrow> bytes \<Rightarrow> bool) \<Rightarrow> bool" where
  "consumes m R \<longleftrightarrow>
     (\<forall>pre rest a c. run_state m (at pre rest) = (a, c) \<and> \<not> cur_err c \<longrightarrow>
        (\<exists>x rest'. R a x \<and> rest = x @ rest' \<and> c = at (pre @ x) rest'))"

definition cursor_failwith :: "'a \<Rightarrow> (cursor, 'a) state" where
  "cursor_failwith d = do {
     c \<leftarrow> State_Monad.get;
     State_Monad.set (cursor_fail c);
     State_Monad.return d
   }"

lemma at_simps [simp]:
  "cur_b (at pre rest) = pre @ rest" "cur_pos (at pre rest) = length pre"
  "cur_err (at pre rest) = False"
  by (simp_all add: at_def)

lemma new_cursor_at: "new_cursor b = at [] b"
  by (simp add: new_cursor_def at_def)

lemma at_advance: "(at pre (x @ rest))\<lparr>cur_pos := length pre + length x\<rparr> = at (pre @ x) rest"
  by (simp add: at_def)

lemma cursor_done_at [simp]: "cursor_done (at pre rest) \<longleftrightarrow> rest = []"
  by (simp add: cursor_done_def)

lemma cursor_fail_simps [simp]:
  "cur_err (cursor_fail c)" "cur_err c \<Longrightarrow> cursor_fail c = c" "\<not> cursor_done (cursor_fail c)"
  by (simp_all add: cursor_fail_def cursor_done_def)

named_theorems sticky_intros

lemma sticky_return [sticky_intros]: "sticky (State_Monad.return v)"
  and sticky_get [sticky_intros]: "sticky State_Monad.get"
  by (simp_all add: sticky_def)

lemma sticky_bind [sticky_intros]:
  "sticky m \<Longrightarrow> (\<And>a. sticky (f a)) \<Longrightarrow> sticky (State_Monad.bind m f)"
  by (simp add: sticky_def split_beta)

lemma sticky_if [sticky_intros]:
  "(b \<Longrightarrow> sticky m) \<Longrightarrow> (\<not> b \<Longrightarrow> sticky n) \<Longrightarrow> sticky (if b then m else n)"
  by simp

lemma sticky_unless_err [sticky_intros]:
  "(\<And>c. sticky (f c)) \<Longrightarrow> sticky (State_Monad.bind State_Monad.get f)"
  by (simp add: sticky_def)

lemma sticky_failwith [sticky_intros]: "sticky (cursor_failwith d)"
  by (simp add: sticky_def cursor_failwith_def)

lemma consumesD:
  assumes "consumes m R" and "run_state m (at pre rest) = (a, c)" and "\<not> cur_err c"
  obtains x rest' where "R a x" "rest = x @ rest'" "c = at (pre @ x) rest'"
  using assms unfolding consumes_def by blast

lemma consumes_return: "T v [] \<Longrightarrow> consumes (State_Monad.return v) T"
  by (auto simp: consumes_def)

lemma consumes_failwith: "consumes (cursor_failwith d) T"
  by (auto simp: consumes_def cursor_failwith_def)

lemma consumes_bind:
  assumes m: "consumes m R" and sticky: "\<And>a. sticky (f a)"
    and f: "\<And>a y. R a y \<Longrightarrow> consumes (f a) (\<lambda>b z. T b (y @ z))"
  shows "consumes (State_Monad.bind m f) T"
  unfolding consumes_def
proof clarify
  fix pre rest b c
  assume run: "run_state (State_Monad.bind m f) (at pre rest) = (b, c)" and ok: "\<not> cur_err c"
  obtain a c1 where a: "run_state m (at pre rest) = (a, c1)" by fastforce
  with run have b: "run_state (f a) c1 = (b, c)" by simp
  have "\<not> cur_err c1" using sticky [of a] b ok by (force simp: sticky_def)
  with m a obtain y r1 where y: "R a y" "rest = y @ r1" "c1 = at (pre @ y) r1"
    by (rule consumesD)
  from f [OF y(1)] obtain z r2 where "T b (y @ z)" "r1 = z @ r2" "c = at ((pre @ y) @ z) r2"
    by (rule consumesD) (use b y ok in auto)
  with y show "\<exists>x rest'. T b x \<and> rest = x @ rest' \<and> c = at (pre @ x) rest'"
    by force
qed

lemma consumes_unless_err:
  "(\<And>c. \<not> cur_err c \<Longrightarrow> consumes (f c) T) \<Longrightarrow>
   consumes (State_Monad.bind State_Monad.get (\<lambda>c. if cur_err c then g c else f c)) T"
  unfolding consumes_def by (simp, metis at_simps(3))

lemma consumes_cond:
  "(b \<Longrightarrow> consumes m T) \<Longrightarrow> (\<not> b \<Longrightarrow> consumes n T) \<Longrightarrow> consumes (if b then m else n) T"
  by simp

lemma consumes_mono: "consumes m R \<Longrightarrow> (\<And>a x. R a x \<Longrightarrow> S a x) \<Longrightarrow> consumes m S"
  unfolding consumes_def by blast

text \<open>The contract of one read: on the encoding of an accepted value it returns the value and
  steps past it, and a read without an error has consumed exactly the encoding of an
  accepted value.\<close>

locale reader = self_delimiting enc ok
  for enc :: "'a \<Rightarrow> bytes" and ok :: "'a \<Rightarrow> bool" +
  fixes rd :: "(cursor, 'a) state"
  assumes read_enc: "ok a \<Longrightarrow> run_state rd (at pre (enc a @ rest)) = (a, at (pre @ enc a) rest)"
    and read_sticky: "sticky rd"
    and read_consumes: "consumes rd (\<lambda>a x. ok a \<and> x = enc a)"
begin

lemma read_enc_all: "ok a \<Longrightarrow> run_state rd (at pre (enc a)) = (a, at (pre @ enc a) [])"
  using read_enc [of a pre "[]"] by simp

lemma consumes_read:
  assumes "\<And>a. sticky (f a)" and "\<And>a. ok a \<Longrightarrow> consumes (f a) (\<lambda>b z. T b (enc a @ z))"
  shows "consumes (State_Monad.bind rd f) T"
  by (rule consumes_bind [OF read_consumes]) (use assms in auto)

end

lemma u32_enc: "run_state cursor_u32 (at pre (putUint32 v @ rest)) = (v, at (pre @ putUint32 v) rest)"
  by (simp add: cursor_u32_def at_def)

lemma u64_enc: "run_state cursor_u64 (at pre (putUint64 v @ rest)) = (v, at (pre @ putUint64 v) rest)"
  by (simp add: cursor_u64_def at_def)

lemma lp_enc:
  assumes "fits32 f"
  shows "run_state cursor_lp (at pre (lpfield f @ rest)) = (f, at (pre @ lpfield f) rest)"
  using unat_len32 [OF assms]
  by (simp add: cursor_lp_def lpfield_def u32_enc
      at_advance [of "pre @ putUint32 (word_of_nat (length f))" f rest, simplified])

lemma u32_consumes: "consumes cursor_u32 (\<lambda>a x. True \<and> x = putUint32 a)"
  unfolding consumes_def
proof clarify
  fix pre rest a c
  assume run: "run_state cursor_u32 (at pre rest) = (a, c)" and ok: "\<not> cur_err c"
  then have len: "4 \<le> length rest" and a: "a = getUint32 (take 4 rest)"
    and c: "c = (at pre rest)\<lparr>cur_pos := length pre + 4\<rparr>"
    by (auto simp: cursor_u32_def split: if_splits)
  have "rest = putUint32 a @ drop 4 rest" using len a by (simp add: put_get32)
  moreover have "c = at (pre @ putUint32 a) (drop 4 rest)"
    using c len a by (simp add: at_def put_get32)
  ultimately show "\<exists>x rest'. (True \<and> x = putUint32 a) \<and> rest = x @ rest' \<and> c = at (pre @ x) rest'"
    by blast
qed

lemma u64_consumes: "consumes cursor_u64 (\<lambda>a x. True \<and> x = putUint64 a)"
  unfolding consumes_def
proof clarify
  fix pre rest a c
  assume run: "run_state cursor_u64 (at pre rest) = (a, c)" and ok: "\<not> cur_err c"
  then have len: "8 \<le> length rest" and a: "a = getUint64 (take 8 rest)"
    and c: "c = (at pre rest)\<lparr>cur_pos := length pre + 8\<rparr>"
    by (auto simp: cursor_u64_def split: if_splits)
  have "rest = putUint64 a @ drop 8 rest" using len a by (simp add: put_get64)
  moreover have "c = at (pre @ putUint64 a) (drop 8 rest)"
    using c len a by (simp add: at_def put_get64)
  ultimately show "\<exists>x rest'. (True \<and> x = putUint64 a) \<and> rest = x @ rest' \<and> c = at (pre @ x) rest'"
    by blast
qed

interpretation rd32: reader putUint32 "\<lambda>_. True" cursor_u32
  by unfold_locales (simp_all add: u32_enc u32_consumes [simplified], simp add: cursor_u32_def sticky_def)

interpretation rd64: reader putUint64 "\<lambda>_. True" cursor_u64
  by unfold_locales (simp_all add: u64_enc u64_consumes [simplified], simp add: cursor_u64_def sticky_def)

declare rd32.read_sticky [sticky_intros] rd64.read_sticky [sticky_intros]

lemma lp_consumes: "consumes cursor_lp (\<lambda>a x. fits32 a \<and> x = lpfield a)"
  unfolding consumes_def
proof clarify
  fix pre rest a c
  assume run: "run_state cursor_lp (at pre rest) = (a, c)" and ok: "\<not> cur_err c"
  obtain n c1 where n: "run_state cursor_u32 (at pre rest) = (n, c1)" by fastforce
  with run ok have "\<not> cur_err c1"
    by (auto simp: cursor_lp_def split: if_splits)
  from rd32.read_consumes n this obtain r where r: "rest = putUint32 n @ r" "c1 = at (pre @ putUint32 n) r"
    by (rule consumesD) blast
  with run n ok have len: "unat n \<le> length r" and a: "a = take (unat n) r"
    and c: "c = (at (pre @ putUint32 n) r)\<lparr>cur_pos := length pre + 4 + unat n\<rparr>"
    by (auto simp: cursor_lp_def split: if_splits)
  have fits: "fits32 a" using len a unat_lt32 [of n] by (simp add: fits32_def)
  have "(word_of_nat (length a) :: uint32) = n" using len a by simp
  then have enc: "lpfield a = putUint32 n @ a" by (simp add: lpfield_def)
  have "r = a @ drop (unat n) r" using a by simp
  then have "rest = lpfield a @ drop (unat n) r" using r enc by simp
  moreover have "c = at (pre @ lpfield a) (drop (unat n) r)"
    using c enc len a by (simp add: at_def)
  ultimately show "\<exists>x rest'. (fits32 a \<and> x = lpfield a) \<and> rest = x @ rest' \<and> c = at (pre @ x) rest'"
    using fits by blast
qed

lemma lp_sticky: "sticky cursor_lp"
  using rd32.read_sticky by (auto simp: sticky_def cursor_lp_def split_beta)

interpretation rdlp: reader lpfield fits32 cursor_lp
  by unfold_locales (simp_all add: lp_enc lp_consumes lp_sticky)

declare rdlp.read_sticky [sticky_intros]

lemmas read_simps [reader_simps] = rd32.read_enc [OF TrueI] rd32.read_enc_all [OF TrueI]
  rd64.read_enc [OF TrueI] rd64.read_enc_all [OF TrueI] rdlp.read_enc rdlp.read_enc_all

section \<open>The chain\<close>

text \<open>The bytes fed to SHA-512 for an entry, in the order of the writes, and the hash of
  them. SHA-512 itself is the parameter \<open>H\<close>.\<close>

definition chain_input :: "bytes \<Rightarrow> uint64 \<Rightarrow> int64 \<Rightarrow> string \<Rightarrow> bytes \<Rightarrow> bytes" where
  "chain_input prev seq t op body =
     (let h = ChainLabel;
          h = writeLP h prev;
          h = writeLP h (be64 seq);
          h = writeLP h (be64 t);
          h = writeLP h op
      in writeLP h body)"

definition ChainHash ::
  "(bytes \<Rightarrow> bytes) \<Rightarrow> bytes \<Rightarrow> uint64 \<Rightarrow> int64 \<Rightarrow> string \<Rightarrow> bytes \<Rightarrow> bytes" where
  "ChainHash H prev seq t op body = H (chain_input prev seq t op body)"

definition SigningInput :: "(bytes \<Rightarrow> bytes) \<Rightarrow> Entry \<Rightarrow> bytes \<Rightarrow> bytes" where
  "SigningInput H e prev = ChainHash H prev (Seq e) (Time e) (Op e) (Body e)"

text \<open>What the hash of an entry covers: everything but the signatures. The input is
  injective in the previous head and in the covered fields.\<close>

definition entry_link :: "bytes \<Rightarrow> Entry \<Rightarrow> bytes" where
  "entry_link prev e = chain_input prev (Seq e) (Time e) (Op e) (Body e)"

definition signed_part :: "Entry \<Rightarrow> uint64 \<times> int64 \<times> string \<times> bytes" where
  "signed_part e = (Seq e, Time e, Op e, Body e)"

definition hashable :: "Entry \<Rightarrow> bool" where
  "hashable e \<longleftrightarrow> fits32 (Op e) \<and> fits32 (Body e)"

interpretation bchain: chain_link entry_link signed_part hashable
proof (unfold_locales, goal_cases)
  case (1 p p' e e')
  then show ?case
    by (auto simp: entry_link_def chain_input_def be64_def hashable_def
        signed_part_def codec_simps lp.append_eq_iff lp.enc_eq_iff fits32_small)
next
  case (2 e e' p)
  then show ?case by (simp add: entry_link_def signed_part_def)
qed

section \<open>Entry and log encoding\<close>

definition Encode :: "Entry \<Rightarrow> bytes" where
  "Encode e =
     (let out = appendLP [] (be64 (Seq e));
          out = appendLP out (be64 (Time e));
          out = appendLP out (Op e);
          out = appendLP out (Body e);
          out = appendBE32 out (word_of_nat (length (Sigs e)))
      in foldl (\<lambda>out s. appendLP (appendBE32 out (SignerIndex s)) (Sig s)) out (Sigs e))"

fun readSigs :: "nat \<Rightarrow> (cursor, Signature list option) state" where
  "readSigs 0 = State_Monad.return (Some [])"
| "readSigs (Suc n) = do {
     idx \<leftarrow> cursor_u32;
     sig \<leftarrow> cursor_lp;
     c \<leftarrow> State_Monad.get;
     if cur_err c then State_Monad.return None
     else do {
       rest \<leftarrow> readSigs n;
       State_Monad.return (map_option ((#) \<lparr>SignerIndex = idx, Sig = sig\<rparr>) rest)
     }
   }"

definition decodeEntryBody :: "(cursor, malformed + Entry) state" where
  "decodeEntryBody = do {
     seqRaw \<leftarrow> cursor_lp;
     timeRaw \<leftarrow> cursor_lp;
     op \<leftarrow> cursor_lp;
     body \<leftarrow> cursor_lp;
     c \<leftarrow> State_Monad.get;
     if cur_err c then State_Monad.return (Inl Truncated)
     else if length seqRaw \<noteq> 8 \<or> length timeRaw \<noteq> 8 then State_Monad.return (Inl SeqTimeWidth)
     else do {
       n \<leftarrow> cursor_u32;
       c \<leftarrow> State_Monad.get;
       if cur_err c then State_Monad.return (Inl Truncated)
       else if n > maxSigners then State_Monad.return (Inl (TooManySignatures n))
       else do {
         sigs \<leftarrow> readSigs (unat n);
         State_Monad.return (case sigs of
           None \<Rightarrow> Inl Truncated
         | Some ss \<Rightarrow> Inr \<lparr>Seq = getUint64 seqRaw, Time = getUint64 timeRaw, Op = op, Body = body,
                          Sigs = ss, Hash = []\<rparr>)
       }
     }
   }"

definition decodeEntry :: "bytes \<Rightarrow> malformed + Entry" where
  "decodeEntry b =
     (let (r, c) = run_state decodeEntryBody (new_cursor b)
      in ebind r (\<lambda>e. if \<not> cursor_done c then Inl TrailingAfterEntry else Inr e))"

definition EncodeLog :: "Entry list \<Rightarrow> bytes" where
  "EncodeLog entries =
     foldl (\<lambda>out e. appendLP out (Encode e)) (appendBE32 [] (word_of_nat (length entries))) entries"

fun readEntries :: "nat \<Rightarrow> nat \<Rightarrow> (cursor, malformed + Entry list) state" where
  "readEntries i 0 = State_Monad.return (Inr [])"
| "readEntries i (Suc n) = do {
     raw \<leftarrow> cursor_lp;
     c \<leftarrow> State_Monad.get;
     if cur_err c then State_Monad.return (Inl Truncated)
     else case decodeEntry raw of
       Inl m \<Rightarrow> State_Monad.return (Inl (InEntry i m))
     | Inr e \<Rightarrow> do {
         rest \<leftarrow> readEntries (Suc i) n;
         State_Monad.return (map_sum id ((#) e) rest)
       }
   }"

definition decodeLogBody :: "(cursor, malformed + Entry list) state" where
  "decodeLogBody = do {
     n \<leftarrow> cursor_u32;
     c \<leftarrow> State_Monad.get;
     if cur_err c then State_Monad.return (Inl Truncated)
     else if n > maxLogEntries then State_Monad.return (Inl (TooManyEntries n))
     else readEntries 0 (unat n)
   }"

definition DecodeLog :: "bytes \<Rightarrow> malformed + Entry list" where
  "DecodeLog b =
     (let (r, c) = run_state decodeLogBody (new_cursor b)
      in ebind r (\<lambda>es. if \<not> cursor_done c then Inl TrailingAfterLog else Inr es))"

subsection \<open>The entry codec\<close>

definition encSig :: "Signature \<Rightarrow> bytes" where
  "encSig s = putUint32 (SignerIndex s) @ lpfield (Sig s)"

text \<open>The entries an encoding can carry: every field fits a 32-bit length and there are
  at most \<open>maxSigners\<close> signatures.\<close>

definition encodable :: "Entry \<Rightarrow> bool" where
  "encodable e \<longleftrightarrow> fits32 (Op e) \<and> fits32 (Body e) \<and> list_all (\<lambda>s. fits32 (Sig s)) (Sigs e)
     \<and> length (Sigs e) \<le> 64"

lemma Encode_eq:
  "Encode e = lpfield (putUint64 (Seq e)) @ lpfield (putUint64 (Time e)) @ lpfield (Op e)
     @ lpfield (Body e) @ putUint32 (word_of_nat (length (Sigs e))) @ concat (map encSig (Sigs e))"
  by (simp add: Encode_def Let_def codec_simps foldl_append encSig_def [abs_def])

lemma readSigs_enc:
  assumes "list_all (\<lambda>s. fits32 (Sig s)) ss"
  shows "run_state (readSigs (length ss)) (at pre (concat (map encSig ss) @ rest))
     = (Some ss, at (pre @ concat (map encSig ss)) rest)"
  using assms
proof (induction ss arbitrary: pre)
  case (Cons s ss)
  then show ?case by (simp add: encSig_def reader_simps)
qed simp

lemma readSigs_enc_all:
  "list_all (\<lambda>s. fits32 (Sig s)) ss \<Longrightarrow>
   run_state (readSigs (length ss)) (at pre (concat (map encSig ss)))
     = (Some ss, at (pre @ concat (map encSig ss)) [])"
  using readSigs_enc [of ss pre "[]"] by simp

lemma decodeEntry_Encode:
  assumes "encodable e"
  shows "decodeEntry (Encode e) = Inr (e\<lparr>Hash := []\<rparr>)"
proof -
  from assms have fits: "fits32 (Op e)" "fits32 (Body e)" "list_all (\<lambda>s. fits32 (Sig s)) (Sigs e)"
    and n: "length (Sigs e) \<le> 64"
    by (auto simp: encodable_def)
  then have unat_n: "unat (word_of_nat (length (Sigs e)) :: uint32) = length (Sigs e)"
    by (simp add: unat_of_nat)
  then have "\<not> maxSigners < word_of_nat (length (Sigs e))"
    using n by (simp add: word_less_nat_alt)
  with fits unat_n show ?thesis
    by (simp add: decodeEntry_def decodeEntryBody_def Encode_eq new_cursor_at reader_simps readSigs_enc_all)
qed

lemma sticky_readSigs [sticky_intros]: "sticky (readSigs n)"
  by (induction n) (auto intro!: sticky_intros)

lemma consumes_readSigs:
  "consumes (readSigs n) (\<lambda>a x. \<exists>ss. a = Some ss \<and> x = concat (map encSig ss) \<and> length ss = n
     \<and> list_all (\<lambda>s. fits32 (Sig s)) ss)"
proof (induction n)
  case 0
  show ?case by (simp add: consumes_return)
next
  case (Suc n)
  show ?case
    unfolding readSigs.simps
    by (intro rd32.consumes_read rdlp.consumes_read consumes_unless_err consumes_bind [OF Suc]
        consumes_return sticky_intros) (auto simp: encSig_def)
qed

lemma consumes_decodeEntryBody:
  "consumes decodeEntryBody (\<lambda>a x. \<forall>e. a = Inr e \<longrightarrow> x = Encode e \<and> encodable e \<and> Hash e = [])"
  unfolding decodeEntryBody_def
proof (intro rdlp.consumes_read rd32.consumes_read consumes_unless_err consumes_cond
    consumes_bind [OF consumes_readSigs] consumes_return sticky_intros, goal_cases)
  case (3 seqRaw timeRaw op body c n c' a y)
  then obtain ss where ss: "a = Some ss" "y = concat (map encSig ss)" "length ss = unat n"
    "list_all (\<lambda>s. fits32 (Sig s)) ss" by blast
  moreover have "unat n \<le> 64" using 3 by (simp add: word_less_nat_alt)
  moreover have "putUint64 (getUint64 seqRaw) = seqRaw" "putUint64 (getUint64 timeRaw) = timeRaw"
    using 3 by (simp_all add: put_get64)
  ultimately show ?case using 3 by (auto simp: Encode_eq encodable_def)
qed auto

lemma sticky_decodeEntryBody [sticky_intros]: "sticky decodeEntryBody"
  unfolding decodeEntryBody_def by (intro sticky_intros)

lemma run_to_done:
  assumes "consumes m R" and "run_state m (new_cursor b) = (a, c)" and "cursor_done c"
  shows "R a b"
proof -
  have ok: "\<not> cur_err c" using assms(3) by (simp add: cursor_done_def)
  have "run_state m (at [] b) = (a, c)" using assms(2) by (simp add: new_cursor_at)
  from assms(1) this ok obtain x r where "R a x" "b = x @ r" "c = at ([] @ x) r"
    by (rule consumesD)
  with assms(3) show ?thesis by simp
qed

lemma decodeEntry_canonical:
  assumes "decodeEntry b = Inr e"
  shows "b = Encode e" and "encodable e" and "Hash e = []"
proof -
  obtain c where "run_state decodeEntryBody (new_cursor b) = (Inr e, c)" and "cursor_done c"
    using assms by (auto simp: decodeEntry_def result_simps split_beta split: if_splits)
      (metis prod.collapse)
  then have "b = Encode e \<and> encodable e \<and> Hash e = []"
    using run_to_done [OF consumes_decodeEntryBody] by blast
  then show "b = Encode e" and "encodable e" and "Hash e = []" by auto
qed

lemma Encode_inj:
  assumes "encodable a" and "encodable b" and "Encode a = Encode b"
  shows "a\<lparr>Hash := []\<rparr> = b\<lparr>Hash := []\<rparr>"
  using assms decodeEntry_Encode [of a] decodeEntry_Encode [of b] by simp

lemma encodable_Hash [simp]: "encodable (e\<lparr>Hash := h\<rparr>) = encodable e"
  and Encode_Hash [simp]: "Encode (e\<lparr>Hash := h\<rparr>) = Encode e"
  by (simp_all add: encodable_def Encode_eq)

subsection \<open>The log codec\<close>

lemma EncodeLog_eq:
  "EncodeLog es = putUint32 (word_of_nat (length es)) @ concat (map (\<lambda>e. lpfield (Encode e)) es)"
  by (simp add: EncodeLog_def codec_simps foldl_append)

lemma readEntries_enc:
  assumes "list_all (\<lambda>e. encodable e \<and> fits32 (Encode e)) es"
  shows "run_state (readEntries i (length es)) (at pre (concat (map (\<lambda>e. lpfield (Encode e)) es)))
     = (Inr (map (\<lambda>e. e\<lparr>Hash := []\<rparr>) es), at (pre @ concat (map (\<lambda>e. lpfield (Encode e)) es)) [])"
  using assms
proof (induction es arbitrary: i pre)
  case (Cons e es)
  then show ?case by (simp add: reader_simps decodeEntry_Encode)
qed simp

lemma DecodeLog_EncodeLog:
  assumes "list_all (\<lambda>e. encodable e \<and> fits32 (Encode e)) es" and "length es \<le> 1048576"
  shows "DecodeLog (EncodeLog es) = Inr (map (\<lambda>e. e\<lparr>Hash := []\<rparr>) es)"
proof -
  have n: "unat (word_of_nat (length es) :: uint32) = length es"
    using assms(2) by (simp add: unat_of_nat)
  then have "\<not> maxLogEntries < word_of_nat (length es)"
    using assms(2) by (simp add: word_less_nat_alt)
  with n show ?thesis
    by (simp add: DecodeLog_def decodeLogBody_def EncodeLog_eq new_cursor_at reader_simps
        readEntries_enc [OF assms(1)])
qed

lemma sticky_readEntries [sticky_intros]: "sticky (readEntries i n)"
  by (induction n arbitrary: i) (auto intro!: sticky_intros split: sum.split)

lemma consumes_readEntries:
  "consumes (readEntries i n) (\<lambda>a x. \<forall>es. a = Inr es \<longrightarrow>
     x = concat (map (\<lambda>e. lpfield (Encode e)) es) \<and> length es = n
     \<and> list_all (\<lambda>e. encodable e \<and> Hash e = []) es)"
proof (induction n arbitrary: i)
  case 0
  show ?case by (simp add: consumes_return)
next
  case (Suc n)
  have "consumes (case decodeEntry raw of
       Inl m \<Rightarrow> State_Monad.return (Inl (InEntry i m))
     | Inr e \<Rightarrow> State_Monad.bind (readEntries (Suc i) n) (\<lambda>rest. State_Monad.return (map_sum id ((#) e) rest)))
     (\<lambda>a z. \<forall>es. a = Inr es \<longrightarrow> lpfield raw @ z = concat (map (\<lambda>e. lpfield (Encode e)) es) \<and>
        length es = Suc n \<and> list_all (\<lambda>e. encodable e \<and> Hash e = []) es)" for raw
  proof (cases "decodeEntry raw")
    case (Inr e)
    note dec = decodeEntry_canonical [OF Inr]
    show ?thesis
      unfolding Inr sum.case
    proof (intro consumes_bind [OF Suc [of "Suc i"]] consumes_return sticky_intros)
      fix a y
      assume "\<forall>es. a = Inr es \<longrightarrow> y = concat (map (\<lambda>e. lpfield (Encode e)) es) \<and> length es = n
        \<and> list_all (\<lambda>e. encodable e \<and> Hash e = []) es"
      then show "\<forall>es. map_sum id ((#) e) a = Inr es \<longrightarrow>
          lpfield raw @ y @ [] = concat (map (\<lambda>e. lpfield (Encode e)) es) \<and>
          length es = Suc n \<and> list_all (\<lambda>e. encodable e \<and> Hash e = []) es"
        using dec by (cases a) auto
    qed
  qed (simp add: consumes_return)
  then show ?case
    unfolding readEntries.simps
    by (intro rdlp.consumes_read consumes_unless_err) (auto intro!: sticky_intros split: sum.split)
qed

lemma DecodeLog_canonical:
  assumes "DecodeLog b = Inr es"
  shows "b = EncodeLog es" and "list_all (\<lambda>e. encodable e \<and> Hash e = []) es"
    and "length es \<le> 1048576"
proof -
  obtain c where run: "run_state decodeLogBody (new_cursor b) = (Inr es, c)" "cursor_done c"
    using assms by (auto simp: DecodeLog_def result_simps split_beta split: if_splits)
      (metis prod.collapse)
  have "consumes decodeLogBody (\<lambda>a x. \<forall>es. a = Inr es \<longrightarrow> x = EncodeLog es
      \<and> list_all (\<lambda>e. encodable e \<and> Hash e = []) es \<and> length es \<le> 1048576)"
    unfolding decodeLogBody_def
  proof (intro rd32.consumes_read consumes_unless_err consumes_cond consumes_return sticky_intros, goal_cases)
    case (2 n c)
    have "unat n \<le> 1048576" using 2 by (simp add: word_less_nat_alt)
    then show ?case
      by (intro consumes_mono [OF consumes_readEntries]) (auto simp: EncodeLog_eq)
  qed auto
  from run_to_done [OF this run] show "b = EncodeLog es"
    and "list_all (\<lambda>e. encodable e \<and> Hash e = []) es" and "length es \<le> 1048576"
    by auto
qed

section \<open>Key lists\<close>

fun readKeysLoop :: "nat \<Rightarrow> nat \<Rightarrow> (cursor, bytes list) state" where
  "readKeysLoop 0 sz = State_Monad.return []"
| "readKeysLoop (Suc n) sz = do {
     k \<leftarrow> cursor_lp;
     c \<leftarrow> State_Monad.get;
     if cur_err c then State_Monad.return []
     else if length k \<noteq> sz then cursor_failwith []
     else do {
       ks \<leftarrow> readKeysLoop n sz;
       c \<leftarrow> State_Monad.get;
       if cur_err c then State_Monad.return [] else State_Monad.return (k # ks)
     }
   }"

definition readKeysCounted :: "uint32 \<Rightarrow> nat \<Rightarrow> (cursor, bytes list) state" where
  "readKeysCounted n sz =
     (if n > maxSigners then cursor_failwith [] else readKeysLoop (unat n) sz)"

definition readKeys :: "nat \<Rightarrow> (cursor, bytes list) state" where
  "readKeys sz = do {
     n \<leftarrow> cursor_u32;
     c \<leftarrow> State_Monad.get;
     if cur_err c then State_Monad.return [] else readKeysCounted n sz
   }"

definition appendOptionalAnchorKeys :: "bytes \<Rightarrow> bytes list \<Rightarrow> bytes" where
  "appendOptionalAnchorKeys dst anchorPKs =
     (if length anchorPKs = 0 then dst
      else foldl appendLP (appendBE32 dst (word_of_nat (length anchorPKs))) anchorPKs)"

definition readOptionalAnchorKeys :: "(cursor, bytes list) state" where
  "readOptionalAnchorKeys = do {
     c \<leftarrow> State_Monad.get;
     if cursor_done c then State_Monad.return []
     else do {
       n \<leftarrow> cursor_u32;
       c \<leftarrow> State_Monad.get;
       if cur_err c then State_Monad.return []
       else if n = 0 then cursor_failwith []
       else readKeysCounted n AnchorPublicKeySize
     }
   }"

definition keys_ok :: "nat \<Rightarrow> bytes list \<Rightarrow> bool" where
  "keys_ok sz ks \<longleftrightarrow> list_all (\<lambda>k. length k = sz) ks \<and> length ks \<le> 64"

definition encKeys :: "bytes list \<Rightarrow> bytes" where
  "encKeys ks = putUint32 (word_of_nat (length ks)) @ concat (map lpfield ks)"

lemma appendOptionalAnchorKeys_eq [codec_simps]:
  "appendOptionalAnchorKeys dst ks = dst @ (if ks = [] then [] else encKeys ks)"
  by (simp add: appendOptionalAnchorKeys_def encKeys_def codec_simps)

lemma keys_ok_count:
  assumes "keys_ok sz ks"
  shows "unat (word_of_nat (length ks) :: uint32) = length ks"
    and "\<not> maxSigners < (word_of_nat (length ks) :: uint32)"
    and "(word_of_nat (length ks) :: uint32) = 0 \<longleftrightarrow> ks = []"
proof -
  show n: "unat (word_of_nat (length ks) :: uint32) = length ks"
    using assms by (simp add: keys_ok_def unat_of_nat)
  show "\<not> maxSigners < (word_of_nat (length ks) :: uint32)"
    using assms n by (simp add: keys_ok_def word_less_nat_alt)
  show "(word_of_nat (length ks) :: uint32) = 0 \<longleftrightarrow> ks = []"
    using n by (auto simp flip: unat_eq_0)
qed

lemma readKeysLoop_enc:
  assumes "list_all (\<lambda>k. length k = sz) ks" and "sz < 4294967296"
  shows "run_state (readKeysLoop (length ks) sz) (at pre (concat (map lpfield ks) @ rest))
     = (ks, at (pre @ concat (map lpfield ks)) rest)"
  using assms
proof (induction ks arbitrary: pre)
  case (Cons k ks)
  then have "fits32 k" by (simp add: fits32_def)
  with Cons show ?case by (simp add: reader_simps)
qed simp

lemma readKeysCounted_enc:
  assumes "keys_ok sz ks" and "sz < 4294967296"
  shows "run_state (readKeysCounted (word_of_nat (length ks)) sz) (at pre (concat (map lpfield ks) @ rest))
     = (ks, at (pre @ concat (map lpfield ks)) rest)"
proof -
  have "list_all (\<lambda>k. length k = sz) ks" using assms(1) by (simp add: keys_ok_def)
  from readKeysLoop_enc [OF this assms(2)] show ?thesis
    by (simp add: readKeysCounted_def keys_ok_count [OF assms(1)])
qed

lemma readKeys_enc [reader_simps]:
  assumes "keys_ok sz ks" and "sz < 4294967296"
  shows "run_state (readKeys sz) (at pre (encKeys ks @ rest)) = (ks, at (pre @ encKeys ks) rest)"
  using readKeysCounted_enc [OF assms]
  by (simp add: readKeys_def encKeys_def reader_simps)

lemma readOptionalAnchorKeys_enc [reader_simps]:
  assumes "keys_ok AnchorPublicKeySize ks"
  shows "run_state readOptionalAnchorKeys (at pre (if ks = [] then [] else encKeys ks))
     = (ks, at (pre @ (if ks = [] then [] else encKeys ks)) [])"
proof (cases "ks = []")
  case False
  have "encKeys ks \<noteq> []" by (simp add: encKeys_def flip: length_greater_0_conv)
  then show ?thesis
    using False readKeysCounted_enc [OF assms, of _ "[]"] keys_ok_count(3) [OF assms]
    by (simp add: readOptionalAnchorKeys_def encKeys_def reader_simps size_defs)
qed (simp add: readOptionalAnchorKeys_def)

lemma sticky_readKeysLoop [sticky_intros]: "sticky (readKeysLoop n sz)"
  by (induction n) (auto intro!: sticky_intros)

lemma sticky_readKeys [sticky_intros]:
  "sticky (readKeysCounted n sz)" "sticky (readKeys sz)" "sticky readOptionalAnchorKeys"
  by (auto simp: readKeysCounted_def readKeys_def readOptionalAnchorKeys_def intro!: sticky_intros)

lemma consumes_get:
  "(\<And>c. \<not> cur_err c \<Longrightarrow> consumes (f c) T) \<Longrightarrow> consumes (State_Monad.bind State_Monad.get f) T"
  unfolding consumes_def by (simp, metis at_simps(3))

lemma consumes_readKeysLoop:
  "consumes (readKeysLoop n sz) (\<lambda>ks x. x = concat (map lpfield ks) \<and> length ks = n
     \<and> list_all (\<lambda>k. length k = sz) ks)"
proof (induction n)
  case 0
  show ?case by (simp add: consumes_return)
next
  case (Suc n)
  show ?case
    unfolding readKeysLoop.simps
    by (intro rdlp.consumes_read consumes_unless_err consumes_cond consumes_bind [OF Suc]
        consumes_return consumes_failwith sticky_intros) auto
qed

lemma consumes_readKeysCounted:
  "consumes (readKeysCounted n sz) (\<lambda>ks x. x = concat (map lpfield ks) \<and> length ks = unat n \<and> keys_ok sz ks)"
  unfolding readKeysCounted_def
  by (intro consumes_cond consumes_failwith consumes_mono [OF consumes_readKeysLoop])
    (auto simp: keys_ok_def word_less_nat_alt)

lemma consumes_readKeys:
  "consumes (readKeys sz) (\<lambda>ks x. x = encKeys ks \<and> keys_ok sz ks)"
  unfolding readKeys_def
  by (intro rd32.consumes_read consumes_unless_err consumes_mono [OF consumes_readKeysCounted] sticky_intros)
    (auto simp: encKeys_def)

lemma consumes_readOptionalAnchorKeys:
  "consumes readOptionalAnchorKeys
     (\<lambda>ks x. x = (if ks = [] then [] else encKeys ks) \<and> keys_ok AnchorPublicKeySize ks)"
  unfolding readOptionalAnchorKeys_def
  by (intro consumes_get consumes_cond rd32.consumes_read consumes_unless_err consumes_failwith
      consumes_return consumes_mono [OF consumes_readKeysCounted] sticky_intros)
    (auto simp: encKeys_def keys_ok_def unat_eq_0)

end
