(* ===== verification/Bedrock_Bodies.thy ===== *)
theory Bedrock_Bodies
  imports Bedrock_Log
begin

text \<open>The operation bodies of \<^verbatim>\<open>bedrock/log.go\<close> (lines 347 to 649): a record, a builder and a
  parser per operation. Every body is an interpretation of one locale, \<^verbatim>\<open>body_codec\<close>: a parser
  accepts exactly the bytes the builder produces on accepted values, so that a body has one
  byte representation and one reading.\<close>

section \<open>The codec contract\<close>

locale body_codec =
  fixes build :: "'a \<Rightarrow> bytes" and parse :: "bytes \<Rightarrow> malformed + 'a" and ok :: "'a \<Rightarrow> bool"
  assumes parse_build: "ok a \<Longrightarrow> parse (build a) = Inr a"
    and parse_sound: "parse b = Inr a \<Longrightarrow> b = build a \<and> ok a"
begin

lemma build_inj: "ok a \<Longrightarrow> ok b \<Longrightarrow> build a = build b \<longleftrightarrow> a = b"
  by (metis parse_build sum.inject(2))

lemma parse_iff: "parse b = Inr a \<longleftrightarrow> ok a \<and> b = build a"
  using parse_build parse_sound by blast

lemma parse_inj: "parse b = Inr a \<Longrightarrow> parse b' = Inr a \<Longrightarrow> b = b'"
  using parse_sound by blast

lemma rejects_iff: "(\<exists>err. parse b = Inl err) \<longleftrightarrow> (\<forall>a. ok a \<longrightarrow> b \<noteq> build a)"
proof (cases "parse b")
  case (Inl err)
  then show ?thesis using parse_build by force
next
  case (Inr a)
  then show ?thesis using parse_sound by force
qed

end

text \<open>Each parser runs its reads on a fresh cursor and rejects unless the cursor is done.\<close>

definition parse_all :: "(cursor, 'a) state \<Rightarrow> malformed \<Rightarrow> bytes \<Rightarrow> malformed + 'a" where
  "parse_all m err b = (let (a, c) = run_state m (new_cursor b) in if \<not> cursor_done c then Inl err else Inr a)"

lemma parse_all_Inr:
  assumes "parse_all m err b = Inr a" and "consumes m R"
  shows "R a b"
proof -
  obtain a' c where run: "run_state m (new_cursor b) = (a', c)" by fastforce
  with assms(1) have "a' = a" "cursor_done c" by (auto simp: parse_all_def split: if_splits)
  with run_to_done [OF assms(2) run] show ?thesis by simp
qed

lemma parse_all_at: "run_state m (at [] b) = (a, at b []) \<Longrightarrow> parse_all m err b = Inr a"
  by (simp add: parse_all_def new_cursor_at)

lemma codec_parse_all:
  assumes "\<And>a. ok a \<Longrightarrow> run_state m (at [] (build a)) = (a, at (build a) [])"
    and "consumes m (\<lambda>a x. x = build a \<and> ok a)"
  shows "body_codec build (parse_all m err) ok"
  using assms by unfold_locales (blast intro: parse_all_at, blast dest: parse_all_Inr)

section \<open>Genesis and authority lists\<close>

record Genesis =
  g_Zone :: string
  g_Roots :: "bytes list"
  g_K :: uint32
  g_Authorities :: "bytes list"
  g_Q :: uint32
  g_AnchorKeys :: "bytes list"

definition GenesisBody ::
  "string \<Rightarrow> bytes list \<Rightarrow> uint32 \<Rightarrow> bytes list \<Rightarrow> uint32 \<Rightarrow> bytes list \<Rightarrow> bytes" where
  "GenesisBody zone rootPKs k authorityPKs q anchorPKs =
     (let out = appendLP [] zone;
          out = appendBE32 out (word_of_nat (length rootPKs));
          out = foldl appendLP out rootPKs;
          out = appendBE32 out k;
          out = appendBE32 out (word_of_nat (length authorityPKs));
          out = foldl appendLP out authorityPKs;
          out = appendBE32 out q
      in appendOptionalAnchorKeys out anchorPKs)"

definition ParseGenesis :: "bytes \<Rightarrow> malformed + Genesis" where
  "ParseGenesis = parse_all (do {
     zone \<leftarrow> cursor_lp;
     roots \<leftarrow> readKeys RootPublicKeySize;
     k \<leftarrow> cursor_u32;
     authorities \<leftarrow> readKeys AuthorityPublicKeySize;
     q \<leftarrow> cursor_u32;
     anchorKeys \<leftarrow> readOptionalAnchorKeys;
     State_Monad.return \<lparr>g_Zone = zone, g_Roots = roots, g_K = k, g_Authorities = authorities,
       g_Q = q, g_AnchorKeys = anchorKeys\<rparr>
   }) BadGenesisBody"

definition genesis_body :: "Genesis \<Rightarrow> bytes" where
  "genesis_body g = GenesisBody (g_Zone g) (g_Roots g) (g_K g) (g_Authorities g) (g_Q g) (g_AnchorKeys g)"

definition genesis_ok :: "Genesis \<Rightarrow> bool" where
  "genesis_ok g \<longleftrightarrow> fits32 (g_Zone g) \<and> keys_ok RootPublicKeySize (g_Roots g)
     \<and> keys_ok AuthorityPublicKeySize (g_Authorities g) \<and> keys_ok AnchorPublicKeySize (g_AnchorKeys g)"

lemma genesis_body_eq:
  "genesis_body g = lpfield (g_Zone g) @ encKeys (g_Roots g) @ putUint32 (g_K g)
     @ encKeys (g_Authorities g) @ putUint32 (g_Q g)
     @ (if g_AnchorKeys g = [] then [] else encKeys (g_AnchorKeys g))"
  by (simp add: genesis_body_def GenesisBody_def encKeys_def codec_simps)

lemma size_lt32 [simp]:
  "RootPublicKeySize < 4294967296" "AuthorityPublicKeySize < 4294967296" "AnchorPublicKeySize < 4294967296"
  by (simp_all add: size_defs)

interpretation genesis: body_codec genesis_body ParseGenesis genesis_ok
  unfolding ParseGenesis_def
proof (rule codec_parse_all, goal_cases)
  case (1 g)
  then show ?case by (simp add: genesis_ok_def genesis_body_eq reader_simps)
next
  case 2
  show ?case
    by (intro rdlp.consumes_read rd32.consumes_read consumes_bind [OF consumes_readKeys]
        consumes_bind [OF consumes_readOptionalAnchorKeys] consumes_return sticky_intros)
      (simp add: genesis_ok_def genesis_body_eq)
qed

record AuthorityList =
  al_Authorities :: "bytes list"
  al_Q :: uint32
  al_AnchorKeys :: "bytes list"

definition AuthorityListBody :: "bytes list \<Rightarrow> uint32 \<Rightarrow> bytes list \<Rightarrow> bytes" where
  "AuthorityListBody authorityPKs q anchorPKs =
     (let out = appendBE32 [] (word_of_nat (length authorityPKs));
          out = foldl appendLP out authorityPKs;
          out = appendBE32 out q
      in appendOptionalAnchorKeys out anchorPKs)"

definition ParseAuthorityList :: "bytes \<Rightarrow> malformed + AuthorityList" where
  "ParseAuthorityList = parse_all (do {
     authorities \<leftarrow> readKeys AuthorityPublicKeySize;
     q \<leftarrow> cursor_u32;
     anchorKeys \<leftarrow> readOptionalAnchorKeys;
     State_Monad.return \<lparr>al_Authorities = authorities, al_Q = q, al_AnchorKeys = anchorKeys\<rparr>
   }) BadAuthorityListBody"

definition authority_list_body :: "AuthorityList \<Rightarrow> bytes" where
  "authority_list_body a = AuthorityListBody (al_Authorities a) (al_Q a) (al_AnchorKeys a)"

definition authority_list_ok :: "AuthorityList \<Rightarrow> bool" where
  "authority_list_ok a \<longleftrightarrow> keys_ok AuthorityPublicKeySize (al_Authorities a)
     \<and> keys_ok AnchorPublicKeySize (al_AnchorKeys a)"

lemma authority_list_body_eq:
  "authority_list_body a = encKeys (al_Authorities a) @ putUint32 (al_Q a)
     @ (if al_AnchorKeys a = [] then [] else encKeys (al_AnchorKeys a))"
  by (simp add: authority_list_body_def AuthorityListBody_def encKeys_def codec_simps)

interpretation authlist: body_codec authority_list_body ParseAuthorityList authority_list_ok
  unfolding ParseAuthorityList_def
proof (rule codec_parse_all, goal_cases)
  case (1 a)
  then show ?case by (simp add: authority_list_ok_def authority_list_body_eq reader_simps)
next
  case 2
  show ?case
    by (intro rd32.consumes_read consumes_bind [OF consumes_readKeys]
        consumes_bind [OF consumes_readOptionalAnchorKeys] consumes_return sticky_intros)
      (simp add: authority_list_ok_def authority_list_body_eq)
qed

section \<open>Node signatures and revocations\<close>

record NodeSign =
  ns_Handle :: string
  ns_IdentityKey :: bytes
  ns_KemPublicKey :: bytes
  ns_NotBefore :: int64
  ns_Expiry :: int64

definition NodeSignBody :: "string \<Rightarrow> bytes \<Rightarrow> bytes \<Rightarrow> int64 \<Rightarrow> int64 \<Rightarrow> bytes" where
  "NodeSignBody handle identityKey kemKey notBefore expiry =
     (let out = appendLP [] handle;
          out = appendLP out identityKey;
          out = appendLP out kemKey;
          out = appendBE64 out notBefore
      in appendBE64 out expiry)"

definition ParseNodeSign :: "bytes \<Rightarrow> malformed + NodeSign" where
  "ParseNodeSign b = ebind (parse_all (do {
     handle \<leftarrow> cursor_lp;
     identity \<leftarrow> cursor_lp;
     kem \<leftarrow> cursor_lp;
     notBefore \<leftarrow> cursor_u64;
     expiry \<leftarrow> cursor_u64;
     State_Monad.return \<lparr>ns_Handle = handle, ns_IdentityKey = identity, ns_KemPublicKey = kem,
       ns_NotBefore = notBefore, ns_Expiry = expiry\<rparr>
   }) BadNodeSignBody b) (\<lambda>n.
     if length (ns_IdentityKey n) \<noteq> NodeIdentityKeySize then Inl (IdentityKeyWidth (length (ns_IdentityKey n)))
     else if length (ns_KemPublicKey n) \<noteq> KemPublicKeySize then Inl (KemKeyWidth (length (ns_KemPublicKey n)))
     else if ns_Handle n = [] then Inl EmptySignHandle
     else Inr n)"

definition node_sign_body :: "NodeSign \<Rightarrow> bytes" where
  "node_sign_body n = NodeSignBody (ns_Handle n) (ns_IdentityKey n) (ns_KemPublicKey n)
     (ns_NotBefore n) (ns_Expiry n)"

definition node_sign_ok :: "NodeSign \<Rightarrow> bool" where
  "node_sign_ok n \<longleftrightarrow> fits32 (ns_Handle n) \<and> ns_Handle n \<noteq> []
     \<and> length (ns_IdentityKey n) = NodeIdentityKeySize \<and> length (ns_KemPublicKey n) = KemPublicKeySize"

lemma node_sign_body_eq:
  "node_sign_body n = lpfield (ns_Handle n) @ lpfield (ns_IdentityKey n) @ lpfield (ns_KemPublicKey n)
     @ putUint64 (ns_NotBefore n) @ putUint64 (ns_Expiry n)"
  by (simp add: node_sign_body_def NodeSignBody_def codec_simps)

lemma codec_ebind:
  assumes "body_codec build parse ok"
    and "\<And>a. ok' a \<longleftrightarrow> ok a \<and> check a = Inr a" and "\<And>a b. check a = Inr b \<Longrightarrow> a = b"
  shows "body_codec build (\<lambda>b. ebind (parse b) check) ok'"
proof
  fix a assume "ok' a"
  then show "ebind (parse (build a)) check = Inr a"
    using assms(2) body_codec.parse_build [OF assms(1)] by simp
next
  fix b a assume "ebind (parse b) check = Inr a"
  then obtain a' where "parse b = Inr a'" "check a' = Inr a" by (auto simp: ebind_eq_Inr)
  then show "b = build a \<and> ok' a"
    using assms(2,3) body_codec.parse_sound [OF assms(1)] by blast
qed

interpretation nodesign: body_codec node_sign_body ParseNodeSign node_sign_ok
  unfolding ParseNodeSign_def
proof (rule codec_ebind [where ok = "\<lambda>n. fits32 (ns_Handle n) \<and> fits32 (ns_IdentityKey n)
      \<and> fits32 (ns_KemPublicKey n)"], rule codec_parse_all, goal_cases)
  case (1 n)
  then show ?case by (simp add: node_sign_body_eq reader_simps)
next
  case 2
  show ?case
    by (intro rdlp.consumes_read rd64.consumes_read consumes_return sticky_intros)
      (simp add: node_sign_body_eq)
next
  case (3 n)
  then show ?case by (auto simp: node_sign_ok_def fits32_def size_defs)
next
  case (4 a b)
  then show ?case by (simp split: if_splits)
qed

record NodeRevoke =
  nr_Handle :: string
  nr_Reason :: string
  nr_Effective :: int64

definition NodeRevokeBody :: "string \<Rightarrow> string \<Rightarrow> int64 \<Rightarrow> bytes" where
  "NodeRevokeBody handle reason effective =
     (let out = appendLP [] handle; out = appendLP out reason in appendBE64 out effective)"

definition ParseNodeRevoke :: "bytes \<Rightarrow> malformed + NodeRevoke" where
  "ParseNodeRevoke b = ebind (parse_all (do {
     handle \<leftarrow> cursor_lp;
     reason \<leftarrow> cursor_lp;
     effective \<leftarrow> cursor_u64;
     State_Monad.return \<lparr>nr_Handle = handle, nr_Reason = reason, nr_Effective = effective\<rparr>
   }) BadNodeRevokeBody b) (\<lambda>r. if nr_Handle r = [] then Inl EmptyRevokeHandle else Inr r)"

definition node_revoke_body :: "NodeRevoke \<Rightarrow> bytes" where
  "node_revoke_body r = NodeRevokeBody (nr_Handle r) (nr_Reason r) (nr_Effective r)"

definition node_revoke_ok :: "NodeRevoke \<Rightarrow> bool" where
  "node_revoke_ok r \<longleftrightarrow> fits32 (nr_Handle r) \<and> nr_Handle r \<noteq> [] \<and> fits32 (nr_Reason r)"

lemma node_revoke_body_eq:
  "node_revoke_body r = lpfield (nr_Handle r) @ lpfield (nr_Reason r) @ putUint64 (nr_Effective r)"
  by (simp add: node_revoke_body_def NodeRevokeBody_def codec_simps)

interpretation noderevoke: body_codec node_revoke_body ParseNodeRevoke node_revoke_ok
  unfolding ParseNodeRevoke_def
proof (rule codec_ebind [where ok = "\<lambda>r. fits32 (nr_Handle r) \<and> fits32 (nr_Reason r)"],
    rule codec_parse_all, goal_cases)
  case (1 r)
  then show ?case by (simp add: node_revoke_body_eq reader_simps)
next
  case 2
  show ?case
    by (intro rdlp.consumes_read rd64.consumes_read consumes_return sticky_intros)
      (simp add: node_revoke_body_eq)
qed (auto simp: node_revoke_ok_def split: if_splits)

section \<open>Quorum changes, anchors and disabling\<close>

definition QuorumChangeBody :: "uint32 \<Rightarrow> bytes" where
  "QuorumChangeBody q = appendBE32 [] q"

definition ParseQuorumChange :: "bytes \<Rightarrow> malformed + uint32" where
  "ParseQuorumChange = parse_all cursor_u32 BadQuorumChangeBody"

interpretation quorum: body_codec QuorumChangeBody ParseQuorumChange "\<lambda>_. True"
  unfolding ParseQuorumChange_def
proof (rule codec_parse_all, goal_cases)
  case (1 q)
  show ?case by (simp add: QuorumChangeBody_def codec_simps reader_simps)
next
  case 2
  show ?case using rd32.read_consumes by (simp add: QuorumChangeBody_def codec_simps)
qed

record Anchor =
  an_AuditHead :: bytes
  an_AuditSeq :: uint64

definition AnchorBody :: "bytes \<Rightarrow> uint64 \<Rightarrow> bytes" where
  "AnchorBody auditHead auditSeq = appendBE64 (appendLP [] auditHead) auditSeq"

definition ParseAnchor :: "bytes \<Rightarrow> malformed + Anchor" where
  "ParseAnchor = parse_all (do {
     head \<leftarrow> cursor_lp;
     auditSeq \<leftarrow> cursor_u64;
     State_Monad.return \<lparr>an_AuditHead = head, an_AuditSeq = auditSeq\<rparr>
   }) BadAnchorBody"

definition anchor_body :: "Anchor \<Rightarrow> bytes" where
  "anchor_body a = AnchorBody (an_AuditHead a) (an_AuditSeq a)"

lemma anchor_body_eq: "anchor_body a = lpfield (an_AuditHead a) @ putUint64 (an_AuditSeq a)"
  by (simp add: anchor_body_def AnchorBody_def codec_simps)

interpretation anchor: body_codec anchor_body ParseAnchor "\<lambda>a. fits32 (an_AuditHead a)"
  unfolding ParseAnchor_def
proof (rule codec_parse_all, goal_cases)
  case (1 a)
  then show ?case by (simp add: anchor_body_eq reader_simps)
next
  case 2
  show ?case
    by (intro rdlp.consumes_read rd64.consumes_read consumes_return sticky_intros)
      (simp add: anchor_body_eq)
qed

definition DisableBody :: "string \<Rightarrow> bytes" where
  "DisableBody reason = appendLP [] reason"

definition ParseDisable :: "bytes \<Rightarrow> malformed + string" where
  "ParseDisable = parse_all cursor_lp BadDisableBody"

interpretation disable: body_codec DisableBody ParseDisable fits32
  unfolding ParseDisable_def
proof (rule codec_parse_all, goal_cases)
  case (1 r)
  then show ?case by (simp add: DisableBody_def codec_simps reader_simps)
next
  case 2
  show ?case by (rule consumes_mono [OF rdlp.read_consumes]) (simp add: DisableBody_def codec_simps)
qed

end
