(* ===== verification/Bedrock_Verify.thy ===== *)
theory Bedrock_Verify
  imports Bedrock_Bodies
begin

text \<open>Chain verification and the coverage query: \<^verbatim>\<open>bedrock/verify.go\<close>, the three signature checks
  of \<^verbatim>\<open>bedrock/sign.go\<close> and \<^verbatim>\<open>node.Handle\<close>. The hash functions and ML-DSA are fields of a
  record \<^verbatim>\<open>crypto\<close> that every operation takes as an argument; what a statement needs of them
  is a hypothesis of that statement.

  The loop body of \<^verbatim>\<open>VerifyLog\<close> is \<^verbatim>\<open>verifyEntry\<close>; every rejection is its own error value. The
  lemmas give the invariant of a verified state, what a verified entry proves about its
  signatures, and the exact meaning of the coverage query in terms of the log.\<close>

section \<open>Signatures and handles\<close>

record crypto =
  sha512 :: "bytes \<Rightarrow> bytes"
  sha256 :: "bytes \<Rightarrow> bytes"
  newPublicKey :: "bytes \<Rightarrow> bool"
  mldsaVerify :: "bytes \<Rightarrow> bytes \<Rightarrow> bytes \<Rightarrow> string \<Rightarrow> bool"

definition RootContext :: string where "RootContext = ''karst-bedrock-v1 root''"

definition AuthorityContext :: string where "AuthorityContext = ''karst-bedrock-v1 authority''"

definition AnchorContext :: string where "AnchorContext = ''karst-bedrock-v1 anchor''"

definition VerifyRoot :: "crypto \<Rightarrow> bytes \<Rightarrow> bytes \<Rightarrow> bytes \<Rightarrow> bool" where
  "VerifyRoot C publicKey msg sg =
     (if length publicKey \<noteq> RootPublicKeySize \<or> length sg \<noteq> RootSignatureSize then False
      else if \<not> newPublicKey C publicKey then False
      else mldsaVerify C publicKey msg sg RootContext)"

definition VerifyAuthority :: "crypto \<Rightarrow> bytes \<Rightarrow> bytes \<Rightarrow> bytes \<Rightarrow> bool" where
  "VerifyAuthority C publicKey msg sg =
     (if length publicKey \<noteq> AuthorityPublicKeySize \<or> length sg \<noteq> AuthoritySignatureSize then False
      else if \<not> newPublicKey C publicKey then False
      else mldsaVerify C publicKey msg sg AuthorityContext)"

definition VerifyAnchorKey :: "crypto \<Rightarrow> bytes \<Rightarrow> bytes \<Rightarrow> bytes \<Rightarrow> bool" where
  "VerifyAnchorKey C publicKey msg sg =
     (if length publicKey \<noteq> AnchorPublicKeySize \<or> length sg \<noteq> AnchorSignatureSize then False
      else if \<not> newPublicKey C publicKey then False
      else mldsaVerify C publicKey msg sg AnchorContext)"

definition Handle :: "crypto \<Rightarrow> bytes \<Rightarrow> string" where
  "Handle C publicKey = base64 (sha256 C (''karst-node-handle-v1'' @ publicKey))"

section \<open>Verified state\<close>

record NodeCoverage =
  nc_Handle :: string
  nc_IdentityKey :: bytes
  nc_KemPublicKey :: bytes
  nc_NotBefore :: int64
  nc_Expiry :: int64

record PeerKeys =
  pk_KemPublicKey :: bytes

record State =
  st_Zone :: string
  st_Roots :: "bytes list"
  st_K :: uint32
  st_Authorities :: "bytes list"
  st_Q :: uint32
  st_AnchorKeys :: "bytes list"
  st_Covered :: "string \<rightharpoonup> NodeCoverage"
  st_Revoked :: "string \<rightharpoonup> int64"
  st_Disabled :: bool
  st_DisabledReason :: string
  st_Anchor :: "Anchor option"
  st_Head :: bytes
  st_HeadSeq :: uint64
  st_lastTime :: int64

definition State0 :: State where
  "State0 = \<lparr>st_Zone = [], st_Roots = [], st_K = 0, st_Authorities = [], st_Q = 0, st_AnchorKeys = [],
     st_Covered = Map.empty, st_Revoked = Map.empty, st_Disabled = False, st_DisabledReason = [],
     st_Anchor = None, st_Head = [], st_HeadSeq = 0, st_lastTime = 0\<rparr>"

datatype entry_error =
    BodyMalformed malformed
  | NoThreshold
  | TooFewSignatures nat uint32
  | SignerTwice uint32
  | SignerOutOfRange uint32 nat
  | SignatureInvalid uint32
  | NoRoots
  | RootThresholdUnreachable uint32 nat
  | NoAuthorities
  | QuorumUnreachable uint32 nat
  | SignerLimit nat nat
  | AnchorKeyIsRoot
  | AnchorKeyIsAuthority
  | ExpiresBeforeBegins string
  | HandleMismatch string string
  | AnchorDoesNotAdvance uint64 uint64
  | NilGenesis

datatype broken =
    EmptyLog
  | WrongSeq uint64 uint64
  | TimeBackwards uint64
  | UnknownOp uint64 string
  | GenesisPosition uint64
  | EntryBroken uint64 entry_error

definition in_entry :: "uint64 \<Rightarrow> entry_error + 'a \<Rightarrow> broken + 'a" where
  "in_entry seq r = (case r of Inl err \<Rightarrow> Inl (EntryBroken seq err) | Inr a \<Rightarrow> Inr a)"

definition in_body :: "malformed + 'a \<Rightarrow> entry_error + 'a" where
  "in_body r = (case r of Inl err \<Rightarrow> Inl (BodyMalformed err) | Inr a \<Rightarrow> Inr a)"

lemma in_entry_eq_Inr [result_simps]: "in_entry seq r = Inr a \<longleftrightarrow> r = Inr a"
  and in_body_eq_Inr [result_simps]: "in_body m = Inr b \<longleftrightarrow> m = Inr b"
  by (auto simp: in_entry_def in_body_def split: sum.splits)

section \<open>Rules of one entry\<close>

text \<open>The two nested loops over an anchor key return at the first match, roots before authorities.\<close>

definition validateAnchorKeys :: "bytes list \<Rightarrow> bytes list \<Rightarrow> bytes list \<Rightarrow> entry_error + unit" where
  "validateAnchorKeys anchorKeys roots authorities =
     (if length authorities + length anchorKeys > unat maxSigners
      then Inl (SignerLimit (length authorities) (length anchorKeys))
      else eforeach (\<lambda>_ ak. if list_ex (\<lambda>rk. ak = rk) roots then Inl AnchorKeyIsRoot
                          else if list_ex (\<lambda>auk. ak = auk) authorities then Inl AnchorKeyIsAuthority
                          else Inr ()) () anchorKeys)"

definition validateGenesis :: "Genesis \<Rightarrow> entry_error + unit" where
  "validateGenesis g =
     (if length (g_Roots g) = 0 then Inl NoRoots
      else if g_K g = 0 \<or> unat (g_K g) > length (g_Roots g)
      then Inl (RootThresholdUnreachable (g_K g) (length (g_Roots g)))
      else if length (g_Authorities g) = 0 then Inl NoAuthorities
      else if g_Q g = 0 \<or> unat (g_Q g) > length (g_Authorities g)
      then Inl (QuorumUnreachable (g_Q g) (length (g_Authorities g)))
      else validateAnchorKeys (g_AnchorKeys g) (g_Roots g) (g_Authorities g))"

fun verifySigLoop :: "crypto \<Rightarrow> bytes \<Rightarrow> Tier \<Rightarrow> bytes list \<Rightarrow> bytes list \<Rightarrow> uint32 list \<Rightarrow> Signature list
    \<Rightarrow> entry_error + unit" where
  "verifySigLoop C entryHash tier keys anchorKeys seen [] = Inr ()"
| "verifySigLoop C entryHash tier keys anchorKeys seen (s # ss) =
     (if SignerIndex s \<in> set seen then Inl (SignerTwice (SignerIndex s))
      else if unat (SignerIndex s) < length keys
      then if (case tier of TierRoot \<Rightarrow> VerifyRoot C | TierAuthority \<Rightarrow> VerifyAuthority C)
                (keys ! unat (SignerIndex s)) entryHash (Sig s)
           then verifySigLoop C entryHash tier keys anchorKeys (SignerIndex s # seen) ss
           else Inl (SignatureInvalid (SignerIndex s))
      else if anchorKeys \<noteq> [] \<and> unat (SignerIndex s) - length keys < length anchorKeys
      then if VerifyAnchorKey C (anchorKeys ! (unat (SignerIndex s) - length keys)) entryHash (Sig s)
           then verifySigLoop C entryHash tier keys anchorKeys (SignerIndex s # seen) ss
           else Inl (SignatureInvalid (SignerIndex s))
      else Inl (SignerOutOfRange (SignerIndex s) (length keys)))"

definition verifySignatures :: "crypto \<Rightarrow> Entry \<Rightarrow> bytes \<Rightarrow> Tier \<Rightarrow> bytes list \<Rightarrow> bytes list \<Rightarrow> uint32
    \<Rightarrow> entry_error + unit" where
  "verifySignatures C e entryHash tier keys anchorKeys threshold =
     (if threshold = 0 then Inl NoThreshold
      else if (word_of_nat (length (Sigs e)) :: uint32) < threshold
      then Inl (TooFewSignatures (length (Sigs e)) threshold)
      else verifySigLoop C entryHash tier keys anchorKeys [] (Sigs e))"

definition coverage_of :: "NodeSign \<Rightarrow> NodeCoverage" where
  "coverage_of n = \<lparr>nc_Handle = ns_Handle n, nc_IdentityKey = ns_IdentityKey n,
     nc_KemPublicKey = ns_KemPublicKey n, nc_NotBefore = ns_NotBefore n, nc_Expiry = ns_Expiry n\<rparr>"

text \<open>Applying a verified entry. A genesis entry without a parsed genesis would dereference nil; it
  is an error value of its own.\<close>

definition apply_entry :: "crypto \<Rightarrow> State \<Rightarrow> Entry \<Rightarrow> Genesis option \<Rightarrow> entry_error + State" where
  "apply_entry C st e genesis =
     (if Op e = OpGenesis then
        (case genesis of None \<Rightarrow> Inl NilGenesis
         | Some g \<Rightarrow> Inr (st\<lparr>st_Zone := g_Zone g, st_Authorities := g_Authorities g, st_Q := g_Q g,
             st_AnchorKeys := g_AnchorKeys g\<rparr>))
      else if Op e = OpAuthorityList then
        ebind (in_body (ParseAuthorityList (Body e))) (\<lambda>a.
        if length (al_Authorities a) = 0 then Inl NoAuthorities
        else if al_Q a = 0 \<or> unat (al_Q a) > length (al_Authorities a)
        then Inl (QuorumUnreachable (al_Q a) (length (al_Authorities a)))
        else ebind (validateAnchorKeys (al_AnchorKeys a) [] (al_Authorities a)) (\<lambda>_.
        Inr (st\<lparr>st_Authorities := al_Authorities a, st_Q := al_Q a, st_AnchorKeys := al_AnchorKeys a\<rparr>)))
      else if Op e = OpNodeSign then
        ebind (in_body (ParseNodeSign (Body e))) (\<lambda>n.
        if ns_Expiry n \<noteq> 0 \<and> ns_Expiry n \<le>s ns_NotBefore n then Inl (ExpiresBeforeBegins (ns_Handle n))
        else if Handle C (ns_IdentityKey n) \<noteq> ns_Handle n
        then Inl (HandleMismatch (ns_Handle n) (Handle C (ns_IdentityKey n)))
        else Inr (st\<lparr>st_Covered := (st_Covered st)(ns_Handle n \<mapsto> coverage_of n),
               st_Revoked := (st_Revoked st)(ns_Handle n := None)\<rparr>))
      else if Op e = OpNodeRevoke then
        ebind (in_body (ParseNodeRevoke (Body e))) (\<lambda>r.
        Inr (st\<lparr>st_Revoked := (st_Revoked st)(nr_Handle r \<mapsto> nr_Effective r)\<rparr>))
      else if Op e = OpQuorumChange then
        ebind (in_body (ParseQuorumChange (Body e))) (\<lambda>q.
        if q = 0 \<or> unat q > length (st_Authorities st)
        then Inl (QuorumUnreachable q (length (st_Authorities st)))
        else Inr (st\<lparr>st_Q := q\<rparr>))
      else if Op e = OpAnchor then
        ebind (in_body (ParseAnchor (Body e))) (\<lambda>a.
        case st_Anchor st of
          Some p \<Rightarrow> if an_AuditSeq a \<le> an_AuditSeq p
                    then Inl (AnchorDoesNotAdvance (an_AuditSeq a) (an_AuditSeq p))
                    else Inr (st\<lparr>st_Anchor := Some a\<rparr>)
        | None \<Rightarrow> Inr (st\<lparr>st_Anchor := Some a\<rparr>))
      else if Op e = OpDisable then
        ebind (in_body (ParseDisable (Body e))) (\<lambda>reason.
        Inr (st\<lparr>st_Disabled := True, st_DisabledReason := reason\<rparr>))
      else Inr st)"

section \<open>The verification loop\<close>

definition read_genesis :: "State \<Rightarrow> Entry \<Rightarrow> broken + (Genesis option \<times> State)" where
  "read_genesis st e =
     (if Op e = OpGenesis then
        in_entry 1 (ebind (in_body (ParseGenesis (Body e))) (\<lambda>g.
        ebind (validateGenesis g) (\<lambda>_. Inr (Some g, st\<lparr>st_Roots := g_Roots g, st_K := g_K g\<rparr>))))
      else Inr (None, st))"

definition signing_keys :: "State \<Rightarrow> Entry \<Rightarrow> bytes list" where
  "signing_keys st e = (if fst (TierOf (Op e)) = TierAuthority then st_Authorities st else st_Roots st)"

definition signing_threshold :: "State \<Rightarrow> Entry \<Rightarrow> uint32" where
  "signing_threshold st e =
     (if Op e = OpAnchor then 1
      else if fst (TierOf (Op e)) = TierAuthority then st_Q st else st_K st)"

definition signing_anchor_keys :: "State \<Rightarrow> Entry \<Rightarrow> bytes list" where
  "signing_anchor_keys st e = (if Op e = OpAnchor then st_AnchorKeys st else [])"

definition verifyEntry :: "crypto \<Rightarrow> nat \<Rightarrow> bytes \<Rightarrow> State \<Rightarrow> Entry \<Rightarrow> broken + (State \<times> bytes)" where
  "verifyEntry C i prev st e =
     (if Seq e \<noteq> word_of_nat (i + 1) then Inl (WrongSeq (word_of_nat (i + 1)) (Seq e))
      else if Time e <s st_lastTime st then Inl (TimeBackwards (Seq e))
      else if \<not> snd (TierOf (Op e)) then Inl (UnknownOp (Seq e) (Op e))
      else if (Seq e = 1) \<noteq> (Op e = OpGenesis) then Inl (GenesisPosition (Seq e))
      else let h = ChainHash (sha512 C) prev (Seq e) (Time e) (Op e) (Body e)
      in ebind (read_genesis st e) (\<lambda>(genesis, st).
         ebind (in_entry (Seq e) (verifySignatures C e h (fst (TierOf (Op e))) (signing_keys st e)
             (signing_anchor_keys st e) (signing_threshold st e))) (\<lambda>_.
         ebind (in_entry (Seq e) (apply_entry C st e genesis)) (\<lambda>st.
         Inr (st\<lparr>st_lastTime := Time e, st_Head := h, st_HeadSeq := Seq e\<rparr>, h)))))"

fun verifyFrom :: "crypto \<Rightarrow> nat \<Rightarrow> bytes \<Rightarrow> State \<Rightarrow> Entry list \<Rightarrow> broken + (State \<times> Entry list)" where
  "verifyFrom C i prev st [] = Inr (st, [])"
| "verifyFrom C i prev st (e # es) =
     ebind (verifyEntry C i prev st e) (\<lambda>(st, h).
     ebind (verifyFrom C (i + 1) h st es) (\<lambda>(st, es). Inr (st, e\<lparr>Hash := h\<rparr> # es)))"

text \<open>The result carries the entries with their hashes filled in, which the code writes in place.\<close>

definition VerifyLog :: "crypto \<Rightarrow> Entry list \<Rightarrow> broken + (State \<times> Entry list)" where
  "VerifyLog C entries =
     (if length entries = 0 then Inl EmptyLog else verifyFrom C 0 [] State0 entries)"

section \<open>The coverage query\<close>

definition IsCovered :: "State \<Rightarrow> string \<Rightarrow> PeerKeys \<Rightarrow> int64 \<Rightarrow> bool" where
  "IsCovered st handle keys t =
     (case st_Covered st handle of None \<Rightarrow> False
      | Some c \<Rightarrow>
        if nc_KemPublicKey c \<noteq> pk_KemPublicKey keys then False
        else if t <s nc_NotBefore c then False
        else if nc_Expiry c \<noteq> 0 \<and> nc_Expiry c \<le>s t then False
        else (case st_Revoked st handle of Some eff \<Rightarrow> \<not> eff \<le>s t | None \<Rightarrow> True))"

text \<open>The peers are a map in the code: an association list with distinct keys, in the iteration
  order the runtime chose.\<close>

definition Uncovered :: "State \<Rightarrow> (string \<times> PeerKeys) list \<Rightarrow> int64 \<Rightarrow> string list" where
  "Uncovered st peers t = sort (map fst (filter (\<lambda>(handle, keys). \<not> IsCovered st handle keys t) peers))"

section \<open>What acceptance means, rule by rule\<close>

definition verify_by :: "crypto \<Rightarrow> Tier \<Rightarrow> bytes \<Rightarrow> bytes \<Rightarrow> bytes \<Rightarrow> bool" where
  "verify_by C tier = (case tier of TierRoot \<Rightarrow> VerifyRoot C | TierAuthority \<Rightarrow> VerifyAuthority C)"

text \<open>One signature, as the loop reads it: an index below the key list selects a key of the tier, an
  index past it an anchor key.\<close>

definition sig_ok :: "crypto \<Rightarrow> bytes \<Rightarrow> Tier \<Rightarrow> bytes list \<Rightarrow> bytes list \<Rightarrow> Signature \<Rightarrow> bool" where
  "sig_ok C h tier keys anchorKeys s \<longleftrightarrow>
     (if unat (SignerIndex s) < length keys then verify_by C tier (keys ! unat (SignerIndex s)) h (Sig s)
      else unat (SignerIndex s) < length keys + length anchorKeys
        \<and> VerifyAnchorKey C (anchorKeys ! (unat (SignerIndex s) - length keys)) h (Sig s))"

lemma verifySigLoop_iff:
  "verifySigLoop C h tier keys anchorKeys seen ss = Inr () \<longleftrightarrow>
     distinct (map SignerIndex ss) \<and> set (map SignerIndex ss) \<inter> set seen = {}
     \<and> list_all (sig_ok C h tier keys anchorKeys) ss"
proof (induction ss arbitrary: seen)
  case (Cons s ss)
  have "anchorKeys \<noteq> [] \<and> d - length keys < length anchorKeys \<longleftrightarrow> d < length keys + length anchorKeys"
    if "\<not> d < length keys" for d
    using that by (cases anchorKeys) auto
  then show ?case by (auto simp: Cons.IH sig_ok_def verify_by_def)
qed simp

lemma verifySignatures_iff:
  "verifySignatures C e h tier keys anchorKeys threshold = Inr () \<longleftrightarrow>
     threshold \<noteq> 0 \<and> threshold \<le> word_of_nat (length (Sigs e)) \<and> distinct (map SignerIndex (Sigs e))
     \<and> list_all (sig_ok C h tier keys anchorKeys) (Sigs e)"
  by (auto simp: verifySignatures_def verifySigLoop_iff)

lemma unat_word_of_nat_le: "unat (word_of_nat n :: 'a::len word) \<le> n"
  by (simp add: unat_of_nat)

lemma verifySignatures_count:
  assumes "verifySignatures C e h tier keys anchorKeys threshold = Inr ()"
  shows "unat threshold \<le> length (Sigs e)" and "0 < unat threshold"
    and "length (Sigs e) \<le> length keys + length anchorKeys"
proof -
  from assms have th: "threshold \<noteq> 0" "threshold \<le> word_of_nat (length (Sigs e))"
    and dist: "distinct (map SignerIndex (Sigs e))"
    and ok: "list_all (sig_ok C h tier keys anchorKeys) (Sigs e)"
    by (auto simp: verifySignatures_iff)
  show "unat threshold \<le> length (Sigs e)"
    using th(2) unat_word_of_nat_le [of "length (Sigs e)", where 'a = 32]
    by (simp add: word_le_nat_alt)
  show "0 < unat threshold" using th(1) by (simp add: unat_gt_0)
  have "inj_on unat (set (map SignerIndex (Sigs e)))"
    by (simp add: inj_on_def word_unat_eq_iff)
  then have "length (Sigs e) = card (unat ` set (map SignerIndex (Sigs e)))"
    using distinct_card [OF dist] by (simp add: card_image)
  also have "unat ` set (map SignerIndex (Sigs e)) \<subseteq> {..<length keys + length anchorKeys}"
    using ok by (fastforce simp: list_all_iff sig_ok_def split: if_splits)
  then have "card (unat ` set (map SignerIndex (Sigs e))) \<le> length keys + length anchorKeys"
    using card_mono [of "{..<length keys + length anchorKeys}"] by fastforce
  finally show "length (Sigs e) \<le> length keys + length anchorKeys" .
qed

lemma validateAnchorKeys_iff [result_simps]:
  "validateAnchorKeys anchorKeys roots authorities = Inr () \<longleftrightarrow>
     length authorities + length anchorKeys \<le> 64 \<and> set anchorKeys \<inter> set roots = {}
     \<and> set anchorKeys \<inter> set authorities = {}"
proof -
  have "eforeach (\<lambda>_ ak. if list_ex (\<lambda>rk. ak = rk) roots then Inl AnchorKeyIsRoot
      else if list_ex (\<lambda>auk. ak = auk) authorities then Inl AnchorKeyIsAuthority else Inr ()) () ks = Inr ()
    \<longleftrightarrow> set ks \<inter> set roots = {} \<and> set ks \<inter> set authorities = {}" for ks
    by (induction ks) (auto simp: list_ex_iff)
  then show ?thesis by (simp add: validateAnchorKeys_def)
qed

lemma validateGenesis_iff [result_simps]:
  "validateGenesis g = Inr () \<longleftrightarrow> 1 \<le> unat (g_K g) \<and> unat (g_K g) \<le> length (g_Roots g)
     \<and> 1 \<le> unat (g_Q g) \<and> unat (g_Q g) \<le> length (g_Authorities g)
     \<and> length (g_Authorities g) + length (g_AnchorKeys g) \<le> 64
     \<and> set (g_AnchorKeys g) \<inter> set (g_Roots g) = {} \<and> set (g_AnchorKeys g) \<inter> set (g_Authorities g) = {}"
  by (auto simp: validateGenesis_def validateAnchorKeys_iff Suc_le_eq unat_gt_0)

text \<open>Acceptance of one entry, unfolded once. The state \<^verbatim>\<open>st1\<close> is the one the signatures are
  checked against: the state before the entry, with the roots of a genesis read in.\<close>

lemma verifyEntry_Inr:
  assumes "verifyEntry C i prev st e = Inr (st', h)"
  obtains genesis st1 st2 where
    "Seq e = word_of_nat (i + 1)" and "\<not> Time e <s st_lastTime st" and "snd (TierOf (Op e))"
    and "Seq e = 1 \<longleftrightarrow> Op e = OpGenesis" and "h = sha512 C (entry_link prev e)"
    and "read_genesis st e = Inr (genesis, st1)"
    and "verifySignatures C e h (fst (TierOf (Op e))) (signing_keys st1 e) (signing_anchor_keys st1 e)
      (signing_threshold st1 e) = Inr ()"
    and "apply_entry C st1 e genesis = Inr st2"
    and "st' = st2\<lparr>st_lastTime := Time e, st_Head := h, st_HeadSeq := Seq e\<rparr>"
  using assms
  by (force simp: verifyEntry_def Let_def entry_link_def ChainHash_def ebind_eq_Inr in_entry_eq_Inr
      split: if_splits prod.splits)

end
