(* ===== verification/Bedrock_Semantics.thy ===== *)
theory Bedrock_Semantics
  imports Bedrock_Verify
begin

text \<open>What a verified log means. \<^verbatim>\<open>VerifyLog\<close> is shown to be reachability in a step relation whose
  steps are accepted entries; the invariant, the history of each handle and the strength of
  every signature follow by rule induction. The abstract specification of the coverage state is
  \<^verbatim>\<open>current\<close>, a per-handle replay of the log, and the verifier's maps refine it.\<close>

section \<open>Verified logs as reachable states\<close>

abbreviation chain_tip :: "crypto \<Rightarrow> Entry list \<Rightarrow> bytes" where
  "chain_tip C es \<equiv> chain_head entry_link (sha512 C) [] es"

fun fill_hashes :: "crypto \<Rightarrow> bytes \<Rightarrow> Entry list \<Rightarrow> Entry list" where
  "fill_hashes C p [] = []"
| "fill_hashes C p (e # es) =
     e\<lparr>Hash := sha512 C (entry_link p e)\<rparr> # fill_hashes C (sha512 C (entry_link p e)) es"

inductive verified :: "crypto \<Rightarrow> Entry list \<Rightarrow> State \<Rightarrow> bool" for C where
  empty: "verified C [] State0"
| step: "verified C es st \<Longrightarrow> verifyEntry C (length es) (chain_tip C es) st e = Inr (st', h)
    \<Longrightarrow> verified C (es @ [e]) st'"

inductive_cases verified_snocE: "verified C (es @ [e]) st"

inductive_simps verified_snoc: "verified C (es @ [e]) st"

lemma verified_Nil [simp]: "verified C [] st \<longleftrightarrow> st = State0"
  by (subst verified.simps) simp

lemma verifyEntry_hash: "verifyEntry C i p st e = Inr (st', h) \<Longrightarrow> h = sha512 C (entry_link p e)"
  by (erule verifyEntry_Inr)

lemma fill_hashes_append:
  "fill_hashes C p (es @ ds) = fill_hashes C p es @ fill_hashes C (chain_head entry_link (sha512 C) p es) ds"
  by (induction es arbitrary: p) auto

lemma length_fill_hashes [simp]: "length (fill_hashes C p es) = length es"
  by (induction es arbitrary: p) auto

lemma verifyFrom_fills: "verifyFrom C i p st es = Inr (st', es') \<Longrightarrow> es' = fill_hashes C p es"
  by (induction es arbitrary: i p st es')
    (auto simp: ebind_eq_Inr split: prod.splits dest!: verifyEntry_hash)

lemma verifyFrom_snoc:
  "verifyFrom C i p st (es @ [e]) = Inr (st', es') \<longleftrightarrow>
     (\<exists>st1 h. verifyFrom C i p st es = Inr (st1, fill_hashes C p es)
       \<and> verifyEntry C (i + length es) (chain_head entry_link (sha512 C) p es) st1 e = Inr (st', h)
       \<and> es' = fill_hashes C p (es @ [e]))"
proof (induction es arbitrary: i p st es')
  case Nil
  show ?case
    by (auto simp: ebind_eq_Inr split: prod.splits dest: verifyEntry_hash)
next
  case (Cons d es)
  show ?case
  proof (cases "verifyEntry C i p st d")
    case (Inr r)
    then obtain st1 where "verifyEntry C i p st d = Inr (st1, sha512 C (entry_link p d))"
      by (metis surj_pair verifyEntry_hash)
    then show ?thesis by (auto simp: ebind_eq_Inr Cons.IH split: prod.splits)
  qed simp
qed

lemma verifyFrom_iff:
  "verifyFrom C 0 [] State0 es = Inr (st, es') \<longleftrightarrow> verified C es st \<and> es' = fill_hashes C [] es"
proof (induction es arbitrary: st es' rule: rev_induct)
  case (snoc e es)
  then show ?case by (auto simp: verifyFrom_snoc verified_snoc)
qed auto

lemma VerifyLog_iff:
  "VerifyLog C es = Inr (st, es') \<longleftrightarrow> es \<noteq> [] \<and> verified C es st \<and> es' = fill_hashes C [] es"
  by (simp add: VerifyLog_def verifyFrom_iff)

lemma verified_prefix: "verified C (es @ ds) st \<Longrightarrow> \<exists>st0. verified C es st0"
proof (induction ds arbitrary: st rule: rev_induct)
  case (snoc d ds)
  then show ?case by (metis append_assoc verified_snoc)
qed auto

lemma verified_entryE:
  assumes "verified C (pre @ e # post) st"
  obtains st0 st1 h where "verified C pre st0"
    and "verifyEntry C (length pre) (chain_tip C pre) st0 e = Inr (st1, h)"
  using verified_prefix [of C "pre @ [e]" post st] assms that by (auto simp: verified_snoc)

lemma verified_fun: "verified C es st \<Longrightarrow> verified C es st' \<Longrightarrow> st = st'"
proof (induction arbitrary: st' rule: verified.induct)
  case (step es st e st1 h)
  from step.prems obtain st0 h' where "verified C es st0"
    and "verifyEntry C (length es) (chain_tip C es) st0 e = Inr (st', h')"
    by (auto simp: verified_snoc)
  with step.IH [of st0] step.hyps(2) show ?case by simp
qed simp

section \<open>The invariant of a verified state\<close>

definition coverage_ok :: "crypto \<Rightarrow> string \<Rightarrow> NodeCoverage \<Rightarrow> bool" where
  "coverage_ok C h c \<longleftrightarrow> nc_Handle c = h \<and> h \<noteq> [] \<and> Handle C (nc_IdentityKey c) = h
     \<and> length (nc_IdentityKey c) = NodeIdentityKeySize \<and> length (nc_KemPublicKey c) = KemPublicKeySize
     \<and> (nc_Expiry c = 0 \<or> nc_NotBefore c <s nc_Expiry c)"

definition state_ok :: "crypto \<Rightarrow> State \<Rightarrow> bool" where
  "state_ok C st \<longleftrightarrow>
     1 \<le> unat (st_K st) \<and> unat (st_K st) \<le> length (st_Roots st) \<and> keys_ok RootPublicKeySize (st_Roots st)
     \<and> 1 \<le> unat (st_Q st) \<and> unat (st_Q st) \<le> length (st_Authorities st)
     \<and> keys_ok AuthorityPublicKeySize (st_Authorities st) \<and> keys_ok AnchorPublicKeySize (st_AnchorKeys st)
     \<and> length (st_Authorities st) + length (st_AnchorKeys st) \<le> 64
     \<and> set (st_AnchorKeys st) \<inter> set (st_Authorities st) = {}
     \<and> (\<forall>h c. st_Covered st h = Some c \<longrightarrow> coverage_ok C h c)"

lemma state_ok_bookkeeping [simp]:
  "state_ok C (st\<lparr>st_lastTime := t, st_Head := h, st_HeadSeq := n\<rparr>) = state_ok C st"
  by (simp add: state_ok_def)

text \<open>The effect of every operation but genesis, one case per operation.\<close>

lemma apply_entryE:
  assumes "apply_entry C st e None = Inr st'" and "snd (TierOf (Op e))"
  obtains (authority_list) a where "Op e = OpAuthorityList" "ParseAuthorityList (Body e) = Inr a"
      "1 \<le> unat (al_Q a)" "unat (al_Q a) \<le> length (al_Authorities a)"
      "length (al_Authorities a) + length (al_AnchorKeys a) \<le> 64"
      "set (al_AnchorKeys a) \<inter> set (al_Authorities a) = {}"
      "st' = st\<lparr>st_Authorities := al_Authorities a, st_Q := al_Q a, st_AnchorKeys := al_AnchorKeys a\<rparr>"
  | (node_sign) n where "Op e = OpNodeSign" "ParseNodeSign (Body e) = Inr n"
      "ns_Expiry n = 0 \<or> ns_NotBefore n <s ns_Expiry n" "Handle C (ns_IdentityKey n) = ns_Handle n"
      "st' = st\<lparr>st_Covered := (st_Covered st)(ns_Handle n \<mapsto> coverage_of n),
               st_Revoked := (st_Revoked st)(ns_Handle n := None)\<rparr>"
  | (node_revoke) r where "Op e = OpNodeRevoke" "ParseNodeRevoke (Body e) = Inr r"
      "st' = st\<lparr>st_Revoked := (st_Revoked st)(nr_Handle r \<mapsto> nr_Effective r)\<rparr>"
  | (quorum_change) q where "Op e = OpQuorumChange" "ParseQuorumChange (Body e) = Inr q"
      "1 \<le> unat q" "unat q \<le> length (st_Authorities st)" "st' = st\<lparr>st_Q := q\<rparr>"
  | (anchor) a where "Op e = OpAnchor" "ParseAnchor (Body e) = Inr a"
      "\<And>p. st_Anchor st = Some p \<Longrightarrow> an_AuditSeq p < an_AuditSeq a" "st' = st\<lparr>st_Anchor := Some a\<rparr>"
  | (disable) reason where "Op e = OpDisable" "ParseDisable (Body e) = Inr reason"
      "st' = st\<lparr>st_Disabled := True, st_DisabledReason := reason\<rparr>"
proof -
  have known: "Op e \<in> {OpGenesis, OpAuthorityList, OpDisable, OpNodeSign, OpNodeRevoke, OpQuorumChange, OpAnchor}"
    using assms(2) by (auto simp: TierOf_def split: if_splits)
  note simps = apply_entry_def ebind_eq_Inr in_body_eq_Inr op_defs
  have "Op e \<noteq> OpGenesis" using assms(1) by (auto simp: apply_entry_def)
  with known consider "Op e = OpAuthorityList" | "Op e = OpDisable" | "Op e = OpNodeSign"
    | "Op e = OpNodeRevoke" | "Op e = OpQuorumChange" | "Op e = OpAnchor" by blast
  then show ?thesis
  proof cases
    case 1
    with assms(1) authority_list show ?thesis
      by (simp add: simps validateAnchorKeys_iff Suc_le_eq unat_gt_0 not_less split: if_splits) blast
  next
    case 2
    with assms(1) disable show ?thesis by (simp add: simps) blast
  next
    case 3
    with assms(1) node_sign show ?thesis
      by (simp add: simps word_sless_alt word_sle_eq split: if_splits) (metis not_le)+
  next
    case 4
    with assms(1) node_revoke show ?thesis by (simp add: simps) blast
  next
    case 5
    with assms(1) quorum_change show ?thesis
      by (simp add: simps Suc_le_eq unat_gt_0 split: if_splits) (metis not_le)
  next
    case 6
    with assms(1) anchor show ?thesis
      by (simp add: simps split: if_splits option.splits) (metis not_le option.inject option.distinct(1))+
  qed
qed

lemma apply_entry_state_ok:
  assumes "apply_entry C st e None = Inr st'" and "snd (TierOf (Op e))" and "state_ok C st"
  shows "state_ok C st'"
  using assms(1,2)
proof (cases rule: apply_entryE)
  case (authority_list a)
  with assms(3) show ?thesis
    by (simp add: state_ok_def authlist.parse_iff authority_list_ok_def)
next
  case (node_sign n)
  with assms(3) show ?thesis
    by (simp add: state_ok_def nodesign.parse_iff node_sign_ok_def coverage_ok_def coverage_of_def)
qed (use assms(3) in \<open>simp_all add: state_ok_def\<close>)

text \<open>An accepted entry is a genesis, which replaces the key lists, or one of the other
  operations.\<close>

lemma verifyEntryE:
  assumes "verifyEntry C i prev st e = Inr (st', h)"
  obtains (genesis) g where "Seq e = 1" "Op e = OpGenesis" "ParseGenesis (Body e) = Inr g" "validateGenesis g = Inr ()"
    "st' = st\<lparr>st_Zone := g_Zone g, st_Roots := g_Roots g, st_K := g_K g, st_Authorities := g_Authorities g,
       st_Q := g_Q g, st_AnchorKeys := g_AnchorKeys g,
       st_lastTime := Time e, st_Head := h, st_HeadSeq := Seq e\<rparr>"
  | (other) st2 where "Seq e \<noteq> 1" "Op e \<noteq> OpGenesis" "snd (TierOf (Op e))" "apply_entry C st e None = Inr st2"
    "st' = st2\<lparr>st_lastTime := Time e, st_Head := h, st_HeadSeq := Seq e\<rparr>"
  using assms
proof (cases rule: verifyEntry_Inr)
  case (1 g st1 st2)
  show ?thesis
  proof (cases "Op e = OpGenesis")
    case True
    with 1(6) obtain g' where g: "g = Some g'" "ParseGenesis (Body e) = Inr g'" "validateGenesis g' = Inr ()"
      "st1 = st\<lparr>st_Roots := g_Roots g', st_K := g_K g'\<rparr>"
      by (auto simp: read_genesis_def in_entry_eq_Inr ebind_eq_Inr in_body_eq_Inr)
    show ?thesis by (rule genesis [of g']) (use g 1 True in \<open>auto simp: apply_entry_def\<close>)
  next
    case False
    with 1(6) have "g = None" "st1 = st" by (auto simp: read_genesis_def)
    with 1 False show ?thesis by (intro other [of st2]) auto
  qed
qed

definition covers_ok :: "crypto \<Rightarrow> State \<Rightarrow> bool" where
  "covers_ok C st \<longleftrightarrow> (\<forall>h c. st_Covered st h = Some c \<longrightarrow> coverage_ok C h c)"

lemma verified_state_ok: "verified C es st \<Longrightarrow> covers_ok C st \<and> (es \<noteq> [] \<longrightarrow> state_ok C st)"
proof (induction rule: verified.induct)
  case empty
  show ?case by (simp add: covers_ok_def State0_def)
next
  case (step es st e st' h)
  from step.hyps(2) show ?case
  proof (cases rule: verifyEntryE)
    case (genesis g)
    then have "state_ok C st'"
      using step.IH by (auto simp: state_ok_def covers_ok_def validateGenesis_iff genesis.parse_iff genesis_ok_def)
    then show ?thesis by (simp add: state_ok_def covers_ok_def)
  next
    case (other st2)
    have "es \<noteq> []"
      using other step.hyps(2) by (auto elim: verifyEntry_Inr)
    with step.IH other have "state_ok C st2" using apply_entry_state_ok by blast
    with other show ?thesis by (simp add: state_ok_def covers_ok_def)
  qed
qed

lemma verified_head: "verified C es st \<Longrightarrow> st_Head st = chain_tip C es \<and> st_HeadSeq st = word_of_nat (length es)"
proof (induction rule: verified.induct)
  case (step es st e st' h)
  from step.hyps(2) have "st_Head st' = h" "st_HeadSeq st' = Seq e"
    "h = sha512 C (entry_link (chain_tip C es) e)" "Seq e = word_of_nat (length es + 1)"
    by (auto elim!: verifyEntry_Inr)
  then show ?case by simp
qed (simp add: State0_def)

section \<open>Signature strength\<close>

text \<open>Every accepted entry carries as many valid signatures from distinct signers as its tier
  requires of the state before it.\<close>

lemma verifyEntry_signed:
  assumes "verifyEntry C i prev st e = Inr (st', h)" and "Op e \<noteq> OpGenesis"
  shows "unat (signing_threshold st e) \<le> length (Sigs e)" and "0 < unat (signing_threshold st e)"
    and "distinct (map SignerIndex (Sigs e))"
    and "list_all (sig_ok C (ChainHash (sha512 C) prev (Seq e) (Time e) (Op e) (Body e))
      (fst (TierOf (Op e))) (signing_keys st e) (signing_anchor_keys st e)) (Sigs e)"
    and "length (Sigs e) \<le> length (signing_keys st e) + length (signing_anchor_keys st e)"
proof -
  from assms(1) obtain g st1 where g: "read_genesis st e = Inr (g, st1)"
    and v: "verifySignatures C e h (fst (TierOf (Op e))) (signing_keys st1 e) (signing_anchor_keys st1 e)
      (signing_threshold st1 e) = Inr ()" and h: "h = sha512 C (entry_link prev e)"
    by (auto elim!: verifyEntry_Inr)
  from g assms(2) have [simp]: "st1 = st" by (auto simp: read_genesis_def)
  note v' = verifySignatures_count [OF v] v [unfolded verifySignatures_iff]
  show "unat (signing_threshold st e) \<le> length (Sigs e)" "0 < unat (signing_threshold st e)"
    "distinct (map SignerIndex (Sigs e))"
    "length (Sigs e) \<le> length (signing_keys st e) + length (signing_anchor_keys st e)" using v' by auto
  show "list_all (sig_ok C (ChainHash (sha512 C) prev (Seq e) (Time e) (Op e) (Body e))
      (fst (TierOf (Op e))) (signing_keys st e) (signing_anchor_keys st e)) (Sigs e)"
    using v' by (simp add: h ChainHash_def entry_link_def)
qed

section \<open>The history of a handle\<close>

text \<open>What an entry says about nodes, and the abstract state of one handle: its latest node-sign
  and the effective time of the latest node-revoke after it.\<close>

definition sign_of :: "Entry \<Rightarrow> NodeSign option" where
  "sign_of e = (if Op e = OpNodeSign then (case ParseNodeSign (Body e) of Inr n \<Rightarrow> Some n | Inl _ \<Rightarrow> None) else None)"

definition revoke_of :: "Entry \<Rightarrow> NodeRevoke option" where
  "revoke_of e = (if Op e = OpNodeRevoke then (case ParseNodeRevoke (Body e) of Inr r \<Rightarrow> Some r | Inl _ \<Rightarrow> None) else None)"

definition signs :: "string \<Rightarrow> Entry \<Rightarrow> bool" where
  "signs h e \<longleftrightarrow> (case sign_of e of Some n \<Rightarrow> ns_Handle n = h | None \<Rightarrow> False)"

definition revokes :: "string \<Rightarrow> Entry \<Rightarrow> bool" where
  "revokes h e \<longleftrightarrow> (case revoke_of e of Some r \<Rightarrow> nr_Handle r = h | None \<Rightarrow> False)"

definition last_revocation :: "string \<Rightarrow> Entry list \<Rightarrow> int64 option" where
  "last_revocation h es =
     (case rev (filter (revokes h) es) of [] \<Rightarrow> None | e # _ \<Rightarrow> map_option nr_Effective (revoke_of e))"

definition current :: "string \<Rightarrow> Entry list \<Rightarrow> (NodeSign \<times> int64 option) option" where
  "current h es = foldl (\<lambda>cur e.
     if signs h e then map_option (\<lambda>n. (n, None)) (sign_of e)
     else if revokes h e then map_option (\<lambda>(n, _). (n, map_option nr_Effective (revoke_of e))) cur
     else cur) None es"

lemma current_simps [simp]:
  "current h [] = None"
  "current h (es @ [e]) =
     (if signs h e then map_option (\<lambda>n. (n, None)) (sign_of e)
      else if revokes h e then map_option (\<lambda>(n, _). (n, map_option nr_Effective (revoke_of e))) (current h es)
      else current h es)"
  by (simp_all add: current_def)

lemma last_revocation_simps [simp]:
  "last_revocation h [] = None"
  "last_revocation h (es @ [e]) = (if revokes h e then map_option nr_Effective (revoke_of e) else last_revocation h es)"
  by (simp_all add: last_revocation_def)

lemma last_revocation_None: "last_revocation h es = None \<longleftrightarrow> \<not> list_ex (revokes h) es"
  by (induction es rule: rev_induct) (auto simp: revokes_def split: option.splits)

text \<open>The replay finds the last node-sign of the handle and the last revocation after it.\<close>

lemma current_Some:
  "current h es = Some (n, r) \<longleftrightarrow> (\<exists>pre e post. es = pre @ e # post \<and> sign_of e = Some n \<and> ns_Handle n = h
     \<and> \<not> list_ex (signs h) post \<and> r = last_revocation h post)"
proof (induction es arbitrary: r rule: rev_induct)
  case (snoc e es)
  let ?split = "\<lambda>xs r pre d post. xs = pre @ d # post \<and> sign_of d = Some n \<and> ns_Handle n = h
     \<and> \<not> list_ex (signs h) post \<and> r = last_revocation h post"
  have ext: "(\<exists>pre d post. ?split (es @ [e]) r pre d post) \<longleftrightarrow>
     (sign_of e = Some n \<and> ns_Handle n = h \<and> r = None) \<or>
     (\<not> signs h e \<and> (\<exists>pre d post. es = pre @ d # post \<and> sign_of d = Some n \<and> ns_Handle n = h
       \<and> \<not> list_ex (signs h) post \<and> r = last_revocation h (post @ [e])))" (is "?L \<longleftrightarrow> ?A \<or> ?B")
  proof
    assume ?L
    then obtain pre d post where *: "?split (es @ [e]) r pre d post" by blast
    then show "?A \<or> ?B" by (cases post rule: rev_cases) auto
  next
    assume "?A \<or> ?B"
    then show ?L
    proof
      assume ?A
      then show ?L by (intro exI [of _ es] exI [of _ e] exI [of _ "[]"]) simp
    next
      assume ?B
      then obtain pre d post where "es = pre @ d # post" "sign_of d = Some n" "ns_Handle n = h"
        "\<not> list_ex (signs h) post" "r = last_revocation h (post @ [e])" "\<not> signs h e" by blast
      then show ?L by (intro exI [of _ pre] exI [of _ d] exI [of _ "post @ [e]"]) simp
    qed
  qed
  show ?case
  proof (cases "signs h e")
    case True
    then obtain m where "sign_of e = Some m" "ns_Handle m = h" by (auto simp: signs_def split: option.splits)
    with True show ?thesis unfolding ext by auto
  next
    case False
    then have "\<not> (sign_of e = Some n \<and> ns_Handle n = h)" by (auto simp: signs_def)
    with False show ?thesis unfolding ext by (cases "revokes h e") (auto simp: snoc.IH)
  qed
qed simp

text \<open>Refinement: the verifier's maps are the replay, for every handle that has one.\<close>

definition handle_state :: "State \<Rightarrow> string \<Rightarrow> (NodeCoverage \<times> int64 option) option" where
  "handle_state st h = map_option (\<lambda>c. (c, st_Revoked st h)) (st_Covered st h)"

lemma op_reads:
  "Op e = OpNodeSign \<Longrightarrow> ParseNodeSign (Body e) = Inr n \<Longrightarrow> sign_of e = Some n"
  "Op e = OpNodeRevoke \<Longrightarrow> ParseNodeRevoke (Body e) = Inr r \<Longrightarrow> revoke_of e = Some r"
  "Op e \<noteq> OpNodeSign \<Longrightarrow> sign_of e = None"
  "Op e \<noteq> OpNodeRevoke \<Longrightarrow> revoke_of e = None"
  by (simp_all add: sign_of_def revoke_of_def)

lemma apply_entry_handle:
  assumes "apply_entry C st e None = Inr st2" and "snd (TierOf (Op e))"
    and "handle_state st h = map_option (\<lambda>(n, r). (coverage_of n, r)) (current h es)"
  shows "handle_state st2 h = map_option (\<lambda>(n, r). (coverage_of n, r)) (current h (es @ [e]))"
  using assms(1,2)
proof (cases rule: apply_entryE)
  case (node_sign n)
  then have "sign_of e = Some n" by (simp add: op_reads)
  then show ?thesis using assms(3) node_sign
    by (auto simp: handle_state_def signs_def revokes_def op_reads op_defs)
next
  case (node_revoke r)
  then have "revoke_of e = Some r" "sign_of e = None" by (simp_all add: op_reads op_defs)
  then show ?thesis using assms(3) node_revoke
    by (cases "current h es") (auto simp: handle_state_def signs_def revokes_def)
qed (use assms(3) in \<open>auto simp: handle_state_def signs_def revokes_def op_reads op_defs\<close>)

lemma verified_refines_history:
  "verified C es st \<Longrightarrow> handle_state st h = map_option (\<lambda>(n, r). (coverage_of n, r)) (current h es)"
proof (induction rule: verified.induct)
  case (step es st e st' hh)
  from step.hyps(2) show ?case
  proof (cases rule: verifyEntryE)
    case (genesis g)
    then have "\<not> signs h e" "\<not> revokes h e" by (simp_all add: signs_def revokes_def op_reads op_defs)
    with step.IH genesis show ?thesis by (simp add: handle_state_def)
  next
    case (other st2)
    from apply_entry_handle [OF other(4,3) step.IH] other(5) show ?thesis by (simp add: handle_state_def)
  qed
qed (simp add: handle_state_def State0_def)

section \<open>What never changes and what only grows\<close>

definition anchor_of :: "Entry \<Rightarrow> Anchor option" where
  "anchor_of e = (if Op e = OpAnchor then (case ParseAnchor (Body e) of Inr a \<Rightarrow> Some a | Inl _ \<Rightarrow> None) else None)"

definition anchors :: "Entry list \<Rightarrow> Anchor list" where
  "anchors es = List.map_filter anchor_of es"

definition disables :: "Entry \<Rightarrow> bool" where
  "disables e \<longleftrightarrow> Op e = OpDisable"

definition last_option :: "'a list \<Rightarrow> 'a option" where
  "last_option xs = (if xs = [] then None else Some (last xs))"

lemma anchors_simps [simp]:
  "anchors [] = []"
  "anchors (es @ [e]) = anchors es @ (case anchor_of e of Some a \<Rightarrow> [a] | None \<Rightarrow> [])"
  by (simp_all add: anchors_def List.map_filter_def split: option.splits)

lemma last_option_simps [simp]: "last_option [] = None" "last_option (xs @ [x]) = Some x"
  by (simp_all add: last_option_def)

lemma apply_entry_grows:
  assumes "apply_entry C st e None = Inr st2" and "snd (TierOf (Op e))"
  shows "st_Roots st2 = st_Roots st" and "st_K st2 = st_K st"
    and "st_Disabled st2 = (st_Disabled st \<or> disables e)"
    and "st_Anchor st2 = (case anchor_of e of Some a \<Rightarrow> Some a | None \<Rightarrow> st_Anchor st)"
    and "anchor_of e = Some a \<Longrightarrow> st_Anchor st = Some p \<Longrightarrow> an_AuditSeq p < an_AuditSeq a"
  using assms
  by (cases rule: apply_entryE; auto simp: anchor_of_def disables_def op_defs)+

lemma verified_grows:
  assumes "verified C es st"
  shows "st_Disabled st = list_ex disables es" and "st_Anchor st = last_option (anchors es)"
    and "sorted_wrt (\<lambda>a b. an_AuditSeq a < an_AuditSeq b) (anchors es)"
proof -
  have "st_Disabled st = list_ex disables es \<and> st_Anchor st = last_option (anchors es)
    \<and> sorted_wrt (\<lambda>a b. an_AuditSeq a < an_AuditSeq b) (anchors es)"
    using assms
  proof (induction rule: verified.induct)
    case (step es st e st' h)
    from step.hyps(2) show ?case
    proof (cases rule: verifyEntryE)
      case (genesis g)
      then have "anchor_of e = None" "\<not> disables e" by (simp_all add: anchor_of_def disables_def op_defs)
      with step.IH genesis show ?thesis by simp
    next
      case (other st2)
      note grows = apply_entry_grows [OF other(4,3)]
      have "an_AuditSeq b < an_AuditSeq a" if a: "anchor_of e = Some a" and b: "b \<in> set (anchors es)" for a b
      proof -
        from b obtain xs p where xs: "anchors es = xs @ [p]" by (cases "anchors es" rule: rev_cases) auto
        then have "an_AuditSeq p < an_AuditSeq a" using grows(5) [OF a] step.IH by simp
        moreover have "b = p \<or> an_AuditSeq b < an_AuditSeq p"
          using step.IH b xs by (auto simp: sorted_wrt_append)
        ultimately show ?thesis by auto
      qed
      with step.IH grows other(5) show ?thesis by (auto simp: sorted_wrt_append split: option.splits)
    qed
  qed (simp add: State0_def)
  then show "st_Disabled st = list_ex disables es" "st_Anchor st = last_option (anchors es)"
    "sorted_wrt (\<lambda>a b. an_AuditSeq a < an_AuditSeq b) (anchors es)" by auto
qed

text \<open>The roots and their threshold are those of the first entry, for as long as sequence numbers
  do not wrap.\<close>

lemma verified_roots:
  assumes "verified C (e # es) st" and "length (e # es) < 2 ^ 64"
  obtains g where "Op e = OpGenesis" and "ParseGenesis (Body e) = Inr g"
    and "st_Roots st = g_Roots g" and "st_K st = g_K g"
proof -
  have "\<exists>g. Op e = OpGenesis \<and> ParseGenesis (Body e) = Inr g \<and> st_Roots st = g_Roots g \<and> st_K st = g_K g"
    using assms
  proof (induction es arbitrary: st rule: rev_induct)
    case Nil
    from Nil(1) obtain h where "verifyEntry C 0 [] State0 e = Inr (st, h)"
      using verified_snoc [of C "[]" e st] by auto
    moreover from this have "Seq e = 1" by (auto elim: verifyEntry_Inr)
    ultimately show ?case by (cases rule: verifyEntryE) auto
  next
    case (snoc d es)
    from snoc.prems(1) obtain st0 h where st0: "verified C (e # es) st0"
      and d: "verifyEntry C (Suc (length es)) (chain_tip C (e # es)) st0 d = Inr (st, h)"
      using verified_snoc [of C "e # es" d st] by auto
    have "Seq d = word_of_nat (Suc (length es) + 1)" using d by (auto elim: verifyEntry_Inr)
    then have "unat (Seq d) = Suc (length es) + 1"
      using snoc.prems(2) by (simp only: unat_of_nat) simp
    then have ne: "Seq d \<noteq> 1" by auto
    from d show ?case
    proof (cases rule: verifyEntryE)
      case (other st2)
      with snoc.IH [OF st0] snoc.prems(2) apply_entry_grows(1,2) [OF other(4,3)] show ?thesis by auto
    qed (use ne in simp)
  qed
  with that show ?thesis by blast
qed

lemma verified_times:
  "verified C es st \<Longrightarrow> sorted_wrt (\<lambda>a b. a \<le>s b) (map Time es) \<and> (\<forall>e\<in>set es. Time e \<le>s st_lastTime st)"
proof (induction rule: verified.induct)
  case (step es st e st' h)
  from step.hyps(2) have "\<not> Time e <s st_lastTime st" and "st_lastTime st' = Time e"
    by (auto elim!: verifyEntry_Inr)
  with step.IH show ?case
    by (force simp: sorted_wrt_append word_sless_alt word_sle_eq)
qed simp

end
