(* ===== verification/Bedrock_Demo.thy ===== *)
theory Bedrock_Demo
  imports Bedrock_Semantics
begin

text \<open>A concrete log at which the hypotheses of the Bedrock statements hold: a genesis with three
  authorities, a quorum of two and one anchor key, a node-sign, two anchors by the anchor key, a
  revocation effective later and a disable by the root. The primitives are constant
  functions of the documented output widths.\<close>

definition demo_crypto :: crypto where
  "demo_crypto = \<lparr>sha512 = (\<lambda>_. replicate 64 (CHR ''h'')), sha256 = (\<lambda>_. replicate 32 (CHR ''k'')),
     newPublicKey = (\<lambda>_. True), mldsaVerify = (\<lambda>_ _ _ _. True)\<rparr>"

definition demo_key :: "char \<Rightarrow> bytes" where "demo_key c = replicate 2592 c"

definition demo_kem :: bytes where "demo_kem = replicate 1568 (CHR ''m'')"

definition demo_sig :: "uint32 \<Rightarrow> Signature" where
  "demo_sig i = \<lparr>SignerIndex = i, Sig = replicate 4627 (CHR ''s'')\<rparr>"

definition demo_genesis :: Genesis where
  "demo_genesis = \<lparr>g_Zone = ''zone'', g_Roots = [demo_key (CHR ''r'')], g_K = 1,
     g_Authorities = [demo_key (CHR ''a''), demo_key (CHR ''b''), demo_key (CHR ''c'')], g_Q = 2,
     g_AnchorKeys = [demo_key (CHR ''x'')]\<rparr>"

definition demo_handle :: string where "demo_handle = Handle demo_crypto (demo_key (CHR ''i''))"

definition demo_sign :: NodeSign where
  "demo_sign = \<lparr>ns_Handle = demo_handle, ns_IdentityKey = demo_key (CHR ''i''), ns_KemPublicKey = demo_kem,
     ns_NotBefore = 15, ns_Expiry = 500\<rparr>"

definition demo_revoke :: NodeRevoke where
  "demo_revoke = \<lparr>nr_Handle = demo_handle, nr_Reason = ''lost'', nr_Effective = 400\<rparr>"

definition demo_anchor :: "uint64 \<Rightarrow> Anchor" where
  "demo_anchor n = \<lparr>an_AuditHead = ''head'', an_AuditSeq = n\<rparr>"

definition demo_entry :: "uint64 \<Rightarrow> int64 \<Rightarrow> string \<Rightarrow> bytes \<Rightarrow> uint32 list \<Rightarrow> Entry" where
  "demo_entry seq t op body signers =
     \<lparr>Seq = seq, Time = t, Op = op, Body = body, Sigs = map demo_sig signers, Hash = []\<rparr>"

definition demo_log :: "Entry list" where
  "demo_log =
     [demo_entry 1 10 OpGenesis (genesis_body demo_genesis) [0],
      demo_entry 2 20 OpNodeSign (node_sign_body demo_sign) [0, 2],
      demo_entry 3 30 OpAnchor (anchor_body (demo_anchor 7)) [3],
      demo_entry 4 30 OpAnchor (anchor_body (demo_anchor 9)) [3],
      demo_entry 5 40 OpNodeRevoke (node_revoke_body demo_revoke) [1, 0],
      demo_entry 6 50 OpDisable (DisableBody ''end'') [0]]"

definition demo_state :: State where
  "demo_state = \<lparr>st_Zone = ''zone'', st_Roots = g_Roots demo_genesis, st_K = 1,
     st_Authorities = g_Authorities demo_genesis, st_Q = 2, st_AnchorKeys = g_AnchorKeys demo_genesis,
     st_Covered = [demo_handle \<mapsto> coverage_of demo_sign], st_Revoked = [demo_handle \<mapsto> 400],
     st_Disabled = True, st_DisabledReason = ''end'', st_Anchor = Some (demo_anchor 9),
     st_Head = replicate 64 (CHR ''h''), st_HeadSeq = 6, st_lastTime = 50\<rparr>"

lemma demo_sizes [simp]:
  "length (demo_key c) = 2592" "length demo_kem = 1568"
  "SignerIndex (demo_sig i) = i" "length (Sig (demo_sig i)) = 4627"
  by (simp_all add: demo_key_def demo_kem_def demo_sig_def)

lemma demo_key_inj [simp]: "demo_key c = demo_key d \<longleftrightarrow> c = d"
proof
  assume "demo_key c = demo_key d"
  then have "demo_key c ! 0 = demo_key d ! 0" by simp
  then show "c = d" by (simp add: demo_key_def)
qed simp

lemma length_demo_handle: "length demo_handle = 44"
  by (simp add: demo_handle_def Handle_def demo_crypto_def length_base64)

lemma demo_ok:
  "genesis_ok demo_genesis" "node_sign_ok demo_sign" "node_revoke_ok demo_revoke"
  "fits32 (an_AuditHead (demo_anchor n))" "fits32 ''end''"
proof -
  have h: "demo_handle \<noteq> []" "fits32 demo_handle" using length_demo_handle by auto
  show "genesis_ok demo_genesis" by (simp add: genesis_ok_def demo_genesis_def keys_ok_def size_defs)
  show "node_sign_ok demo_sign" using h by (simp add: node_sign_ok_def demo_sign_def size_defs)
  show "node_revoke_ok demo_revoke" using h by (simp add: node_revoke_ok_def demo_revoke_def)
qed (simp_all add: demo_anchor_def)

lemmas demo_parse [simp] = genesis.parse_build [OF demo_ok(1)] nodesign.parse_build [OF demo_ok(2)]
  noderevoke.parse_build [OF demo_ok(3)] anchor.parse_build [OF demo_ok(4)] disable.parse_build [OF demo_ok(5)]

lemma demo_hash [simp]: "ChainHash (sha512 demo_crypto) p s t op b = replicate 64 (CHR ''h'')"
  by (simp add: ChainHash_def demo_crypto_def)

lemma demo_verify [simp]:
  "length k = 2592 \<Longrightarrow> length s = 4627 \<Longrightarrow> VerifyRoot demo_crypto k m s"
  "length k = 2592 \<Longrightarrow> length s = 4627 \<Longrightarrow> VerifyAuthority demo_crypto k m s"
  "length k = 2592 \<Longrightarrow> length s = 4627 \<Longrightarrow> VerifyAnchorKey demo_crypto k m s"
  by (simp_all add: VerifyRoot_def VerifyAuthority_def VerifyAnchorKey_def demo_crypto_def size_defs)

lemma demo_genesis_valid: "validateGenesis demo_genesis = Inr ()"
  by (simp add: validateGenesis_iff demo_genesis_def)

lemma demo_fields [simp]:
  "g_Zone demo_genesis = ''zone''" "g_Roots demo_genesis = [demo_key (CHR ''r'')]" "g_K demo_genesis = 1"
  "g_Authorities demo_genesis = [demo_key (CHR ''a''), demo_key (CHR ''b''), demo_key (CHR ''c'')]"
  "g_Q demo_genesis = 2" "g_AnchorKeys demo_genesis = [demo_key (CHR ''x'')]"
  "ns_Handle demo_sign = demo_handle" "ns_IdentityKey demo_sign = demo_key (CHR ''i'')"
  "ns_KemPublicKey demo_sign = demo_kem" "ns_NotBefore demo_sign = 15" "ns_Expiry demo_sign = 500"
  "nr_Handle demo_revoke = demo_handle" "nr_Effective demo_revoke = 400" "an_AuditSeq (demo_anchor n) = n"
  "Handle demo_crypto (demo_key (CHR ''i'')) = demo_handle"
  by (simp_all add: demo_genesis_def demo_sign_def demo_revoke_def demo_anchor_def demo_handle_def)

lemmas demo_step_defs = demo_entry_def verifyEntry_def read_genesis_def apply_entry_def
  verifySignatures_def signing_keys_def signing_threshold_def signing_anchor_keys_def TierOf_def op_defs
  in_entry_def in_body_def demo_genesis_valid State0_def word_sless_alt word_sle_eq

lemma demo_log_verifies: "VerifyLog demo_crypto demo_log = Inr (demo_state, fill_hashes demo_crypto [] demo_log)"
proof -
  have "\<exists>es. VerifyLog demo_crypto demo_log = Inr (demo_state, es)"
    by (simp add: VerifyLog_def demo_log_def demo_step_defs Let_def demo_state_def fun_upd_def)
      (simp cong: if_cong)
  then show ?thesis by (auto simp: VerifyLog_iff)
qed

lemma demo_entry_encodable:
  assumes "length op \<le> 20" and "length body \<le> 100000" and "length signers \<le> 64"
  shows "encodable (demo_entry t n op body signers)" and "fits32 (Encode (demo_entry t n op body signers))"
proof -
  have "length (concat (map encSig (map demo_sig signers))) = length signers * 4635"
    by (induction signers) (simp_all add: encSig_def length_lpfield)
  with assms show "fits32 (Encode (demo_entry t n op body signers))"
    by (intro fits32_small) (simp add: Encode_eq demo_entry_def length_lpfield)
  show "encodable (demo_entry t n op body signers)"
    using assms by (simp add: encodable_def demo_entry_def list_all_iff)
qed

lemma length_demo_bodies:
  "length (genesis_body demo_genesis) \<le> 100000" "length (node_sign_body demo_sign) \<le> 100000"
  "length (anchor_body (demo_anchor n)) \<le> 100000" "length (node_revoke_body demo_revoke) \<le> 100000"
  "length (DisableBody ''end'') \<le> 100000"
proof -
  show "length (genesis_body demo_genesis) \<le> 100000"
    by (simp add: genesis_body_eq encKeys_def length_lpfield)
  show "length (node_sign_body demo_sign) \<le> 100000"
    by (simp add: node_sign_body_eq length_lpfield length_demo_handle)
  show "length (anchor_body (demo_anchor n)) \<le> 100000"
    by (simp add: anchor_body_eq length_lpfield demo_anchor_def)
  show "length (node_revoke_body demo_revoke) \<le> 100000"
    by (simp add: node_revoke_body_eq length_lpfield demo_revoke_def length_demo_handle)
  show "length (DisableBody ''end'') \<le> 100000"
    by (simp add: DisableBody_def codec_simps length_lpfield)
qed

lemma demo_log_encodable: "list_all (\<lambda>e. encodable e \<and> fits32 (Encode e)) demo_log"
  unfolding demo_log_def
  by (simp only: list.pred_inject, intro conjI TrueI demo_entry_encodable length_demo_bodies)
    (simp_all add: op_defs)

text \<open>The same history with a third authority's signature on the node-sign: other bytes, the same head.\<close>

definition demo_resigned :: "Entry list" where
  "demo_resigned = demo_log[1 := demo_entry 2 20 OpNodeSign (node_sign_body demo_sign) [0, 1, 2]]"

lemma demo_resigned_verifies: "VerifyLog demo_crypto demo_resigned = Inr (demo_state, fill_hashes demo_crypto [] demo_resigned)"
proof -
  have "\<exists>es. VerifyLog demo_crypto demo_resigned = Inr (demo_state, es)"
    by (simp add: VerifyLog_def demo_resigned_def demo_log_def demo_step_defs Let_def demo_state_def fun_upd_def)
      (simp cong: if_cong)
  then show ?thesis by (auto simp: VerifyLog_iff)
qed

lemma demo_resigned_decodes: "DecodeLog (EncodeLog demo_resigned) = Inr demo_resigned"
proof -
  have "list_all (\<lambda>e. encodable e \<and> fits32 (Encode e)) demo_resigned"
    unfolding demo_resigned_def demo_log_def
    by (simp only: list_update_code One_nat_def list.pred_inject, intro conjI TrueI demo_entry_encodable length_demo_bodies)
      (simp_all add: op_defs)
  moreover have "map (Hash_update (\<lambda>_. [])) demo_resigned = demo_resigned"
    by (simp add: demo_resigned_def demo_log_def demo_entry_def)
  moreover have "length demo_resigned \<le> 1048576" by (simp add: demo_resigned_def demo_log_def)
  ultimately show ?thesis using DecodeLog_EncodeLog [of demo_resigned] by simp
qed

lemma demo_resigned_neq: "demo_resigned \<noteq> demo_log"
proof
  assume "demo_resigned = demo_log"
  then have "length (Sigs (demo_resigned ! 1)) = length (Sigs (demo_log ! 1))" by simp
  then show False by (simp add: demo_resigned_def demo_log_def demo_entry_def)
qed

lemma demo_log_decodes: "DecodeLog (EncodeLog demo_log) = Inr demo_log"
proof -
  have "map (Hash_update (\<lambda>_. [])) demo_log = demo_log" by (simp add: demo_log_def demo_entry_def)
  moreover have "length demo_log \<le> 1048576" by (simp add: demo_log_def)
  ultimately show ?thesis using DecodeLog_EncodeLog [OF demo_log_encodable] by simp
qed

end
