(* ===== verification/Bedrock_Trust.thy ===== *)
theory Bedrock_Trust
  imports Bedrock_Demo
begin

text \<open>The properties of the Bedrock log format, its verifier and its coverage query, stated over the
  operations of \<^verbatim>\<open>bedrock/log.go\<close> and \<^verbatim>\<open>bedrock/verify.go\<close>.\<close>

section \<open>The coverage query on the log\<close>

lemma sless_not_sle: "\<not> a <s b \<longleftrightarrow> b \<le>s a" "\<not> b \<le>s a \<longleftrightarrow> a <s (b :: 'a::len word)"
  by (auto simp: word_sless_alt word_sle_eq)

lemma IsCovered_handle_state:
  "IsCovered st h ks t \<longleftrightarrow> (\<exists>c r. handle_state st h = Some (c, r) \<and> nc_KemPublicKey c = pk_KemPublicKey ks
     \<and> nc_NotBefore c \<le>s t \<and> (nc_Expiry c = 0 \<or> t <s nc_Expiry c) \<and> (\<forall>eff. r = Some eff \<longrightarrow> t <s eff))"
  by (auto simp: IsCovered_def handle_state_def sless_not_sle split: option.splits)

lemma IsCovered_current:
  assumes "verified C es st"
  shows "IsCovered st h ks t \<longleftrightarrow> (\<exists>n r. current h es = Some (n, r) \<and> ns_KemPublicKey n = pk_KemPublicKey ks
     \<and> ns_NotBefore n \<le>s t \<and> (ns_Expiry n = 0 \<or> t <s ns_Expiry n) \<and> (\<forall>eff. r = Some eff \<longrightarrow> t <s eff))"
  unfolding IsCovered_handle_state verified_refines_history [OF assms]
  by (auto simp: coverage_of_def)


lemma demo_covered: "IsCovered demo_state demo_handle \<lparr>pk_KemPublicKey = demo_kem\<rparr> 100"
  by (simp add: IsCovered_def demo_state_def coverage_of_def word_sless_alt word_sle_eq)


section \<open>Signature strength\<close>

lemma verified_later_nonempty:
  "verified C pre st0 \<Longrightarrow> verifyEntry C (length pre) p st0 e = Inr (st1, h) \<Longrightarrow> Op e \<noteq> OpGenesis \<Longrightarrow> pre \<noteq> []"
  by (auto elim!: verifyEntry_Inr)

lemma authority_entry_signed:
  assumes "verified C (pre @ e # post) st" and "fst (TierOf (Op e)) = TierAuthority" and "Op e \<noteq> OpAnchor"
  obtains st0 where "VerifyLog C pre = Inr (st0, fill_hashes C [] pre)" and "1 \<le> unat (st_Q st0)"
    and "unat (st_Q st0) \<le> card (SignerIndex ` set (Sigs e))"
    and "\<And>s. s \<in> set (Sigs e) \<Longrightarrow> unat (SignerIndex s) < length (st_Authorities st0) \<and>
      VerifyAuthority C (st_Authorities st0 ! unat (SignerIndex s)) (SigningInput (sha512 C) e (st_Head st0)) (Sig s)"
proof -
  from assms(1) obtain st0 st1 h where st0: "verified C pre st0"
    and e: "verifyEntry C (length pre) (chain_tip C pre) st0 e = Inr (st1, h)" by (rule verified_entryE)
  have op: "Op e \<noteq> OpGenesis" using assms(2) by (auto simp: TierOf_def)
  note sigs = verifyEntry_signed [OF e op]
  from op e st0 have "pre \<noteq> []" using verified_later_nonempty by blast
  with st0 have log: "VerifyLog C pre = Inr (st0, fill_hashes C [] pre)" by (simp add: VerifyLog_iff)
  have q: "signing_threshold st0 e = st_Q st0" and k: "signing_keys st0 e = st_Authorities st0"
    and a: "signing_anchor_keys st0 e = []"
    using assms(2,3) by (simp_all add: signing_threshold_def signing_keys_def signing_anchor_keys_def)
  have hd: "st_Head st0 = chain_tip C pre" using verified_head [OF st0] by simp
  show ?thesis
  proof (rule that [OF log])
    show "1 \<le> unat (st_Q st0)" using sigs(2) q by simp
    show "unat (st_Q st0) \<le> card (SignerIndex ` set (Sigs e))"
      using sigs(1) q distinct_card [OF sigs(3)] by simp
    show "unat (SignerIndex s) < length (st_Authorities st0) \<and>
      VerifyAuthority C (st_Authorities st0 ! unat (SignerIndex s)) (SigningInput (sha512 C) e (st_Head st0)) (Sig s)"
      if "s \<in> set (Sigs e)" for s
      using sigs(4) that assms(2)
      by (auto simp: list_all_iff k a hd sig_ok_def verify_by_def SigningInput_def split: if_splits)
  qed
qed

text \<open>C1. Coverage needs a quorum. If a handle with a KEM key is covered by a verified log, then the
  log contains a node-sign of that handle and that key, the handle is the one derived from the
  signed identity key, and the entry carries valid signatures over its chain hash, under the
  authority context, from at least \<^verbatim>\<open>Q\<close> distinct positions of the authority list, with \<^verbatim>\<open>Q\<close> and the
  list those in force just before the entry. No server-side input other than the log is involved.\<close>

theorem covered_handle_quorum_signed:
  assumes "VerifyLog C es = Inr (st, es')" and "IsCovered st h ks t"
  shows "\<exists>pre e post n st0. es = pre @ e # post \<and> VerifyLog C pre = Inr (st0, fill_hashes C [] pre)
     \<and> sign_of e = Some n \<and> ns_Handle n = h \<and> Handle C (ns_IdentityKey n) = h
     \<and> ns_KemPublicKey n = pk_KemPublicKey ks
     \<and> 1 \<le> unat (st_Q st0) \<and> unat (st_Q st0) \<le> card (SignerIndex ` set (Sigs e))
     \<and> (\<forall>s\<in>set (Sigs e). unat (SignerIndex s) < length (st_Authorities st0)
         \<and> VerifyAuthority C (st_Authorities st0 ! unat (SignerIndex s))
              (SigningInput (sha512 C) e (st_Head st0)) (Sig s))"
proof -
  have v: "verified C es st" using assms(1) by (simp add: VerifyLog_iff)
  from assms(2) obtain n r where n: "current h es = Some (n, r)" "ns_KemPublicKey n = pk_KemPublicKey ks"
    by (auto simp: IsCovered_current [OF v])
  then obtain pre e post where split: "es = pre @ e # post" "sign_of e = Some n" "ns_Handle n = h"
    by (auto simp: current_Some)
  then have op: "Op e = OpNodeSign" by (auto simp: sign_of_def split: if_splits)
  have "coverage_ok C h (coverage_of n)"
    using verified_state_ok [OF v] verified_refines_history [OF v, of h] n(1)
    by (auto simp: covers_ok_def handle_state_def)
  then have id: "Handle C (ns_IdentityKey n) = h" by (simp add: coverage_ok_def coverage_of_def)
  have "verified C (pre @ e # post) st" "fst (TierOf (Op e)) = TierAuthority" "Op e \<noteq> OpAnchor"
    using v split(1) op by (simp_all add: TierOf_def op_defs)
  then show ?thesis
    using authority_entry_signed [of C pre e post st] split n(2) id by metis
qed

theorem covered_handle_quorum_signed_witness:
  "\<exists>pre e post n st0. demo_log = pre @ e # post
     \<and> VerifyLog demo_crypto pre = Inr (st0, fill_hashes demo_crypto [] pre)
     \<and> sign_of e = Some n \<and> ns_Handle n = demo_handle \<and> Handle demo_crypto (ns_IdentityKey n) = demo_handle
     \<and> ns_KemPublicKey n = demo_kem
     \<and> 1 \<le> unat (st_Q st0) \<and> unat (st_Q st0) \<le> card (SignerIndex ` set (Sigs e))
     \<and> (\<forall>s\<in>set (Sigs e). unat (SignerIndex s) < length (st_Authorities st0)
         \<and> VerifyAuthority demo_crypto (st_Authorities st0 ! unat (SignerIndex s))
              (SigningInput (sha512 demo_crypto) e (st_Head st0)) (Sig s))"
  using covered_handle_quorum_signed [OF demo_log_verifies demo_covered] by simp

text \<open>C16. Root power stays with the genesis roots. Every authority-list and every disable entry of a
  verified log carries valid signatures over its chain hash, under the root context, from at
  least \<^verbatim>\<open>K\<close> distinct positions of the root list, where \<^verbatim>\<open>K\<close> and the list are those of the genesis
  entry: neither the authorities nor any later entry can change who may replace them. The bound
  on the length is that of the 64-bit sequence number.\<close>

theorem root_operations_root_signed:
  assumes "VerifyLog C (e0 # es) = Inr (st, es')" and "length (e0 # es) < 2 ^ 64"
    and "es = pre @ e # post" and "Op e = OpAuthorityList \<or> Op e = OpDisable"
  shows "\<exists>g. ParseGenesis (Body e0) = Inr g \<and> 1 \<le> unat (g_K g)
     \<and> unat (g_K g) \<le> card (SignerIndex ` set (Sigs e))
     \<and> (\<forall>s\<in>set (Sigs e). unat (SignerIndex s) < length (g_Roots g)
         \<and> VerifyRoot C (g_Roots g ! unat (SignerIndex s))
              (SigningInput (sha512 C) e (chain_tip C (e0 # pre))) (Sig s))"
proof -
  have v: "verified C ((e0 # pre) @ e # post) st" using assms(1,3) by (simp add: VerifyLog_iff)
  then obtain st0 st1 h where st0: "verified C (e0 # pre) st0"
    and e: "verifyEntry C (length (e0 # pre)) (chain_tip C (e0 # pre)) st0 e = Inr (st1, h)"
    by (rule verified_entryE)
  have "length (e0 # pre) < 2 ^ 64" using assms(2,3) by simp
  with st0 obtain g where g: "ParseGenesis (Body e0) = Inr g" "st_Roots st0 = g_Roots g" "st_K st0 = g_K g"
    by (rule verified_roots)
  have op: "Op e \<noteq> OpGenesis" "Op e \<noteq> OpAnchor" "fst (TierOf (Op e)) = TierRoot"
    using assms(4) by (auto simp: op_defs TierOf_def)
  note sigs = verifyEntry_signed [OF e op(1)]
  have k: "signing_threshold st0 e = g_K g" "signing_keys st0 e = g_Roots g" "signing_anchor_keys st0 e = []"
    using op g by (simp_all add: signing_threshold_def signing_keys_def signing_anchor_keys_def)
  have "\<forall>s\<in>set (Sigs e). unat (SignerIndex s) < length (g_Roots g)
    \<and> VerifyRoot C (g_Roots g ! unat (SignerIndex s)) (SigningInput (sha512 C) e (chain_tip C (e0 # pre))) (Sig s)"
    using sigs(4) by (auto simp: list_all_iff k op(3) sig_ok_def verify_by_def SigningInput_def split: if_splits)
  with g(1) sigs(1,2) distinct_card [OF sigs(3)] show ?thesis by (auto simp: k Suc_le_eq)
qed

theorem root_operations_root_signed_witness:
  "\<exists>g. ParseGenesis (Body (demo_log ! 0)) = Inr g \<and> 1 \<le> unat (g_K g)
     \<and> unat (g_K g) \<le> card (SignerIndex ` set (Sigs (demo_log ! 5)))
     \<and> (\<forall>s\<in>set (Sigs (demo_log ! 5)). unat (SignerIndex s) < length (g_Roots g)
         \<and> VerifyRoot demo_crypto (g_Roots g ! unat (SignerIndex s))
              (SigningInput (sha512 demo_crypto) (demo_log ! 5) (chain_tip demo_crypto (take 5 demo_log))) (Sig s))"
proof -
  have split: "demo_log = demo_log ! 0 # take 4 (tl demo_log) @ demo_log ! 5 # []" by (simp add: demo_log_def)
  have op: "Op (demo_log ! 5) = OpDisable" by (simp add: demo_log_def demo_entry_def)
  have "take 5 demo_log = demo_log ! 0 # take 4 (tl demo_log)" by (simp add: demo_log_def)
  moreover have "length demo_log < 2 ^ 64" by (simp add: demo_log_def)
  ultimately show ?thesis
    using root_operations_root_signed [of demo_crypto "demo_log ! 0" "take 4 (tl demo_log) @ demo_log ! 5 # []"
        demo_state "fill_hashes demo_crypto [] demo_log" "take 4 (tl demo_log)" "demo_log ! 5" "[]"]
      demo_log_verifies op split by metis
qed

text \<open>C40. The anchor tier signs anchors and nothing else. In a verified log every signature of an
  entry after the genesis that is not an anchor selects a key of the entry's own tier and
  verifies under that tier's context; the anchor keys are never consulted. An anchor has at
  least one signature, each is by an authority under the authority context or by an anchor key
  under the anchor context, and no anchor key is also an authority key.\<close>

theorem anchor_keys_only_anchor:
  assumes "VerifyLog C es = Inr (st, es')" and "es = pre @ e # post" and "Op e \<noteq> OpGenesis"
  shows "\<exists>st0. VerifyLog C pre = Inr (st0, fill_hashes C [] pre) \<and> Sigs e \<noteq> []
     \<and> set (st_AnchorKeys st0) \<inter> set (st_Authorities st0) = {}
     \<and> (\<forall>s\<in>set (Sigs e).
        let i = unat (SignerIndex s); n = length (signing_keys st0 e); m = SigningInput (sha512 C) e (st_Head st0) in
          if i < n then verify_by C (fst (TierOf (Op e))) (signing_keys st0 e ! i) m (Sig s)
          else Op e = OpAnchor \<and> i - n < length (st_AnchorKeys st0)
            \<and> VerifyAnchorKey C (st_AnchorKeys st0 ! (i - n)) m (Sig s))"
proof -
  have "verified C (pre @ e # post) st" using assms by (simp add: VerifyLog_iff)
  then obtain st0 st1 h where st0: "verified C pre st0"
    and e: "verifyEntry C (length pre) (chain_tip C pre) st0 e = Inr (st1, h)" by (rule verified_entryE)
  have pre: "pre \<noteq> []" using verified_later_nonempty [OF st0 e assms(3)] .
  have hd: "st_Head st0 = chain_tip C pre" using verified_head [OF st0] by simp
  note sigs = verifyEntry_signed [OF e assms(3)]
  have "Sigs e \<noteq> []" using sigs(1,2) by auto
  moreover have "set (st_AnchorKeys st0) \<inter> set (st_Authorities st0) = {}"
    using verified_state_ok [OF st0] pre by (simp add: state_ok_def)
  moreover have "VerifyLog C pre = Inr (st0, fill_hashes C [] pre)" using pre st0 by (simp add: VerifyLog_iff)
  ultimately show ?thesis
    using sigs(4) by (auto simp: list_all_iff sig_ok_def hd SigningInput_def Let_def signing_anchor_keys_def
        split: if_splits)
qed

theorem anchor_keys_only_anchor_witness:
  "\<exists>st0. VerifyLog demo_crypto (take 2 demo_log) = Inr (st0, fill_hashes demo_crypto [] (take 2 demo_log))
     \<and> Sigs (demo_log ! 2) \<noteq> [] \<and> set (st_AnchorKeys st0) \<inter> set (st_Authorities st0) = {}
     \<and> (\<forall>s\<in>set (Sigs (demo_log ! 2)).
        let i = unat (SignerIndex s); n = length (signing_keys st0 (demo_log ! 2));
            m = SigningInput (sha512 demo_crypto) (demo_log ! 2) (st_Head st0) in
          if i < n then verify_by demo_crypto (fst (TierOf (Op (demo_log ! 2)))) (signing_keys st0 (demo_log ! 2) ! i) m (Sig s)
          else Op (demo_log ! 2) = OpAnchor \<and> i - n < length (st_AnchorKeys st0)
            \<and> VerifyAnchorKey demo_crypto (st_AnchorKeys st0 ! (i - n)) m (Sig s))"
proof (rule anchor_keys_only_anchor [OF demo_log_verifies])
  show "demo_log = take 2 demo_log @ demo_log ! 2 # drop 3 demo_log" by (simp add: demo_log_def)
  show "Op (demo_log ! 2) \<noteq> OpGenesis" by (simp add: demo_log_def demo_entry_def op_defs)
qed

section \<open>Invariant, ordering and commitment\<close>

text \<open>C20. Every verified log establishes a well-formed state: both thresholds are reachable and
  positive, all keys have their tier's width, authorities and anchor keys together fit the 64
  signer indices and are disjoint, and every covered handle is derived from its identity key, has
  a KEM key of the right width and a non-empty window. The head and its sequence number are those
  of the last entry, and times never decrease.\<close>

theorem verified_log_invariant:
  assumes "VerifyLog C es = Inr (st, es')"
  shows "state_ok C st \<and> st_Head st = chain_tip C es \<and> st_HeadSeq st = word_of_nat (length es)
     \<and> sorted_wrt (\<lambda>a b. a \<le>s b) (map Time es) \<and> map Hash es' = map (\<lambda>i. chain_tip C (take (i + 1) es)) [0..<length es]"
proof -
  have v: "es \<noteq> []" "verified C es st" "es' = fill_hashes C [] es" using assms by (auto simp: VerifyLog_iff)
  have "map Hash (fill_hashes C p es) = map (\<lambda>i. chain_head entry_link (sha512 C) p (take (i + 1) es)) [0..<length es]" for p
    by (induction es arbitrary: p) (auto simp: upt_conv_Cons simp flip: map_Suc_upt simp del: upt_Suc)
  with v verified_state_ok [OF v(2)] verified_head [OF v(2)] verified_times [OF v(2)] show ?thesis by blast
qed

theorem verified_log_invariant_witness:
  "state_ok demo_crypto demo_state \<and> st_Head demo_state = chain_tip demo_crypto demo_log
     \<and> st_HeadSeq demo_state = word_of_nat (length demo_log)
     \<and> sorted_wrt (\<lambda>a b. a \<le>s b) (map Time demo_log)
     \<and> map Hash (fill_hashes demo_crypto [] demo_log)
        = map (\<lambda>i. chain_tip demo_crypto (take (i + 1) demo_log)) [0..<length demo_log]"
  by (rule verified_log_invariant [OF demo_log_verifies])

text \<open>Anchors only advance. The audit sequence numbers of the anchors of a verified log strictly
  increase, and the anchor the state reports is the last of them, so a truncated audit log
  cannot be re-anchored.\<close>

theorem anchors_strictly_increase:
  assumes "VerifyLog C es = Inr (st, es')"
  shows "sorted_wrt (\<lambda>a b. an_AuditSeq a < an_AuditSeq b) (anchors es) \<and> st_Anchor st = last_option (anchors es)"
  using assms verified_grows [of C es st] by (simp add: VerifyLog_iff)

theorem anchors_strictly_increase_witness:
  "sorted_wrt (\<lambda>a b. an_AuditSeq a < an_AuditSeq b) (anchors demo_log)
     \<and> st_Anchor demo_state = last_option (anchors demo_log)"
  by (rule anchors_strictly_increase [OF demo_log_verifies])

text \<open>Disabling is permanent: the state is disabled exactly when some entry of the log is a
  disable, so no entry appended later clears it.\<close>

theorem disabled_iff_logged:
  assumes "VerifyLog C es = Inr (st, es')"
  shows "st_Disabled st \<longleftrightarrow> list_ex disables es"
  using assms verified_grows [of C es st] by (simp add: VerifyLog_iff)

theorem disabled_iff_logged_witness: "st_Disabled demo_state \<longleftrightarrow> list_ex disables demo_log"
  by (rule disabled_iff_logged [OF demo_log_verifies])

text \<open>C13. The head commits to the history. If two received logs both decode and verify and report the
  same head, then they agree entry by entry on sequence number, time, operation and body;
  otherwise two of the hash inputs of these very logs are distinct and have the same SHA-512
  value. The hypothesis on the hash is its documented output length.\<close>

theorem head_commits_to_history:
  assumes "\<And>x. length (sha512 C x) = 64"
    and "DecodeLog b = Inr es" and "VerifyLog C es = Inr (st, hes)"
    and "DecodeLog b' = Inr es'" and "VerifyLog C es' = Inr (st', hes')"
    and "st_Head st = st_Head st'"
  shows "map signed_part es = map signed_part es' \<or> chains_collide entry_link (sha512 C) [] es es'"
proof (rule bchain.head_commits)
  show "fits32 (sha512 C x)" for x using assms(1) by simp
  show "sha512 C x \<noteq> []" for x using assms(1) [of x] by auto
  show "list_all hashable es" "list_all hashable es'"
    using DecodeLog_canonical(2) [OF assms(2)] DecodeLog_canonical(2) [OF assms(4)]
    by (simp_all add: list_all_iff hashable_def encodable_def)
  show "chain_tip C es = chain_tip C es'"
    using assms(3,5,6) verified_head [of C es st] verified_head [of C es' st'] by (simp add: VerifyLog_iff)
qed simp

theorem head_commits_to_history_witness:
  "EncodeLog demo_log \<noteq> EncodeLog demo_resigned
     \<and> DecodeLog (EncodeLog demo_log) = Inr demo_log \<and> DecodeLog (EncodeLog demo_resigned) = Inr demo_resigned
     \<and> (\<exists>st st' es es'. VerifyLog demo_crypto demo_log = Inr (st, es) \<and> VerifyLog demo_crypto demo_resigned = Inr (st', es')
          \<and> st_Head st = st_Head st')
     \<and> (map signed_part demo_log = map signed_part demo_resigned
        \<or> chains_collide entry_link (sha512 demo_crypto) [] demo_log demo_resigned)"
proof -
  have len: "length (sha512 demo_crypto x) = 64" for x by (simp add: demo_crypto_def)
  note commits = head_commits_to_history [OF len demo_log_decodes demo_log_verifies demo_resigned_decodes demo_resigned_verifies refl]
  have "EncodeLog demo_log \<noteq> EncodeLog demo_resigned"
    using demo_log_decodes demo_resigned_decodes demo_resigned_neq by (metis sum.inject(2))
  then show ?thesis using commits demo_log_decodes demo_resigned_decodes demo_log_verifies demo_resigned_verifies by blast
qed

section \<open>Formats\<close>

text \<open>C21. The wire format of a log is canonical in both directions. A log of encodable entries within
  the entry bound decodes from its encoding to the same entries with their hashes cleared; and
  whatever bytes decode are exactly the encoding of the entries returned, so no two distinct byte
  strings decode to the same log.\<close>

theorem log_codec_canonical:
  "(list_all (\<lambda>e. encodable e \<and> fits32 (Encode e)) es \<and> length es \<le> 1048576 \<longrightarrow>
      DecodeLog (EncodeLog es) = Inr (map (Hash_update (\<lambda>_. [])) es))
   \<and> (DecodeLog b = Inr ds \<longrightarrow> b = EncodeLog ds \<and> list_all encodable ds \<and> length ds \<le> 1048576)"
proof (intro conjI impI)
  assume "DecodeLog b = Inr ds"
  note canon = DecodeLog_canonical [OF this]
  show "b = EncodeLog ds" "length ds \<le> 1048576" by (rule canon)+
  show "list_all encodable ds" using canon(2) by (simp add: list_all_iff)
qed (use DecodeLog_EncodeLog in blast)

theorem log_codec_canonical_witness:
  "DecodeLog (EncodeLog demo_log) = Inr (map (Hash_update (\<lambda>_. [])) demo_log)
   \<and> list_all encodable demo_log \<and> length demo_log \<le> 1048576"
proof -
  have "length demo_log \<le> 1048576" by (simp add: demo_log_def)
  then show ?thesis
    using log_codec_canonical [of demo_log "EncodeLog demo_log" demo_log] demo_log_encodable demo_log_decodes
    by blast
qed

text \<open>C22. Every operation body has one byte representation: each parser accepts exactly the bytes its
  builder produces on values within the format's limits, and returns that value. So what an
  operator signs is what every verifier reads.\<close>

theorem body_codecs_canonical:
  "(ParseGenesis b = Inr g \<longleftrightarrow> genesis_ok g \<and> b = GenesisBody (g_Zone g) (g_Roots g) (g_K g) (g_Authorities g) (g_Q g) (g_AnchorKeys g))
   \<and> (ParseAuthorityList b = Inr a \<longleftrightarrow> authority_list_ok a \<and> b = AuthorityListBody (al_Authorities a) (al_Q a) (al_AnchorKeys a))
   \<and> (ParseNodeSign b = Inr n \<longleftrightarrow> node_sign_ok n
        \<and> b = NodeSignBody (ns_Handle n) (ns_IdentityKey n) (ns_KemPublicKey n) (ns_NotBefore n) (ns_Expiry n))
   \<and> (ParseNodeRevoke b = Inr r \<longleftrightarrow> node_revoke_ok r \<and> b = NodeRevokeBody (nr_Handle r) (nr_Reason r) (nr_Effective r))
   \<and> (ParseQuorumChange b = Inr q \<longleftrightarrow> b = QuorumChangeBody q)
   \<and> (ParseAnchor b = Inr an \<longleftrightarrow> fits32 (an_AuditHead an) \<and> b = AnchorBody (an_AuditHead an) (an_AuditSeq an))
   \<and> (ParseDisable b = Inr rs \<longleftrightarrow> fits32 rs \<and> b = DisableBody rs)"
  using genesis.parse_iff [of b g] authlist.parse_iff [of b a] nodesign.parse_iff [of b n]
    noderevoke.parse_iff [of b r] quorum.parse_iff [of b q] anchor.parse_iff [of b an] disable.parse_iff [of b rs]
  by (simp add: genesis_body_def authority_list_body_def node_sign_body_def node_revoke_body_def anchor_body_def)

section \<open>The list of peers that enforcement would drop\<close>

text \<open>The confirmation list is exact and does not depend on map iteration order: it is sorted,
  contains precisely the handles that the coverage query rejects, once each, and any other
  iteration order of the same peer map gives the same list.\<close>

theorem uncovered_exact:
  fixes peers :: "(string \<times> PeerKeys) list"
  assumes "distinct (map fst peers)"
  shows "sorted (Uncovered st peers t) \<and> distinct (Uncovered st peers t)
     \<and> set (Uncovered st peers t) = {h. \<exists>ks. (h, ks) \<in> set peers \<and> \<not> IsCovered st h ks t}
     \<and> (\<forall>peers'. mset peers' = mset peers \<longrightarrow> Uncovered st peers' t = Uncovered st peers t)"
proof -
  have d: "distinct (Uncovered st peers t)" using assms by (simp add: Uncovered_def distinct_map_filter)
  have set: "set (Uncovered st peers t) = {h. \<exists>ks. (h, ks) \<in> set peers \<and> \<not> IsCovered st h ks t}"
    by (force simp: Uncovered_def)
  have "Uncovered st peers' t = Uncovered st peers t" if "mset peers' = mset peers" for peers'
    unfolding Uncovered_def by (intro properties_for_sort) (simp_all add: that)
  then have perm: "\<forall>peers'. mset peers' = mset peers \<longrightarrow> Uncovered st peers' t = Uncovered st peers t" by blast
  have "sorted (Uncovered st peers t)" by (simp add: Uncovered_def)
  then show ?thesis by (intro conjI d set perm)
qed

theorem uncovered_exact_witness:
  "sorted (Uncovered demo_state [(demo_handle, \<lparr>pk_KemPublicKey = demo_kem\<rparr>)] 450)
     \<and> distinct (Uncovered demo_state [(demo_handle, \<lparr>pk_KemPublicKey = demo_kem\<rparr>)] 450)
     \<and> set (Uncovered demo_state [(demo_handle, \<lparr>pk_KemPublicKey = demo_kem\<rparr>)] 450) = {demo_handle}"
  using uncovered_exact [of "[(demo_handle, \<lparr>pk_KemPublicKey = demo_kem\<rparr>)]" demo_state 450]
  by (simp add: IsCovered_def demo_state_def coverage_of_def word_sless_alt word_sle_eq)

end
