(* ===== verification/Karst_Db.thy ===== *)
theory Karst_Db
  imports Karst_Prelude
begin

text \<open>The database as the stores use it. A table is the list of its rows in the order of insertion;
  queries filter and order it. The database can refuse any statement: every operation that
  reaches it takes a predicate \<^verbatim>\<open>F\<close> that says which statements fail, so that each error return
  of the source is a branch; \<^verbatim>\<open>At i s\<close> is statement \<^verbatim>\<open>s\<close> in the \<^verbatim>\<open>i\<close>-th round of a loop. A transaction whose body or commit fails leaves the store as it
  was.\<close>

datatype stmt = Select string | Insert string nat | Update string | Delete string | Commit | At nat stmt

type_synonym faults = "stmt \<Rightarrow> bool"

definition no_faults :: faults where "no_faults = (\<lambda>_. False)"

lemma no_fault: "no_faults s = False"
  by (simp add: no_faults_def)

definition transaction :: "faults \<Rightarrow> 'err \<Rightarrow> 's \<Rightarrow> ('s \<Rightarrow> 'err + ('s \<times> 'a)) \<Rightarrow> 's \<times> ('err + 'a)" where
  "transaction F err s body =
     (case body s of Inl e \<Rightarrow> (s, Inl e)
      | Inr (s', a) \<Rightarrow> if F Commit then (s, Inl err) else (s', Inr a))"

lemma transaction_error: "transaction F err s body = (s', Inl e) \<Longrightarrow> s' = s"
  by (auto simp: transaction_def split: sum.splits prod.splits if_splits)

lemma transaction_ok:
  "transaction F err s body = (s', Inr a) \<longleftrightarrow> \<not> F Commit \<and> body s = Inr (s', a)"
  by (auto simp: transaction_def split: sum.splits prod.splits if_splits)

text \<open>Instants are nanoseconds since the Unix epoch; the zero instant is the start of year 1.\<close>

type_synonym instant = int

definition zero_time :: instant where "zero_time = - 62135596800 * 1000000000"

abbreviation seconds :: "int \<Rightarrow> int" where "seconds n \<equiv> n * 1000000000"

text \<open>\<^verbatim>\<open>ORDER BY key ASC\<close>, and the first row of \<^verbatim>\<open>ORDER BY key DESC\<close>.\<close>

definition order_asc :: "('r \<Rightarrow> 'k::linorder) \<Rightarrow> 'r list \<Rightarrow> 'r list" where
  "order_asc k rows = sort_key k rows"

definition order_desc :: "('r \<Rightarrow> 'k::linorder) \<Rightarrow> 'r list \<Rightarrow> 'r list" where
  "order_desc k rows = rev (sort_key k rows)"

definition first_row :: "'r list \<Rightarrow> 'r option" where
  "first_row rows = (case rows of [] \<Rightarrow> None | r # _ \<Rightarrow> Some r)"

lemma first_row_simps [simp]: "first_row [] = None" "first_row (r # rows) = Some r"
  by (simp_all add: first_row_def)

lemma set_order [simp]: "set (order_asc k rows) = set rows" "set (order_desc k rows) = set rows"
  by (simp_all add: order_asc_def order_desc_def)

lemma length_order [simp]: "length (order_asc k rows) = length rows" "length (order_desc k rows) = length rows"
  by (simp_all add: order_asc_def order_desc_def)

lemma order_asc_sorted: "sorted (map k rows) \<Longrightarrow> order_asc k rows = rows"
  by (simp add: order_asc_def sort_key_id_if_sorted)

lemma order_desc_sorted: "sorted (map k rows) \<Longrightarrow> order_desc k rows = rev rows"
  by (simp add: order_desc_def sort_key_id_if_sorted)

lemma first_row_rev: "first_row (rev rows) = (if rows = [] then None else Some (last rows))"
  by (cases rows rule: rev_cases) (auto simp: first_row_def)

lemma first_row_Some: "first_row rows = Some r \<Longrightarrow> r \<in> set rows"
  by (cases rows) (auto simp: first_row_def)

lemma first_row_None [simp]: "first_row rows = None \<longleftrightarrow> rows = []"
  by (cases rows) (auto simp: first_row_def)

lemma first_row_desc_max:
  assumes "first_row (order_desc k rows) = Some r"
  shows "r \<in> set rows" and "q \<in> set rows \<Longrightarrow> k q \<le> k r"
proof -
  obtain xs where xs: "sort_key k rows = xs @ [r]"
    using assms by (cases "sort_key k rows" rule: rev_cases) (auto simp: first_row_def order_desc_def)
  have rows: "set rows = set (xs @ [r])" using arg_cong [OF xs, of set] by simp
  then show "r \<in> set rows" by simp
  have "sorted (map k (sort_key k rows))" by simp
  then have "sorted (map k (xs @ [r]))" by (simp only: xs)
  moreover assume "q \<in> set rows"
  ultimately show "k q \<le> k r" using rows by (auto simp: sorted_append)
qed

section \<open>Updates and unique inserts\<close>

text \<open>\<^verbatim>\<open>UPDATE ... SET f WHERE P\<close>, and \<^verbatim>\<open>INSERT ... ON CONFLICT DO NOTHING\<close> on a table with a primary key; the
  number of affected rows is that of the selected rows.\<close>

definition update_rows :: "('r \<Rightarrow> bool) \<Rightarrow> ('r \<Rightarrow> 'r) \<Rightarrow> 'r list \<Rightarrow> 'r list" where
  "update_rows P f rows = map (\<lambda>r. if P r then f r else r) rows"

definition affected :: "('r \<Rightarrow> bool) \<Rightarrow> 'r list \<Rightarrow> nat" where
  "affected P rows = length (filter P rows)"

definition has_key :: "('r \<Rightarrow> 'k) \<Rightarrow> 'k \<Rightarrow> 'r list \<Rightarrow> bool" where
  "has_key key k rows \<longleftrightarrow> list_ex (\<lambda>r. key r = k) rows"

definition insert_new :: "('r \<Rightarrow> 'k) \<Rightarrow> 'r \<Rightarrow> 'r list \<Rightarrow> 'r list" where
  "insert_new key r rows = (if has_key key (key r) rows then rows else rows @ [r])"

lemma has_key_iff: "has_key key k rows \<longleftrightarrow> k \<in> key ` set rows"
  by (auto simp: has_key_def list_ex_iff)

lemma set_update_rows: "set (update_rows P f rows) = (\<lambda>r. if P r then f r else r) ` set rows"
  by (simp add: update_rows_def)

lemma update_rows_keys:
  assumes "\<And>r. key (f r) = key r"
  shows "map key (update_rows P f rows) = map key rows"
  using assms by (simp add: update_rows_def)

lemma insert_new_distinct: "distinct (map key rows) \<Longrightarrow> distinct (map key (insert_new key r rows))"
  by (auto simp: insert_new_def has_key_iff)

lemma find_unique:
  assumes "distinct (map key rows)" and "r \<in> set rows" and "key r = k"
  shows "find (\<lambda>r. key r = k) rows = Some r"
  using assms by (induction rows) (auto simp: image_iff)

lemma find_has_key: "find (\<lambda>r. key r = k) rows = None \<longleftrightarrow> \<not> has_key key k rows"
  by (auto simp: find_None_iff has_key_def list_ex_iff)

lemma find_append: "find P (xs @ ys) = (case find P xs of None \<Rightarrow> find P ys | Some x \<Rightarrow> Some x)"
  by (induction xs) auto

lemma find_update_rows:
  assumes "\<And>r. key (f r) = key r"
  shows "find (\<lambda>r. key r = k) (update_rows P f rows) = map_option (\<lambda>r. if P r then f r else r) (find (\<lambda>r. key r = k) rows)"
  using assms by (induction rows) (auto simp: update_rows_def)

lemma find_insert_new:
  "find (\<lambda>r. key r = k) (insert_new key r rows) = (if key r = k \<and> find (\<lambda>r. key r = k) rows = None then Some r else find (\<lambda>r. key r = k) rows)"
  using find_has_key [of key k rows] by (auto simp: insert_new_def find_append split: option.splits)

lemma find_Some_in: "find P rows = Some r \<Longrightarrow> r \<in> set rows \<and> P r"
  by (auto simp: find_Some_iff)

section \<open>Append-only stores\<close>

text \<open>The contract of a store whose steps only ever append rows and keep an invariant, as long as the
  number of rows stays below the range of its sequence numbers.\<close>

locale append_only =
  fixes step :: "'s \<Rightarrow> 's \<Rightarrow> bool" and rows :: "'s \<Rightarrow> 'r list" and inv :: "'s \<Rightarrow> bool" and bound :: nat
  assumes step_length: "step s s' \<Longrightarrow> length (rows s) \<le> length (rows s')"
    and step_inv: "inv s \<Longrightarrow> step s s' \<Longrightarrow> length (rows s') < bound \<Longrightarrow> inv s' \<and> (\<exists>new. rows s' = rows s @ new)"
begin

lemma run_length: "step\<^sup>*\<^sup>* s s' \<Longrightarrow> length (rows s) \<le> length (rows s')"
  by (induction rule: rtranclp_induct) (auto dest: step_length)

lemma run_extends:
  assumes "step\<^sup>*\<^sup>* s s'" and "inv s" and "length (rows s') < bound"
  shows "inv s' \<and> (\<exists>new. rows s' = rows s @ new)"
  using assms(1,3)
proof (induction rule: rtranclp_induct)
  case (step s1 s2)
  then have "length (rows s1) < bound" using step_length by fastforce
  with step.IH have "inv s1" and ext: "\<exists>new. rows s1 = rows s @ new" by auto
  from step_inv [OF this(1) step.hyps(2) step.prems] ext show ?case by auto
qed (use assms(2) in simp)

lemma run_prefix:
  assumes "step\<^sup>*\<^sup>* s s1" and "step\<^sup>*\<^sup>* s1 s2" and "inv s" and "length (rows s2) < bound" and "n \<le> length (rows s1)"
  shows "take n (rows s2) = take n (rows s1)"
proof -
  have "length (rows s1) < bound" using run_length [OF assms(2)] assms(4) by simp
  with run_extends [OF assms(1,3)] have "inv s1" by simp
  from run_extends [OF assms(2) this assms(4)] assms(5) show ?thesis by auto
qed

end

end
