(* ===== verification/Audit_Log.thy ===== *)
theory Audit_Log
  imports Hash_Chain Karst_Db
begin

text \<open>The audit log: \<^verbatim>\<open>audit/audit.go\<close>. A single hash chain over all accounts, stored one row per
  entry, with the outbox of deliveries beside it. SHA-256 is the parameter \<^verbatim>\<open>H\<close>. The column
  precision of timestamps is the parameter \<^verbatim>\<open>col\<close>, the value a stored instant reads back as: the
  hash covers nanoseconds, and what the database keeps of them decides whether a written log
  verifies.\<close>

section \<open>Rows\<close>

definition chainLabel :: bytes where "chainLabel = ''karst-audit-v1''"

record AuditEntry =
  ae_Seq :: uint64
  ae_CreatedAt :: int64
  ae_AccountID :: string
  ae_Actor :: string
  ae_Action :: string
  ae_Target :: string
  ae_Detail :: string
  ae_PrevHash :: string
  ae_Hash :: string

record Sink =
  sk_AccountID :: string
  sk_ID :: string
  sk_Kind :: string
  sk_Endpoint :: string
  sk_CreatedAt :: int64

record Delivery =
  dl_AccountID :: string
  dl_SinkID :: string
  dl_Sequence :: uint64
  dl_Attempts :: uint32
  dl_NextAttempt :: int
  dl_DeliveredAt :: "int option"
  dl_LastError :: string

record audit_db =
  au_log :: "AuditEntry list"
  au_sinks :: "Sink list"
  au_deliveries :: "Delivery list"

datatype audit_error =
    ErrNoAccount
  | ErrEmpty
  | DbError stmt
  | GapAt uint64 uint64
  | NotSuccessor uint64
  | Modified uint64
  | TruncatedPast uint64
  | AnchorMismatch uint64
  | NilDeliverer
  | LimitNotPositive

section \<open>The chain\<close>

definition writeField :: "bytes \<Rightarrow> bytes \<Rightarrow> bytes" where
  "writeField h field = h @ putUint32 (word_of_nat (length field)) @ field"

definition audit_link :: "string \<Rightarrow> AuditEntry \<Rightarrow> bytes" where
  "audit_link prev e =
     (let h = chainLabel;
          h = writeField h prev;
          h = writeField h (putUint64 (ae_Seq e));
          h = writeField h (putUint64 (ae_CreatedAt e));
          h = writeField h (ae_AccountID e);
          h = writeField h (ae_Actor e);
          h = writeField h (ae_Action e);
          h = writeField h (ae_Target e)
      in writeField h (ae_Detail e))"

definition chainHash :: "(bytes \<Rightarrow> bytes) \<Rightarrow> string \<Rightarrow> AuditEntry \<Rightarrow> string" where
  "chainHash H prev e = base64 (H (audit_link prev e))"

definition audit_core :: "AuditEntry \<Rightarrow> uint64 \<times> int64 \<times> string \<times> string \<times> string \<times> string \<times> string" where
  "audit_core e = (ae_Seq e, ae_CreatedAt e, ae_AccountID e, ae_Actor e, ae_Action e, ae_Target e, ae_Detail e)"

definition audit_fits :: "AuditEntry \<Rightarrow> bool" where
  "audit_fits e \<longleftrightarrow> fits32 (ae_AccountID e) \<and> fits32 (ae_Actor e) \<and> fits32 (ae_Action e)
     \<and> fits32 (ae_Target e) \<and> fits32 (ae_Detail e)"

lemma writeField_eq: "writeField h f = h @ lpfield f"
  by (simp add: writeField_def lpfield_def)

interpretation achain: chain_link audit_link audit_core audit_fits
proof (unfold_locales, goal_cases)
  case (1 p p' e e')
  then show ?case
    by (auto simp: audit_link_def Let_def writeField_eq audit_core_def audit_fits_def
        lp.append_eq_iff lp.enc_eq_iff)
next
  case (2 e e' p)
  then show ?case by (simp add: audit_link_def audit_core_def)
qed

abbreviation audit_tip :: "(bytes \<Rightarrow> bytes) \<Rightarrow> AuditEntry list \<Rightarrow> string" where
  "audit_tip H es \<equiv> chain_head audit_link (\<lambda>x. base64 (H x)) [] es"

section \<open>Operations\<close>

text \<open>The account in the request context; the empty string when there is none.\<close>

definition accountFromContext :: "string \<Rightarrow> audit_error + string" where
  "accountFromContext acct = (if acct = [] then Inl ErrNoAccount else Inr acct)"

definition delivery_key :: "Delivery \<Rightarrow> string \<times> string \<times> uint64" where
  "delivery_key d = (dl_AccountID d, dl_SinkID d, dl_Sequence d)"

fun queueSinks :: "faults \<Rightarrow> string \<Rightarrow> uint64 \<Rightarrow> int \<Rightarrow> nat \<Rightarrow> Sink list \<Rightarrow> Delivery list
    \<Rightarrow> Delivery list \<times> (audit_error + unit)" where
  "queueSinks F acct seq now i [] ds = (ds, Inr ())"
| "queueSinks F acct seq now i (s # ss) ds =
     (let d = \<lparr>dl_AccountID = acct, dl_SinkID = sk_ID s, dl_Sequence = seq, dl_Attempts = 0,
               dl_NextAttempt = now, dl_DeliveredAt = None, dl_LastError = []\<rparr>
      in if F (Insert ''deliveries'' i) then (ds, Inl (DbError (Insert ''deliveries'' i)))
         else queueSinks F acct seq now (i + 1) ss
           (if list_ex (\<lambda>x. delivery_key x = delivery_key d) ds then ds else ds @ [d]))"

definition enqueueDeliveries :: "faults \<Rightarrow> string \<Rightarrow> int64 \<Rightarrow> AuditEntry \<Rightarrow> audit_db \<Rightarrow> audit_db \<times> (audit_error + unit)" where
  "enqueueDeliveries F ctx now e db =
     (case accountFromContext ctx of Inl _ \<Rightarrow> (db, Inr ())
      | Inr acct \<Rightarrow>
        if F (Select ''sinks'') then (db, Inl (DbError (Select ''sinks'')))
        else let (ds, r) = queueSinks F acct (ae_Seq e) (sint now) 0
                   (filter (\<lambda>s. sk_AccountID s = acct) (au_sinks db)) (au_deliveries db)
             in (db\<lparr>au_deliveries := ds\<rparr>, r))"

text \<open>The result of an append: no entry, an entry that is durable although its deliveries could not
  be queued, or an entry.\<close>

datatype append_result = NotAppended audit_error | NotQueued AuditEntry audit_error | Appended AuditEntry

definition append_tx :: "faults \<Rightarrow> (bytes \<Rightarrow> bytes) \<Rightarrow> (int64 \<Rightarrow> int64) \<Rightarrow> int64 \<Rightarrow> string \<Rightarrow> string \<Rightarrow> string
    \<Rightarrow> string \<Rightarrow> string \<Rightarrow> audit_db \<Rightarrow> audit_error + (audit_db \<times> AuditEntry)" where
  "append_tx F H col now accountID actor action target detail db =
     (if F (Select ''audit'') then Inl (DbError (Select ''audit''))
      else let (lastSeq, lastHash) =
                 (case first_row (order_desc ae_Seq (au_log db)) of Some l \<Rightarrow> (ae_Seq l, ae_Hash l) | None \<Rightarrow> (0, []));
               e = \<lparr>ae_Seq = lastSeq + 1, ae_CreatedAt = now, ae_AccountID = accountID, ae_Actor = actor,
                    ae_Action = action, ae_Target = target, ae_Detail = detail,
                    ae_PrevHash = lastHash, ae_Hash = []\<rparr>;
               e = e\<lparr>ae_Hash := chainHash H lastHash e\<rparr>
      in if F (Insert ''audit'' 0) \<or> list_ex (\<lambda>r. ae_Seq r = ae_Seq e) (au_log db)
         then Inl (DbError (Insert ''audit'' 0))
         else Inr (db\<lparr>au_log := au_log db @ [e\<lparr>ae_CreatedAt := col now\<rparr>]\<rparr>, e))"

definition Append :: "faults \<Rightarrow> (bytes \<Rightarrow> bytes) \<Rightarrow> (int64 \<Rightarrow> int64) \<Rightarrow> int64 \<Rightarrow> string \<Rightarrow> string \<Rightarrow> string
    \<Rightarrow> string \<Rightarrow> string \<Rightarrow> audit_db \<Rightarrow> audit_db \<times> append_result" where
  "Append F H col now ctx actor action target detail db =
     (let accountID = (case accountFromContext ctx of Inr a \<Rightarrow> a | Inl _ \<Rightarrow> []);
          (db1, r) = transaction F (DbError Commit) db
             (append_tx F H col now accountID actor action target detail)
      in case r of Inl err \<Rightarrow> (db1, NotAppended err)
         | Inr e \<Rightarrow>
           (let (db2, q) = enqueueDeliveries F ctx now e db1
            in case q of Inl err \<Rightarrow> (db2, NotQueued e err) | Inr _ \<Rightarrow> (db2, Appended e)))"

definition Head :: "faults \<Rightarrow> audit_db \<Rightarrow> audit_error + (uint64 \<times> string)" where
  "Head F db =
     (if F (Select ''audit'') then Inl (DbError (Select ''audit''))
      else case first_row (order_desc ae_Seq (au_log db)) of None \<Rightarrow> Inl ErrEmpty
        | Some l \<Rightarrow> Inr (ae_Seq l, ae_Hash l))"

definition AccountHead :: "faults \<Rightarrow> string \<Rightarrow> audit_db \<Rightarrow> audit_error + (uint64 \<times> string)" where
  "AccountHead F accountID db =
     (if F (Select ''audit'') then Inl (DbError (Select ''audit''))
      else case first_row (order_desc ae_Seq (filter (\<lambda>e. ae_AccountID e = accountID) (au_log db))) of
        None \<Rightarrow> Inl ErrEmpty | Some l \<Rightarrow> Inr (ae_Seq l, ae_Hash l))"

definition CountSince :: "faults \<Rightarrow> string \<Rightarrow> uint64 \<Rightarrow> audit_db \<Rightarrow> audit_error + uint64" where
  "CountSince F accountID sinceSeq db =
     (if F (Select ''audit'') then Inl (DbError (Select ''audit''))
      else Inr (word_of_nat (length (filter (\<lambda>e. ae_AccountID e = accountID \<and> ae_Seq e > sinceSeq) (au_log db)))))"

fun verifyRows :: "(bytes \<Rightarrow> bytes) \<Rightarrow> string \<Rightarrow> uint64 \<Rightarrow> AuditEntry list \<Rightarrow> (uint64 \<times> audit_error) + unit" where
  "verifyRows H prev expectSeq [] = Inr ()"
| "verifyRows H prev expectSeq (e # es) =
     (if ae_Seq e \<noteq> expectSeq then Inl (ae_Seq e, GapAt expectSeq (ae_Seq e))
      else if ae_PrevHash e \<noteq> prev then Inl (ae_Seq e, NotSuccessor (ae_Seq e))
      else if chainHash H prev e \<noteq> ae_Hash e then Inl (ae_Seq e, Modified (ae_Seq e))
      else verifyRows H (ae_Hash e) (expectSeq + 1) es)"

definition Verify :: "faults \<Rightarrow> (bytes \<Rightarrow> bytes) \<Rightarrow> audit_db \<Rightarrow> (uint64 \<times> audit_error) + unit" where
  "Verify F H db =
     (if F (Select ''audit'') then Inl (0, DbError (Select ''audit''))
      else verifyRows H [] 1 (order_asc ae_Seq (au_log db)))"

definition VerifyFrom :: "faults \<Rightarrow> (bytes \<Rightarrow> bytes) \<Rightarrow> uint64 \<Rightarrow> string \<Rightarrow> audit_db \<Rightarrow> (uint64 \<times> audit_error) + unit" where
  "VerifyFrom F H anchorSeq anchorHash db =
     ebind (Verify F H db) (\<lambda>_.
     if F (Select ''anchor'') then Inl (anchorSeq, DbError (Select ''anchor''))
     else case first_row (filter (\<lambda>e. ae_Seq e = anchorSeq) (au_log db)) of
         None \<Rightarrow> Inl (anchorSeq, TruncatedPast anchorSeq)
       | Some e \<Rightarrow> if ae_Hash e \<noteq> anchorHash then Inl (anchorSeq, AnchorMismatch anchorSeq) else Inr ())"

section \<open>Listing\<close>

definition page :: "nat \<Rightarrow> nat \<Rightarrow> 'r list \<Rightarrow> 'r list" where
  "page offset limit rows = take limit (drop offset rows)"

definition audit_filter :: "string \<Rightarrow> string \<Rightarrow> AuditEntry \<Rightarrow> bool" where
  "audit_filter actor action e \<longleftrightarrow> (actor = [] \<or> ae_Actor e = actor) \<and> (action = [] \<or> ae_Action e = action)"

definition ListFiltered :: "faults \<Rightarrow> string \<Rightarrow> string \<Rightarrow> nat \<Rightarrow> nat \<Rightarrow> audit_db \<Rightarrow> audit_error + AuditEntry list" where
  "ListFiltered F actor action offset limit db =
     (if F (Select ''audit'') then Inl (DbError (Select ''audit''))
      else Inr (page offset limit (order_desc ae_Seq (filter (audit_filter actor action) (au_log db)))))"

definition ListAll :: "faults \<Rightarrow> nat \<Rightarrow> nat \<Rightarrow> audit_db \<Rightarrow> audit_error + AuditEntry list" where
  "ListAll F offset limit db = ListFiltered F [] [] offset limit db"

definition ListFilteredForAccount :: "faults \<Rightarrow> string \<Rightarrow> string \<Rightarrow> string \<Rightarrow> nat \<Rightarrow> nat \<Rightarrow> audit_db
    \<Rightarrow> audit_error + AuditEntry list" where
  "ListFilteredForAccount F accountID actor action offset limit db =
     (if F (Select ''audit'') then Inl (DbError (Select ''audit''))
      else Inr (page offset limit (order_desc ae_Seq
        (filter (\<lambda>e. ae_AccountID e = accountID \<and> audit_filter actor action e) (au_log db)))))"

definition ListBefore :: "faults \<Rightarrow> uint64 \<Rightarrow> nat \<Rightarrow> audit_db \<Rightarrow> audit_error + AuditEntry list" where
  "ListBefore F before limit db =
     (if F (Select ''audit'') then Inl (DbError (Select ''audit''))
      else Inr (take limit (order_desc ae_Seq (filter (\<lambda>e. before = 0 \<or> ae_Seq e < before) (au_log db)))))"

definition ListBeforeForAccount :: "faults \<Rightarrow> string \<Rightarrow> uint64 \<Rightarrow> nat \<Rightarrow> audit_db \<Rightarrow> audit_error + AuditEntry list" where
  "ListBeforeForAccount F accountID before limit db =
     (if F (Select ''audit'') then Inl (DbError (Select ''audit''))
      else Inr (take limit (order_desc ae_Seq
        (filter (\<lambda>e. ae_AccountID e = accountID \<and> (before = 0 \<or> ae_Seq e < before)) (au_log db)))))"

section \<open>Sinks\<close>

definition ListSinks :: "faults \<Rightarrow> string \<Rightarrow> audit_db \<Rightarrow> audit_error + Sink list" where
  "ListSinks F ctx db =
     ebind (accountFromContext ctx) (\<lambda>acct.
     if F (Select ''sinks'') then Inl (DbError (Select ''sinks''))
     else Inr (order_asc (\<lambda>s. sint (sk_CreatedAt s)) (filter (\<lambda>s. sk_AccountID s = acct) (au_sinks db))))"

definition RemoveSink :: "faults \<Rightarrow> string \<Rightarrow> string \<Rightarrow> audit_db \<Rightarrow> audit_db \<times> (audit_error + unit)" where
  "RemoveSink F ctx i db =
     (case accountFromContext ctx of Inl err \<Rightarrow> (db, Inl err)
      | Inr acct \<Rightarrow> transaction F (DbError Commit) db (\<lambda>db.
          if F (Delete ''deliveries'') then Inl (DbError (Delete ''deliveries''))
          else let db = db\<lparr>au_deliveries := filter (\<lambda>d. \<not> (dl_AccountID d = acct \<and> dl_SinkID d = i)) (au_deliveries db)\<rparr>
          in if F (Delete ''sinks'') then Inl (DbError (Delete ''sinks''))
          else Inr (db\<lparr>au_sinks := filter (\<lambda>s. \<not> (sk_AccountID s = acct \<and> sk_ID s = i)) (au_sinks db)\<rparr>, ())))"

section \<open>Delivery\<close>

text \<open>Instants are nanoseconds. Sending an entry to a sink is the parameter \<^verbatim>\<open>deliver\<close>, the error text
  if it failed.\<close>

definition min_u32 :: "uint32 \<Rightarrow> uint32 \<Rightarrow> uint32" where
  "min_u32 left right = (if left < right then left else right)"

definition backoff :: "uint32 \<Rightarrow> int" where
  "backoff attempts =
     (let b = 1000000000 * 2 ^ unat (min_u32 (attempts - 1) 10)
      in if b > 3600000000000 then 3600000000000 else b)"

definition update_delivery :: "Delivery \<Rightarrow> (Delivery \<Rightarrow> Delivery) \<Rightarrow> Delivery list \<Rightarrow> Delivery list" where
  "update_delivery item f ds =
     map (\<lambda>d. if delivery_key d = delivery_key item \<and> dl_DeliveredAt d = None then f d else d) ds"

definition failDelivery :: "faults \<Rightarrow> Delivery \<Rightarrow> string \<Rightarrow> int \<Rightarrow> audit_db \<Rightarrow> audit_db \<times> (audit_error + unit)" where
  "failDelivery F item cause now db =
     (let attempts = dl_Attempts item + 1
      in if F (Update ''deliveries'') then (db, Inl (DbError (Update ''deliveries'')))
         else (db\<lparr>au_deliveries := update_delivery item (\<lambda>d. d\<lparr>dl_Attempts := attempts,
                 dl_NextAttempt := now + backoff attempts, dl_LastError := cause\<rparr>) (au_deliveries db)\<rparr>, Inr ()))"

definition deliver_one :: "faults \<Rightarrow> (Sink \<Rightarrow> AuditEntry \<Rightarrow> string option) \<Rightarrow> int \<Rightarrow> int \<Rightarrow> Delivery \<Rightarrow> audit_db
    \<Rightarrow> audit_db \<times> (audit_error + bool)" where
  "deliver_one F deliver now done_at item db =
     (let failed = (\<lambda>cause. let (db', r) = failDelivery F item cause now db in (db', map_sum id (\<lambda>_. False) r))
      in case (if F (Select ''sink'') then None else first_row (filter (\<lambda>s. sk_AccountID s = dl_AccountID item
               \<and> sk_ID s = dl_SinkID item) (au_sinks db))) of
           None \<Rightarrow> failed ''load sink''
         | Some sink \<Rightarrow>
      (case (if F (Select ''entry'') then None else first_row (filter (\<lambda>e. ae_Seq e = dl_Sequence item) (au_log db))) of
           None \<Rightarrow> failed ''load entry''
         | Some entry \<Rightarrow>
      (case deliver sink entry of
           Some err \<Rightarrow> failed err
         | None \<Rightarrow>
             if F (Update ''delivered'') then (db, Inl (DbError (Update ''delivered'')))
             else (db\<lparr>au_deliveries := update_delivery item (\<lambda>d. d\<lparr>dl_DeliveredAt := Some done_at,
                     dl_LastError := []\<rparr>) (au_deliveries db)\<rparr>, Inr True))))"

fun deliverLoop :: "faults \<Rightarrow> (Sink \<Rightarrow> AuditEntry \<Rightarrow> string option) \<Rightarrow> int \<Rightarrow> int \<Rightarrow> nat \<Rightarrow> nat \<Rightarrow> Delivery list \<Rightarrow> audit_db
    \<Rightarrow> audit_db \<times> nat \<times> audit_error option" where
  "deliverLoop F deliver now done_at i n [] db = (db, n, None)"
| "deliverLoop F deliver now done_at i n (item # items) db =
     (case deliver_one (\<lambda>s. F (At i s)) deliver now done_at item db of
        (db', Inl err) \<Rightarrow> (db', n, Some err)
      | (db', Inr ok) \<Rightarrow> deliverLoop F deliver now done_at (i + 1) (if ok then n + 1 else n) items db')"

definition due :: "int \<Rightarrow> nat \<Rightarrow> audit_db \<Rightarrow> Delivery list" where
  "due now limit db = take limit (order_asc dl_NextAttempt
     (filter (\<lambda>d. dl_DeliveredAt d = None \<and> dl_NextAttempt d \<le> now) (au_deliveries db)))"

definition DeliverPendingAt :: "faults \<Rightarrow> (Sink \<Rightarrow> AuditEntry \<Rightarrow> string option) option \<Rightarrow> int \<Rightarrow> int \<Rightarrow> int \<Rightarrow> audit_db
    \<Rightarrow> audit_db \<times> nat \<times> audit_error option" where
  "DeliverPendingAt F deliverer limit now done_at db =
     (case deliverer of None \<Rightarrow> (db, 0, Some NilDeliverer)
      | Some deliver \<Rightarrow>
        if limit \<le> 0 then (db, 0, Some LimitNotPositive)
        else if F (Select ''deliveries'') then (db, 0, Some (DbError (Select ''deliveries'')))
        else deliverLoop F deliver now done_at 0 0 (due now (nat limit) db) db)"

end
