(* ===== verification/Audit_Trust.thy ===== *)
theory Audit_Trust
  imports Audit_Log
begin

text \<open>What the audit log guarantees: every operation keeps the chain verifying, verification
  localises the first damaged entry, an anchor kept elsewhere pins every entry up to it, and the
  outbox never touches the chain and always makes progress.\<close>

section \<open>Verified chains\<close>

abbreviation ahash :: "(bytes \<Rightarrow> bytes) \<Rightarrow> bytes \<Rightarrow> string" where
  "ahash H \<equiv> \<lambda>x. base64 (H x)"

definition last_hash :: "string \<Rightarrow> AuditEntry list \<Rightarrow> string" where
  "last_hash p es = (if es = [] then p else ae_Hash (last es))"

lemma last_hash_simps [simp]: "last_hash p [] = p" "last_hash p (e # es) = last_hash (ae_Hash e) es"
  "last_hash p (es @ [e]) = ae_Hash e"
  by (simp_all add: last_hash_def)

lemma verifyRows_append:
  "verifyRows H p n (xs @ ys) = Inr () \<longleftrightarrow>
     verifyRows H p n xs = Inr () \<and> verifyRows H (last_hash p xs) (n + word_of_nat (length xs)) ys = Inr ()"
  by (induction xs arbitrary: p n) (auto simp: add_ac)

lemma verifyRows_head: "verifyRows H p n es = Inr () \<Longrightarrow> last_hash p es = chain_head audit_link (ahash H) p es"
  by (induction es arbitrary: p n) (auto simp: chainHash_def split: if_splits)

lemma verifyRows_nth:
  assumes "verifyRows H p n es = Inr ()" and "i < length es"
  shows "ae_Seq (es ! i) = n + word_of_nat i"
    and "ae_Hash (es ! i) = chain_head audit_link (ahash H) p (take (i + 1) es)"
proof -
  have split: "es = take i es @ es ! i # drop (Suc i) es" using assms(2) by (rule id_take_nth_drop)
  with assms have i: "verifyRows H (last_hash p (take i es)) (n + word_of_nat i) (es ! i # drop (Suc i) es) = Inr ()"
    and pre: "verifyRows H p n (take i es) = Inr ()"
    using verifyRows_append [of H p n "take i es" "es ! i # drop (Suc i) es"] by auto
  from i show "ae_Seq (es ! i) = n + word_of_nat i" by (simp split: if_splits)
  from i have "ae_Hash (es ! i) = chainHash H (last_hash p (take i es)) (es ! i)" by (simp split: if_splits)
  with verifyRows_head [OF pre] assms(2)
  show "ae_Hash (es ! i) = chain_head audit_link (ahash H) p (take (i + 1) es)"
    by (simp add: chainHash_def take_Suc_conv_app_nth)
qed

definition audit_inv :: "(bytes \<Rightarrow> bytes) \<Rightarrow> audit_db \<Rightarrow> bool" where
  "audit_inv H db \<longleftrightarrow> verifyRows H [] 1 (au_log db) = Inr ()"

lemma unat_seq:
  assumes "verifyRows H p 1 es = Inr ()" and "length es < 2 ^ 64" and "i < length es"
  shows "unat (ae_Seq (es ! i)) = i + 1"
proof -
  have "ae_Seq (es ! i) = word_of_nat (i + 1)" using verifyRows_nth(1) [OF assms(1,3)] by simp
  then show ?thesis using assms(2,3) by (simp only: unat_of_nat) simp
qed

lemma verifyRows_sorted:
  assumes "verifyRows H p 1 es = Inr ()" and "length es < 2 ^ 64"
  shows "sorted (map ae_Seq es)" and "distinct (map ae_Seq es)"
proof -
  have lt: "ae_Seq (es ! i) < ae_Seq (es ! j)" if "i < j" "j < length es" for i j
    using that unat_seq [OF assms] by (simp add: word_less_nat_alt)
  show "sorted (map ae_Seq es)"
    unfolding sorted_iff_nth_mono_less using lt by (simp add: order_less_imp_le)
  show "distinct (map ae_Seq es)"
    unfolding distinct_conv_nth using lt by (metis length_map less_irrefl linorder_neq_iff nth_map)
qed

lemma Verify_iff:
  assumes "audit_inv H db" and "length (au_log db) < 2 ^ 64"
  shows "Verify no_faults H db = Inr ()"
  using assms verifyRows_sorted(1) [of H "[]" "au_log db"]
  by (simp add: Verify_def no_faults_def audit_inv_def order_asc_sorted)

section \<open>Appending\<close>

lemma append_tx_Inr:
  assumes inv: "audit_inv H db" and len: "length (au_log db) < 2 ^ 64" and col: "col now = now"
    and "append_tx F H col now acct actor action target detail db = Inr (db', e)"
  shows "db' = db\<lparr>au_log := au_log db @ [e]\<rparr>" and "audit_inv H db'"
    and "ae_Seq e = word_of_nat (length (au_log db) + 1)" and "ae_AccountID e = acct" and "ae_CreatedAt e = now"
    and "ae_Actor e = actor" and "ae_Action e = action" and "ae_Target e = target" and "ae_Detail e = detail"
proof -
  let ?es = "au_log db"
  have sorted: "sorted (map ae_Seq ?es)"
    using verifyRows_sorted(1) inv len by (simp add: audit_inv_def)
  have last: "first_row (order_desc ae_Seq ?es) = (if ?es = [] then None else Some (last ?es))"
    using sorted by (simp add: order_desc_sorted first_row_rev)
  have seq: "ae_Seq (last ?es) = word_of_nat (length ?es)" if "?es \<noteq> []"
    using verifyRows_nth(1) [of H "[]" 1 ?es "length ?es - 1"] inv that
    by (cases ?es rule: rev_cases) (simp_all add: audit_inv_def)
  from assms(4) have e: "db' = db\<lparr>au_log := ?es @ [e]\<rparr>" "ae_Seq e = 1 + word_of_nat (length ?es)"
    "ae_PrevHash e = last_hash [] ?es" "ae_Hash e = chainHash H (last_hash [] ?es) e" "ae_AccountID e = acct"
    "ae_CreatedAt e = now" "ae_Actor e = actor" "ae_Action e = action" "ae_Target e = target" "ae_Detail e = detail"
    using col seq
    by (auto simp: append_tx_def Let_def last last_hash_def chainHash_def audit_link_def split: if_splits prod.splits)
  then show "db' = db\<lparr>au_log := ?es @ [e]\<rparr>" "ae_AccountID e = acct" "ae_CreatedAt e = now"
    "ae_Actor e = actor" "ae_Action e = action" "ae_Target e = target" "ae_Detail e = detail" by auto
  show "ae_Seq e = word_of_nat (length ?es + 1)" using e(2) by (simp add: add.commute)
  show "audit_inv H db'"
    using inv e by (simp add: audit_inv_def verifyRows_append)
qed

lemma enqueueDeliveries_log [simp]: "au_log (fst (enqueueDeliveries F ctx now e db)) = au_log db"
  by (simp add: enqueueDeliveries_def split: sum.splits prod.splits)

lemma Append_outcome:
  assumes "audit_inv H db" and "length (au_log db) < 2 ^ 64" and "col now = now"
    and "Append F H col now ctx actor action target detail db = (db', r)"
  shows "(case r of NotAppended _ \<Rightarrow> db' = db
     | NotQueued e _ \<Rightarrow> au_log db' = au_log db @ [e] | Appended e \<Rightarrow> au_log db' = au_log db @ [e])"
    and "audit_inv H db'"
proof -
  let ?acct = "case accountFromContext ctx of Inr a \<Rightarrow> a | Inl _ \<Rightarrow> []"
  obtain db1 t where t: "transaction F (DbError Commit) db (append_tx F H col now ?acct actor action target detail) = (db1, t)"
    by fastforce
  have "(case r of NotAppended _ \<Rightarrow> db' = db
     | NotQueued e _ \<Rightarrow> au_log db' = au_log db @ [e] | Appended e \<Rightarrow> au_log db' = au_log db @ [e]) \<and> audit_inv H db'"
  proof (cases t)
    case (Inl err)
    with t have "db1 = db" by (auto dest: transaction_error)
    with Inl t assms(1,4) show ?thesis by (auto simp: Append_def)
  next
    case (Inr e)
    with t have tx: "append_tx F H col now ?acct actor action target detail db = Inr (db1, e)"
      by (simp add: transaction_ok)
    obtain db2 q where q: "enqueueDeliveries F ctx now e db1 = (db2, q)" by fastforce
    have "au_log db2 = au_log db1" using enqueueDeliveries_log [of F ctx now e db1] q by simp
    with Inr t q assms(4) append_tx_Inr(1,2) [OF assms(1,2,3) tx] show ?thesis
      by (cases q) (auto simp: Append_def audit_inv_def)
  qed
  then show "(case r of NotAppended _ \<Rightarrow> db' = db
     | NotQueued e _ \<Rightarrow> au_log db' = au_log db @ [e] | Appended e \<Rightarrow> au_log db' = au_log db @ [e])"
    "audit_inv H db'" by auto
qed

section \<open>Delivery leaves the chain alone\<close>

text \<open>One round of the loop ends in one of two ways, unless the database refuses the update: the row
  is marked delivered, or its attempts and its next attempt are advanced.\<close>

lemma deliver_oneE:
  assumes "deliver_one F deliver now t item db = (db', r)"
  obtains (refused) err where "db' = db" "r = Inl err"
  | (failed) cause where "r = Inr False" "db' = db\<lparr>au_deliveries := update_delivery item
      (\<lambda>d. d\<lparr>dl_Attempts := dl_Attempts item + 1, dl_NextAttempt := now + backoff (dl_Attempts item + 1),
        dl_LastError := cause\<rparr>) (au_deliveries db)\<rparr>"
  | (delivered) sink e where "r = Inr True" "sink \<in> set (au_sinks db)" "e \<in> set (au_log db)" "ae_Seq e = dl_Sequence item"
      "deliver sink e = None"
      "db' = db\<lparr>au_deliveries := update_delivery item (\<lambda>d. d\<lparr>dl_DeliveredAt := Some t, dl_LastError := []\<rparr>)
         (au_deliveries db)\<rparr>"
proof -
  let ?fail = "\<lambda>cause. let (db', r) = failDelivery F item cause now db in (db', map_sum id (\<lambda>_. False) r)"
  have fail: thesis if "?fail cause = (db', r)" for cause
  proof (cases "F (Update ''deliveries'')")
    case True
    with that have "db' = db" "r = Inl (DbError (Update ''deliveries''))" by (auto simp: failDelivery_def)
    then show thesis by (rule refused)
  next
    case False
    with that have "r = Inr False" "db' = db\<lparr>au_deliveries := update_delivery item
      (\<lambda>d. d\<lparr>dl_Attempts := dl_Attempts item + 1, dl_NextAttempt := now + backoff (dl_Attempts item + 1),
        dl_LastError := cause\<rparr>) (au_deliveries db)\<rparr>" by (auto simp: failDelivery_def Let_def)
    then show thesis by (rule failed)
  qed
  let ?s = "if F (Select ''sink'') then None else first_row (filter (\<lambda>s. sk_AccountID s = dl_AccountID item
               \<and> sk_ID s = dl_SinkID item) (au_sinks db))"
  let ?e = "if F (Select ''entry'') then None else first_row (filter (\<lambda>e. ae_Seq e = dl_Sequence item) (au_log db))"
  show thesis
  proof (cases ?s)
    case None
    with assms show thesis by (intro fail [of "''load sink''"]) (simp only: deliver_one_def Let_def option.case)
  next
    case s: (Some sink)
    show thesis
    proof (cases ?e)
      case None
      with s assms show thesis by (intro fail [of "''load entry''"]) (simp only: deliver_one_def Let_def option.case)
    next
      case e: (Some e)
      show thesis
      proof (cases "deliver sink e")
        case (Some err)
        with s e assms show thesis by (intro fail [of err]) (simp only: deliver_one_def Let_def option.case)
      next
        case None
        have mem: "sink \<in> set (au_sinks db)" "e \<in> set (au_log db)" "ae_Seq e = dl_Sequence item"
          using s e by (auto split: if_splits dest!: first_row_Some)
        have "(if F (Update ''delivered'') then (db, Inl (DbError (Update ''delivered'')))
          else (db\<lparr>au_deliveries := update_delivery item (\<lambda>d. d\<lparr>dl_DeliveredAt := Some t, dl_LastError := []\<rparr>)
             (au_deliveries db)\<rparr>, Inr True)) = (db', r)"
          using assms s e None by (simp only: deliver_one_def Let_def option.case)
        with mem None show thesis by (cases "F (Update ''delivered'')") (auto intro: refused delivered)
      qed
    qed
  qed
qed

lemma deliver_one_log: "deliver_one F deliver now t item db = (db', r) \<Longrightarrow> au_log db' = au_log db \<and> au_sinks db' = au_sinks db"
  by (erule deliver_oneE) simp_all

lemma deliverLoop_log:
  "deliverLoop F deliver now t i n items db = (db', m, err) \<Longrightarrow> au_log db' = au_log db"
proof (induction items arbitrary: i n db)
  case (Cons item items)
  obtain db1 r where one: "deliver_one (\<lambda>s. F (At i s)) deliver now t item db = (db1, r)" by fastforce
  from deliver_one_log [OF this] Cons one show ?case by (cases r) auto
qed simp

lemma DeliverPendingAt_log:
  "DeliverPendingAt F deliverer limit now t db = (db', n, err) \<Longrightarrow> au_log db' = au_log db"
  by (auto simp: DeliverPendingAt_def split: option.splits if_splits dest: deliverLoop_log)

lemma RemoveSink_log: "RemoveSink F ctx i db = (db', r) \<Longrightarrow> au_log db' = au_log db"
  by (auto simp: RemoveSink_def transaction_def Let_def split: sum.splits if_splits)

section \<open>Reachable logs\<close>

text \<open>One step of the running system: any state-changing operation of the package, with any faults and
  any outcome. The timestamp column keeps the instants that are appended.\<close>

inductive audit_step :: "(bytes \<Rightarrow> bytes) \<Rightarrow> (int64 \<Rightarrow> int64) \<Rightarrow> audit_db \<Rightarrow> audit_db \<Rightarrow> bool" for H col where
  append: "Append F H col now ctx actor action target detail db = (db', r) \<Longrightarrow> audit_step H col db db'"
| deliver: "DeliverPendingAt F deliverer limit now t db = (db', n, err) \<Longrightarrow> audit_step H col db db'"
| remove: "RemoveSink F ctx i db = (db', q) \<Longrightarrow> audit_step H col db db'"

lemma audit_step_extends:
  assumes "audit_step H col db db'" and "\<And>t. col t = t" and "audit_inv H db" and "length (au_log db) < 2 ^ 64"
  shows "audit_inv H db' \<and> (\<exists>new. au_log db' = au_log db @ new \<and> length new \<le> 1)"
  using assms(1)
proof cases
  case (append F now ctx actor action target detail r)
  note out = Append_outcome [OF assms(3,4) assms(2) append]
  have "\<exists>new. au_log db' = au_log db @ new \<and> length new \<le> 1" using out(1) by (cases r) auto
  with out(2) show ?thesis by simp
next
  case (deliver F deliverer limit now t n err)
  from DeliverPendingAt_log [OF this] assms(3) show ?thesis by (simp add: audit_inv_def)
next
  case (remove F ctx i q)
  from RemoveSink_log [OF this] assms(3) show ?thesis by (simp add: audit_inv_def)
qed

lemma append_tx_log:
  "append_tx F H col now acct actor action target detail db = Inr (db', e) \<Longrightarrow> \<exists>x. au_log db' = au_log db @ [x]"
  by (auto simp: append_tx_def Let_def split: if_splits prod.splits)

text \<open>Whatever the timestamp column does to the instants, a step only adds rows.\<close>

lemma audit_step_grows: "audit_step H col db db' \<Longrightarrow> \<exists>new. au_log db' = au_log db @ new"
proof (induction rule: audit_step.induct)
  case (append F now ctx actor action target detail db db' r)
  let ?tx = "append_tx F H col now (case accountFromContext ctx of Inr a \<Rightarrow> a | Inl _ \<Rightarrow> []) actor action target detail"
  obtain db1 t where t: "transaction F (DbError Commit) db ?tx = (db1, t)" by fastforce
  have "\<exists>new. au_log db1 = au_log db @ new"
    using t transaction_error [of F "DbError Commit" db ?tx] by (cases t) (auto simp: transaction_ok dest!: append_tx_log)
  moreover have "au_log db' = au_log db1"
  proof (cases t)
    case (Inr e)
    obtain db2 q where q: "enqueueDeliveries F ctx now e db1 = (db2, q)" by fastforce
    with Inr t append have "db' = db2" by (cases q) (auto simp: Append_def)
    then show ?thesis using enqueueDeliveries_log [of F ctx now e db1] q by simp
  qed (use t append in \<open>simp add: Append_def\<close>)
  ultimately show ?case by simp
next
  case (deliver F deliverer limit now t db db' n err)
  from DeliverPendingAt_log [OF this] show ?case by simp
next
  case (remove F ctx i db db' q)
  from RemoveSink_log [OF this] show ?case by simp
qed

lemma audit_step_length: "audit_step H col db db' \<Longrightarrow> length (au_log db) \<le> length (au_log db')"
  using audit_step_grows [of H col db db'] by auto

interpretation arows: append_only "audit_step H col" au_log "\<lambda>_. True" n for H col n
proof (unfold_locales, goal_cases)
  case (1 db db')
  then show ?case by (rule audit_step_length)
next
  case (2 db db')
  from audit_step_grows [OF 2(2)] show ?case by simp
qed

interpretation alog: append_only "audit_step H id" au_log "audit_inv H" "2 ^ 64" for H
proof (unfold_locales, goal_cases)
  case (1 db db')
  then show ?case by (rule audit_step_length)
next
  case (2 db db')
  have "length (au_log db) < 2 ^ 64" using audit_step_length [OF 2(2)] 2(3) by simp
  from audit_step_extends [OF 2(2) _ 2(1) this] show ?case by auto
qed

lemma exact_column: "(\<And>t. col t = t) \<Longrightarrow> audit_step H col = audit_step H id"
proof -
  assume "\<And>t. col t = t"
  then have "col = id" by auto
  then show ?thesis by simp
qed

section \<open>Outbox rows\<close>

definition settled :: "int \<Rightarrow> Delivery \<Rightarrow> bool" where
  "settled now d \<longleftrightarrow> dl_DeliveredAt d \<noteq> None
     \<or> (now + 1000000000 \<le> dl_NextAttempt d \<and> dl_NextAttempt d \<le> now + 1024000000000)"

lemma backoff_bounds: "1000000000 \<le> backoff n" "backoff n \<le> 1024000000000"
proof -
  define k where "k = unat (min_u32 (n - 1) 10)"
  have "k \<le> 10" by (simp add: k_def min_u32_def word_le_nat_alt [symmetric] word_less_nat_alt unat_arith_simps)
  then have "(2::int) ^ k \<le> 2 ^ 10" by (intro power_increasing) auto
  moreover have "(1::int) \<le> 2 ^ k" by simp
  ultimately show "1000000000 \<le> backoff n" "backoff n \<le> 1024000000000"
    by (simp_all add: backoff_def Let_def flip: k_def)
qed

text \<open>The rows after a number of rounds: a row that was in the batch and undelivered is settled, every
  other row is as before.\<close>

definition rows_after :: "int \<Rightarrow> Delivery list \<Rightarrow> Delivery \<Rightarrow> Delivery \<Rightarrow> bool" where
  "rows_after now items d d' \<longleftrightarrow> delivery_key d' = delivery_key d \<and>
     (if delivery_key d \<in> set (map delivery_key items) \<and> dl_DeliveredAt d = None then settled now d' else d' = d)"

lemma delivery_key_update [simp]:
  "delivery_key (d\<lparr>dl_Attempts := a, dl_NextAttempt := n, dl_LastError := e\<rparr>) = delivery_key d"
  "delivery_key (d\<lparr>dl_DeliveredAt := t, dl_LastError := e\<rparr>) = delivery_key d"
  by (simp_all add: delivery_key_def)

lemma update_delivery_rows:
  assumes "\<And>d. delivery_key (f d) = delivery_key d" and "\<And>d. settled now (f d)"
  shows "list_all2 (rows_after now [item]) ds (update_delivery item f ds)"
  by (simp add: update_delivery_def list_all2_conv_all_nth rows_after_def assms)

lemma deliver_one_rows:
  assumes "deliver_one F deliver now t item db = (db', Inr ok)"
  shows "list_all2 (rows_after now [item]) (au_deliveries db) (au_deliveries db')"
  using assms
proof (cases rule: deliver_oneE)
  case (failed cause)
  show ?thesis unfolding failed(2)
    by (simp, intro update_delivery_rows) (use backoff_bounds in \<open>simp_all add: settled_def\<close>)
next
  case (delivered sink e)
  show ?thesis unfolding delivered(6)
    by (simp, intro update_delivery_rows) (simp_all add: settled_def)
qed simp

lemma deliverLoop_rows:
  assumes "deliverLoop F deliver now t i n items db = (db', m, None)" and "distinct (map delivery_key items)"
  shows "list_all2 (rows_after now items) (au_deliveries db) (au_deliveries db')"
  using assms
proof (induction items arbitrary: i n db)
  case Nil
  then show ?case by (simp add: rows_after_def list_all2_refl)
next
  case (Cons item items)
  obtain db1 r where one: "deliver_one (\<lambda>s. F (At i s)) deliver now t item db = (db1, r)" by fastforce
  with Cons.prems(1) obtain ok where r: "r = Inr ok" by (cases r) auto
  from one r Cons.prems(1) have "deliverLoop F deliver now t (i + 1) (if ok then n + 1 else n) items db1 = (db', m, None)"
    by simp
  from Cons.IH [OF this] Cons.prems(2)
  have rest: "list_all2 (rows_after now items) (au_deliveries db1) (au_deliveries db')" by simp
  from deliver_one_rows one r have first: "list_all2 (rows_after now [item]) (au_deliveries db) (au_deliveries db1)" by blast
  have "rows_after now (item # items) d d2" if "rows_after now [item] d d1" "rows_after now items d1 d2" for d d1 d2
    using that Cons.prems(2) by (auto simp: rows_after_def split: if_splits)
  from list_all2_trans [OF this first rest] show ?case .
qed

lemma due_distinct:
  assumes "distinct (map delivery_key (au_deliveries db))"
  shows "distinct (map delivery_key (due now limit db))"
proof -
  have "distinct (map delivery_key (filter P (au_deliveries db)))" for P using assms by (rule distinct_map_filter)
  then have "distinct (map delivery_key (order_asc dl_NextAttempt (filter P (au_deliveries db))))" for P
    by (simp add: order_asc_def distinct_map)
  then show ?thesis unfolding due_def take_map [symmetric] by (intro distinct_take)
qed

lemma due_rows: "d \<in> set (due now limit db) \<Longrightarrow> d \<in> set (au_deliveries db) \<and> dl_DeliveredAt d = None \<and> dl_NextAttempt d \<le> now"
  by (auto simp: due_def dest!: in_set_takeD)

section \<open>Properties\<close>

definition demo_sha :: "bytes \<Rightarrow> bytes" where "demo_sha x = replicate 32 (CHR ''d'')"

definition demo_audit0 :: audit_db where
  "demo_audit0 = \<lparr>au_log = [], au_sinks = [\<lparr>sk_AccountID = ''acct'', sk_ID = ''s1'', sk_Kind = ''webhook'',
     sk_Endpoint = ''https://sink'', sk_CreatedAt = 0\<rparr>], au_deliveries = []\<rparr>"

definition demo_audit :: audit_db where
  "demo_audit = fst (Append no_faults demo_sha id 1000 ''acct'' ''alice'' ''node.enroll'' ''n1'' [] demo_audit0)"

lemma demo_base64: "base64 (demo_sha x) = base64 (replicate 32 (CHR ''d''))"
  by (simp add: demo_sha_def)

definition demo_audit_entry :: AuditEntry where
  "demo_audit_entry = \<lparr>ae_Seq = 1, ae_CreatedAt = 1000, ae_AccountID = ''acct'', ae_Actor = ''alice'',
     ae_Action = ''node.enroll'', ae_Target = ''n1'', ae_Detail = [], ae_PrevHash = [],
     ae_Hash = base64 (replicate 32 (CHR ''d''))\<rparr>"

lemma demo_audit_step: "Append no_faults demo_sha id 1000 ''acct'' ''alice'' ''node.enroll'' ''n1'' [] demo_audit0
    = (demo_audit, Appended demo_audit_entry)"
  and demo_audit_log: "au_log demo_audit = [demo_audit_entry]"
  and demo_audit_deliveries: "au_deliveries demo_audit = [\<lparr>dl_AccountID = ''acct'', dl_SinkID = ''s1'', dl_Sequence = 1,
     dl_Attempts = 0, dl_NextAttempt = 1000, dl_DeliveredAt = None, dl_LastError = []\<rparr>]"
  and demo_audit_sinks: "au_sinks demo_audit = au_sinks demo_audit0"
  by (simp_all add: demo_audit_def demo_audit0_def demo_audit_entry_def Append_def transaction_def append_tx_def
      no_faults_def order_desc_def first_row_def chainHash_def demo_base64 enqueueDeliveries_def
      accountFromContext_def Let_def)

text \<open>A second entry on top of the first.\<close>

definition demo_audit2 :: audit_db where
  "demo_audit2 = fst (Append no_faults demo_sha id 2000 ''acct'' ''bob'' ''node.remove'' ''n1'' [] demo_audit)"

definition demo_audit_entry2 :: AuditEntry where
  "demo_audit_entry2 = \<lparr>ae_Seq = 2, ae_CreatedAt = 2000, ae_AccountID = ''acct'', ae_Actor = ''bob'',
     ae_Action = ''node.remove'', ae_Target = ''n1'', ae_Detail = [], ae_PrevHash = base64 (replicate 32 (CHR ''d'')),
     ae_Hash = base64 (replicate 32 (CHR ''d''))\<rparr>"

lemma demo_audit2_step: "Append no_faults demo_sha id 2000 ''acct'' ''bob'' ''node.remove'' ''n1'' [] demo_audit
    = (demo_audit2, Appended demo_audit_entry2)"
  and demo_audit2_log: "au_log demo_audit2 = [demo_audit_entry, demo_audit_entry2]"
  by (simp_all add: demo_audit2_def demo_audit_entry_def demo_audit_entry2_def demo_audit_log demo_audit_sinks demo_audit_deliveries
      demo_audit0_def Append_def transaction_def append_tx_def
      no_faults_def order_desc_def first_row_def chainHash_def demo_base64 enqueueDeliveries_def
      accountFromContext_def Let_def)

text \<open>C14. The audit log is append-only and verifies. From an empty log, after any sequence of
  appends, deliveries and sink removals, with any database failures along the way, every entry
  present at an earlier moment is still there unchanged and in place, whatever the timestamp column does to the instants
  it is given. If the column keeps every instant exactly, and the sequence numbers have not wrapped, then verification
  finds the chain intact. (A column that rounds, as PostgreSQL's, gives no such guarantee.)\<close>

theorem audit_append_only_and_verifies:
  assumes "au_log db0 = []" and "(audit_step H col)\<^sup>*\<^sup>* db0 db" and "(audit_step H col)\<^sup>*\<^sup>* db db'"
  shows "(\<exists>new. au_log db' = au_log db @ new)
     \<and> ((\<forall>t. col t = t) \<and> length (au_log db') < 2 ^ 64 \<longrightarrow> Verify no_faults H db' = Inr ())"
proof (intro conjI impI)
  from arows.run_extends [OF assms(3), of "Suc (length (au_log db'))"] show "\<exists>new. au_log db' = au_log db @ new" by simp
  assume exact: "(\<forall>t. col t = t) \<and> length (au_log db') < 2 ^ 64"
  have "(audit_step H id)\<^sup>*\<^sup>* db0 db'"
    using rtranclp_trans [OF assms(2,3)] exact exact_column [of col H] by simp
  moreover have "audit_inv H db0" using assms(1) by (simp add: audit_inv_def)
  ultimately have "audit_inv H db'" using alog.run_extends [of H db0 db'] exact by blast
  then show "Verify no_faults H db' = Inr ()" using Verify_iff exact by blast
qed

theorem audit_append_only_and_verifies_witness:
  "au_log demo_audit0 = [] \<and> (audit_step demo_sha id)\<^sup>*\<^sup>* demo_audit0 demo_audit \<and> (audit_step demo_sha id)\<^sup>*\<^sup>* demo_audit demo_audit2
     \<and> (\<exists>new. au_log demo_audit2 = au_log demo_audit @ new) \<and> Verify no_faults demo_sha demo_audit2 = Inr ()"
proof -
  have e: "au_log demo_audit0 = []" by (simp add: demo_audit0_def)
  have runs: "(audit_step demo_sha id)\<^sup>*\<^sup>* demo_audit0 demo_audit" "(audit_step demo_sha id)\<^sup>*\<^sup>* demo_audit demo_audit2"
    using audit_step.append [OF demo_audit_step] audit_step.append [OF demo_audit2_step] by blast+
  from audit_append_only_and_verifies [OF e runs] e runs show ?thesis by (simp add: demo_audit2_log)
qed

lemma audit_sorted_rows:
  assumes "Verify F H db = Inr ()"
  shows "verifyRows H [] 1 (order_asc ae_Seq (au_log db)) = Inr ()"
  using assms by (simp add: Verify_def split: if_splits)

lemma audit_anchor_pins:
  assumes "\<And>x. length (H x) = 32"
    and "list_all audit_fits (au_log db)" and "list_all audit_fits (au_log db')"
    and "Verify F H db = Inr ()" and "e \<in> set (au_log db)" and "length (au_log db) < 2 ^ 64"
    and "VerifyFrom F' H (ae_Seq e) (ae_Hash e) db' = Inr ()" and "length (au_log db') < 2 ^ 64"
  shows "let n = unat (ae_Seq e); es = order_asc ae_Seq (au_log db); es' = order_asc ae_Seq (au_log db');
             x = link_at audit_link (\<lambda>x. base64 (H x)) [] es; y = link_at audit_link (\<lambda>x. base64 (H x)) [] es'
         in n \<le> length es' \<and> (map audit_core (take n es') = map audit_core (take n es)
            \<or> (\<exists>i<length es. \<exists>j<length es'. x i \<noteq> y j \<and> H (x i) = H (y j)))"
proof -
  define es where "es = order_asc ae_Seq (au_log db)"
  define es' where "es' = order_asc ae_Seq (au_log db')"
  have v: "verifyRows H [] 1 es = Inr ()" using audit_sorted_rows [OF assms(4)] by (simp add: es_def)
  from assms(7) have "Verify F' H db' = Inr ()" and f: "first_row (filter (\<lambda>r. ae_Seq r = ae_Seq e) (au_log db')) \<noteq> None"
    and h: "\<And>r. first_row (filter (\<lambda>r. ae_Seq r = ae_Seq e) (au_log db')) = Some r \<Longrightarrow> ae_Hash r = ae_Hash e"
    by (auto simp: VerifyFrom_def ebind_eq_Inr split: if_splits option.splits)
  then have v': "verifyRows H [] 1 es' = Inr ()" using audit_sorted_rows by (simp add: es'_def)
  from f obtain r where r: "first_row (filter (\<lambda>r. ae_Seq r = ae_Seq e) (au_log db')) = Some r" by blast
  then have r': "r \<in> set es'" "ae_Seq r = ae_Seq e" by (auto simp: es'_def dest!: first_row_Some)
  obtain i where i: "i < length es" "e = es ! i" using assms(5) by (metis es_def in_set_conv_nth set_order(1))
  obtain j where j: "j < length es'" "r = es' ! j" using r'(1) by (metis in_set_conv_nth)
  have n: "unat (ae_Seq e) = i + 1" using unat_seq [OF v _ i(1)] assms(6) i(2) by (simp add: es_def)
  moreover have "unat (ae_Seq r) = j + 1" using unat_seq [OF v' _ j(1)] assms(8) j(2) by (simp add: es'_def)
  ultimately have ij: "i = j" using r'(2) by simp
  have tips: "audit_tip H (take (i + 1) es') = audit_tip H (take (i + 1) es)"
    using verifyRows_nth(2) [OF v i(1)] verifyRows_nth(2) [OF v' j(1)] h [OF r] i(2) j(2) ij by simp
  have "map audit_core (take (i + 1) es') = map audit_core (take (i + 1) es) \<or> chains_collide audit_link (ahash H) [] es' es"
  proof (rule achain.prefix_commits)
    show "fits32 (ahash H x)" "ahash H x \<noteq> []" for x
      using assms(1) [of x] length_base64 [of "H x"] by auto
    show "list_all audit_fits es'" "list_all audit_fits es" using assms(2,3) by (simp_all add: es_def es'_def list_all_iff)
  qed (use i j ij tips in auto)
  moreover have "chains_collide audit_link (ahash H) [] es' es \<Longrightarrow>
    \<exists>i<length es. \<exists>j<length es'. link_at audit_link (ahash H) [] es i \<noteq> link_at audit_link (ahash H) [] es' j
      \<and> H (link_at audit_link (ahash H) [] es i) = H (link_at audit_link (ahash H) [] es' j)"
    unfolding chains_collide_def by (metis base64_inj)
  ultimately show ?thesis using n i j ij by (simp add: Let_def flip: es_def es'_def) blast
qed

text \<open>C3. An anchor pins the whole past. Let an entry of a verified log be recorded elsewhere by its
  sequence number and hash. If a log later passes verification from that anchor, it still has at
  least that many entries, and its entries up to the anchor equal the original ones in sequence,
  time, account, actor, action, target and detail; otherwise two hash inputs of these two
  logs are distinct and have the same SHA-256 value. Rewriting and truncation before the anchor
  are therefore both detected.\<close>

theorem anchor_pins_history:
  assumes "\<And>x. length (H x) = 32"
    and "list_all audit_fits (au_log db)" and "list_all audit_fits (au_log db')"
    and "Verify F H db = Inr ()" and "e \<in> set (au_log db)" and "length (au_log db) < 2 ^ 64"
    and "VerifyFrom F' H (ae_Seq e) (ae_Hash e) db' = Inr ()" and "length (au_log db') < 2 ^ 64"
  shows "let n = unat (ae_Seq e); es = order_asc ae_Seq (au_log db); es' = order_asc ae_Seq (au_log db');
             x = link_at audit_link (\<lambda>x. base64 (H x)) [] es; y = link_at audit_link (\<lambda>x. base64 (H x)) [] es'
         in n \<le> length es' \<and> (map audit_core (take n es') = map audit_core (take n es)
            \<or> (\<exists>i<length es. \<exists>j<length es'. x i \<noteq> y j \<and> H (x i) = H (y j)))"
  using assms by (rule audit_anchor_pins)

lemma demo_audit_verifies: "Verify no_faults demo_sha demo_audit = Inr ()"
  by (simp add: Verify_def no_faults_def demo_audit_log demo_audit_entry_def order_asc_def chainHash_def demo_base64)

theorem anchor_pins_history_witness:
  "let n = unat (ae_Seq demo_audit_entry); es = order_asc ae_Seq (au_log demo_audit); es' = order_asc ae_Seq (au_log demo_audit2);
       x = link_at audit_link (\<lambda>x. base64 (demo_sha x)) [] es; y = link_at audit_link (\<lambda>x. base64 (demo_sha x)) [] es'
   in n \<le> length es' \<and> (map audit_core (take n es') = map audit_core (take n es)
      \<or> (\<exists>i<length es. \<exists>j<length es'. x i \<noteq> y j \<and> demo_sha (x i) = demo_sha (y j)))"
proof (rule anchor_pins_history [OF _ _ _ demo_audit_verifies])
  have "Verify no_faults demo_sha demo_audit2 = Inr ()"
    by (simp add: Verify_def no_faults_def demo_audit2_log demo_audit_entry_def demo_audit_entry2_def order_asc_def chainHash_def demo_base64)
  then show "VerifyFrom no_faults demo_sha (ae_Seq demo_audit_entry) (ae_Hash demo_audit_entry) demo_audit2 = Inr ()"
    by (simp add: VerifyFrom_def no_faults_def demo_audit2_log first_row_def)
qed (simp_all add: demo_sha_def demo_audit_log demo_audit2_log audit_fits_def demo_audit_entry_def demo_audit_entry2_def)

lemma first_row_filter_key:
  "distinct (map k rows) \<Longrightarrow> r \<in> set rows \<Longrightarrow> first_row (filter (\<lambda>x. k x = k r) rows) = Some r"
  by (induction rows) (auto simp: image_iff)

lemma audit_anchor_stays:
  assumes "audit_inv H db" and "e \<in> set (au_log db)" and "(audit_step H col)\<^sup>*\<^sup>* db db'"
    and "\<And>t. col t = t" and "length (au_log db') < 2 ^ 64"
  shows "VerifyFrom no_faults H (ae_Seq e) (ae_Hash e) db' = Inr ()"
proof -
  have "(audit_step H id)\<^sup>*\<^sup>* db db'" using assms(3) exact_column [OF assms(4), of H] by simp
  from alog.run_extends [OF this assms(1,5)] obtain new where
    inv: "audit_inv H db'" and log: "au_log db' = au_log db @ new" by auto
  have "distinct (map ae_Seq (au_log db'))" using verifyRows_sorted(2) inv assms(5) by (simp add: audit_inv_def)
  then have "first_row (filter (\<lambda>r. ae_Seq r = ae_Seq e) (au_log db')) = Some e"
    using assms(2) log by (intro first_row_filter_key) auto
  then show ?thesis using Verify_iff [OF inv assms(5)] by (simp add: VerifyFrom_def no_faults_def)
qed

text \<open>C23. Anchors stay valid. Let an entry be in a log that verifies. Then, whatever appends, deliveries and sink removals follow,
  verification from that entry's sequence number and hash succeeds: an honest log never contradicts an anchor
  taken from it. This needs a timestamp column that keeps every instant exactly, and sequence numbers that have not wrapped.\<close>

theorem anchor_stays_valid:
  assumes "audit_inv H db" and "e \<in> set (au_log db)" and "(audit_step H col)\<^sup>*\<^sup>* db db'"
    and "\<And>t. col t = t" and "length (au_log db') < 2 ^ 64"
  shows "VerifyFrom no_faults H (ae_Seq e) (ae_Hash e) db' = Inr ()"
  using assms by (rule audit_anchor_stays)

theorem anchor_stays_valid_witness:
  "VerifyFrom no_faults demo_sha (ae_Seq demo_audit_entry) (ae_Hash demo_audit_entry) demo_audit = Inr ()"
proof (rule anchor_stays_valid [of demo_sha demo_audit demo_audit_entry id])
  show "audit_inv demo_sha demo_audit"
    by (simp add: audit_inv_def demo_audit_log demo_audit_entry_def chainHash_def demo_base64)
qed (simp_all add: demo_audit_log)

text \<open>Verification localises damage. When it reports a broken entry it names the first row, in
  sequence order, that does not follow from the rows before it: everything before that row
  verifies, and no log that continues with that row does.\<close>

theorem verify_reports_first_broken:
  assumes "Verify no_faults H db = Inl (s, err)"
  shows "\<exists>pre e post. order_asc ae_Seq (au_log db) = pre @ e # post \<and> ae_Seq e = s
     \<and> verifyRows H [] 1 pre = Inr () \<and> (\<forall>more. verifyRows H [] 1 (pre @ e # more) \<noteq> Inr ())"
proof -
  have "\<exists>pre e post. es = pre @ e # post \<and> ae_Seq e = s \<and> verifyRows H p n pre = Inr ()
     \<and> (\<forall>more. verifyRows H p n (pre @ e # more) \<noteq> Inr ())" if "verifyRows H p n es = Inl (s, err)" for p n es
    using that
  proof (induction es arbitrary: p n)
    case (Cons e es)
    show ?case
    proof (cases "ae_Seq e = n \<and> ae_PrevHash e = p \<and> chainHash H p e = ae_Hash e")
      case True
      with Cons.prems have "verifyRows H (ae_Hash e) (n + 1) es = Inl (s, err)" by simp
      from Cons.IH [OF this] obtain pre d post where "es = pre @ d # post" "ae_Seq d = s"
        "verifyRows H (ae_Hash e) (n + 1) pre = Inr ()"
        "\<forall>more. verifyRows H (ae_Hash e) (n + 1) (pre @ d # more) \<noteq> Inr ()" by blast
      with True show ?thesis by (intro exI [of _ "e # pre"] exI [of _ d] exI [of _ post]) auto
    next
      case False
      with Cons.prems have "ae_Seq e = s" by (auto split: if_splits)
      moreover have "verifyRows H p n (e # more) \<noteq> Inr ()" for more using False by auto
      ultimately show ?thesis by (intro exI [of _ "[]"] exI [of _ e] exI [of _ es]) auto
    qed
  qed simp
  then show ?thesis using assms by (simp add: Verify_def no_faults_def)
qed

definition demo_tampered :: audit_db where
  "demo_tampered = demo_audit\<lparr>au_log := [demo_audit_entry\<lparr>ae_PrevHash := ''x''\<rparr>]\<rparr>"

theorem verify_reports_first_broken_witness:
  "\<exists>pre e post. order_asc ae_Seq (au_log demo_tampered) = pre @ e # post \<and> ae_Seq e = 1
     \<and> verifyRows demo_sha [] 1 pre = Inr () \<and> (\<forall>more. verifyRows demo_sha [] 1 (pre @ e # more) \<noteq> Inr ())"
  by (rule verify_reports_first_broken [where err = "NotSuccessor 1"])
    (simp add: Verify_def no_faults_def demo_tampered_def demo_audit_entry_def order_asc_def)

text \<open>C24. The outbox makes progress and never touches the chain. When a delivery pass ends without a
  database error, the audit entries are unchanged, every row that was in the batch is now
  delivered or rescheduled between one second and 1024 seconds ahead, and every other row,
  delivered rows in particular, is exactly as it was.\<close>

theorem delivery_pass_settles_batch:
  assumes "DeliverPendingAt F (Some deliver) limit now t db = (db', n, None)"
    and "distinct (map delivery_key (au_deliveries db))"
  shows "au_log db' = au_log db
     \<and> list_all2 (\<lambda>d d'. delivery_key d' = delivery_key d \<and> (if d \<in> set (due now (nat limit) db) then settled now d' else d' = d))
         (au_deliveries db) (au_deliveries db')"
proof -
  let ?items = "due now (nat limit) db"
  have loop: "deliverLoop F deliver now t 0 0 ?items db = (db', n, None)"
    using assms(1) by (auto simp: DeliverPendingAt_def split: if_splits)
  have same: "(delivery_key d \<in> set (map delivery_key ?items) \<and> dl_DeliveredAt d = None) = (d \<in> set ?items)"
    if "d \<in> set (au_deliveries db)" for d
    using assms(2) that due_rows [of _ now "nat limit" db] by (auto simp: distinct_map inj_on_def)
  from deliverLoop_rows [OF loop due_distinct [OF assms(2)]]
  have "list_all2 (\<lambda>d d'. delivery_key d' = delivery_key d \<and> (if d \<in> set ?items then settled now d' else d' = d))
         (au_deliveries db) (au_deliveries db')"
    unfolding list_all2_conv_all_nth rows_after_def using same nth_mem by (metis (no_types, lifting))
  with DeliverPendingAt_log [OF assms(1)] show ?thesis by simp
qed

theorem delivery_pass_settles_batch_witness:
  "\<exists>db'. DeliverPendingAt no_faults (Some (\<lambda>_ _. Some ''503'')) 10 5000 6000 demo_audit = (db', 0, None)
     \<and> au_log db' = au_log demo_audit
     \<and> list_all2 (\<lambda>d d'. delivery_key d' = delivery_key d \<and> (if d \<in> set (due 5000 (nat 10) demo_audit) then settled 5000 d' else d' = d))
         (au_deliveries demo_audit) (au_deliveries db')"
proof -
  have run: "\<exists>db'. DeliverPendingAt no_faults (Some (\<lambda>_ _. Some ''503'')) 10 5000 6000 demo_audit = (db', 0, None)"
    by (simp add: DeliverPendingAt_def no_faults_def due_def order_asc_def demo_audit_deliveries demo_audit_sinks
        demo_audit0_def demo_audit_log demo_audit_entry_def deliver_one_def failDelivery_def Let_def)
  have "distinct (map delivery_key (au_deliveries demo_audit))" by (simp add: demo_audit_deliveries)
  with run show ?thesis using delivery_pass_settles_batch by blast
qed

text \<open>C25. The chain needs the full precision of its timestamps. If the timestamp column does not keep
  the instant of the first append exactly, as a column of microsecond resolution does not for
  almost every instant, then the log just written fails verification at that first entry;
  otherwise the two hash inputs, which differ, have the same SHA-256 value.\<close>

theorem lossy_timestamps_break_chain:
  assumes "au_log db = []" and "Append F H col now ctx actor action target detail db = (db', Appended e)"
    and "col now \<noteq> now"
  shows "let stored = e\<lparr>ae_CreatedAt := col now\<rparr> in
     Verify no_faults H db' = Inl (1, Modified 1)
     \<or> (audit_link [] stored \<noteq> audit_link [] e \<and> H (audit_link [] stored) = H (audit_link [] e))"
proof -
  let ?tx = "append_tx F H col now (case accountFromContext ctx of Inr a \<Rightarrow> a | Inl _ \<Rightarrow> []) actor action target detail"
  obtain db1 r where t: "transaction F (DbError Commit) db ?tx = (db1, r)" by fastforce
  have "r = Inr e \<and> au_log db' = au_log db1"
  proof (cases r)
    case (Inr e')
    obtain db2 q where q: "enqueueDeliveries F ctx now e' db1 = (db2, q)" by fastforce
    with Inr t assms(2) have "e' = e" "db' = db2" by (cases q; auto simp: Append_def)+
    with q Inr show ?thesis using enqueueDeliveries_log [of F ctx now e' db1] by simp
  qed (use t assms(2) in \<open>simp add: Append_def\<close>)
  with t have tx: "?tx db = Inr (db1, e)" and log: "au_log db' = au_log db1" by (simp_all add: transaction_ok)
  from tx assms(1) have e: "au_log db1 = [e\<lparr>ae_CreatedAt := col now\<rparr>]" "ae_Seq e = 1" "ae_PrevHash e = []"
    "ae_CreatedAt e = now" "ae_Hash e = chainHash H [] e"
    by (auto simp: append_tx_def Let_def order_desc_def chainHash_def audit_link_def split: if_splits)
  have "audit_link [] (e\<lparr>ae_CreatedAt := col now\<rparr>) \<noteq> audit_link [] e"
    using assms(3) e(2,4) by (simp add: audit_link_def Let_def writeField_eq lpfield_def be64.append_eq_iff)
  moreover have "Verify no_faults H db' = Inl (1, Modified 1)"
    if "H (audit_link [] (e\<lparr>ae_CreatedAt := col now\<rparr>)) \<noteq> H (audit_link [] e)"
    using that base64_inj e log by (auto simp: Verify_def no_faults_def order_asc_def chainHash_def)
  ultimately show ?thesis by (auto simp: Let_def)
qed

definition microseconds :: "int64 \<Rightarrow> int64" where
  "microseconds t = t - t mod 1000"

theorem lossy_timestamps_break_chain_witness:
  "\<exists>db' e. Append no_faults (\<lambda>x. x) microseconds 1234567 ''acct'' ''alice'' ''login'' [] [] demo_audit0 = (db', Appended e)
     \<and> Verify no_faults (\<lambda>x. x) db' = Inl (1, Modified 1)"
proof -
  have "\<exists>db' e. Append no_faults (\<lambda>x. x) microseconds 1234567 ''acct'' ''alice'' ''login'' [] [] demo_audit0 = (db', Appended e)"
    by (simp add: demo_audit0_def Append_def transaction_def append_tx_def no_faults_def order_desc_def
        enqueueDeliveries_def accountFromContext_def Let_def)
  moreover have "microseconds 1234567 \<noteq> 1234567" by (simp add: microseconds_def)
  moreover have "au_log demo_audit0 = []" by (simp add: demo_audit0_def)
  ultimately show ?thesis using lossy_timestamps_break_chain [where H = "\<lambda>x. x"] unfolding Let_def by blast
qed

end
