(* ===== verification/Bedrock_Store.thy ===== *)
theory Bedrock_Store
  imports Bedrock_Semantics Audit_Log
begin

text \<open>The server's copy of the Bedrock log and the operations on it: \<^verbatim>\<open>bedrock/logstore.go\<close>,
  \<^verbatim>\<open>bedrock/builder.go\<close>, \<^verbatim>\<open>bedrock/anchor.go\<close>, \<^verbatim>\<open>bedrock/scheduler.go\<close>, \<^verbatim>\<open>bedrock/store.go\<close> and
  \<^verbatim>\<open>bedrock/fleet.go\<close>. Rows keep the encoded entry; everything read from the store is decoded and
  verified again. Clocks are arguments. An out-of-range index, which stops the Go program, is
  the error value \<^verbatim>\<open>IndexOutOfRange\<close>; the transaction around it rolls back.\<close>

section \<open>Tables\<close>

definition MaxEntriesPerResponse :: nat where "MaxEntriesPerResponse = 32"

record LogEntry =
  le_AccountID :: string
  le_Seq :: uint64
  le_Encoded :: bytes
  le_Op :: string
  le_Hash :: bytes
  le_EntryTime :: int64
  le_CreatedAt :: int64

record PendingSigningRequest =
  ps_AccountID :: string
  ps_ID :: string
  ps_Entries :: bytes
  ps_PayloadHash :: string
  ps_CreatedAt :: int64

record Configuration =
  cf_AccountID :: string
  cf_Mode :: string
  cf_Quorum :: nat

record bedrock_db =
  bd_log :: "LogEntry list"
  bd_pending :: "PendingSigningRequest list"
  bd_config :: "Configuration list"

datatype log_error =
    DbFault stmt
  | StoredEntryBad uint64 malformed
  | ErrNoLog
  | LogBroken broken
  | NothingToImport
  | EntryDiffers uint64
  | EntryGap uint64 nat
  | IndexOutOfRange uint64
  | NoEntriesToRequest
  | PendingNotExtending
  | NoPendingRequest
  | PendingBad malformed
  | NoSignatureFor uint64
  | UnrequestedEntry uint64
  | AuditHeadFailed audit_error
  | NothingToAnchor uint64 uint64
  | ErrNotAnchored
  | AuditMismatch uint64 audit_error
  | WrongBuilderSeq uint64 nat
  | SignFailed
  | InvalidMode string
  | AcknowledgmentMismatch "string list"

section \<open>Reading the log\<close>

definition decodeRows :: "LogEntry list \<Rightarrow> log_error + Entry list" where
  "decodeRows rows = emap (\<lambda>row. wrap_err (StoredEntryBad (le_Seq row)) (decodeEntry (le_Encoded row))) rows"

definition account_rows :: "string \<Rightarrow> bedrock_db \<Rightarrow> LogEntry list" where
  "account_rows accountID db = order_asc le_Seq (filter (\<lambda>r. le_AccountID r = accountID) (bd_log db))"

definition LogEntries :: "faults \<Rightarrow> string \<Rightarrow> uint64 \<Rightarrow> int \<Rightarrow> bedrock_db \<Rightarrow> log_error + Entry list" where
  "LogEntries F accountID sinceSeq limit db =
     (let limit = (if limit \<le> 0 \<or> limit > int MaxEntriesPerResponse then MaxEntriesPerResponse else nat limit)
      in if F (Select ''log'') then Inl (DbFault (Select ''log''))
         else decodeRows (take limit (filter (\<lambda>r. le_Seq r > sinceSeq) (account_rows accountID db))))"

definition LogAll :: "faults \<Rightarrow> string \<Rightarrow> bedrock_db \<Rightarrow> log_error + Entry list" where
  "LogAll F accountID db =
     (if F (Select ''log'') then Inl (DbFault (Select ''log'')) else decodeRows (account_rows accountID db))"

definition LogHead :: "faults \<Rightarrow> string \<Rightarrow> bedrock_db \<Rightarrow> log_error + (bytes \<times> uint64)" where
  "LogHead F accountID db =
     (if F (Select ''log'') then Inl (DbFault (Select ''log''))
      else case first_row (order_desc le_Seq (filter (\<lambda>r. le_AccountID r = accountID) (bd_log db))) of
        None \<Rightarrow> Inl ErrNoLog | Some row \<Rightarrow> Inr (le_Hash row, le_Seq row))"

definition LogState :: "crypto \<Rightarrow> faults \<Rightarrow> string \<Rightarrow> bedrock_db \<Rightarrow> log_error + State" where
  "LogState C F accountID db =
     ebind (LogAll F accountID db) (\<lambda>entries.
     if length entries = 0 then Inl ErrNoLog
     else ebind (wrap_err LogBroken (VerifyLog C entries)) (\<lambda>(st, _). Inr st))"

section \<open>Importing\<close>

definition equalEntry :: "Entry \<Rightarrow> Entry \<Rightarrow> bool" where
  "equalEntry a b \<longleftrightarrow> Encode a = Encode b"

fun mergeEntries :: "Entry list \<Rightarrow> Entry list \<Rightarrow> Entry list \<Rightarrow> log_error + Entry list" where
  "mergeEntries existing combined [] = Inr combined"
| "mergeEntries existing combined (e # es) =
     (if Seq e \<le> word_of_nat (length existing) then
        if \<not> unat (Seq e - 1) < length existing then Inl (IndexOutOfRange (Seq e - 1))
        else if \<not> equalEntry (existing ! unat (Seq e - 1)) e then Inl (EntryDiffers (Seq e))
        else mergeEntries existing combined es
      else if Seq e = word_of_nat (length combined) + 1 then mergeEntries existing (combined @ [e]) es
      else Inl (EntryGap (Seq e) (length combined)))"

definition row_of :: "string \<Rightarrow> int64 \<Rightarrow> Entry \<Rightarrow> LogEntry" where
  "row_of accountID now e = \<lparr>le_AccountID = accountID, le_Seq = Seq e, le_Encoded = Encode e, le_Op = Op e,
     le_Hash = Hash e, le_EntryTime = Time e, le_CreatedAt = now\<rparr>"

fun insertRows :: "faults \<Rightarrow> string \<Rightarrow> int64 \<Rightarrow> nat \<Rightarrow> Entry list \<Rightarrow> LogEntry list \<Rightarrow> log_error + LogEntry list" where
  "insertRows F accountID now i [] rows = Inr rows"
| "insertRows F accountID now i (e # es) rows =
     (if F (Insert ''log'' i) \<or> list_ex (\<lambda>r. le_AccountID r = accountID \<and> le_Seq r = Seq e) rows
      then Inl (DbFault (Insert ''log'' i))
      else insertRows F accountID now (i + 1) es (rows @ [row_of accountID now e]))"

definition import_tx :: "crypto \<Rightarrow> faults \<Rightarrow> int64 \<Rightarrow> string \<Rightarrow> Entry list \<Rightarrow> bedrock_db \<Rightarrow> log_error + (bedrock_db \<times> nat)" where
  "import_tx C F now accountID entries db =
     (if F (Select ''log'') then Inl (DbFault (Select ''log''))
      else ebind (decodeRows (account_rows accountID db)) (\<lambda>existing.
           ebind (mergeEntries existing existing entries) (\<lambda>combined.
           ebind (wrap_err LogBroken (VerifyLog C combined)) (\<lambda>(_, combined).
           ebind (insertRows F accountID now 0 (drop (length existing) combined) (bd_log db)) (\<lambda>rows.
           Inr (db\<lparr>bd_log := rows\<rparr>, length combined))))))"

definition Import :: "crypto \<Rightarrow> faults \<Rightarrow> int64 \<Rightarrow> string \<Rightarrow> Entry list \<Rightarrow> bedrock_db \<Rightarrow> bedrock_db \<times> (log_error + nat)" where
  "Import C F now accountID entries db =
     (if length entries = 0 then (db, Inl NothingToImport)
      else transaction F (DbFault Commit) db (import_tx C F now accountID entries))"

section \<open>The offline signing request\<close>

definition Pending :: "faults \<Rightarrow> string \<Rightarrow> bedrock_db \<Rightarrow> log_error + PendingSigningRequest option" where
  "Pending F accountID db =
     (if F (Select ''pending'') then Inl (DbFault (Select ''pending''))
      else Inr (first_row (filter (\<lambda>p. ps_AccountID p = accountID) (bd_pending db))))"

definition extends_head :: "uint64 \<Rightarrow> Entry list \<Rightarrow> bool" where
  "extends_head headSeq entries \<longleftrightarrow>
     list_all (\<lambda>(i, e). Seq e = headSeq + word_of_nat i + 1 \<and> length (Sigs e) = 0) (enumerate 0 entries)"

definition CreatePending :: "crypto \<Rightarrow> faults \<Rightarrow> int64 \<Rightarrow> string \<Rightarrow> Entry list \<Rightarrow> bedrock_db
    \<Rightarrow> bedrock_db \<times> (log_error + PendingSigningRequest)" where
  "CreatePending C F now accountID entries db =
     (if length entries = 0 then (db, Inl NoEntriesToRequest)
      else case Pending F accountID db of
        Inl err \<Rightarrow> (db, Inl err)
      | Inr (Some existing) \<Rightarrow> (db, Inr existing)
      | Inr None \<Rightarrow>
     (case LogAll F accountID db of
        Inl err \<Rightarrow> (db, Inl err)
      | Inr stored \<Rightarrow>
        if length stored = 0 then (db, Inl ErrNoLog)
        else
     (case VerifyLog C stored of
        Inl err \<Rightarrow> (db, Inl (LogBroken err))
      | Inr (state, _) \<Rightarrow>
        if \<not> extends_head (st_HeadSeq state) entries then (db, Inl PendingNotExtending)
        else let encoded = EncodeLog entries;
                 digest = sha256 C encoded;
                 request = \<lparr>ps_AccountID = accountID, ps_ID = ''request-'' @ hex (take 16 digest),
                            ps_Entries = encoded, ps_PayloadHash = hex digest, ps_CreatedAt = now\<rparr>
             in if F (Insert ''pending'' 0) \<or> list_ex (\<lambda>p. ps_AccountID p = accountID \<or> ps_ID p = ps_ID request) (bd_pending db)
                then (db, Inl (DbFault (Insert ''pending'' 0)))
                else (db\<lparr>bd_pending := bd_pending db @ [request]\<rparr>, Inr request))))"

fun attachSignatures :: "(uint64 \<rightharpoonup> Signature list) \<Rightarrow> Entry list \<Rightarrow> log_error + Entry list" where
  "attachSignatures signatures [] = Inr []"
| "attachSignatures signatures (e # es) =
     (let sigs = (case signatures (Seq e) of Some ss \<Rightarrow> ss | None \<Rightarrow> [])
      in if length sigs = 0 then Inl (NoSignatureFor (Seq e))
         else ebind (attachSignatures signatures es) (\<lambda>es. Inr (e\<lparr>Sigs := sigs\<rparr> # es)))"

text \<open>The response is a map from sequence numbers; the list is its content in iteration order.\<close>

definition checkResponse :: "(uint64 \<times> Signature list) list \<Rightarrow> Entry list \<Rightarrow> log_error + Entry list" where
  "checkResponse signatures entries =
     ebind (attachSignatures (map_of signatures) entries) (\<lambda>entries.
     case find (\<lambda>(seq, _). \<not> list_ex (\<lambda>e. Seq e = seq) entries) signatures of
       Some (seq, _) \<Rightarrow> Inl (UnrequestedEntry seq) | None \<Rightarrow> Inr entries)"

definition CommitPending :: "crypto \<Rightarrow> faults \<Rightarrow> int64 \<Rightarrow> string \<Rightarrow> (uint64 \<times> Signature list) list \<Rightarrow> bedrock_db
    \<Rightarrow> bedrock_db \<times> (log_error + unit)" where
  "CommitPending C F now accountID signatures db =
     (case Pending F accountID db of
        Inl err \<Rightarrow> (db, Inl err)
      | Inr None \<Rightarrow> (db, Inl NoPendingRequest)
      | Inr (Some request) \<Rightarrow>
     (case ebind (wrap_err PendingBad (DecodeLog (ps_Entries request))) (checkResponse signatures) of
        Inl err \<Rightarrow> (db, Inl err)
      | Inr entries \<Rightarrow>
     (case Import C F now accountID entries db of
        (db, Inl err) \<Rightarrow> (db, Inl err)
      | (db, Inr _) \<Rightarrow>
        if F (Delete ''pending'') then (db, Inl (DbFault (Delete ''pending'')))
        else (db\<lparr>bd_pending := filter (\<lambda>p. ps_AccountID p \<noteq> accountID) (bd_pending db)\<rparr>, Inr ()))))"

section \<open>Building entries\<close>

record Builder =
  bu_entries :: "Entry list"
  bu_prev :: bytes

definition NewBuilder :: Builder where "NewBuilder = \<lparr>bu_entries = [], bu_prev = []\<rparr>"

definition FromEntries :: "crypto \<Rightarrow> Entry list \<Rightarrow> broken + Builder" where
  "FromEntries C entries =
     ebind (VerifyLog C entries) (\<lambda>(st, entries). Inr \<lparr>bu_entries = entries, bu_prev = st_Head st\<rparr>)"

definition Prepare :: "crypto \<Rightarrow> Builder \<Rightarrow> int64 \<Rightarrow> string \<Rightarrow> bytes \<Rightarrow> Entry \<times> bytes" where
  "Prepare C b t op body =
     (let e = \<lparr>Seq = word_of_nat (length (bu_entries b)) + 1, Time = t, Op = op, Body = body, Sigs = [], Hash = []\<rparr>
      in (e, SigningInput (sha512 C) e (bu_prev b)))"

definition CommitEntry :: "crypto \<Rightarrow> Builder \<Rightarrow> Entry \<Rightarrow> Signature list \<Rightarrow> log_error + Builder" where
  "CommitEntry C b e sigs =
     (if Seq e \<noteq> word_of_nat (length (bu_entries b)) + 1
      then Inl (WrongBuilderSeq (Seq e) (length (bu_entries b) + 1))
      else let e = e\<lparr>Sigs := sigs\<rparr>;
               e = e\<lparr>Hash := SigningInput (sha512 C) e (bu_prev b)\<rparr>
           in Inr \<lparr>bu_entries = bu_entries b @ [e], bu_prev = Hash e\<rparr>)"

definition BuilderVerify :: "crypto \<Rightarrow> Builder \<Rightarrow> broken + (State \<times> Entry list)" where
  "BuilderVerify C b = VerifyLog C (bu_entries b)"

text \<open>Signing with a set of keys: a signer is its index and its private signing function, which may
  fail; a nil key is \<^verbatim>\<open>None\<close>.\<close>

definition sign_all :: "bytes \<Rightarrow> (uint32 \<times> (bytes \<Rightarrow> bytes option) option) list \<Rightarrow> unit + Signature list" where
  "sign_all input signers = emap (\<lambda>(index, key). case key of None \<Rightarrow> Inl ()
     | Some sign \<Rightarrow> (case sign input of None \<Rightarrow> Inl () | Some sg \<Rightarrow> Inr \<lparr>SignerIndex = index, Sig = sg\<rparr>)) signers"

definition SignRoots :: "bytes \<Rightarrow> (uint32 \<times> (bytes \<Rightarrow> bytes option) option) list \<Rightarrow> unit + Signature list" where
  "SignRoots input signers = sign_all input signers"

definition SignAuthorities :: "bytes \<Rightarrow> (uint32 \<times> (bytes \<Rightarrow> bytes option) option) list \<Rightarrow> unit + Signature list" where
  "SignAuthorities input signers = sign_all input signers"

definition SignAnchors :: "bytes \<Rightarrow> (uint32 \<times> (bytes \<Rightarrow> bytes option) option) list \<Rightarrow> unit + Signature list" where
  "SignAnchors input signers = sign_all input signers"

section \<open>Anchoring the audit log\<close>

text \<open>The audit interface: the head of an account's entries, and verification from an anchor.\<close>

type_synonym audit_head = "string \<Rightarrow> audit_error + (uint64 \<times> string)"
type_synonym audit_verify = "uint64 \<Rightarrow> string \<Rightarrow> (uint64 \<times> audit_error) + unit"

definition anchor_advances :: "State \<Rightarrow> uint64 \<Rightarrow> log_error + unit" where
  "anchor_advances state seq =
     (case st_Anchor state of None \<Rightarrow> Inr ()
      | Some a \<Rightarrow> if an_AuditSeq a \<ge> seq then Inl (NothingToAnchor seq (an_AuditSeq a)) else Inr ())"

definition PrepareAnchor :: "crypto \<Rightarrow> faults \<Rightarrow> string \<Rightarrow> audit_head \<Rightarrow> int64 \<Rightarrow> bedrock_db \<Rightarrow> log_error + (Entry \<times> bytes)" where
  "PrepareAnchor C F accountID audit now db =
     ebind (wrap_err AuditHeadFailed (audit accountID)) (\<lambda>(seq, hash).
     ebind (LogAll F accountID db) (\<lambda>entries.
     if length entries = 0 then Inl ErrNoLog
     else ebind (wrap_err LogBroken (VerifyLog C entries)) (\<lambda>(state, entries).
          ebind (anchor_advances state seq) (\<lambda>_.
          ebind (wrap_err LogBroken (FromEntries C entries)) (\<lambda>builder.
          Inr (Prepare C builder now OpAnchor (AnchorBody hash seq)))))))"

lemma anchor_advances_Inr [result_simps]:
  "anchor_advances state seq = Inr () \<longleftrightarrow> (\<forall>a. st_Anchor state = Some a \<longrightarrow> an_AuditSeq a < seq)"
  by (auto simp: anchor_advances_def split: option.splits)

text \<open>The difference of two instants saturates at the range of a duration.\<close>

definition time_sub :: "int \<Rightarrow> int \<Rightarrow> int" where
  "time_sub a b = max (- (2 ^ 63)) (min (2 ^ 63 - 1) (a - b))"

definition AnchorDue :: "State option \<Rightarrow> uint64 \<Rightarrow> int \<Rightarrow> int \<Rightarrow> uint64 \<Rightarrow> int \<Rightarrow> bool" where
  "AnchorDue state auditSeq lastAnchoredAt now minEntries maxAge =
     (case state of None \<Rightarrow> False
      | Some st \<Rightarrow>
        (case st_Anchor st of None \<Rightarrow> auditSeq > 0
         | Some a \<Rightarrow>
           let advanced = auditSeq - an_AuditSeq a
           in if auditSeq < an_AuditSeq a then False
              else if advanced = 0 then False
              else advanced \<ge> minEntries \<or> time_sub now lastAnchoredAt \<ge> maxAge))"

definition VerifyAnchored :: "State option \<Rightarrow> audit_verify \<Rightarrow> log_error + unit" where
  "VerifyAnchored state check =
     (case state of None \<Rightarrow> Inl ErrNotAnchored
      | Some st \<Rightarrow>
        (case st_Anchor st of None \<Rightarrow> Inl ErrNotAnchored
         | Some a \<Rightarrow> (case check (an_AuditSeq a) (an_AuditHead a) of
             Inl (broken, err) \<Rightarrow> Inl (AuditMismatch broken err) | Inr _ \<Rightarrow> Inr ())))"

definition LastAnchoredAt :: "Entry list \<Rightarrow> State option \<Rightarrow> int option" where
  "LastAnchoredAt entries state =
     (case state of None \<Rightarrow> None
      | Some st \<Rightarrow>
        (case st_Anchor st of None \<Rightarrow> None
         | Some a \<Rightarrow>
           map_option (\<lambda>e. sint (Time e) * 1000000000) (find (\<lambda>e. Op e = OpAnchor
             \<and> (case ParseAnchor (Body e) of Inr b \<Rightarrow> an_AuditSeq b = an_AuditSeq a | Inl _ \<Rightarrow> False)) entries)))"

definition AnchorMatches :: "State option \<Rightarrow> uint64 \<Rightarrow> string \<Rightarrow> bool" where
  "AnchorMatches state seq hash =
     (case state of None \<Rightarrow> False
      | Some st \<Rightarrow> (case st_Anchor st of None \<Rightarrow> False
         | Some a \<Rightarrow> an_AuditSeq a = seq \<and> an_AuditHead a = hash))"

section \<open>The anchor scheduler\<close>

record Scheduler =
  sc_AccountID :: string
  sc_Public :: bytes
  sc_Sign :: "bytes \<Rightarrow> bytes option"
  sc_MinEntries :: uint64
  sc_MaxAge :: int
  sc_loggedNotEnabled :: bool

fun anchorIndex :: "nat \<Rightarrow> bytes list \<Rightarrow> bytes \<Rightarrow> nat option" where
  "anchorIndex i [] public = None"
| "anchorIndex i (k # ks) public = (if k = public then Some i else anchorIndex (i + 1) ks public)"

definition anchorSignerIndex :: "State \<Rightarrow> bytes \<Rightarrow> uint32 option" where
  "anchorSignerIndex state public =
     map_option (\<lambda>i. word_of_nat (length (st_Authorities state) + i)) (anchorIndex 0 (st_AnchorKeys state) public)"

definition unix_seconds :: "int \<Rightarrow> int64" where
  "unix_seconds ns = word_of_int (ns div 1000000000)"

text \<open>A tick up to the import: an error, nothing to do, or the log extended by the signed anchor; and
  what it leaves in the flag that suppresses the repeated log line.\<close>

definition tick_plan :: "crypto \<Rightarrow> faults \<Rightarrow> audit_head \<Rightarrow> int \<Rightarrow> Scheduler \<Rightarrow> bedrock_db \<Rightarrow> log_error + Entry list option" where
  "tick_plan C F audit now s db =
     ebind (LogAll F (sc_AccountID s) db) (\<lambda>entries.
     if length entries = 0 then Inr None
     else ebind (wrap_err LogBroken (VerifyLog C entries)) (\<lambda>(state, entries).
     case anchorSignerIndex state (sc_Public s) of
       None \<Rightarrow> Inr None
     | Some signerIndex \<Rightarrow>
    (case audit (sc_AccountID s) of
       Inl _ \<Rightarrow> Inr None
     | Inr (auditSeq, _) \<Rightarrow>
       let lastAnchoredAt = (case LastAnchoredAt entries (Some state) of Some t \<Rightarrow> t | None \<Rightarrow> zero_time)
       in if \<not> AnchorDue (Some state) auditSeq lastAnchoredAt now (sc_MinEntries s) (sc_MaxAge s) then Inr None
          else case PrepareAnchor C F (sc_AccountID s) audit (unix_seconds now) db of
                 Inl (NothingToAnchor a b) \<Rightarrow> Inr None
               | Inl err \<Rightarrow> Inl err
               | Inr (entry, input) \<Rightarrow>
            (case sc_Sign s input of
               None \<Rightarrow> Inl SignFailed
             | Some sg \<Rightarrow> Inr (Some (entries @ [entry\<lparr>Sigs := [\<lparr>SignerIndex = signerIndex, Sig = sg\<rparr>]\<rparr>]))))))"

definition tick_flag :: "crypto \<Rightarrow> faults \<Rightarrow> Scheduler \<Rightarrow> bedrock_db \<Rightarrow> Scheduler" where
  "tick_flag C F s db =
     (case LogAll F (sc_AccountID s) db of Inl _ \<Rightarrow> s
      | Inr entries \<Rightarrow> (case VerifyLog C entries of Inl _ \<Rightarrow> s
        | Inr (state, _) \<Rightarrow> s\<lparr>sc_loggedNotEnabled := (anchorSignerIndex state (sc_Public s) = None)\<rparr>))"

definition Tick :: "crypto \<Rightarrow> faults \<Rightarrow> audit_head \<Rightarrow> int \<Rightarrow> int64 \<Rightarrow> Scheduler \<Rightarrow> bedrock_db
    \<Rightarrow> bedrock_db \<times> Scheduler \<times> (log_error + unit)" where
  "Tick C F audit now created s db =
     (case tick_plan C F audit now s db of
        Inl err \<Rightarrow> (db, tick_flag C F s db, Inl err)
      | Inr None \<Rightarrow> (db, tick_flag C F s db, Inr ())
      | Inr (Some extended) \<Rightarrow>
     (case Import C F created (sc_AccountID s) extended db of
        (db', Inl err) \<Rightarrow> (db', tick_flag C F s db, Inl err)
      | (db', Inr _) \<Rightarrow> (db', tick_flag C F s db, Inr ())))"

section \<open>The enforcement mode\<close>

definition ModeOff :: string where "ModeOff = ''off''"

definition ModeAdvisory :: string where "ModeAdvisory = ''advisory''"

definition ModeEnforcing :: string where "ModeEnforcing = ''enforcing''"

definition GetConfiguration :: "faults \<Rightarrow> string \<Rightarrow> bedrock_db \<Rightarrow> bedrock_db \<times> (log_error + Configuration)" where
  "GetConfiguration F accountID db =
     (if F (Select ''config'') then (db, Inl (DbFault (Select ''config'')))
      else case first_row (filter (\<lambda>c. cf_AccountID c = accountID) (bd_config db)) of
        Some c \<Rightarrow> (db, Inr c)
      | None \<Rightarrow>
        if F (Insert ''config'' 0) then (db, Inl (DbFault (Insert ''config'' 0)))
        else let c = \<lparr>cf_AccountID = accountID, cf_Mode = ModeOff, cf_Quorum = 1\<rparr>
             in (db\<lparr>bd_config := bd_config db @ [c]\<rparr>, Inr c))"

definition EnabledAccounts :: "faults \<Rightarrow> bedrock_db \<Rightarrow> log_error + string list" where
  "EnabledAccounts F db =
     (if F (Select ''config'') then Inl (DbFault (Select ''config''))
      else Inr (map cf_AccountID (filter (\<lambda>c. cf_Mode c \<noteq> ModeOff) (bd_config db))))"

definition UncoveredAt :: "State option \<Rightarrow> (string \<times> PeerKeys) list \<Rightarrow> int64 \<Rightarrow> string list" where
  "UncoveredAt state enrolled t =
     (case state of None \<Rightarrow> sort (map fst enrolled) | Some st \<Rightarrow> Uncovered st enrolled t)"

definition sameStrings :: "string list \<Rightarrow> string list \<Rightarrow> bool" where
  "sameStrings a b = (let a = sort a; b = sort b
     in if length a \<noteq> length b then False else list_all (\<lambda>i. a ! i = b ! i) [0..<length a])"

definition SetMode :: "faults \<Rightarrow> string \<Rightarrow> string \<Rightarrow> string list \<Rightarrow> State option \<Rightarrow> (string \<times> PeerKeys) list \<Rightarrow> int64
    \<Rightarrow> bedrock_db \<Rightarrow> bedrock_db \<times> (log_error + Configuration)" where
  "SetMode F accountID mode acknowledged state enrolled t db =
     (if mode \<noteq> ModeOff \<and> mode \<noteq> ModeAdvisory \<and> mode \<noteq> ModeEnforcing then (db, Inl (InvalidMode mode))
      else if mode = ModeEnforcing \<and> \<not> sameStrings (UncoveredAt state enrolled t) acknowledged
      then (db, Inl (AcknowledgmentMismatch (UncoveredAt state enrolled t)))
      else case GetConfiguration F accountID db of
        (db, Inl err) \<Rightarrow> (db, Inl err)
      | (db, Inr _) \<Rightarrow>
        if F (Update ''config'') then (db, Inl (DbFault (Update ''config'')))
        else GetConfiguration F accountID (db\<lparr>bd_config := map (\<lambda>c. if cf_AccountID c = accountID
               then c\<lparr>cf_Mode := mode\<rparr> else c) (bd_config db)\<rparr>))"

section \<open>The scheduler fleet\<close>

text \<open>The running schedulers, and what a reconciliation starts and stops.\<close>

definition start_missing :: "string list \<Rightarrow> string list \<Rightarrow> string list" where
  "start_missing accounts running = foldl (\<lambda>r a. if a \<in> set r then r else r @ [a]) running accounts"

definition Reconcile :: "'err + string list \<Rightarrow> string list \<Rightarrow> string list \<times> ('err + unit)" where
  "Reconcile enabled running =
     (case enabled of Inl err \<Rightarrow> (running, Inl err)
      | Inr accounts \<Rightarrow> (filter (\<lambda>a. a \<in> set accounts) (start_missing accounts running), Inr ()))"

definition stopAll :: "string list \<Rightarrow> string list" where "stopAll running = []"

definition Running :: "string list \<Rightarrow> string list" where "Running running = sort running"

end
