(* ===== verification/Bedrock_Store_Trust.thy ===== *)
theory Bedrock_Store_Trust
  imports Bedrock_Store Bedrock_Demo Audit_Trust
begin

text \<open>What the stored log guarantees: each account's rows are the encoding of a verified log, imports
  only ever append to it and only what verifies, reads return it, and the signing ceremony, the
  anchor scheduler and the enforcement switch keep this.\<close>

section \<open>Hashes do not influence verification\<close>

abbreviation clear_hash :: "Entry \<Rightarrow> Entry" where
  "clear_hash \<equiv> Hash_update (\<lambda>_. [])"

lemma entry_link_Hash [simp]: "entry_link p (Hash_update f e) = entry_link p e"
  by (simp add: entry_link_def)

lemma verifyEntry_Hash [simp]: "verifyEntry C i p st (Hash_update f e) = verifyEntry C i p st e"
proof -
  have "read_genesis st (Hash_update f e) = read_genesis st e" for st by (simp add: read_genesis_def)
  moreover have "verifySignatures C (Hash_update f e) h t k a n = verifySignatures C e h t k a n" for h t k a n
    by (simp add: verifySignatures_def)
  moreover have "apply_entry C st (Hash_update f e) g = apply_entry C st e g" for st g by (simp add: apply_entry_def)
  moreover have "signing_keys st (Hash_update f e) = signing_keys st e"
    "signing_threshold st (Hash_update f e) = signing_threshold st e"
    "signing_anchor_keys st (Hash_update f e) = signing_anchor_keys st e" for st
    by (simp_all add: signing_keys_def signing_threshold_def signing_anchor_keys_def)
  ultimately show ?thesis by (simp add: verifyEntry_def cong: if_cong)
qed

lemma chain_head_clear [simp]:
  "chain_head entry_link H p (map (Hash_update f) es) = chain_head entry_link H p es"
  by (induction es arbitrary: p) auto

lemma fill_hashes_clear [simp]: "fill_hashes C p (map (Hash_update f) es) = fill_hashes C p es"
  by (induction es arbitrary: p) auto

lemma verified_clear: "verified C (map (Hash_update f) es) st \<longleftrightarrow> verified C es st"
  by (induction es arbitrary: st rule: rev_induct) (auto simp: verified_snoc)

lemma clear_fill [simp]: "map clear_hash (fill_hashes C p es) = map clear_hash es"
  by (induction es arbitrary: p) auto

lemma verified_seq:
  assumes "verified C es st" and "i < length es"
  shows "Seq (es ! i) = word_of_nat (i + 1)"
proof -
  have "es = take i es @ es ! i # drop (Suc i) es" using assms(2) by (rule id_take_nth_drop)
  with assms(1) have "verified C (take i es @ es ! i # drop (Suc i) es) st" by simp
  then obtain st0 st1 h where "verifyEntry C (length (take i es)) (chain_tip C (take i es)) st0 (es ! i) = Inr (st1, h)"
    by (rule verified_entryE)
  then show ?thesis using assms(2) by (auto elim!: verifyEntry_Inr)
qed

lemma unat_verified_seq:
  assumes "verified C es st" and "i < length es" and "length es < 2 ^ 64"
  shows "unat (Seq (es ! i)) = i + 1"
  unfolding verified_seq [OF assms(1,2)] using assms(2,3) by (simp only: unat_of_nat) simp

section \<open>Verified entries are encodable\<close>

lemma sig_ok_length: "sig_ok C h tier keys aks s \<Longrightarrow> length (Sig s) = 4627"
  by (auto simp: sig_ok_def verify_by_def VerifyRoot_def VerifyAuthority_def VerifyAnchorKey_def size_defs
      split: if_splits Tier.splits)

lemma verifyEntry_encodable:
  assumes "verifyEntry C i p st e = Inr (st', h)" and "i = 0 \<or> state_ok C st" and "i < 2 ^ 64 - 1" and "fits32 (Body e)"
  shows "encodable e"
proof -
  from assms(1) obtain g st1 where g: "read_genesis st e = Inr (g, st1)" and known: "snd (TierOf (Op e))"
    and seq: "Seq e = word_of_nat (i + 1)" "Seq e = 1 \<longleftrightarrow> Op e = OpGenesis"
    and v: "verifySignatures C e h (fst (TierOf (Op e))) (signing_keys st1 e) (signing_anchor_keys st1 e)
      (signing_threshold st1 e) = Inr ()"
    by (auto elim!: verifyEntry_Inr)
  have "length (signing_keys st1 e) + length (signing_anchor_keys st1 e) \<le> 64"
  proof (cases "Op e = OpGenesis")
    case True
    with g obtain g' where "ParseGenesis (Body e) = Inr g'" "st_Roots st1 = g_Roots g'"
      by (auto simp: read_genesis_def in_entry_eq_Inr ebind_eq_Inr in_body_eq_Inr)
    with True show ?thesis
      by (simp add: signing_keys_def signing_anchor_keys_def TierOf_def op_defs genesis.parse_iff genesis_ok_def keys_ok_def)
  next
    case False
    then have "st1 = st" using g by (auto simp: read_genesis_def)
    moreover have "i \<noteq> 0" using False seq by (cases i) auto
    ultimately show ?thesis using assms(2)
      by (auto simp: signing_keys_def signing_anchor_keys_def state_ok_def keys_ok_def TierOf_def op_defs split: if_splits)
  qed
  moreover have "length (Op e) \<le> 20" using known by (auto simp: TierOf_def op_defs split: if_splits)
  moreover have "list_all (\<lambda>s. length (Sig s) = 4627) (Sigs e)"
    using v by (auto simp: verifySignatures_iff list_all_iff dest!: sig_ok_length)
  ultimately show ?thesis
    using verifySignatures_count(3) [OF v] assms(4) by (auto simp: encodable_def list_all_iff)
qed

lemma verified_encodable:
  assumes "verified C es st" and "list_all (\<lambda>e. fits32 (Body e)) es" and "length es < 2 ^ 64"
  shows "list_all encodable es"
  using assms
proof (induction rule: verified.induct)
  case (step es st e st' h)
  have "length es = 0 \<or> state_ok C st" using verified_state_ok [OF step.hyps(1)] by auto
  with verifyEntry_encodable [OF step.hyps(2)] step show ?case by simp
qed simp

section \<open>Stored logs\<close>

definition row_matches :: "string \<Rightarrow> Entry \<Rightarrow> LogEntry \<Rightarrow> bool" where
  "row_matches acct e r \<longleftrightarrow> le_AccountID r = acct \<and> le_Seq r = Seq e \<and> le_Encoded r = Encode e \<and> le_Op r = Op e
     \<and> le_Hash r = Hash e \<and> le_EntryTime r = Time e"

text \<open>The rows of an account hold the log \<^verbatim>\<open>es\<close>: it verifies, its entries are encodable, and the rows
  are its entries in order, each with the columns derived from the entry and its chain hash.\<close>

definition stored :: "crypto \<Rightarrow> string \<Rightarrow> Entry list \<Rightarrow> bedrock_db \<Rightarrow> bool" where
  "stored C acct es db \<longleftrightarrow> (\<exists>st. verified C es st) \<and> list_all (\<lambda>e. encodable e \<and> Hash e = []) es
     \<and> length es < 2 ^ 64
     \<and> list_all2 (row_matches acct) (fill_hashes C [] es) (filter (\<lambda>r. le_AccountID r = acct) (bd_log db))"

definition log_inv :: "crypto \<Rightarrow> bedrock_db \<Rightarrow> bool" where
  "log_inv C db \<longleftrightarrow> (\<forall>acct. \<exists>es. stored C acct es db)"

lemma fill_hashes_nth: "i < length es \<Longrightarrow> \<exists>h. fill_hashes C p es ! i = (es ! i)\<lparr>Hash := h\<rparr>"
proof (induction es arbitrary: p i)
  case (Cons e es)
  then show ?case by (cases i) auto
qed simp

lemma stored_rows:
  assumes "stored C acct es db"
  shows "account_rows acct db = filter (\<lambda>r. le_AccountID r = acct) (bd_log db)"
    and "length (account_rows acct db) = length es"
    and "\<And>i. i < length es \<Longrightarrow> row_matches acct ((es ! i)\<lparr>Hash := Hash (fill_hashes C [] es ! i)\<rparr>) (account_rows acct db ! i)"
proof -
  let ?rows = "filter (\<lambda>r. le_AccountID r = acct) (bd_log db)"
  from assms obtain st where v: "verified C es st" and len: "length es < 2 ^ 64"
    and rows: "list_all2 (row_matches acct) (fill_hashes C [] es) ?rows" by (auto simp: stored_def)
  have n: "length ?rows = length es" using list_all2_lengthD [OF rows] by simp
  have m: "row_matches acct ((es ! i)\<lparr>Hash := Hash (fill_hashes C [] es ! i)\<rparr>) (?rows ! i)" if "i < length es" for i
    using list_all2_nthD [OF rows, of i] fill_hashes_nth [OF that, of C "[]"] that by auto
  have "unat (le_Seq (?rows ! i)) = i + 1" if "i < length es" for i
    using m [OF that] unat_verified_seq [OF v that len] by (simp add: row_matches_def)
  then have "sorted (map le_Seq ?rows)"
    unfolding sorted_iff_nth_mono_less by (simp add: n word_le_nat_alt)
  then show *: "account_rows acct db = ?rows" by (simp add: account_rows_def order_asc_sorted)
  show "length (account_rows acct db) = length es" using n by (simp add: *)
  show "row_matches acct ((es ! i)\<lparr>Hash := Hash (fill_hashes C [] es ! i)\<rparr>) (account_rows acct db ! i)"
    if "i < length es" for i using m [OF that] by (simp add: *)
qed

lemma stored_decodes:
  assumes "stored C acct es db"
  shows "decodeRows (account_rows acct db) = Inr es"
  unfolding decodeRows_def emap_eq_Inr list_all2_conv_all_nth
proof (intro conjI allI impI)
  show "length (account_rows acct db) = length es" using stored_rows(2) [OF assms] .
  fix i assume "i < length (account_rows acct db)"
  then have i: "i < length es" using stored_rows(2) [OF assms] by simp
  have e: "encodable (es ! i)" "Hash (es ! i) = []" using assms i by (auto simp: stored_def list_all_length)
  have "le_Encoded (account_rows acct db ! i) = Encode (es ! i)"
    using stored_rows(3) [OF assms i] by (simp add: row_matches_def)
  then show "wrap_err (StoredEntryBad (le_Seq (account_rows acct db ! i))) (decodeEntry (le_Encoded (account_rows acct db ! i)))
      = Inr (es ! i)"
    using decodeEntry_Encode [OF e(1)] e(2) by simp
qed

lemma stored_unique: "stored C acct es db \<Longrightarrow> stored C acct ds db \<Longrightarrow> es = ds"
  using stored_decodes [of C acct es db] stored_decodes [of C acct ds db] by simp

lemma stored_LogAll: "stored C acct es db \<Longrightarrow> \<not> F (Select ''log'') \<Longrightarrow> LogAll F acct db = Inr es"
  by (simp add: LogAll_def stored_decodes)

section \<open>Importing\<close>

lemma mergeEntries_extends:
  "mergeEntries existing combined es = Inr r \<Longrightarrow> \<exists>new. r = combined @ new \<and> set new \<subseteq> set es"
proof (induction es arbitrary: combined)
  case (Cons e es)
  show ?case
  proof (cases "Seq e \<le> word_of_nat (length existing)")
    case True
    with Cons.prems have "mergeEntries existing combined es = Inr r" by (auto split: if_splits)
    from Cons.IH [OF this] show ?thesis by auto
  next
    case False
    with Cons.prems have "mergeEntries existing (combined @ [e]) es = Inr r" by (auto split: if_splits)
    from Cons.IH [OF this] show ?thesis by auto
  qed
qed auto

lemma insertRows_Inr:
  "insertRows F acct now i es rows = Inr rows' \<Longrightarrow> rows' = rows @ map (row_of acct now) es"
proof (induction es arbitrary: i rows)
  case (Cons e es)
  then have "insertRows F acct now (i + 1) es (rows @ [row_of acct now e]) = Inr rows'" by (simp split: if_splits)
  from Cons.IH [OF this] show ?case by simp
qed simp

lemma row_matches_row_of: "row_matches acct e (row_of acct now e)"
  by (simp add: row_matches_def row_of_def)

text \<open>A successful import: the account's stored log grows by the new entries, which verify on top of it.\<close>

lemma import_tx_Inr:
  assumes "import_tx C F now acct entries db = Inr (db', depth)" and "stored C acct es db"
    and "list_all (\<lambda>e. fits32 (Body e)) entries" and "length (bd_log db') < 2 ^ 64"
  obtains new where "mergeEntries es es entries = Inr (es @ new)" "stored C acct (es @ map clear_hash new) db'"
    "bd_log db' = bd_log db @ map (row_of acct now) (drop (length es) (fill_hashes C [] (es @ new)))"
    "depth = length (es @ new)" "bd_pending db' = bd_pending db" "bd_config db' = bd_config db" "es @ new \<noteq> []"
proof -
  from assms(1) stored_decodes [OF assms(2)] obtain combined st hashed rows where
    m: "mergeEntries es es entries = Inr combined" and v: "VerifyLog C combined = Inr (st, hashed)"
    and ins: "insertRows F acct now 0 (drop (length es) hashed) (bd_log db) = Inr rows"
    and db': "db' = db\<lparr>bd_log := rows\<rparr>" "depth = length hashed"
    by (auto simp: import_tx_def ebind_eq_Inr wrap_err_Inr split: if_splits)
  from mergeEntries_extends [OF m] obtain new where new: "combined = es @ new" "set new \<subseteq> set entries" by blast
  from v have ver: "verified C (es @ new) st" and hashed: "hashed = fill_hashes C [] (es @ new)" and ne: "es @ new \<noteq> []"
    by (auto simp: VerifyLog_iff new)
  have rows: "rows = bd_log db @ map (row_of acct now) (drop (length es) hashed)" using insertRows_Inr [OF ins] .
  from assms(2) have es: "list_all (\<lambda>e. encodable e \<and> Hash e = []) es"
    and old: "list_all2 (row_matches acct) (fill_hashes C [] es) (filter (\<lambda>r. le_AccountID r = acct) (bd_log db))"
    by (auto simp: stored_def)
  have "length (filter (\<lambda>r. le_AccountID r = acct) (bd_log db)) = length es" using list_all2_lengthD [OF old] by simp
  then have "length (es @ new) \<le> length rows"
    using length_filter_le [of "\<lambda>r. le_AccountID r = acct" "bd_log db"] by (simp add: rows hashed)
  then have len: "length (es @ new) < 2 ^ 64" using assms(4) db' by simp
  have "list_all (\<lambda>e. fits32 (Body e)) (es @ new)"
    using es new(2) assms(3) by (auto simp: list_all_iff encodable_def)
  from verified_encodable [OF ver this len] have enc: "list_all encodable (es @ new)" .
  let ?ds = "es @ map clear_hash new"
  have clear: "map clear_hash (es @ new) = ?ds" using es by (simp add: list_all_iff map_idI)
  have fill: "fill_hashes C [] ?ds = fill_hashes C [] (es @ new)" unfolding clear [symmetric] by (rule fill_hashes_clear)
  have split: "fill_hashes C [] (es @ new) = fill_hashes C [] es @ drop (length es) hashed"
    by (simp add: hashed fill_hashes_append)
  have "list_all2 (row_matches acct) (drop (length es) hashed) (map (row_of acct now) (drop (length es) hashed))"
    by (simp add: list_all2_conv_all_nth row_matches_row_of)
  moreover have "filter (\<lambda>r. le_AccountID r = acct) (map (row_of acct now) xs) = map (row_of acct now) xs" for xs
    by (induction xs) (simp_all add: row_of_def)
  ultimately have "list_all2 (row_matches acct) (fill_hashes C [] ?ds) (filter (\<lambda>r. le_AccountID r = acct) rows)"
    using old by (simp add: fill split rows list_all2_appendI)
  moreover have "verified C ?ds st" unfolding clear [symmetric] verified_clear by (rule ver)
  ultimately have "stored C acct ?ds db'"
    using enc es len db' by (auto simp: stored_def list_all_iff encodable_Hash)
  with m new(1) rows hashed db' ne that show thesis by auto
qed

lemma stored_other:
  assumes "stored C acct es db" and "bd_log db' = bd_log db @ new" and "list_all (\<lambda>r. le_AccountID r \<noteq> acct) new"
  shows "stored C acct es db'"
proof -
  have "filter (\<lambda>r. le_AccountID r = acct) new = []" using assms(3) by (simp add: filter_empty_conv list_all_iff)
  then show ?thesis using assms(1,2) by (simp add: stored_def)
qed

lemma Import_error: "Import C F now acct entries db = (db', Inl err) \<Longrightarrow> db' = db"
  by (auto simp: Import_def split: if_splits dest: transaction_error)

lemma Import_ok:
  "Import C F now acct entries db = (db', Inr depth) \<longleftrightarrow>
     entries \<noteq> [] \<and> \<not> F Commit \<and> import_tx C F now acct entries db = Inr (db', depth)"
  by (auto simp: Import_def transaction_ok)

lemma Import_log_inv:
  assumes "Import C F now acct entries db = (db', r)" and "log_inv C db"
    and "list_all (\<lambda>e. fits32 (Body e)) entries" and "length (bd_log db') < 2 ^ 64"
  shows "log_inv C db'"
proof (cases r)
  case (Inl err)
  with assms show ?thesis by (auto dest: Import_error)
next
  case (Inr depth)
  with assms(1) have tx: "import_tx C F now acct entries db = Inr (db', depth)" by (simp add: Import_ok)
  from assms(2) obtain es where es: "stored C acct es db" by (auto simp: log_inv_def)
  from import_tx_Inr [OF tx es assms(3,4)] obtain new where st: "stored C acct (es @ map clear_hash new) db'"
    and log: "bd_log db' = bd_log db @ map (row_of acct now) (drop (length es) (fill_hashes C [] (es @ new)))" by blast
  have "\<exists>ds. stored C a ds db'" for a
  proof (cases "a = acct")
    case False
    from assms(2) obtain ds where "stored C a ds db" by (auto simp: log_inv_def)
    from stored_other [OF this log] False show ?thesis by (auto simp: list_all_iff row_of_def)
  qed (use st in auto)
  then show ?thesis by (simp add: log_inv_def)
qed

section \<open>The other writers\<close>

lemma Import_keeps:
  "Import C F now acct entries db = (db', r) \<Longrightarrow> bd_pending db' = bd_pending db \<and> bd_config db' = bd_config db"
  by (auto simp: Import_def transaction_def import_tx_def ebind_eq_Inr split: if_splits sum.splits)

lemma Import_appends: "Import C F now acct entries db = (db', r) \<Longrightarrow> \<exists>new. bd_log db' = bd_log db @ new"
  by (auto simp: Import_def transaction_def import_tx_def ebind_eq_Inr split: if_splits sum.splits dest!: insertRows_Inr)

lemma stored_log_only: "bd_log db' = bd_log db \<Longrightarrow> stored C acct es db' = stored C acct es db"
  by (simp add: stored_def)

lemma log_inv_log_only: "bd_log db' = bd_log db \<Longrightarrow> log_inv C db' = log_inv C db"
  unfolding log_inv_def using stored_log_only [of db' db] by blast

lemma CreatePending_log: "CreatePending C F now acct entries db = (db', r) \<Longrightarrow> bd_log db' = bd_log db"
  by (auto simp: CreatePending_def Let_def split: if_splits sum.splits option.splits prod.splits)

lemma attachSignatures_body:
  "attachSignatures m es = Inr ds \<Longrightarrow> map Body ds = map Body es \<and> map Seq ds = map Seq es
     \<and> list_all (\<lambda>e. m (Seq e) = Some (Sigs e) \<and> Sigs e \<noteq> []) ds"
  by (induction es arbitrary: ds) (auto simp: Let_def ebind_eq_Inr split: if_splits option.splits)

lemma checkResponse_Inr:
  assumes "checkResponse signatures es = Inr entries"
  shows "attachSignatures (map_of signatures) es = Inr entries"
  using assms by (auto simp: checkResponse_def ebind_eq_Inr split: option.splits prod.splits)

lemma CommitPending_cases:
  assumes "CommitPending C F now acct signatures db = (db', r)"
  obtains (unchanged) "db' = db" | (imported) entries db1 r1 where "list_all (\<lambda>e. fits32 (Body e)) entries"
    "Import C F now acct entries db = (db1, r1)" "bd_log db' = bd_log db1" "bd_config db' = bd_config db1"
proof (cases "Pending F acct db")
  case (Inl err)
  with assms unchanged show thesis by (simp add: CommitPending_def)
next
  case p: (Inr pr)
  show thesis
  proof (cases pr)
    case None
    with p assms unchanged show thesis by (simp add: CommitPending_def)
  next
    case pr: (Some request)
    let ?e = "ebind (wrap_err PendingBad (DecodeLog (ps_Entries request))) (checkResponse signatures)"
    show thesis
    proof (cases ?e)
      case (Inl err)
      with p pr assms unchanged show thesis by (simp add: CommitPending_def)
    next
      case (Inr entries)
      then obtain es where es: "DecodeLog (ps_Entries request) = Inr es" "checkResponse signatures es = Inr entries"
        by (auto simp: ebind_eq_Inr wrap_err_Inr)
      have "list_all (\<lambda>e. fits32 (Body e)) es"
        using DecodeLog_canonical(2) [OF es(1)] by (auto simp: list_all_iff encodable_def)
      moreover have "map Body entries = map Body es"
        using attachSignatures_body [OF checkResponse_Inr [OF es(2)]] by simp
      ultimately have fits: "list_all (\<lambda>e. fits32 (Body e)) entries"
        using list.pred_map [of fits32 Body es] list.pred_map [of fits32 Body entries] by (simp add: o_def)
      obtain db1 r1 where imp: "Import C F now acct entries db = (db1, r1)" by fastforce
      with assms p pr Inr have "bd_log db' = bd_log db1" "bd_config db' = bd_config db1"
        by (cases r1; auto simp: CommitPending_def split: if_splits)+
      then show thesis by (rule imported [OF fits imp])
    qed
  qed
qed

lemma GetConfiguration_log: "GetConfiguration F acct db = (db', r) \<Longrightarrow> bd_log db' = bd_log db"
  by (auto simp: GetConfiguration_def Let_def split: if_splits option.splits)

lemma SetMode_log: "SetMode F acct mode ack state enrolled t db = (db', r) \<Longrightarrow> bd_log db' = bd_log db"
  by (auto simp: SetMode_def split: if_splits prod.splits sum.splits dest!: GetConfiguration_log)

lemma PrepareAnchor_Inr:
  assumes "PrepareAnchor C F acct audit now db = Inr (e, input)"
  obtains seq hash entries st hashed where "audit acct = Inr (seq, hash)" "LogAll F acct db = Inr entries" "entries \<noteq> []"
    "VerifyLog C entries = Inr (st, hashed)" "\<And>a. st_Anchor st = Some a \<Longrightarrow> an_AuditSeq a < seq"
    "e = \<lparr>Seq = word_of_nat (length entries) + 1, Time = now, Op = OpAnchor, Body = AnchorBody hash seq, Sigs = [], Hash = []\<rparr>"
    "input = SigningInput (sha512 C) e (st_Head st)"
proof -
  from assms obtain seq hash entries st hashed b where
    a: "audit acct = Inr (seq, hash)" "LogAll F acct db = Inr entries" "entries \<noteq> []"
    "VerifyLog C entries = Inr (st, hashed)" and an: "\<And>a. st_Anchor st = Some a \<Longrightarrow> an_AuditSeq a < seq"
    and b: "FromEntries C hashed = Inr b" "(e, input) = Prepare C b now OpAnchor (AnchorBody hash seq)"
    by (auto simp: PrepareAnchor_def ebind_eq_Inr wrap_err_Inr anchor_advances_Inr split: if_splits)
  have v: "verified C entries st" "hashed = fill_hashes C [] entries" using a(4) by (auto simp: VerifyLog_iff)
  from b(1) obtain st' hs where f: "VerifyLog C hashed = Inr (st', hs)" "b = \<lparr>bu_entries = hs, bu_prev = st_Head st'\<rparr>"
    by (auto simp: FromEntries_def ebind_eq_Inr)
  have "st_Head st' = st_Head st"
  proof -
    have "verified C hashed st'" using f(1) by (simp add: VerifyLog_iff)
    then have "verified C (map clear_hash hashed) st'" by (simp only: verified_clear)
    then have "verified C entries st'" by (simp add: v(2) verified_clear)
    then show ?thesis using verified_fun [OF v(1)] by simp
  qed
  moreover have "length hs = length entries" using f(1) v(2) by (simp add: VerifyLog_iff)
  ultimately show thesis using a an b(2) f(2) that by (auto simp: Prepare_def Let_def)
qed

lemma tick_plan_Some:
  assumes "tick_plan C F audit now s db = Inr (Some extended)"
  obtains entries st hashed seq hash e sg i where
    "LogAll F (sc_AccountID s) db = Inr entries" "VerifyLog C entries = Inr (st, hashed)"
    "anchorSignerIndex st (sc_Public s) = Some i" "audit (sc_AccountID s) = Inr (seq, hash)"
    "\<And>a. st_Anchor st = Some a \<Longrightarrow> an_AuditSeq a < seq"
    "e = \<lparr>Seq = word_of_nat (length entries) + 1, Time = unix_seconds now, Op = OpAnchor, Body = AnchorBody hash seq,
        Sigs = [\<lparr>SignerIndex = i, Sig = sg\<rparr>], Hash = []\<rparr>"
    "sc_Sign s (SigningInput (sha512 C) e (st_Head st)) = Some sg" "extended = hashed @ [e]"
proof -
  from assms obtain entries st hashed i auditSeq ah entry input sg where
    a: "LogAll F (sc_AccountID s) db = Inr entries" "VerifyLog C entries = Inr (st, hashed)"
    "anchorSignerIndex st (sc_Public s) = Some i"
    and p: "PrepareAnchor C F (sc_AccountID s) audit (unix_seconds now) db = Inr (entry, input)"
    and sg: "sc_Sign s input = Some sg"
    and ext: "extended = hashed @ [entry\<lparr>Sigs := [\<lparr>SignerIndex = i, Sig = sg\<rparr>]\<rparr>]"
    unfolding tick_plan_def
    by (auto simp: ebind_eq_Inr wrap_err_Inr Let_def split: if_splits option.splits sum.splits prod.splits log_error.splits)
  from p obtain seq hash entries' st' hashed' where q: "audit (sc_AccountID s) = Inr (seq, hash)"
    "LogAll F (sc_AccountID s) db = Inr entries'" "VerifyLog C entries' = Inr (st', hashed')"
    "\<And>a. st_Anchor st' = Some a \<Longrightarrow> an_AuditSeq a < seq"
    "entry = \<lparr>Seq = word_of_nat (length entries') + 1, Time = unix_seconds now, Op = OpAnchor, Body = AnchorBody hash seq, Sigs = [], Hash = []\<rparr>"
    "input = SigningInput (sha512 C) entry (st_Head st')" by (rule PrepareAnchor_Inr) blast
  from a q have eq: "entries' = entries" "st' = st" by simp_all
  show thesis
    using q(4) by (intro that [OF a q(1)]) (use q eq sg ext in \<open>auto simp: SigningInput_def\<close>)
qed

section \<open>Reachable stores\<close>

text \<open>One step of the running server on the store. Imported bodies are below four gigabytes, as the
  wire format requires, and the audit heads that are anchored are short strings.\<close>

inductive bedrock_step :: "crypto \<Rightarrow> bedrock_db \<Rightarrow> bedrock_db \<Rightarrow> bool" for C where
  import: "list_all (\<lambda>e. fits32 (Body e)) entries \<Longrightarrow> Import C F now acct entries db = (db', r1) \<Longrightarrow> bedrock_step C db db'"
| request: "CreatePending C F now acct entries db = (db', r2) \<Longrightarrow> bedrock_step C db db'"
| commit: "CommitPending C F now acct signatures db = (db', r3) \<Longrightarrow> bedrock_step C db db'"
| tick: "(\<And>seq hash. audit (sc_AccountID s) = Inr (seq, hash) \<Longrightarrow> length hash \<le> 4096) \<Longrightarrow>
    Tick C F audit t now s db = (db', s', r4) \<Longrightarrow> bedrock_step C db db'"
| mode: "SetMode F acct m ack state enrolled at' db = (db', r5) \<Longrightarrow> bedrock_step C db db'"

lemma LogAll_encodable:
  assumes "log_inv C db" and "LogAll F acct db = Inr entries"
  shows "stored C acct entries db"
proof -
  from assms(1) obtain es where es: "stored C acct es db" by (auto simp: log_inv_def)
  moreover have "\<not> F (Select ''log'')" using assms(2) by (auto simp: LogAll_def)
  ultimately show ?thesis using stored_LogAll [of C acct es db F] assms(2) by simp
qed

lemma Tick_cases:
  assumes "Tick C F audit t now s db = (db', s', r)"
  obtains (unchanged) "db' = db" | (imported) extended n where "tick_plan C F audit t s db = Inr (Some extended)"
    "Import C F now (sc_AccountID s) extended db = (db', Inr n)" "r = Inr ()"
proof (cases "tick_plan C F audit t s db")
  case (Inl err)
  with assms unchanged show thesis by (simp add: Tick_def)
next
  case plan: (Inr p)
  show thesis
  proof (cases p)
    case None
    with plan assms unchanged show thesis by (simp add: Tick_def)
  next
    case (Some extended)
    obtain db1 r1 where imp: "Import C F now (sc_AccountID s) extended db = (db1, r1)" by fastforce
    show thesis
    proof (cases r1)
      case (Inl e)
      with imp have "db1 = db" by (auto dest: Import_error)
      with assms plan Some imp Inl unchanged show thesis by (simp add: Tick_def)
    next
      case (Inr n)
      with assms plan Some imp have "db' = db1" "r = Inr ()" by (auto simp: Tick_def)
      with imported [of extended n] plan Some imp Inr show thesis by simp
    qed
  qed
qed

lemma tick_plan_fits:
  assumes "tick_plan C F audit t s db = Inr (Some extended)" and "log_inv C db"
    and "\<And>seq hash. audit (sc_AccountID s) = Inr (seq, hash) \<Longrightarrow> length hash \<le> 4096"
  shows "list_all (\<lambda>e. fits32 (Body e)) extended"
  using assms(1)
proof (rule tick_plan_Some)
  fix entries st hashed seq hash and e :: Entry and sg i
  assume all: "LogAll F (sc_AccountID s) db = Inr entries" and v: "VerifyLog C entries = Inr (st, hashed)"
    and a: "audit (sc_AccountID s) = Inr (seq, hash)"
    and e: "e = \<lparr>Seq = word_of_nat (length entries) + 1, Time = unix_seconds t, Op = OpAnchor, Body = AnchorBody hash seq,
        Sigs = [\<lparr>SignerIndex = i, Sig = sg\<rparr>], Hash = []\<rparr>" and x: "extended = hashed @ [e]"
  have "list_all (\<lambda>e. fits32 (Body e)) entries"
    using LogAll_encodable [OF assms(2) all] by (auto simp: stored_def list_all_iff encodable_def)
  moreover have "map Body hashed = map Body entries"
  proof -
    have "map Body (map clear_hash hashed) = map Body (map clear_hash entries)" using v by (simp add: VerifyLog_iff)
    then show ?thesis by (simp add: o_def)
  qed
  ultimately have "list_all (\<lambda>e. fits32 (Body e)) hashed"
    using list.pred_map [of fits32 Body entries] list.pred_map [of fits32 Body hashed] by (simp add: o_def)
  moreover have "fits32 (Body e)" using assms(3) [OF a] by (simp add: e AnchorBody_def codec_simps length_lpfield)
  ultimately show ?thesis by (simp add: x)
qed

lemma bedrock_step_log:
  assumes "bedrock_step C db db'"
  shows "\<exists>new. bd_log db' = bd_log db @ new"
    and "log_inv C db \<Longrightarrow> length (bd_log db') < 2 ^ 64 \<Longrightarrow> log_inv C db'"
proof -
  have "(\<exists>new. bd_log db' = bd_log db @ new) \<and> (log_inv C db \<longrightarrow> length (bd_log db') < 2 ^ 64 \<longrightarrow> log_inv C db')"
    using assms
  proof cases
    case (import entries F now acct r1)
    from Import_appends [OF import(2)] Import_log_inv [OF import(2) _ import(1)] show ?thesis by blast
  next
    case (request F now acct entries r2)
    from CreatePending_log [OF this] show ?thesis by (simp add: log_inv_log_only [of db' db])
  next
    case (commit F now acct signatures r3)
    then show ?thesis
    proof (cases rule: CommitPending_cases)
      case (imported entries db1 r1)
      with Import_appends [OF imported(2)] Import_log_inv [OF imported(2) _ imported(1)]
        log_inv_log_only [OF imported(3)] show ?thesis by auto
    qed simp
  next
    case (tick audit s F t now s' r4)
    from tick(2) show ?thesis
    proof (cases rule: Tick_cases)
      case (imported extended n)
      have "log_inv C db \<longrightarrow> length (bd_log db') < 2 ^ 64 \<longrightarrow> log_inv C db'"
        using Import_log_inv [OF imported(2)] tick_plan_fits [OF imported(1)] tick(1) by blast
      with Import_appends [OF imported(2)] show ?thesis by blast
    qed simp
  next
    case (mode F acct m ack state enrolled at' r5)
    from SetMode_log [OF this] show ?thesis by (simp add: log_inv_log_only [of db' db])
  qed
  then show "\<exists>new. bd_log db' = bd_log db @ new"
    and "log_inv C db \<Longrightarrow> length (bd_log db') < 2 ^ 64 \<Longrightarrow> log_inv C db'" by auto
qed

interpretation blog: append_only "bedrock_step C" bd_log "log_inv C" "2 ^ 64" for C
proof (unfold_locales, goal_cases)
  case (1 db db')
  from bedrock_step_log(1) [OF this] show ?case by auto
next
  case (2 db db')
  from bedrock_step_log [OF 2(2)] 2 show ?case by blast
qed

lemma log_inv_empty: "bd_log db = [] \<Longrightarrow> log_inv C db"
  unfolding log_inv_def by (intro allI exI [of _ "[]"]) (simp add: stored_def)

section \<open>Properties of the stored log\<close>

definition demo_db0 :: bedrock_db where
  "demo_db0 = \<lparr>bd_log = [], bd_pending = [], bd_config = []\<rparr>"

definition demo_db :: bedrock_db where
  "demo_db = \<lparr>bd_log = map (row_of ''acct'' 5) (fill_hashes demo_crypto [] demo_log), bd_pending = [], bd_config = []\<rparr>"

lemma demo_bodies_fit: "list_all (\<lambda>e. fits32 (Body e)) demo_log"
  using demo_log_encodable by (auto simp: list_all_iff encodable_def)

lemma row_of_fields [simp]: "le_AccountID (row_of acct now e) = acct" "le_Seq (row_of acct now e) = Seq e"
  by (simp_all add: row_of_def)

lemma insertRows_ok:
  assumes "distinct (map Seq es)" and "\<And>e r. e \<in> set es \<Longrightarrow> r \<in> set rows \<Longrightarrow> le_AccountID r = acct \<Longrightarrow> le_Seq r \<noteq> Seq e"
  shows "insertRows no_faults acct now i es rows = Inr (rows @ map (row_of acct now) es)"
  using assms
proof (induction es arbitrary: i rows)
  case (Cons e es)
  have fresh: "le_Seq r \<noteq> Seq d" if "d \<in> set es" "r \<in> set (rows @ [row_of acct now e])" "le_AccountID r = acct" for d r
  proof (cases "r \<in> set rows")
    case False
    then have "le_Seq r = Seq e" using that(2) by simp
    moreover have "Seq d \<in> Seq ` set es" using that(1) by (rule imageI)
    ultimately show ?thesis using Cons.prems(1) by auto
  qed (use Cons.prems(2) that in auto)
  have "insertRows no_faults acct now (i + 1) es (rows @ [row_of acct now e])
      = Inr ((rows @ [row_of acct now e]) @ map (row_of acct now) es)"
    using Cons.prems(1) fresh by (intro Cons.IH) simp_all
  moreover have "\<not> list_ex (\<lambda>r. le_AccountID r = acct \<and> le_Seq r = Seq e) rows"
    using Cons.prems(2) [of e] by (auto simp: list_ex_iff)
  ultimately show ?case by (simp add: no_faults_def)
qed simp

lemma demo_import: "Import demo_crypto no_faults 5 ''acct'' demo_log demo_db0 = (demo_db, Inr 6)"
proof -
  have m: "mergeEntries [] [] demo_log = Inr demo_log" by (simp add: demo_log_def demo_entry_def)
  have s: "map Seq (fill_hashes demo_crypto [] demo_log) = [1, 2, 3, 4, 5, 6]"
    by (simp add: demo_log_def demo_entry_def)
  have "insertRows no_faults ''acct'' 5 0 (fill_hashes demo_crypto [] demo_log) []
      = Inr ([] @ map (row_of ''acct'' 5) (fill_hashes demo_crypto [] demo_log))"
    by (rule insertRows_ok) (simp_all add: s)
  then have "import_tx demo_crypto no_faults 5 ''acct'' demo_log demo_db0 = Inr (demo_db, 6)"
    using m demo_log_verifies
    by (simp add: import_tx_def no_faults_def demo_db0_def demo_db_def account_rows_def order_asc_def decodeRows_def)
      (simp add: demo_log_def)
  moreover have "demo_log \<noteq> []" by (simp add: demo_log_def)
  ultimately show ?thesis by (simp add: Import_ok no_faults_def)
qed

lemma demo_step: "bedrock_step demo_crypto demo_db0 demo_db"
  using bedrock_step.import [OF demo_bodies_fit demo_import] .

text \<open>C27. The stored log always verifies and only grows. From a store with no log rows, after any sequence
  of imports, signing requests and commits, scheduler ticks and mode changes, with any database
  failures, the rows present earlier are still there in place, and for every account the log
  reads back as entries that are empty or verify from genesis.\<close>

theorem stored_log_verifies_and_grows:
  assumes "bd_log db0 = []" and "(bedrock_step C)\<^sup>*\<^sup>* db0 db" and "(bedrock_step C)\<^sup>*\<^sup>* db db'"
    and "length (bd_log db') < 2 ^ 64"
  shows "(\<exists>new. bd_log db' = bd_log db @ new)
     \<and> (\<forall>acct. \<exists>es. LogAll no_faults acct db' = Inr es \<and> (es = [] \<or> (\<exists>st. VerifyLog C es = Inr (st, fill_hashes C [] es))))"
proof -
  have run: "(bedrock_step C)\<^sup>*\<^sup>* db0 db'" using assms(2,3) by (rule rtranclp_trans)
  have inv: "log_inv C db'" using blog.run_extends [OF run log_inv_empty [OF assms(1)] assms(4)] by simp
  have "length (bd_log db) < 2 ^ 64" using blog.run_length [OF assms(3)] assms(4) by simp
  with blog.run_extends [OF assms(2) log_inv_empty [OF assms(1)]] have "log_inv C db" by simp
  from blog.run_extends [OF assms(3) this assms(4)] have ext: "\<exists>new. bd_log db' = bd_log db @ new" by simp
  have "\<exists>es. LogAll no_faults acct db' = Inr es \<and> (es = [] \<or> (\<exists>st. VerifyLog C es = Inr (st, fill_hashes C [] es)))" for acct
  proof -
    from inv obtain es where es: "stored C acct es db'" by (auto simp: log_inv_def)
    then have "LogAll no_faults acct db' = Inr es" by (simp add: stored_LogAll no_faults_def)
    then show ?thesis using es by (auto simp: stored_def VerifyLog_iff)
  qed
  with ext show ?thesis by blast
qed

theorem stored_log_verifies_and_grows_witness:
  "(\<exists>new. bd_log demo_db = bd_log demo_db0 @ new)
     \<and> (\<forall>acct. \<exists>es. LogAll no_faults acct demo_db = Inr es
          \<and> (es = [] \<or> (\<exists>st. VerifyLog demo_crypto es = Inr (st, fill_hashes demo_crypto [] es))))"
  by (rule stored_log_verifies_and_grows [of demo_db0 demo_crypto])
    (use demo_step in \<open>auto simp: demo_db0_def demo_db_def demo_log_def\<close>)

text \<open>Where the imported entries end up: each is at the position its sequence number names.\<close>

definition in_place :: "Entry list \<Rightarrow> Entry \<Rightarrow> bool" where
  "in_place ds e \<longleftrightarrow> (\<exists>i<length ds. Seq e = word_of_nat (i + 1) \<and> Encode (ds ! i) = Encode e)"

lemma filter_gt_drop:
  "(\<And>i. i < length xs \<Longrightarrow> P (xs ! i) \<longleftrightarrow> n \<le> i) \<Longrightarrow> filter P xs = drop n xs"
proof (induction xs arbitrary: n)
  case (Cons x xs)
  have "P (xs ! i) \<longleftrightarrow> n - 1 \<le> i" if "i < length xs" for i using Cons.prems [of "Suc i"] that by (cases n) simp_all
  from Cons.IH [OF this] Cons.prems [of 0] show ?case by (cases n) simp_all
qed simp

lemma in_place_append: "in_place ds e \<Longrightarrow> in_place (ds @ xs) e"
  by (auto simp: in_place_def nth_append intro: less_imp_le)

lemma in_place_clear: "in_place (es @ map clear_hash new) = in_place (es @ new)"
proof -
  have "Encode ((es @ map clear_hash new) ! i) = Encode ((es @ new) ! i)" if "i < length (es @ new)" for i
    using that by (cases "i < length es") (simp_all add: nth_append)
  then show ?thesis unfolding in_place_def by (simp cong: conj_cong)
qed

lemma mergeEntries_in_place:
  assumes "mergeEntries existing (existing @ xs) es = Inr r"
  shows "list_all (in_place r) es"
  using assms
proof (induction es arbitrary: xs)
  case (Cons e es)
  show ?case
  proof (cases "Seq e \<le> word_of_nat (length existing)")
    case True
    with Cons.prems have i: "unat (Seq e - 1) < length existing" "equalEntry (existing ! unat (Seq e - 1)) e"
      and rest: "mergeEntries existing (existing @ xs) es = Inr r" by (auto split: if_splits)
    have "in_place existing e"
      unfolding in_place_def using i by (intro exI [of _ "unat (Seq e - 1)"]) (simp add: equalEntry_def)
    moreover obtain new where r: "r = existing @ xs @ new" using mergeEntries_extends [OF rest] by auto
    ultimately have "in_place r e" unfolding r by (intro in_place_append)
    with Cons.IH [OF rest] show ?thesis by simp
  next
    case False
    with Cons.prems have e: "Seq e = word_of_nat (length (existing @ xs)) + 1"
      and rest: "mergeEntries existing (existing @ xs @ [e]) es = Inr r" by (auto split: if_splits)
    have "in_place (existing @ xs @ [e]) e"
      unfolding in_place_def using e by (intro exI [of _ "length (existing @ xs)"]) (simp add: nth_append add_ac)
    from in_place_append [OF this] have "in_place r e" using mergeEntries_extends [OF rest] by blast
    with Cons.IH [OF rest] show ?thesis by simp
  qed
qed simp

lemma mergeEntries_stored:
  assumes "list_all (in_place ds) es" and "length ds < 2 ^ 64"
  shows "mergeEntries ds ds es = Inr ds"
  using assms(1)
proof (induction es)
  case (Cons e es)
  then obtain i where i: "i < length ds" "Seq e = word_of_nat (i + 1)" "Encode (ds ! i) = Encode e" by (auto simp: in_place_def)
  have n: "unat (word_of_nat k :: uint64) = k" if "k \<le> length ds" for k
    using that assms(2) by (simp add: unat_of_nat)
  have "Seq e \<le> word_of_nat (length ds)" using i n by (simp only: word_le_nat_alt)
  moreover have "unat (Seq e - 1) = i" using i n [of i] by simp
  ultimately show ?case using Cons i by (simp add: equalEntry_def)
qed simp

lemma Import_again:
  assumes "Import C F now acct entries db = (db', Inr depth)" and "log_inv C db"
    and "list_all (\<lambda>e. fits32 (Body e)) entries" and "length (bd_log db') < 2 ^ 64"
  shows "Import C no_faults now' acct entries db' = (db', Inr depth)"
proof -
  have tx: "import_tx C F now acct entries db = Inr (db', depth)" "entries \<noteq> []" using assms(1) by (auto simp: Import_ok)
  from assms(2) obtain es where es: "stored C acct es db" by (auto simp: log_inv_def)
  from import_tx_Inr [OF tx(1) es assms(3,4)] obtain new where
    m: "mergeEntries es es entries = Inr (es @ new)" and st: "stored C acct (es @ map clear_hash new) db'"
    and d: "depth = length (es @ new)" and ne: "es @ new \<noteq> []" by blast
  let ?ds = "es @ map clear_hash new"
  have "list_all (in_place ?ds) entries"
    using mergeEntries_in_place [of es "[]" entries "es @ new"] m by (simp add: in_place_clear)
  moreover have "length ?ds < 2 ^ 64" using st by (simp add: stored_def)
  ultimately have merge: "mergeEntries ?ds ?ds entries = Inr ?ds" by (rule mergeEntries_stored)
  obtain s where "verified C ?ds s" using st by (auto simp: stored_def)
  then have v: "VerifyLog C ?ds = Inr (s, fill_hashes C [] ?ds)" using ne by (simp add: VerifyLog_iff)
  have "import_tx C no_faults now' acct entries db' = Inr (db', depth)"
    using stored_decodes [OF st] merge v d by (simp add: import_tx_def no_faults_def)
  then show ?thesis using tx(2) by (simp add: Import_ok no_faults_def)
qed

text \<open>C10. Importing extends or refuses. On a store whose logs verify, an import that fails leaves the store
  exactly as it was. One that succeeds leaves every other account's log as it was and extends
  the account's log by entries that verify on top of it; every imported entry is then in the
  log, byte for byte, at the position its sequence number names; and importing the same
  entries again changes nothing and succeeds.\<close>

theorem import_extends_or_refuses:
  assumes "log_inv C db" and "LogAll no_faults acct db = Inr es"
    and "list_all (\<lambda>e. fits32 (Body e)) entries" and "Import C F now acct entries db = (db', r)"
    and "length (bd_log db') < 2 ^ 64"
  shows "case r of Inl _ \<Rightarrow> db' = db
     | Inr depth \<Rightarrow> (\<exists>new st. LogAll no_faults acct db' = Inr (es @ new) \<and> depth = length (es @ new)
           \<and> VerifyLog C (es @ new) = Inr (st, fill_hashes C [] (es @ new)) \<and> list_all (in_place (es @ new)) entries)
         \<and> (\<forall>a. a \<noteq> acct \<longrightarrow> LogAll no_faults a db' = LogAll no_faults a db)
         \<and> Import C no_faults now acct entries db' = (db', Inr depth)"
proof (cases r)
  case (Inl err)
  with assms(4) show ?thesis by (auto dest: Import_error)
next
  case (Inr depth)
  with assms(4) have imp: "Import C F now acct entries db = (db', Inr depth)" by simp
  then have tx: "import_tx C F now acct entries db = Inr (db', depth)" by (simp add: Import_ok)
  have es: "stored C acct es db" using LogAll_encodable [OF assms(1,2)] .
  from import_tx_Inr [OF tx es assms(3,5)] obtain new where
    m: "mergeEntries es es entries = Inr (es @ new)" and st: "stored C acct (es @ map clear_hash new) db'"
    and log: "bd_log db' = bd_log db @ map (row_of acct now) (drop (length es) (fill_hashes C [] (es @ new)))"
    and d: "depth = length (es @ new)" and ne: "es @ new \<noteq> []" by blast
  let ?ds = "es @ map clear_hash new"
  have place: "list_all (in_place ?ds) entries"
    using mergeEntries_in_place [of es "[]" entries "es @ new"] m by (simp add: in_place_clear)
  obtain s where "VerifyLog C ?ds = Inr (s, fill_hashes C [] ?ds)" using st ne by (auto simp: stored_def VerifyLog_iff)
  moreover have "LogAll no_faults acct db' = Inr ?ds" using st by (simp add: stored_LogAll no_faults_def)
  moreover have "LogAll no_faults a db' = LogAll no_faults a db" if "a \<noteq> acct" for a
  proof -
    have "filter (\<lambda>r. le_AccountID r = a) (map (row_of acct now) xs) = []" for xs
      using that by (induction xs) auto
    then show ?thesis by (simp add: LogAll_def account_rows_def log)
  qed
  moreover have "depth = length ?ds" using d by simp
  ultimately show ?thesis unfolding Inr sum.case
    using place Import_again [OF imp assms(1,3,5)] by blast
qed

lemma demo_log_inv: "log_inv demo_crypto demo_db"
  using bedrock_step_log(2) [OF demo_step log_inv_empty] by (simp add: demo_db0_def demo_db_def demo_log_def)

lemma demo_LogAll: "LogAll no_faults ''acct'' demo_db = Inr demo_log"
proof -
  have "log_inv demo_crypto demo_db0" by (rule log_inv_empty) (simp add: demo_db0_def)
  then obtain es where es: "stored demo_crypto ''acct'' es demo_db0" by (auto simp: log_inv_def)
  have "length (fill_hashes demo_crypto [] es) = length (filter (\<lambda>r. le_AccountID r = ''acct'') (bd_log demo_db0))"
    using es by (auto simp: stored_def dest: list_all2_lengthD)
  then have "es = []" by (simp add: demo_db0_def)
  with es have es: "stored demo_crypto ''acct'' [] demo_db0" by simp
  have tx: "import_tx demo_crypto no_faults 5 ''acct'' demo_log demo_db0 = Inr (demo_db, 6)"
    using demo_import by (simp add: Import_ok)
  have "length (bd_log demo_db) < 2 ^ 64" by (simp add: demo_db_def demo_log_def)
  from import_tx_Inr [OF tx es demo_bodies_fit this] obtain new where
    m: "mergeEntries [] [] demo_log = Inr new" and st: "stored demo_crypto ''acct'' (map clear_hash new) demo_db"
    by (metis append_Nil)
  from m have "new = demo_log" by (simp add: demo_log_def demo_entry_def)
  moreover have "map clear_hash demo_log = demo_log" by (simp add: demo_log_def demo_entry_def)
  ultimately show ?thesis using st by (simp add: stored_LogAll no_faults_def)
qed

theorem import_extends_or_refuses_witness:
  "\<exists>new st. LogAll no_faults ''acct'' demo_db = Inr (demo_log @ new) \<and> 6 = length (demo_log @ new)
     \<and> VerifyLog demo_crypto (demo_log @ new) = Inr (st, fill_hashes demo_crypto [] (demo_log @ new))
     \<and> list_all (in_place (demo_log @ new)) demo_log"
proof -
  have "Import demo_crypto no_faults 5 ''acct'' demo_log demo_db = (demo_db, Inr 6)"
    by (rule Import_again [OF demo_import log_inv_empty demo_bodies_fit])
      (simp_all add: demo_db0_def demo_db_def demo_log_def)
  from import_extends_or_refuses [OF demo_log_inv demo_LogAll demo_bodies_fit this]
  show ?thesis by (simp add: demo_db_def demo_log_def)
qed

text \<open>Reads agree with the verified log. For an account whose rows hold a verified log, the head query
  returns the verified head and its sequence number, the state query returns the state of
  verification, and a fetch after sequence number \<^verbatim>\<open>n\<close> returns exactly the entries from position \<^verbatim>\<open>n\<close> on,
  at most 32 of them, in order.\<close>

theorem reads_agree_with_log:
  assumes "log_inv C db" and "LogAll no_faults acct db = Inr es" and "es \<noteq> []"
  shows "\<exists>st. VerifyLog C es = Inr (st, fill_hashes C [] es) \<and> LogState C no_faults acct db = Inr st
     \<and> LogHead no_faults acct db = Inr (st_Head st, st_HeadSeq st)
     \<and> LogEntries no_faults acct n limit db
        = Inr (take (if limit \<le> 0 \<or> limit > 32 then 32 else nat limit) (drop (unat n) es))"
proof -
  have st: "stored C acct es db" using LogAll_encodable [OF assms(1,2)] .
  then obtain s where v: "verified C es s" and len: "length es < 2 ^ 64" by (auto simp: stored_def)
  let ?rows = "account_rows acct db"
  note rows = stored_rows [OF st]
  have seq: "unat (le_Seq (?rows ! i)) = i + 1" if "i < length es" for i
    using rows(3) [OF that] unat_verified_seq [OF v that len] by (simp add: row_matches_def)
  have sorted: "sorted (map le_Seq ?rows)" by (simp add: account_rows_def order_asc_def)
  have ver: "VerifyLog C es = Inr (s, fill_hashes C [] es)" using v assms(3) by (simp add: VerifyLog_iff)
  have "LogHead no_faults acct db = Inr (st_Head s, st_HeadSeq s)"
  proof -
    obtain ds d where es: "es = ds @ [d]" using assms(3) by (cases es rule: rev_cases) auto
    have ne: "?rows \<noteq> []" using rows(2) assms(3) by auto
    have i: "length ds < length es" by (simp add: es)
    have last: "last ?rows = ?rows ! length ds" using rows(2) ne es by (simp add: last_conv_nth)
    have hash: "fill_hashes C [] es ! length ds = d\<lparr>Hash := chain_tip C es\<rparr>"
      by (simp add: es fill_hashes_append nth_append)
    have "le_Hash (last ?rows) = chain_tip C es" "le_Seq (last ?rows) = Seq d"
      using rows(3) [OF i] hash by (simp_all add: last es row_matches_def)
    moreover have "Seq d = word_of_nat (length es)" using verified_seq [OF v i] by (simp add: es)
    moreover have "first_row (order_desc le_Seq (filter (\<lambda>r. le_AccountID r = acct) (bd_log db))) = Some (last ?rows)"
      using sorted ne by (simp add: order_desc_sorted first_row_rev flip: rows(1))
    ultimately show ?thesis using verified_head [OF v] by (simp add: LogHead_def no_faults_def)
  qed
  moreover have "filter (\<lambda>r. le_Seq r > n) ?rows = drop (unat n) ?rows"
  proof (rule filter_gt_drop)
    show "le_Seq (?rows ! i) > n \<longleftrightarrow> unat n \<le> i" if "i < length ?rows" for i
      using seq [of i] that rows(2) by (auto simp: word_less_nat_alt)
  qed
  moreover have "decodeRows (take m (drop k ?rows)) = Inr (take m (drop k es))" for m k
    using stored_decodes [OF st] unfolding decodeRows_def emap_eq_Inr by (intro list_all2_takeI list_all2_dropI)
  moreover have "LogState C no_faults acct db = Inr s" using ver assms(2,3) by (simp add: LogState_def)
  ultimately show ?thesis
    using ver by (intro exI [of _ s] conjI) (simp_all add: LogEntries_def MaxEntriesPerResponse_def no_faults_def Let_def)
qed

theorem reads_agree_with_log_witness:
  "\<exists>st. VerifyLog demo_crypto demo_log = Inr (st, fill_hashes demo_crypto [] demo_log)
     \<and> LogState demo_crypto no_faults ''acct'' demo_db = Inr st
     \<and> LogHead no_faults ''acct'' demo_db = Inr (st_Head st, st_HeadSeq st)
     \<and> LogEntries no_faults ''acct'' 2 0 demo_db
        = Inr (take (if (0::int) \<le> 0 \<or> (0::int) > 32 then 32 else nat 0) (drop (unat (2 :: uint64)) demo_log))"
  by (rule reads_agree_with_log [OF demo_log_inv demo_LogAll]) (simp add: demo_log_def)

end
