(* ===== verification/Bedrock_Ops_Trust.thy ===== *)
theory Bedrock_Ops_Trust
  imports Bedrock_Store_Trust Bedrock_Trust
begin

text \<open>Properties of the operations built on the stored log: the offline signing ceremony, the anchor
  scheduler, the enforcement switch and the scheduler fleet.\<close>

section \<open>The signing ceremony\<close>

lemma mergeEntries_no_fault: "mergeEntries ex co es \<noteq> Inl (DbFault s)"
  by (induction es arbitrary: co) auto

lemma insertRows_fault: "insertRows F acct now i es rows = Inl err \<Longrightarrow> \<exists>j. err = DbFault (Insert ''log'' j)"
  by (induction es arbitrary: i rows) (auto split: if_splits)

lemma emap_Inl: "emap f xs = Inl err \<Longrightarrow> \<exists>x\<in>set xs. f x = Inl err"
proof (induction xs)
  case (Cons x xs)
  then show ?case by (cases "f x"; cases "emap f xs") auto
qed simp

lemma decodeRows_no_fault: "decodeRows rows \<noteq> Inl (DbFault s)"
proof
  assume "decodeRows rows = Inl (DbFault s)"
  from emap_Inl [OF this [unfolded decodeRows_def]] obtain row :: LogEntry where
    "wrap_err (StoredEntryBad (le_Seq row)) (decodeEntry (le_Encoded row)) = Inl (DbFault s)" by blast
  then show False by (cases "decodeEntry (le_Encoded row)") simp_all
qed

lemma import_tx_fault:
  assumes "import_tx C F now acct entries db = Inl (DbFault s)"
  shows "s = Select ''log'' \<or> (\<exists>i. s = Insert ''log'' i)"
proof (cases "F (Select ''log'')")
  case True
  with assms show ?thesis by (simp add: import_tx_def)
next
  case False
  with assms consider "decodeRows (account_rows acct db) = Inl (DbFault s)"
    | ex where "mergeEntries ex ex entries = Inl (DbFault s)"
    | co where "wrap_err LogBroken (VerifyLog C co) = Inl (DbFault s)"
    | es where "insertRows F acct now 0 es (bd_log db) = Inl (DbFault s)"
    by (auto simp: import_tx_def ebind_eq_Inl split: prod.splits)
  then show ?thesis
    by cases (auto simp: decodeRows_no_fault mergeEntries_no_fault wrap_err_Inl dest: insertRows_fault)
qed

lemma Import_no_delete: "Import C F now acct entries db \<noteq> (db', Inl (DbFault (Delete t)))"
proof
  assume imp: "Import C F now acct entries db = (db', Inl (DbFault (Delete t)))"
  then have "import_tx C F now acct entries db = Inl (DbFault (Delete t))"
    by (auto simp: Import_def transaction_def split: if_splits sum.splits prod.splits)
  from import_tx_fault [OF this] show False by simp
qed

lemma checkResponse_no_fault: "checkResponse signatures es \<noteq> Inl (DbFault s)"
proof
  have att: "attachSignatures m es \<noteq> Inl (DbFault s)" for m es
    by (induction es) (auto simp: Let_def ebind_eq_Inl)
  assume "checkResponse signatures es = Inl (DbFault s)"
  then show False using att by (auto simp: checkResponse_def ebind_eq_Inl split: option.splits prod.splits)
qed

text \<open>The outcomes of a commit that reached the import.\<close>

lemma CommitPending_delete_failed:
  assumes "CommitPending C F now acct signatures db = (db1, Inl (DbFault (Delete t)))"
  obtains request es entries n where "Pending F acct db = Inr (Some request)" "DecodeLog (ps_Entries request) = Inr es"
    "checkResponse signatures es = Inr entries" "Import C F now acct entries db = (db1, Inr n)"
proof (cases "Pending F acct db")
  case (Inl err)
  with assms show thesis by (auto simp: CommitPending_def Pending_def split: if_splits)
next
  case p: (Inr pr)
  with assms obtain request where pr: "pr = Some request" by (cases pr) (auto simp: CommitPending_def)
  let ?e = "ebind (wrap_err PendingBad (DecodeLog (ps_Entries request))) (checkResponse signatures)"
  show thesis
  proof (cases ?e)
    case (Inl err)
    with assms p pr have "err = DbFault (Delete t)" by (simp add: CommitPending_def)
    with Inl show thesis by (auto simp: ebind_eq_Inl wrap_err_Inl wrap_err_Inr checkResponse_no_fault)
  next
    case (Inr entries)
    then obtain es where es: "DecodeLog (ps_Entries request) = Inr es" "checkResponse signatures es = Inr entries"
      by (auto simp: ebind_eq_Inr wrap_err_Inr)
    obtain db2 r where imp: "Import C F now acct entries db = (db2, r)" by fastforce
    show thesis
    proof (cases r)
      case r: (Inl err)
      with assms p pr Inr imp have "db2 = db1" "err = DbFault (Delete t)" by (auto simp: CommitPending_def)
      with imp r Import_no_delete show thesis by metis
    next
      case r: (Inr n)
      with assms p pr Inr imp have "db2 = db1" by (auto simp: CommitPending_def split: if_splits)
      with imp r that [of request es entries n] p pr es show thesis by simp
    qed
  qed
qed

text \<open>C28. A commit interrupted after the import is safe to retry. If the entries were imported but the
  request could not be removed, committing the same response again succeeds, leaves the log
  exactly as it is, and removes the request.\<close>

theorem interrupted_commit_retries:
  assumes "log_inv C db" and "CommitPending C F now acct signatures db = (db1, Inl (DbFault (Delete ''pending'')))"
    and "length (bd_log db1) < 2 ^ 64"
  shows "\<exists>db2. CommitPending C no_faults now' acct signatures db1 = (db2, Inr ())
     \<and> bd_log db2 = bd_log db1 \<and> Pending no_faults acct db2 = Inr None"
proof -
  from assms(2) obtain request es entries n where p: "Pending F acct db = Inr (Some request)"
    and es: "DecodeLog (ps_Entries request) = Inr es" "checkResponse signatures es = Inr entries"
    and imp: "Import C F now acct entries db = (db1, Inr n)" by (rule CommitPending_delete_failed)
  have fits: "list_all (\<lambda>e. fits32 (Body e)) entries"
  proof -
    have "list_all fits32 (map Body es)"
      using DecodeLog_canonical(2) [OF es(1)] by (auto simp: list_all_iff encodable_def)
    then have "list_all fits32 (map Body entries)" using attachSignatures_body [OF checkResponse_Inr [OF es(2)]] by simp
    then show ?thesis by (simp add: list.pred_map o_def)
  qed
  have again: "Import C no_faults now' acct entries db1 = (db1, Inr n)"
    using Import_again [OF imp assms(1) fits assms(3)] .
  have "bd_pending db1 = bd_pending db" using Import_keeps [OF imp] by simp
  then have "Pending no_faults acct db1 = Inr (Some request)"
    using p by (auto simp: Pending_def no_faults_def split: if_splits)
  then show ?thesis
    using es again by (simp add: CommitPending_def no_faults_def) (simp add: Pending_def filter_empty_conv)
qed

definition demo_unsigned :: Entry where
  "demo_unsigned = demo_entry 6 50 OpDisable (DisableBody ''end'') []"

definition demo_request :: PendingSigningRequest where
  "demo_request = \<lparr>ps_AccountID = ''acct'', ps_ID = ''request-1'', ps_Entries = EncodeLog [demo_unsigned],
     ps_PayloadHash = [], ps_CreatedAt = 0\<rparr>"

definition demo_pending_db :: bedrock_db where
  "demo_pending_db = demo_db\<lparr>bd_pending := [demo_request]\<rparr>"

definition only_delete_fails :: faults where
  "only_delete_fails = (\<lambda>s. s = Delete ''pending'')"

lemma demo_pending_inv: "log_inv demo_crypto demo_pending_db"
  using demo_log_inv log_inv_log_only [of demo_pending_db demo_db demo_crypto] by (simp add: demo_pending_db_def)

lemma demo_request_decodes: "DecodeLog (ps_Entries demo_request) = Inr [demo_unsigned]"
proof -
  have "list_all (\<lambda>e. encodable e \<and> fits32 (Encode e)) [demo_unsigned]"
    using demo_entry_encodable [of OpDisable "DisableBody ''end''" "[]" 6 50] length_demo_bodies(5)
    by (simp add: demo_unsigned_def op_defs)
  from DecodeLog_EncodeLog [OF this] show ?thesis by (simp add: demo_request_def demo_unsigned_def demo_entry_def)
qed

lemma demo_response: "checkResponse [(6, [demo_sig 0])] [demo_unsigned] = Inr [demo_log ! 5]"
  by (simp add: checkResponse_def demo_unsigned_def demo_entry_def demo_log_def)

lemma demo_reimport:
  assumes "\<not> F (Select ''log'')" and "\<not> F Commit"
  shows "Import demo_crypto F 9 ''acct'' [demo_log ! 5] demo_pending_db = (demo_pending_db, Inr 6)"
proof -
  have rows: "decodeRows (account_rows ''acct'' demo_pending_db) = Inr demo_log"
    using demo_LogAll by (simp add: LogAll_def no_faults_def account_rows_def demo_pending_db_def)
  have "in_place demo_log (demo_log ! 5)"
    unfolding in_place_def by (rule exI [of _ 5]) (simp add: demo_log_def demo_entry_def)
  then have "mergeEntries demo_log demo_log [demo_log ! 5] = Inr demo_log"
    by (intro mergeEntries_stored) (simp_all add: demo_log_def)
  then have "import_tx demo_crypto F 9 ''acct'' [demo_log ! 5] demo_pending_db = Inr (demo_pending_db, length demo_log)"
    using rows demo_log_verifies assms(1) by (simp add: import_tx_def)
  then show ?thesis using assms(2) by (simp add: Import_ok demo_log_def)
qed

theorem interrupted_commit_retries_witness:
  "\<exists>db2. CommitPending demo_crypto no_faults 10 ''acct'' [(6, [demo_sig 0])] demo_pending_db = (db2, Inr ())
     \<and> bd_log db2 = bd_log demo_pending_db \<and> Pending no_faults ''acct'' db2 = Inr None"
proof (rule interrupted_commit_retries [OF demo_pending_inv])
  have "Pending only_delete_fails ''acct'' demo_pending_db = Inr (Some demo_request)"
    by (simp add: Pending_def only_delete_fails_def demo_pending_db_def demo_request_def)
  then show "CommitPending demo_crypto only_delete_fails 9 ''acct'' [(6, [demo_sig 0])] demo_pending_db
      = (demo_pending_db, Inl (DbFault (Delete ''pending'')))"
    using demo_request_decodes demo_response demo_reimport [of only_delete_fails]
    by (simp add: CommitPending_def only_delete_fails_def)
  show "length (bd_log demo_pending_db) < 2 ^ 64" by (simp add: demo_pending_db_def demo_db_def demo_log_def)
qed

section \<open>Sequence number zero\<close>

text \<open>C30. An import whose first entry has sequence number zero stops with an out-of-range index: the
  guard \<^verbatim>\<open>e.Seq <= len(existing)\<close> admits it and the index \<^verbatim>\<open>e.Seq-1\<close> wraps around. This holds for every
  store whose log reads back, also an empty one; the store is left as it was.\<close>

theorem import_seq_zero_out_of_range:
  assumes "log_inv C db" and "\<not> F (Select ''log'')" and "Seq e = 0"
  shows "Import C F now acct (e # es) db = (db, Inl (IndexOutOfRange (- 1)))"
proof -
  from assms(1) obtain ds where ds: "stored C acct ds db" by (auto simp: log_inv_def)
  have "length ds < 2 ^ 64" using ds by (simp add: stored_def)
  moreover have "unat (- 1 :: uint64) = 2 ^ 64 - 1" by (simp add: unsigned_minus_1_eq_mask mask_eq_exp_minus_1)
  ultimately have "\<not> unat (Seq e - 1) < length ds" using assms(3) by simp
  then show ?thesis
    using stored_decodes [OF ds] assms(2,3) by (simp add: Import_def transaction_def import_tx_def)
qed

theorem import_seq_zero_out_of_range_witness:
  "Import demo_crypto no_faults 9 ''acct'' [demo_entry 0 50 OpDisable (DisableBody ''end'') []] demo_pending_db
     = (demo_pending_db, Inl (IndexOutOfRange (- 1)))"
  by (rule import_seq_zero_out_of_range [OF demo_pending_inv]) (simp_all add: demo_entry_def no_faults_def)

section \<open>Scheduled anchors\<close>

lemma mergeEntries_append:
  "mergeEntries existing combined (xs @ ys) = ebind (mergeEntries existing combined xs) (\<lambda>r. mergeEntries existing r ys)"
  by (induction xs arbitrary: combined) simp_all

lemma mergeEntries_next:
  assumes "mergeEntries ds ds [e] = Inr r" and "Seq e = word_of_nat (length ds) + 1" and "length ds < 2 ^ 64"
  shows "r = ds @ [e]"
proof -
  have "unat (Seq e - 1) = length ds" using assms(2,3) by (simp add: unat_of_nat)
  with assms(1,2) show ?thesis by (auto split: if_splits)
qed

lemma fill_hashes_in_place:
  assumes "stored C acct ds db"
  shows "list_all (in_place ds) (fill_hashes C [] ds)"
  unfolding list_all_length
proof (intro allI impI)
  fix i assume "i < length (fill_hashes C [] ds)"
  then have i: "i < length ds" by simp
  obtain st where "verified C ds st" using assms by (auto simp: stored_def)
  from verified_seq [OF this i] fill_hashes_nth [OF i, of C "[]"] i show "in_place ds (fill_hashes C [] ds ! i)"
    by (auto simp: in_place_def)
qed

lemma verified_anchor:
  assumes "verified C (es @ [e]) st" and "Op e = OpAnchor" and "Body e = AnchorBody hash seq" and "fits32 hash"
  shows "st_Anchor st = Some \<lparr>an_AuditHead = hash, an_AuditSeq = seq\<rparr>"
proof -
  have "ParseAnchor (Body e) = Inr \<lparr>an_AuditHead = hash, an_AuditSeq = seq\<rparr>"
    using anchor.parse_build [of "\<lparr>an_AuditHead = hash, an_AuditSeq = seq\<rparr>"] assms(3,4) by (simp add: anchor_body_def)
  then show ?thesis using verified_grows(2) [OF assms(1)] assms(2) by (simp add: anchor_of_def)
qed

lemma Tick_anchors:
  assumes "Tick C F audit t now s db = (db', s', r)" and "db' \<noteq> db" and "log_inv C db" and "length (bd_log db') < 2 ^ 64"
    and "\<And>seq hash. audit (sc_AccountID s) = Inr (seq, hash) \<Longrightarrow> length hash \<le> 4096"
  obtains entries e st seq hash where "LogAll no_faults (sc_AccountID s) db = Inr entries"
    "audit (sc_AccountID s) = Inr (seq, hash)" "LogAll no_faults (sc_AccountID s) db' = Inr (entries @ [e])"
    "LogState C no_faults (sc_AccountID s) db' = Inr st" "st_Anchor st = Some \<lparr>an_AuditHead = hash, an_AuditSeq = seq\<rparr>"
  using assms(1)
proof (cases rule: Tick_cases)
  case (imported extended n)
  let ?acct = "sc_AccountID s"
  from imported(1) obtain entries st0 hashed seq hash e sg i where
    all: "LogAll F ?acct db = Inr entries" and v: "VerifyLog C entries = Inr (st0, hashed)"
    and a: "audit ?acct = Inr (seq, hash)"
    and e: "e = \<lparr>Seq = word_of_nat (length entries) + 1, Time = unix_seconds t, Op = OpAnchor, Body = AnchorBody hash seq,
        Sigs = [\<lparr>SignerIndex = i, Sig = sg\<rparr>], Hash = []\<rparr>" and ext: "extended = hashed @ [e]"
    by (rule tick_plan_Some)
  have st: "stored C ?acct entries db" using LogAll_encodable [OF assms(3) all] .
  then have len: "length entries < 2 ^ 64" by (simp add: stored_def)
  have hashed: "hashed = fill_hashes C [] entries" using v by (simp add: VerifyLog_iff)
  have tx: "import_tx C F now ?acct extended db = Inr (db', n)" using imported(2) by (simp add: Import_ok)
  have "list_all (\<lambda>e. fits32 (Body e)) extended" by (rule tick_plan_fits [OF imported(1) assms(3)]) (rule assms(5))
  from import_tx_Inr [OF tx st this assms(4)] obtain new where
    m: "mergeEntries entries entries extended = Inr (entries @ new)" and st': "stored C ?acct (entries @ map clear_hash new) db'"
    by blast
  have "mergeEntries entries entries [e] = Inr (entries @ new)"
    using m mergeEntries_stored [OF fill_hashes_in_place [OF st] len] by (simp add: ext hashed mergeEntries_append)
  from mergeEntries_next [OF this _ len] have "new = [e]" by (simp add: e)
  with st' have st': "stored C ?acct (entries @ [e]) db'" by (simp add: e)
  then obtain st where ver: "verified C (entries @ [e]) st" by (auto simp: stored_def)
  have log: "LogAll no_faults ?acct db' = Inr (entries @ [e])" using st' by (simp add: stored_LogAll no_faults_def)
  have "fits32 hash" using assms(5) [OF a] by (intro fits32_small) simp
  with verified_anchor [OF ver, of hash seq] have "st_Anchor st = Some \<lparr>an_AuditHead = hash, an_AuditSeq = seq\<rparr>" by (simp add: e)
  moreover have "VerifyLog C (entries @ [e]) = Inr (st, fill_hashes C [] (entries @ [e]))"
    using ver by (simp add: VerifyLog_iff)
  then have "LogState C no_faults ?acct db' = Inr st" using log by (simp add: LogState_def)
  ultimately show thesis
    using that stored_LogAll [OF st, of no_faults] a log by (simp add: no_faults_def)
qed (use assms(2) in simp)

section \<open>The enforcement switch and the fleet\<close>

lemma sameStrings_iff: "sameStrings a b \<longleftrightarrow> mset a = mset b"
proof -
  have "sameStrings a b \<longleftrightarrow> sort a = sort b"
    unfolding sameStrings_def Let_def by (auto simp: list_all_iff intro: nth_equalityI dest: arg_cong [where f = length])
  also have "\<dots> \<longleftrightarrow> mset a = mset b" by (metis mset_sort properties_for_sort sorted_sort)
  finally show ?thesis .
qed

definition mode_rows :: "string \<Rightarrow> bedrock_db \<Rightarrow> string list" where
  "mode_rows acct db = map cf_Mode (filter (\<lambda>c. cf_AccountID c = acct) (bd_config db))"

lemma GetConfiguration_cases:
  assumes "GetConfiguration F acct db = (db', r)"
  obtains (failed) err where "r = Inl err" "db' = db"
  | (found) c where "r = Inr c" "db' = db" "first_row (filter (\<lambda>c. cf_AccountID c = acct) (bd_config db)) = Some c"
  | (created) c where "r = Inr c" "cf_AccountID c = acct" "cf_Mode c = ModeOff" "mode_rows acct db = []"
      "db' = db\<lparr>bd_config := bd_config db @ [c]\<rparr>"
proof (cases "F (Select ''config'')")
  case True
  with assms have "r = Inl (DbFault (Select ''config''))" "db' = db" by (auto simp: GetConfiguration_def)
  then show thesis by (rule failed)
next
  case sel: False
  show thesis
  proof (cases "first_row (filter (\<lambda>c. cf_AccountID c = acct) (bd_config db))")
    case (Some c)
    with assms sel have "r = Inr c" "db' = db" by (auto simp: GetConfiguration_def)
    then show thesis using Some by (rule found)
  next
    case None
    then have "mode_rows acct db = []"
      by (cases "filter (\<lambda>c. cf_AccountID c = acct) (bd_config db)") (simp_all add: mode_rows_def first_row_def)
    with None assms sel failed created show thesis by (auto simp: GetConfiguration_def Let_def split: if_splits)
  qed
qed

definition switch_mode :: "string \<Rightarrow> string \<Rightarrow> bedrock_db \<Rightarrow> bedrock_db" where
  "switch_mode acct mode db = db\<lparr>bd_config := map (\<lambda>c. if cf_AccountID c = acct then c\<lparr>cf_Mode := mode\<rparr> else c) (bd_config db)\<rparr>"

lemma mode_rows_switch:
  "mode_rows a (switch_mode acct mode db) = (if a = acct then replicate (length (mode_rows a db)) mode else mode_rows a db)"
proof -
  have "map cf_Mode (filter (\<lambda>c. cf_AccountID c = a) (map (\<lambda>c. if cf_AccountID c = acct then c\<lparr>cf_Mode := mode\<rparr> else c) cs))
    = (if a = acct then replicate (length (filter (\<lambda>c. cf_AccountID c = a) cs)) mode
       else map cf_Mode (filter (\<lambda>c. cf_AccountID c = a) cs))" for cs :: "Configuration list"
    by (induction cs) auto
  then show ?thesis by (simp add: mode_rows_def switch_mode_def)
qed

lemma GetConfiguration_modes:
  assumes "GetConfiguration F acct db = (db', r)"
  shows "a \<noteq> acct \<Longrightarrow> mode_rows a db' = mode_rows a db"
    and "mode_rows acct db' = mode_rows acct db \<or> mode_rows acct db = [] \<and> mode_rows acct db' = [ModeOff]"
    and "r = Inr c \<Longrightarrow> cf_AccountID c = acct \<and> mode_rows acct db' \<noteq> [] \<and> cf_Mode c = hd (mode_rows acct db')"
proof -
  have hd: "cf_AccountID c = acct \<and> mode_rows acct db \<noteq> [] \<and> cf_Mode c = hd (mode_rows acct db)"
    if "first_row (filter (\<lambda>c. cf_AccountID c = acct) (bd_config db)) = Some c" for c
  proof -
    from that obtain cs where cs: "filter (\<lambda>c. cf_AccountID c = acct) (bd_config db) = c # cs"
      by (cases "filter (\<lambda>c. cf_AccountID c = acct) (bd_config db)") (simp_all add: first_row_def)
    have "cf_AccountID c = acct" using arg_cong [OF cs, of set] by auto
    with cs show ?thesis by (simp add: mode_rows_def)
  qed
  from assms show "a \<noteq> acct \<Longrightarrow> mode_rows a db' = mode_rows a db"
    by (cases rule: GetConfiguration_cases) (simp_all add: mode_rows_def)
  from assms show "mode_rows acct db' = mode_rows acct db \<or> mode_rows acct db = [] \<and> mode_rows acct db' = [ModeOff]"
    by (cases rule: GetConfiguration_cases) (simp_all add: mode_rows_def)
  assume r: "r = Inr c"
  from assms show "cf_AccountID c = acct \<and> mode_rows acct db' \<noteq> [] \<and> cf_Mode c = hd (mode_rows acct db')"
  proof (cases rule: GetConfiguration_cases)
    case (found c')
    then show ?thesis using hd [OF found(3)] r by simp
  next
    case (created c')
    then show ?thesis using r by (simp add: mode_rows_def)
  qed (use r in simp)
qed

lemma SetMode_cases:
  assumes "SetMode F acct mode ack state enrolled t db = (db', r)"
  obtains (refused) err where "r = Inl err"
      "mode_rows acct db' = mode_rows acct db \<or> mode_rows acct db = [] \<and> mode_rows acct db' = [ModeOff]"
      "\<And>a. a \<noteq> acct \<Longrightarrow> mode_rows a db' = mode_rows a db"
  | (switched) n where "mode \<in> {ModeOff, ModeAdvisory, ModeEnforcing}" "mode_rows acct db' = replicate (Suc n) mode"
      "mode = ModeEnforcing \<Longrightarrow> mset ack = mset (UncoveredAt state enrolled t)"
      "\<And>a. a \<noteq> acct \<Longrightarrow> mode_rows a db' = mode_rows a db"
      "\<And>c. r = Inr c \<Longrightarrow> cf_AccountID c = acct \<and> cf_Mode c = mode"
proof (cases "mode \<in> {ModeOff, ModeAdvisory, ModeEnforcing} \<and> (mode = ModeEnforcing \<longrightarrow> sameStrings (UncoveredAt state enrolled t) ack)")
  case False
  with assms have "db' = db" "\<exists>err. r = Inl err" by (auto simp: SetMode_def split: if_splits)
  then show thesis using refused by auto
next
  case ok: True
  obtain db1 r1 where g: "GetConfiguration F acct db = (db1, r1)" by fastforce
  note g1 = GetConfiguration_modes [OF g]
  have set: "SetMode F acct mode ack state enrolled t db = (case r1 of Inl err \<Rightarrow> (db1, Inl err) | Inr _ \<Rightarrow>
      if F (Update ''config'') then (db1, Inl (DbFault (Update ''config''))) else GetConfiguration F acct (switch_mode acct mode db1))"
    using ok by (simp add: SetMode_def switch_mode_def g split: sum.split) blast
  show thesis
  proof (cases "\<exists>c. r1 = Inr c \<and> \<not> F (Update ''config'')")
    case False
    with set assms obtain err where "db' = db1" "r = Inl err" by (auto split: sum.splits if_splits)
    then show thesis by (intro refused) (simp_all add: g1(1,2))
  next
    case True
    then obtain c where c: "r1 = Inr c" by blast
    with True set assms have g2: "GetConfiguration F acct (switch_mode acct mode db1) = (db', r)" by simp
    obtain n where n: "length (mode_rows acct db1) = Suc n" using g1(3) [OF c] by (cases "mode_rows acct db1") simp_all
    have rows: "mode_rows acct db' = replicate (Suc n) mode"
      using GetConfiguration_modes(2) [OF g2] n by (auto simp: mode_rows_switch)
    show thesis
    proof (rule switched [OF _ rows])
      show "mode_rows a db' = mode_rows a db" if "a \<noteq> acct" for a
        using GetConfiguration_modes(1) [OF g2 that] g1(1) [OF that] that by (simp add: mode_rows_switch)
      show "cf_AccountID c = acct \<and> cf_Mode c = mode" if "r = Inr c" for c
        using GetConfiguration_modes(3) [OF g2 that] rows by simp
      show "mode \<in> {ModeOff, ModeAdvisory, ModeEnforcing}" using ok by blast
      show "mset ack = mset (UncoveredAt state enrolled t)" if "mode = ModeEnforcing"
        using ok that by (simp add: sameStrings_iff)
    qed
  qed
qed

lemma UncoveredAt_mset:
  "mset (UncoveredAt state enrolled t)
     = image_mset fst (filter_mset (\<lambda>(h, keys). \<forall>st. state = Some st \<longrightarrow> \<not> IsCovered st h keys t) (mset enrolled))"
  by (cases state) (simp_all add: UncoveredAt_def Uncovered_def case_prod_beta')

text \<open>C29. Enforcement needs an exact acknowledgment. Switching an account's mode never touches another
  account's mode. If it reports success, the account's mode is the requested one of the three
  modes. An account becomes enforcing only when the acknowledged handles are exactly the enrolled peers that are
  not covered by the bedrock log at that instant, each listed as often as it is enrolled: nobody is cut off unannounced.\<close>

theorem enforcing_needs_acknowledgment:
  assumes "SetMode F acct mode ack state enrolled t db = (db', r)"
  shows "(\<forall>a. a \<noteq> acct \<longrightarrow> mode_rows a db' = mode_rows a db)
    \<and> (\<forall>c. r = Inr c \<longrightarrow> mode \<in> {ModeOff, ModeAdvisory, ModeEnforcing} \<and> cf_AccountID c = acct \<and> cf_Mode c = mode
         \<and> set (mode_rows acct db') = {mode})
    \<and> (ModeEnforcing \<in> set (mode_rows acct db') - set (mode_rows acct db) \<longrightarrow>
         mset ack = image_mset fst (filter_mset
           (\<lambda>(h, keys). \<forall>st. state = Some st \<longrightarrow> \<not> IsCovered st h keys t) (mset enrolled)))"
  using assms
proof (cases rule: SetMode_cases)
  case (refused err)
  have "ModeOff \<noteq> ModeEnforcing" by (simp add: ModeOff_def ModeEnforcing_def)
  with refused show ?thesis by auto
next
  case (switched n)
  show ?thesis
  proof (intro conjI allI impI)
    show "mset ack = image_mset fst (filter_mset (\<lambda>(h, keys). \<forall>st. state = Some st \<longrightarrow> \<not> IsCovered st h keys t) (mset enrolled))"
      if "ModeEnforcing \<in> set (mode_rows acct db') - set (mode_rows acct db)"
    proof -
      have "mode = ModeEnforcing" using that switched(2) by auto
      from switched(3) [OF this] show ?thesis by (simp only: UncoveredAt_mset)
    qed
    fix a c
    show "mode_rows a db' = mode_rows a db" if "a \<noteq> acct" using switched(4) that .
    assume "r = Inr c"
    from switched(5) [OF this] show "cf_AccountID c = acct" "cf_Mode c = mode" by simp_all
    show "mode \<in> {ModeOff, ModeAdvisory, ModeEnforcing}" "set (mode_rows acct db') = {mode}" using switched(1,2) by auto
  qed
qed

definition demo_enrolled :: "(string \<times> PeerKeys) list" where
  "demo_enrolled = [(''node-b'', \<lparr>pk_KemPublicKey = []\<rparr>), (''node-a'', \<lparr>pk_KemPublicKey = []\<rparr>)]"

text \<open>The accounts a reconciliation starts and stops schedulers for.\<close>

lemma start_missing_set: "set (start_missing accounts running) = set running \<union> set accounts"
  "distinct running \<Longrightarrow> distinct (start_missing accounts running)"
  unfolding start_missing_def by (induction accounts arbitrary: running) auto

lemma EnabledAccounts_set:
  "\<not> F (Select ''config'') \<Longrightarrow> \<exists>as. EnabledAccounts F db = Inr as \<and> (\<forall>a. a \<in> set as \<longleftrightarrow> (\<exists>m\<in>set (mode_rows a db). m \<noteq> ModeOff))"
  by (auto simp: EnabledAccounts_def mode_rows_def)

lemma Reconcile_set:
  "fst (Reconcile (Inr as) running) = filter (\<lambda>a. a \<in> set as) (start_missing as running)"
  "set (fst (Reconcile (Inr as) running)) = set as"
  by (auto simp: Reconcile_def start_missing_set)

text \<open>The mode drives the schedulers. After a mode switch that succeeded, the next reconciliation that can
  read the configuration leaves a scheduler running for that account exactly when the new mode is not off, and
  for every other account exactly when it was enabled before; no account runs two, and reconciling
  again changes nothing. A reconciliation that cannot read the configuration stops and starts nothing.\<close>

theorem mode_switch_drives_fleet:
  assumes "SetMode F acct mode ack state enrolled t db = (db', Inr c)" and "distinct running"
  shows "(F' (Select ''config'') \<longrightarrow> fst (Reconcile (EnabledAccounts F' db') running) = running)
    \<and> (\<not> F' (Select ''config'') \<longrightarrow>
        (let running' = fst (Reconcile (EnabledAccounts F' db') running)
         in distinct running' \<and> (acct \<in> set running' \<longleftrightarrow> mode \<noteq> ModeOff)
            \<and> (\<forall>a. a \<noteq> acct \<longrightarrow> (a \<in> set running' \<longleftrightarrow> (\<exists>m\<in>set (mode_rows a db). m \<noteq> ModeOff)))
            \<and> fst (Reconcile (EnabledAccounts F' db') running') = running'))"
  using assms(1)
proof (cases rule: SetMode_cases)
  case (switched n)
  show ?thesis
  proof (cases "F' (Select ''config'')")
    case False
    from EnabledAccounts_set [of F' db', OF this] obtain as where as: "EnabledAccounts F' db' = Inr as"
      "\<And>a. a \<in> set as \<longleftrightarrow> (\<exists>m\<in>set (mode_rows a db'). m \<noteq> ModeOff)" by blast
    have noop: "start_missing as xs = xs" if "set as \<subseteq> set xs" for xs
      using that unfolding start_missing_def by (induction as) auto
    let ?all = "Inr as :: log_error + string list"
    let ?r = "fst (Reconcile ?all running)"
    have sr: "set ?r = set as" by (rule Reconcile_set(2))
    have "distinct ?r" using assms(2) by (simp add: Reconcile_set(1) start_missing_set(2))
    moreover have "fst (Reconcile ?all ?r) = ?r"
      using noop [of ?r] sr unfolding Reconcile_set(1) [of as ?r] by (simp add: filter_id_conv)
    moreover have "acct \<in> set ?r \<longleftrightarrow> mode \<noteq> ModeOff" using as(2) switched(2) by (simp add: Reconcile_set(2))
    moreover have "a \<in> set ?r \<longleftrightarrow> (\<exists>m\<in>set (mode_rows a db). m \<noteq> ModeOff)" if "a \<noteq> acct" for a
      using as(2) switched(4) [OF that] by (simp add: Reconcile_set(2))
    ultimately show ?thesis using False by (simp add: Let_def as(1))
  qed (simp add: Reconcile_def EnabledAccounts_def)
qed simp

definition demo_enforcing_db :: bedrock_db where
  "demo_enforcing_db = demo_db0\<lparr>bd_config := [\<lparr>cf_AccountID = ''acct'', cf_Mode = ModeEnforcing, cf_Quorum = 1\<rparr>]\<rparr>"

lemma demo_enforce: "SetMode no_faults ''acct'' ModeEnforcing [''node-b'', ''node-a''] None demo_enrolled 7 demo_db0
    = (demo_enforcing_db, Inr \<lparr>cf_AccountID = ''acct'', cf_Mode = ModeEnforcing, cf_Quorum = 1\<rparr>)"
proof -
  have "sameStrings (UncoveredAt None demo_enrolled 7) [''node-b'', ''node-a'']"
    by (simp add: sameStrings_iff UncoveredAt_def demo_enrolled_def)
  then show ?thesis
    by (simp add: SetMode_def GetConfiguration_def no_faults_def demo_db0_def demo_enforcing_db_def first_row_def Let_def)
qed

theorem enforcing_needs_acknowledgment_witness:
  "mset [''node-b'', ''node-a''] = image_mset fst (filter_mset
     (\<lambda>(h, keys). \<forall>st. None = Some st \<longrightarrow> \<not> IsCovered st h keys 7) (mset demo_enrolled))"
  using enforcing_needs_acknowledgment [OF demo_enforce]
  by (simp add: mode_rows_def demo_enforcing_db_def demo_db0_def)

theorem mode_switch_drives_fleet_witness:
  "let running' = fst (Reconcile (EnabledAccounts no_faults demo_enforcing_db) [''old''])
   in distinct running' \<and> ''acct'' \<in> set running' \<and> ''old'' \<notin> set running'
      \<and> fst (Reconcile (EnabledAccounts no_faults demo_enforcing_db) running') = running'"
proof -
  have "distinct [''old'']" "ModeEnforcing \<noteq> ModeOff" "mode_rows ''old'' demo_db0 = []"
    by (simp_all add: ModeEnforcing_def ModeOff_def mode_rows_def demo_db0_def)
  with mode_switch_drives_fleet [OF demo_enforce, of "[''old'']" no_faults] show ?thesis
    by (simp add: Let_def no_faults_def)
qed

section \<open>A tick on a concrete store\<close>

definition demo_short :: "Entry list" where
  "demo_short = [demo_entry 1 10 OpGenesis (genesis_body demo_genesis) [0]]"

definition demo_short_db :: bedrock_db where
  "demo_short_db = \<lparr>bd_log = map (row_of ''acct'' 5) (fill_hashes demo_crypto [] demo_short), bd_pending = [], bd_config = []\<rparr>"

definition demo_scheduler :: Scheduler where
  "demo_scheduler = \<lparr>sc_AccountID = ''acct'', sc_Public = demo_key (CHR ''x''), sc_Sign = (\<lambda>_. Some (Sig (demo_sig 3))),
     sc_MinEntries = 100, sc_MaxAge = 3600000000000, sc_loggedNotEnabled = False\<rparr>"

definition demo_short_state :: State where
  "demo_short_state = State0\<lparr>st_Zone := ''zone'', st_Roots := g_Roots demo_genesis, st_K := 1,
     st_Authorities := g_Authorities demo_genesis, st_Q := 2, st_AnchorKeys := g_AnchorKeys demo_genesis,
     st_Head := replicate 64 (CHR ''h''), st_HeadSeq := 1, st_lastTime := 10\<rparr>"

lemma demo_short_verifies: "VerifyLog demo_crypto demo_short = Inr (demo_short_state, fill_hashes demo_crypto [] demo_short)"
proof -
  have "\<exists>es. VerifyLog demo_crypto demo_short = Inr (demo_short_state, es)"
    by (simp add: VerifyLog_def demo_short_def demo_step_defs Let_def demo_short_state_def)
  then show ?thesis by (auto simp: VerifyLog_iff)
qed

lemma demo_short_stored: "stored demo_crypto ''acct'' demo_short demo_short_db"
proof -
  have "verified demo_crypto demo_short demo_short_state" using demo_short_verifies by (simp add: VerifyLog_iff)
  moreover have "list_all (\<lambda>e. encodable e \<and> Hash e = []) demo_short"
    using demo_entry_encodable(1) [OF _ length_demo_bodies(1), of OpGenesis "[0]" 1 10]
    by (simp add: demo_short_def op_defs) (simp add: demo_entry_def)
  moreover have "filter (\<lambda>r. le_AccountID r = ''acct'') (bd_log demo_short_db) = map (row_of ''acct'' 5) (fill_hashes demo_crypto [] demo_short)"
    by (simp add: demo_short_db_def demo_short_def)
  moreover have "list_all2 (row_matches ''acct'') es (map (row_of ''acct'' 5) es)" for es
    by (induction es) (simp_all add: row_matches_def row_of_def)
  moreover have "length demo_short < 2 ^ 64" by (simp add: demo_short_def)
  ultimately show ?thesis unfolding stored_def by metis
qed

lemma demo_short_inv: "log_inv demo_crypto demo_short_db"
proof -
  have "stored demo_crypto a [] demo_short_db" if "a \<noteq> ''acct''" for a
    using that by (simp add: stored_def demo_short_db_def demo_short_def)
  with demo_short_stored show ?thesis unfolding log_inv_def by metis
qed

lemma demo_from_entries: "FromEntries demo_crypto (fill_hashes demo_crypto [] demo_short)
    = Inr \<lparr>bu_entries = fill_hashes demo_crypto [] demo_short, bu_prev = replicate 64 (CHR ''h'')\<rparr>"
proof -
  have "map clear_hash (fill_hashes demo_crypto [] demo_short) = map clear_hash demo_short" by simp
  then have "verified demo_crypto (fill_hashes demo_crypto [] demo_short) demo_short_state"
    using demo_short_verifies by (metis VerifyLog_iff verified_clear)
  moreover have "fill_hashes demo_crypto [] (fill_hashes demo_crypto [] demo_short) = fill_hashes demo_crypto [] demo_short"
    by (simp add: demo_short_def)
  ultimately have "VerifyLog demo_crypto (fill_hashes demo_crypto [] demo_short)
      = Inr (demo_short_state, fill_hashes demo_crypto [] demo_short)"
    by (simp add: VerifyLog_iff demo_short_def)
  then show ?thesis by (simp add: FromEntries_def demo_short_state_def)
qed

lemma demo_tick_plan:
  assumes "audit ''acct'' = Inr (1, hash)"
  shows "tick_plan demo_crypto no_faults audit 60000000000 demo_scheduler demo_short_db
    = Inr (Some (fill_hashes demo_crypto [] demo_short @ [demo_entry 2 60 OpAnchor (AnchorBody hash 1) [3]]))"
proof -
  have log: "LogAll no_faults ''acct'' demo_short_db = Inr demo_short"
    using stored_LogAll [OF demo_short_stored] by (simp add: no_faults_def)
  have st: "st_Anchor demo_short_state = None" "anchorSignerIndex demo_short_state (sc_Public demo_scheduler) = Some 3"
    by (simp_all add: demo_short_state_def State0_def anchorSignerIndex_def demo_scheduler_def)
  have s: "sc_AccountID demo_scheduler = ''acct''" "sc_Sign demo_scheduler = (\<lambda>_. Some (Sig (demo_sig 3)))"
    by (simp_all add: demo_scheduler_def)
  have ne: "demo_short \<noteq> []" "length (fill_hashes demo_crypto [] demo_short) = 1" by (simp_all add: demo_short_def)
  have "PrepareAnchor demo_crypto no_faults ''acct'' audit (unix_seconds 60000000000) demo_short_db
      = Inr (Prepare demo_crypto \<lparr>bu_entries = fill_hashes demo_crypto [] demo_short, bu_prev = replicate 64 (CHR ''h'')\<rparr>
          (unix_seconds 60000000000) OpAnchor (AnchorBody hash 1))"
    using assms log demo_short_verifies demo_from_entries ne(1) st(1) by (simp add: PrepareAnchor_def anchor_advances_def)
  moreover have "unix_seconds 60000000000 = 60" by (simp add: unix_seconds_def)
  ultimately show ?thesis
    using assms log demo_short_verifies st s ne
    by (simp add: tick_plan_def AnchorDue_def Prepare_def Let_def) (simp add: demo_entry_def demo_sig_def)
qed

definition demo_two :: "string \<Rightarrow> Entry list" where
  "demo_two hash = demo_short @ [demo_entry 2 60 OpAnchor (AnchorBody hash 1) [3]]"

definition demo_anchored_db :: "string \<Rightarrow> bedrock_db" where
  "demo_anchored_db hash = demo_short_db\<lparr>bd_log := bd_log demo_short_db
     @ [row_of ''acct'' 9 (last (fill_hashes demo_crypto [] (demo_two hash)))]\<rparr>"

lemma demo_two_verifies:
  assumes "fits32 hash"
  shows "\<exists>st. VerifyLog demo_crypto (demo_two hash) = Inr (st, fill_hashes demo_crypto [] (demo_two hash))"
proof -
  have parse: "ParseAnchor (AnchorBody hash 1) = Inr \<lparr>an_AuditHead = hash, an_AuditSeq = 1\<rparr>"
    using anchor.parse_build [of "\<lparr>an_AuditHead = hash, an_AuditSeq = 1\<rparr>"] assms by (simp add: anchor_body_def)
  have "\<exists>st es. VerifyLog demo_crypto (demo_two hash) = Inr (st, es)"
    by (simp add: VerifyLog_def demo_two_def demo_short_def demo_step_defs Let_def parse)
  then show ?thesis by (auto simp: VerifyLog_iff)
qed

lemma demo_Tick:
  assumes "audit ''acct'' = Inr (1, hash)" and "fits32 hash"
  shows "\<exists>s'. Tick demo_crypto no_faults audit 60000000000 9 demo_scheduler demo_short_db = (demo_anchored_db hash, s', Inr ())"
proof -
  let ?e = "demo_entry 2 60 OpAnchor (AnchorBody hash 1) [3]"
  have len: "length demo_short < 2 ^ 64" by (simp add: demo_short_def)
  have "mergeEntries demo_short demo_short [?e] = Inr (demo_two hash)"
    by (simp add: demo_short_def demo_two_def demo_entry_def word_le_nat_alt)
  with mergeEntries_stored [OF fill_hashes_in_place [OF demo_short_stored] len]
  have "mergeEntries demo_short demo_short (fill_hashes demo_crypto [] demo_short @ [?e]) = Inr (demo_two hash)"
    by (simp add: mergeEntries_append)
  moreover have "insertRows no_faults ''acct'' 9 0 [last (fill_hashes demo_crypto [] (demo_two hash))] (bd_log demo_short_db)
      = Inr (bd_log (demo_anchored_db hash))"
    by (simp add: demo_anchored_db_def demo_short_db_def demo_short_def demo_two_def no_faults_def demo_entry_def)
  moreover have "drop (length demo_short) (fill_hashes demo_crypto [] (demo_two hash)) = [last (fill_hashes demo_crypto [] (demo_two hash))]"
    by (simp add: demo_short_def demo_two_def)
  ultimately have "import_tx demo_crypto no_faults 9 ''acct'' (fill_hashes demo_crypto [] demo_short @ [?e]) demo_short_db
      = Inr (demo_anchored_db hash, 2)"
    using stored_decodes [OF demo_short_stored] demo_two_verifies [OF assms(2)]
    by (auto simp: import_tx_def no_faults_def demo_anchored_db_def demo_two_def demo_short_def)
  then have "Import demo_crypto no_faults 9 ''acct'' (fill_hashes demo_crypto [] demo_short @ [?e]) demo_short_db
      = (demo_anchored_db hash, Inr 2)" by (simp add: Import_ok no_faults_def)
  moreover have "sc_AccountID demo_scheduler = ''acct''" by (simp add: demo_scheduler_def)
  ultimately show ?thesis using demo_tick_plan [of audit hash, OF assms(1)] by (simp add: Tick_def)
qed

end
