(* ===== verification/Go_Text.thy ===== *)
theory Go_Text
  imports Karst_Prelude "HOL-Library.List_Lexorder" "HOL-Library.Char_ord"
begin

text \<open>The parts of the Go packages \<^verbatim>\<open>strings\<close>, \<^verbatim>\<open>strconv\<close> and \<^verbatim>\<open>net/netip\<close> that the policy code uses, on
  byte strings.\<close>

section \<open>Strings\<close>

definition hasPrefix :: "string \<Rightarrow> string \<Rightarrow> bool" where
  "hasPrefix s p \<longleftrightarrow> take (length p) s = p"

definition trimPrefix :: "string \<Rightarrow> string \<Rightarrow> string" where
  "trimPrefix s p = (if hasPrefix s p then drop (length p) s else s)"

text \<open>Splitting at the first and at the last occurrence of a byte, and at every one.\<close>

fun cut :: "char \<Rightarrow> string \<Rightarrow> (string \<times> string) option" where
  "cut c [] = None"
| "cut c (x # xs) = (if x = c then Some ([], xs) else map_option (\<lambda>(a, b). (x # a, b)) (cut c xs))"

fun cut_last :: "char \<Rightarrow> string \<Rightarrow> (string \<times> string) option" where
  "cut_last c [] = None"
| "cut_last c (x # xs) =
     (case cut_last c xs of Some (a, b) \<Rightarrow> Some (x # a, b) | None \<Rightarrow> if x = c then Some ([], xs) else None)"

fun split_on :: "char \<Rightarrow> string \<Rightarrow> string list" where
  "split_on c [] = [[]]"
| "split_on c (x # xs) =
     (if x = c then [] # split_on c xs
      else case split_on c xs of w # ws \<Rightarrow> (x # w) # ws | [] \<Rightarrow> [[x]])"

fun join :: "string \<Rightarrow> string list \<Rightarrow> string" where
  "join sep [] = []"
| "join sep [s] = s"
| "join sep (s # ss) = s @ sep @ join sep ss"

definition containsAny :: "string \<Rightarrow> string \<Rightarrow> bool" where
  "containsAny s cs \<longleftrightarrow> list_ex (\<lambda>c. c \<in> set cs) s"

text \<open>White space, as the UTF-8 encodings of the code points with the Unicode property.\<close>

definition chr :: "nat \<Rightarrow> char" where "chr n = char_of n"

definition spaces :: "string list" where
  "spaces = map (map chr) ([[9], [10], [11], [12], [13], [32], [194, 133], [194, 160], [225, 154, 128],
     [226, 128, 168], [226, 128, 169], [226, 128, 175], [226, 129, 159], [227, 128, 128]]
     @ map (\<lambda>n. [226, 128, n]) [128..<139])"

fun trim_left :: "nat \<Rightarrow> string \<Rightarrow> string" where
  "trim_left 0 s = s"
| "trim_left (Suc n) s =
     (case find (hasPrefix s) spaces of Some p \<Rightarrow> trim_left n (drop (length p) s) | None \<Rightarrow> s)"

fun trim_right :: "nat \<Rightarrow> string \<Rightarrow> string" where
  "trim_right 0 s = s"
| "trim_right (Suc n) s =
     (case find (\<lambda>p. hasPrefix (rev s) (rev p)) spaces of Some p \<Rightarrow> trim_right n (take (length s - length p) s) | None \<Rightarrow> s)"

definition trimSpace :: "string \<Rightarrow> string" where
  "trimSpace s = trim_right (length s) (trim_left (length s) s)"

lemma hasPrefix_append [simp]: "hasPrefix (p @ s) p"
  by (simp add: hasPrefix_def)

lemma cut_append [simp]: "c \<notin> set a \<Longrightarrow> cut c (a @ c # b) = Some (a, b)"
  by (induction a) auto

lemma cut_Some: "cut c s = Some (a, b) \<longleftrightarrow> s = a @ c # b \<and> c \<notin> set a"
proof
  show "cut c s = Some (a, b) \<Longrightarrow> s = a @ c # b \<and> c \<notin> set a"
    by (induction s arbitrary: a) (auto split: if_splits)
qed auto

lemma cut_None: "cut c s = None \<longleftrightarrow> c \<notin> set s"
  by (induction s) simp_all

lemma cut_last_None: "cut_last c s = None \<longleftrightarrow> c \<notin> set s"
  by (induction s) (auto split: option.splits)

lemma cut_last_append [simp]: "c \<notin> set b \<Longrightarrow> cut_last c (a @ c # b) = Some (a, b)"
proof (induction a)
  case Nil
  then have "cut_last c b = None" by (simp add: cut_last_None)
  then show ?case by simp
qed simp

lemma cut_last_Some: "cut_last c s = Some (a, b) \<longleftrightarrow> s = a @ c # b \<and> c \<notin> set b"
proof
  show "cut_last c s = Some (a, b) \<Longrightarrow> s = a @ c # b \<and> c \<notin> set b"
  proof (induction s arbitrary: a b)
    case (Cons x xs)
    show ?case
    proof (cases "cut_last c xs")
      case None
      with Cons.prems have "x = c" "a = []" "b = xs" by (simp_all split: if_splits)
      moreover from None have "c \<notin> set xs" by (simp add: cut_last_None)
      ultimately show ?thesis by simp
    next
      case (Some p)
      obtain a' b' where p: "p = (a', b')" by fastforce
      from Cons.IH [of a' b'] Some p Cons.prems show ?thesis by simp
    qed
  qed simp
qed (simp add: cut_last_append)

lemma split_on_not_Nil [simp]: "split_on c s \<noteq> []"
  by (induction s) (auto split: list.splits)

lemma split_on_no_sep: "c \<notin> set s \<Longrightarrow> split_on c s = [s]"
  by (induction s) auto

section \<open>Decimal numbers\<close>

definition digit :: "char \<Rightarrow> bool" where
  "digit c \<longleftrightarrow> 48 \<le> (of_char c :: nat) \<and> (of_char c :: nat) \<le> 57"

definition digit_val :: "char \<Rightarrow> nat" where
  "digit_val c = of_char c - 48"

definition dec_val :: "string \<Rightarrow> nat" where
  "dec_val s = foldl (\<lambda>n c. n * 10 + digit_val c) 0 s"

text \<open>An unsigned decimal number below a bound: no sign, no underscore, at least one digit.\<close>

definition parseUint :: "nat \<Rightarrow> string \<Rightarrow> nat option" where
  "parseUint bits s =
     (if s \<noteq> [] \<and> list_all digit s \<and> dec_val s < 2 ^ bits then Some (dec_val s) else None)"

fun itoa :: "nat \<Rightarrow> string" where
  "itoa n = (if n < 10 then [chr (48 + n)] else itoa (n div 10) @ [chr (48 + n mod 10)])"

declare itoa.simps [simp del]

lemma of_char_chr: "n < 256 \<Longrightarrow> (of_char (chr n) :: nat) = n"
  by (simp add: chr_def)

lemma digit_chr [simp]: "n < 10 \<Longrightarrow> digit (chr (48 + n))" "n < 10 \<Longrightarrow> digit_val (chr (48 + n)) = n"
  by (simp_all add: digit_def digit_val_def of_char_chr)

lemma dec_val_append: "dec_val (s @ [c]) = dec_val s * 10 + digit_val c"
  by (simp add: dec_val_def)

lemma itoa_val: "dec_val (itoa n) = n" "list_all digit (itoa n)" "itoa n \<noteq> []"
proof -
  have "dec_val (itoa n) = n \<and> list_all digit (itoa n) \<and> itoa n \<noteq> []"
  proof (induction n rule: itoa.induct)
    case (1 n)
    show ?case
    proof (cases "n < 10")
      case True
      then show ?thesis by (simp add: itoa.simps [of n] dec_val_def)
    next
      case False
      with 1 show ?thesis by (simp add: itoa.simps [of n] dec_val_append)
    qed
  qed
  then show "dec_val (itoa n) = n" "list_all digit (itoa n)" "itoa n \<noteq> []" by auto
qed

lemma parseUint_itoa [simp]: "n < 2 ^ bits \<Longrightarrow> parseUint bits (itoa n) = Some n"
  by (simp add: parseUint_def itoa_val)

lemma parseUint_less: "parseUint bits s = Some n \<Longrightarrow> n < 2 ^ bits"
  by (simp add: parseUint_def split: if_splits)

text \<open>Printable ASCII is not white space.\<close>

definition printable :: "char \<Rightarrow> bool" where
  "printable c \<longleftrightarrow> 33 \<le> (of_char c :: nat) \<and> (of_char c :: nat) \<le> 126"

lemma digit_printable: "digit c \<Longrightarrow> printable c"
  by (simp add: digit_def printable_def)

lemma space_ends: "p \<in> set spaces \<Longrightarrow> p \<noteq> [] \<and> \<not> printable (hd p) \<and> \<not> printable (last p)"
  by (auto simp: spaces_def printable_def of_char_chr)

lemma hasPrefix_hd: "hasPrefix s p \<Longrightarrow> p \<noteq> [] \<Longrightarrow> s \<noteq> [] \<and> hd s = hd p"
  by (cases s; cases p) (auto simp: hasPrefix_def)

lemma trimSpace_ends:
  assumes "s \<noteq> []" and "printable (hd s)" and "printable (last s)"
  shows "trimSpace s = s"
proof -
  have "find (hasPrefix s) spaces = None"
    using assms(2) space_ends hasPrefix_hd [of s] by (fastforce simp: find_None_iff)
  then have "trim_left n s = s" for n by (cases n) simp_all
  moreover have "find (\<lambda>p. hasPrefix (rev s) (rev p)) spaces = None"
    using assms(3) space_ends hasPrefix_hd [of "rev s"] by (fastforce simp: find_None_iff hd_rev)
  then have "trim_right n s = s" for n by (cases n) simp_all
  ultimately show ?thesis by (simp add: trimSpace_def)
qed

lemma trimSpace_digits: "s \<noteq> [] \<Longrightarrow> list_all digit s \<Longrightarrow> trimSpace s = s"
  by (rule trimSpace_ends) (auto simp: list_all_iff digit_printable)

end
