(* ===== verification/Net_Ip.thy ===== *)
theory Net_Ip
  imports Go_Text "HOL-Library.Product_Lexorder"
begin

unbundle bit_operations_syntax

text \<open>Addresses and prefixes of the Go package \<^verbatim>\<open>net/netip\<close>: parsing, printing, masking, containment,
  overlap and order. An invalid address or prefix is \<^verbatim>\<open>None\<close>.\<close>

section \<open>Addresses\<close>

datatype Addr = Addr4 "32 word" | Addr6 "128 word" string

record Prefix =
  pf_ip :: Addr
  pf_bits :: nat

fun bitLen :: "Addr \<Rightarrow> nat" where
  "bitLen (Addr4 _) = 32"
| "bitLen (Addr6 _ _) = 128"

fun zone :: "Addr \<Rightarrow> string" where
  "zone (Addr4 _) = []"
| "zone (Addr6 _ z) = z"

fun is4In6 :: "Addr \<Rightarrow> bool" where
  "is4In6 (Addr4 _) = False"
| "is4In6 (Addr6 w _) = (drop_bit 32 w = 65535)"

definition of_fields :: "nat \<Rightarrow> nat list \<Rightarrow> nat" where
  "of_fields base fs = foldl (\<lambda>n f. n * base + f) 0 fs"

fun ipv4Fields :: "bool \<Rightarrow> nat \<Rightarrow> nat \<Rightarrow> nat list \<Rightarrow> string \<Rightarrow> nat list option" where
  "ipv4Fields atStart v digLen octets [] = (if length octets < 3 then None else Some (octets @ [v]))"
| "ipv4Fields atStart v digLen octets (c # cs) =
     (if digit c then
        if digLen = 1 \<and> v = 0 then None
        else let v = v * 10 + digit_val c
             in if v > 255 then None else ipv4Fields False v (digLen + 1) octets cs
      else if c = CHR ''.'' then
        if atStart \<or> cs = [] then None
        else if length octets = 3 then None
        else ipv4Fields True 0 0 (octets @ [v]) cs
      else None)"

definition parseIPv4 :: "string \<Rightarrow> Addr option" where
  "parseIPv4 s = map_option (\<lambda>fs. Addr4 (word_of_nat (of_fields 256 fs))) (ipv4Fields True 0 0 [] s)"

definition hex_val :: "char \<Rightarrow> nat option" where
  "hex_val c = (let n = of_char c :: nat
     in if 48 \<le> n \<and> n \<le> 57 then Some (n - 48)
        else if 97 \<le> n \<and> n \<le> 102 then Some (n - 87)
        else if 65 \<le> n \<and> n \<le> 70 then Some (n - 55) else None)"

fun hex_run :: "nat \<Rightarrow> nat \<Rightarrow> string \<Rightarrow> (nat \<times> nat \<times> string) option" where
  "hex_run off acc [] = Some (off, acc, [])"
| "hex_run off acc (c # cs) =
     (case hex_val c of None \<Rightarrow> Some (off, acc, c # cs)
      | Some h \<Rightarrow> let acc = acc * 16 + h
          in if off > 3 then None else if acc > 65535 then None else hex_run (off + 1) acc cs)"

text \<open>The loop over the groups: what it has read, the position of the ellipsis, and what it left.\<close>

fun ipv6Groups :: "nat \<Rightarrow> nat list \<Rightarrow> nat option \<Rightarrow> string \<Rightarrow> (nat list \<times> nat option \<times> string) option" where
  "ipv6Groups 0 gs el s = Some (gs, el, s)"
| "ipv6Groups (Suc n) gs el s =
     (case hex_run 0 0 s of None \<Rightarrow> None
      | Some (off, acc, rest) \<Rightarrow>
        if off = 0 then None
        else if rest \<noteq> [] \<and> hd rest = CHR ''.'' then
          if el = None \<and> length gs \<noteq> 6 then None
          else if length gs > 6 then None
          else (case ipv4Fields True 0 0 [] s of None \<Rightarrow> None
                | Some fs \<Rightarrow> Some (gs @ [fs ! 0 * 256 + fs ! 1, fs ! 2 * 256 + fs ! 3], el, []))
        else let gs = gs @ [acc]
          in if rest = [] then Some (gs, el, [])
             else if hd rest \<noteq> CHR '':'' then None
             else if length rest = 1 then None
             else let s = tl rest
               in if hd s = CHR '':'' then
                    if el \<noteq> None then None
                    else if tl s = [] then Some (gs, Some (length gs), [])
                    else ipv6Groups n gs (Some (length gs)) (tl s)
                  else ipv6Groups n gs el s)"

definition ipv6_of_groups :: "string \<Rightarrow> nat list \<times> nat option \<times> string \<Rightarrow> Addr option" where
  "ipv6_of_groups z = (\<lambda>(gs, el, rest).
     if rest \<noteq> [] then None
     else if length gs < 8 then
       (case el of None \<Rightarrow> None
        | Some e \<Rightarrow> Some (Addr6 (word_of_nat (of_fields 65536 (take e gs @ replicate (8 - length gs) 0 @ drop e gs))) z))
     else if el \<noteq> None then None
     else Some (Addr6 (word_of_nat (of_fields 65536 gs)) z))"

definition parseIPv6 :: "string \<Rightarrow> Addr option" where
  "parseIPv6 s =
     (let (s, z, ok) = (case cut (CHR ''%'') s of None \<Rightarrow> (s, [], True) | Some (a, b) \<Rightarrow> (a, b, b \<noteq> []))
      in if \<not> ok then None
         else if hasPrefix s ''::'' then
           if length s = 2 then Some (Addr6 0 z)
           else Option.bind (ipv6Groups 8 [] (Some 0) (drop 2 s)) (ipv6_of_groups z)
         else Option.bind (ipv6Groups 8 [] None s) (ipv6_of_groups z))"

definition ParseAddr :: "string \<Rightarrow> Addr option" where
  "ParseAddr s =
     (case find (\<lambda>c. c = CHR ''.'' \<or> c = CHR '':'' \<or> c = CHR ''%'') s of
        None \<Rightarrow> None
      | Some c \<Rightarrow> if c = CHR ''.'' then parseIPv4 s else if c = CHR '':'' then parseIPv6 s else None)"

section \<open>Prefixes\<close>

definition ParsePrefix :: "string \<Rightarrow> Prefix option" where
  "ParsePrefix s =
     (case cut_last (CHR ''/'') s of None \<Rightarrow> None
      | Some (a, bits) \<Rightarrow>
        (case ParseAddr a of None \<Rightarrow> None
         | Some ip \<Rightarrow>
           if zone ip \<noteq> [] then None
           else if length bits > 1 \<and> \<not> (digit (hd bits) \<and> hd bits \<noteq> CHR ''0'') then None
           else (case parseUint 63 bits of None \<Rightarrow> None
             | Some n \<Rightarrow> if n > bitLen ip then None else Some \<lparr>pf_ip = ip, pf_bits = n\<rparr>)))"

fun mask_addr :: "nat \<Rightarrow> Addr \<Rightarrow> Addr" where
  "mask_addr b (Addr4 w) = Addr4 (push_bit (32 - b) (drop_bit (32 - b) w))"
| "mask_addr b (Addr6 w z) = Addr6 (push_bit (128 - b) (drop_bit (128 - b) w)) []"

definition Masked :: "Prefix \<Rightarrow> Prefix" where
  "Masked p = \<lparr>pf_ip = mask_addr (pf_bits p) (pf_ip p), pf_bits = pf_bits p\<rparr>"

fun addr_contains :: "nat \<Rightarrow> Addr \<Rightarrow> Addr \<Rightarrow> bool" where
  "addr_contains b (Addr4 v) (Addr4 w) = (drop_bit (32 - b) (w XOR v) = 0)"
| "addr_contains b (Addr6 v _) (Addr6 w _) = (drop_bit (128 - b) (w XOR v) = 0)"
| "addr_contains b _ _ = False"

definition Contains :: "Prefix \<Rightarrow> Addr \<Rightarrow> bool" where
  "Contains p a \<longleftrightarrow> zone a = [] \<and> addr_contains (pf_bits p) (pf_ip p) a"

definition Overlaps :: "Prefix \<Rightarrow> Prefix \<Rightarrow> bool" where
  "Overlaps p q =
     (if p = q then True
      else if bitLen (pf_ip p) \<noteq> bitLen (pf_ip q) then False
      else let minBits = (if pf_bits p < pf_bits q then pf_bits p else pf_bits q)
           in if minBits = 0 then True
              else mask_addr minBits (pf_ip p) = mask_addr minBits (pf_ip q))"

fun addr_key :: "Addr \<Rightarrow> nat \<times> nat \<times> string" where
  "addr_key (Addr4 w) = (32, unat w, [])"
| "addr_key (Addr6 w z) = (128, unat w, z)"

section \<open>Printing\<close>

definition fields_of :: "nat \<Rightarrow> nat \<Rightarrow> nat \<Rightarrow> nat list" where
  "fields_of base n x = map (\<lambda>i. x div base ^ (n - 1 - i) mod base) [0..<n]"

definition string4 :: "32 word \<Rightarrow> string" where
  "string4 w = join ''.'' (map itoa (fields_of 256 4 (unat w)))"

definition hex_digit :: "nat \<Rightarrow> char" where
  "hex_digit n = (if n < 10 then chr (48 + n) else chr (87 + n))"

fun hex_of :: "nat \<Rightarrow> string" where
  "hex_of n = (if n < 16 then [hex_digit n] else hex_of (n div 16) @ [hex_digit (n mod 16)])"

declare hex_of.simps [simp del]

definition zero_run :: "nat list \<Rightarrow> (nat \<times> nat) option" where
  "zero_run gs = foldl (\<lambda>best i. let l = length (takeWhile (\<lambda>g. g = 0) (drop i gs))
     in if l \<ge> 2 \<and> (case best of None \<Rightarrow> True | Some (s, e) \<Rightarrow> l > e - s) then Some (i, i + l) else best)
     None [0..<length gs]"

definition string6 :: "128 word \<Rightarrow> string" where
  "string6 w = (let gs = fields_of 65536 8 (unat w); hs = map hex_of gs
     in case zero_run gs of None \<Rightarrow> join '':'' hs
        | Some (s, e) \<Rightarrow> join '':'' (take s hs) @ ''::'' @ join '':'' (drop e hs))"

fun addr_string :: "Addr \<Rightarrow> string" where
  "addr_string (Addr4 w) = string4 w"
| "addr_string (Addr6 w z) =
     (if is4In6 (Addr6 w z) then ''::ffff:'' @ string4 (ucast w) else string6 w)
     @ (if z = [] then [] else CHR ''%'' # z)"

definition prefix_string :: "Prefix option \<Rightarrow> string" where
  "prefix_string p = (case p of None \<Rightarrow> ''invalid Prefix''
     | Some p \<Rightarrow> addr_string (pf_ip p) @ CHR ''/'' # itoa (pf_bits p))"

end
