(* ===== verification/Policy.thy ===== *)
theory Policy
  imports Net_Ip
begin

text \<open>The access policy of \<^verbatim>\<open>policy/policy.go\<close> and \<^verbatim>\<open>policy/grants.go\<close>: the document, its validation, and its
  compilation into the ingress, egress and SSH filters of one node with their reference
  evaluators. Go maps of the document are association lists in iteration order; \<^verbatim>\<open>nil\<close> and
  empty SSH sections differ, so that section is an option.\<close>

section \<open>The document\<close>

definition Wildcard :: string where "Wildcard = ''*''"

record Grant =
  gr_ID :: string
  gr_Name :: string
  gr_SourceGroups :: "string list"
  gr_TargetGroups :: "string list"
  gr_TargetNodes :: "string list"
  gr_Networks :: "string list"
  gr_Ports :: string
  gr_SSH :: bool
  gr_Gateway :: string

record Rule =
  ru_Action :: string
  ru_Src :: "string list"
  ru_Dst :: "string list"

record SshRule =
  sr_Action :: string
  sr_Src :: "string list"
  sr_Dst :: "string list"

record Document =
  d_Grants :: "Grant list"
  d_GroupBindings :: "(string \<times> string) list"
  d_Groups :: "(string \<times> string list) list"
  d_TagOwners :: "(string \<times> string list) list"
  d_ACLs :: "Rule list"
  d_Ssh :: "SshRule list option"

record Node =
  n_Handle :: string
  n_Inactive :: bool
  n_GroupIDs :: "string list"
  n_User :: string
  n_Tags :: "string list"
  n_Addresses :: "string list"

record PortRange =
  First :: uint16
  Last :: uint16

record Provenance =
  pv_Rule :: nat
  pv_SourceTerm :: string
  pv_DestinationTerm :: string

record FilterRule =
  fr_Srcs :: "string list"
  fr_DstCidrs :: "string list"
  fr_Ports :: "PortRange list"
  fr_Provenance :: Provenance

record Filter =
  fl_Node :: string
  fl_Rules :: "FilterRule list"

record EgressRule =
  er_Dsts :: "string list"
  er_DstCidrs :: "string list"
  er_Ports :: "PortRange list"
  er_Provenance :: Provenance

record EgressFilter =
  ef_Node :: string
  ef_Rules :: "EgressRule list"

datatype port_error = EmptyPort | BadPort string | InvertedRange string

datatype dst_error = NoPortSpec string | EmptySelector string | DstPorts string port_error | PortNotAllowed string

datatype policy_error =
    GroupName string
  | TagName string
  | TagWithoutOwners string
  | AclAction nat string
  | AclEmpty nat
  | AclDst nat dst_error
  | AclUndefined nat string
  | SshAction nat string
  | SshEmpty nat
  | SshDst nat dst_error
  | SshUndefined nat string
  | BadBinding
  | UnknownBinding
  | GrantIdName
  | GatewayGrant
  | GrantIncomplete
  | BadGroupID
  | BadTargetNode
  | BadNetwork
  | GrantPorts port_error
  | GrantSshNetworks

section \<open>Ports and destinations\<close>

definition AllPorts :: PortRange where "AllPorts = \<lparr>First = 0, Last = 65535\<rparr>"

definition parsePort :: "string \<Rightarrow> port_error + PortRange" where
  "parsePort part =
     (let part = trimSpace part
      in if part = [] then Inl EmptyPort
         else let (lo, hi) = (case cut (CHR ''-'') part of Some (lo, hi) \<Rightarrow> (lo, Some hi) | None \<Rightarrow> (part, None))
         in case parseUint 16 lo of None \<Rightarrow> Inl (BadPort lo)
            | Some first \<Rightarrow>
           (case hi of None \<Rightarrow> Inr \<lparr>First = word_of_nat first, Last = word_of_nat first\<rparr>
            | Some hi \<Rightarrow>
           (case parseUint 16 hi of None \<Rightarrow> Inl (BadPort hi)
            | Some lst \<Rightarrow>
              if lst < first then Inl (InvertedRange part)
              else Inr \<lparr>First = word_of_nat first, Last = word_of_nat lst\<rparr>)))"

definition parsePorts :: "string \<Rightarrow> port_error + PortRange list" where
  "parsePorts spec = (if spec = Wildcard then Inr [AllPorts] else emap parsePort (split_on (CHR '','') spec))"

definition looksLikePortSpec :: "string \<Rightarrow> bool" where
  "looksLikePortSpec s =
     (if s = Wildcard then True else if s = [] then False
      else list_all (\<lambda>r. digit r \<or> r = CHR '','' \<or> r = CHR ''-'' \<or> r = CHR '' '') s)"

definition validateSshDst :: "string \<Rightarrow> dst_error + unit" where
  "validateSshDst dst =
     (case cut_last (CHR '':'') dst of
        Some (_, rest) \<Rightarrow> if looksLikePortSpec rest then Inl (PortNotAllowed dst) else Inr ()
      | None \<Rightarrow> Inr ())"

definition splitDst :: "string \<Rightarrow> dst_error + (string \<times> PortRange list)" where
  "splitDst dst =
     (case cut_last (CHR '':'') dst of
        None \<Rightarrow> Inl (NoPortSpec dst)
      | Some (selector, portSpec) \<Rightarrow>
        if selector = [] then Inl (EmptySelector dst)
        else if \<not> looksLikePortSpec portSpec then Inl (NoPortSpec dst)
        else case parsePorts portSpec of Inl e \<Rightarrow> Inl (DstPorts dst e) | Inr ports \<Rightarrow> Inr (selector, ports))"

section \<open>Grants\<close>

definition UsesRegistryGroups :: "Document \<Rightarrow> bool" where
  "UsesRegistryGroups d \<longleftrightarrow> length (d_Grants d) \<noteq> 0 \<or> length (d_GroupBindings d) \<noteq> 0"

definition RegistryGroupIDs :: "Document \<Rightarrow> string list" where
  "RegistryGroupIDs d = map snd (d_GroupBindings d) @ concat (map (\<lambda>g. gr_SourceGroups g @ gr_TargetGroups g) (d_Grants d))"

definition check_each :: "('a \<Rightarrow> 'e + unit) \<Rightarrow> 'a list \<Rightarrow> 'e + unit" where
  "check_each f xs = eforeach (\<lambda>_ x. f x) () xs"

definition badChars :: string where "badChars = '':*'' @ [chr 10, chr 13]"

definition validateGrant :: "string list \<Rightarrow> Grant \<Rightarrow> policy_error + string list" where
  "validateGrant ids g =
     (if gr_ID g = [] \<or> gr_ID g \<in> set ids \<or> trimSpace (gr_Name g) = [] then Inl GrantIdName
      else if gr_Gateway g \<noteq> [] \<and> (length (gr_Networks g) = 0 \<or> length (gr_TargetNodes g) + length (gr_TargetGroups g) \<noteq> 0
                \<or> gr_SSH g \<or> containsAny (gr_Gateway g) badChars) then Inl GatewayGrant
      else if length (gr_SourceGroups g) = 0
                \<or> length (gr_TargetGroups g) + length (gr_TargetNodes g) + length (gr_Networks g) = 0 then Inl GrantIncomplete
      else
        ebind (check_each (\<lambda>i. require (trimSpace i \<noteq> [] \<and> \<not> containsAny i badChars) BadGroupID)
                 (gr_SourceGroups g @ gr_TargetGroups g)) (\<lambda>_.
        ebind (check_each (\<lambda>n. require (n \<noteq> [] \<and> \<not> containsAny n badChars) BadTargetNode) (gr_TargetNodes g)) (\<lambda>_.
        ebind (check_each (\<lambda>n. require (ParsePrefix n \<noteq> None) BadNetwork) (gr_Networks g)) (\<lambda>_.
        case parsePorts (gr_Ports g) of
          Inl e \<Rightarrow> Inl (GrantPorts e)
        | Inr _ \<Rightarrow> if gr_SSH g \<and> length (gr_Networks g) > 0 then Inl GrantSshNetworks else Inr (gr_ID g # ids)))))"

definition validateGrants :: "Document \<Rightarrow> policy_error + unit" where
  "validateGrants d =
     ebind (check_each (\<lambda>(name, i).
         if \<not> hasPrefix name ''group:'' \<or> i = [] then Inl BadBinding
         else if map_of (d_Groups d) name = None then Inl UnknownBinding else Inr ()) (d_GroupBindings d)) (\<lambda>_.
     ebind (eforeach validateGrant [] (d_Grants d)) (\<lambda>_. Inr ()))"

definition network_string :: "string \<Rightarrow> string" where
  "network_string network = prefix_string (map_option Masked (ParsePrefix network))"

definition grant_rule :: "Grant \<Rightarrow> Rule" where
  "grant_rule g =
     \<lparr>ru_Action = ''accept'', ru_Src = map (\<lambda>i. ''group-id:'' @ i) (gr_SourceGroups g),
      ru_Dst = map (\<lambda>i. ''group-id:'' @ i @ '':'' @ gr_Ports g) (gr_TargetGroups g)
             @ map (\<lambda>i. i @ '':'' @ gr_Ports g) (gr_TargetNodes g)
             @ map (\<lambda>network. network_string network @ '':'' @ gr_Ports g) (gr_Networks g)\<rparr>"

definition packetRules :: "Document \<Rightarrow> Rule list" where
  "packetRules d = d_ACLs d @ map grant_rule (d_Grants d)"

definition hasSSHGrants :: "Document \<Rightarrow> bool" where
  "hasSSHGrants d = list_ex gr_SSH (d_Grants d)"

definition grant_ssh :: "Grant \<Rightarrow> SshRule" where
  "grant_ssh g =
     \<lparr>sr_Action = ''accept'', sr_Src = map (\<lambda>i. ''group-id:'' @ i) (gr_SourceGroups g),
      sr_Dst = map (\<lambda>i. ''group-id:'' @ i) (gr_TargetGroups g) @ gr_TargetNodes g\<rparr>"

definition sshRules :: "Document \<Rightarrow> SshRule list" where
  "sshRules d = (case d_Ssh d of Some rs \<Rightarrow> rs | None \<Rightarrow> []) @ map grant_ssh (filter gr_SSH (d_Grants d))"

section \<open>Validation\<close>

definition undefined_group :: "Document \<Rightarrow> string \<Rightarrow> bool" where
  "undefined_group d src \<longleftrightarrow> hasPrefix src ''group:'' \<and> map_of (d_Groups d) src = None"

definition validateAcl :: "Document \<Rightarrow> nat \<times> Rule \<Rightarrow> policy_error + unit" where
  "validateAcl d = (\<lambda>(i, r).
     if ru_Action r \<noteq> ''accept'' then Inl (AclAction i (ru_Action r))
     else if length (ru_Src r) = 0 \<or> length (ru_Dst r) = 0 then Inl (AclEmpty i)
     else ebind (check_each (\<lambda>dst. case splitDst dst of Inl e \<Rightarrow> Inl (AclDst i e) | Inr _ \<Rightarrow> Inr ()) (ru_Dst r)) (\<lambda>_.
          check_each (\<lambda>src. if undefined_group d src then Inl (AclUndefined i src) else Inr ()) (ru_Src r)))"

definition validateSsh :: "Document \<Rightarrow> nat \<times> SshRule \<Rightarrow> policy_error + unit" where
  "validateSsh d = (\<lambda>(i, r).
     if sr_Action r \<noteq> ''accept'' then Inl (SshAction i (sr_Action r))
     else if length (sr_Src r) = 0 \<or> length (sr_Dst r) = 0 then Inl (SshEmpty i)
     else ebind (check_each (\<lambda>dst. case validateSshDst dst of Inl e \<Rightarrow> Inl (SshDst i e) | Inr _ \<Rightarrow> Inr ()) (sr_Dst r)) (\<lambda>_.
          check_each (\<lambda>src. if undefined_group d src then Inl (SshUndefined i src) else Inr ()) (sr_Src r)))"

definition Validate :: "Document \<Rightarrow> policy_error + unit" where
  "Validate d =
     ebind (validateGrants d) (\<lambda>_.
     ebind (check_each (\<lambda>(name, _). require (hasPrefix name ''group:'') (GroupName name)) (d_Groups d)) (\<lambda>_.
     ebind (check_each (\<lambda>(name, owners).
         if \<not> hasPrefix name ''tag:'' then Inl (TagName name)
         else if length owners = 0 then Inl (TagWithoutOwners name) else Inr ()) (d_TagOwners d)) (\<lambda>_.
     ebind (check_each (validateAcl d) (enumerate 0 (packetRules d))) (\<lambda>_.
     check_each (validateSsh d) (enumerate 0 (sshRules d))))))"

section \<open>Selectors\<close>

definition matches :: "Document \<Rightarrow> string \<Rightarrow> Node \<Rightarrow> bool" where
  "matches d selector n =
     (if n_Inactive n then False
      else if selector = Wildcard then True
      else if hasPrefix selector ''tag:'' then selector \<in> set (n_Tags n)
      else if hasPrefix selector ''group-id:'' then trimPrefix selector ''group-id:'' \<in> set (n_GroupIDs n)
      else if hasPrefix selector ''group:'' then
        (case map_of (d_GroupBindings d) selector of
           Some i \<Rightarrow> i \<in> set (n_GroupIDs n)
         | None \<Rightarrow>
           if n_User n = [] then False
           else (case map_of (d_Groups d) selector of Some members \<Rightarrow> n_User n \<in> set members | None \<Rightarrow> False))
      else selector = n_User n \<or> selector = n_Handle n)"

fun resolveLoop :: "Document \<Rightarrow> Node list \<Rightarrow> string list \<Rightarrow> string list \<Rightarrow> string list" where
  "resolveLoop d all out [] = sort out"
| "resolveLoop d all out (sel # sels) =
     (if sel = Wildcard then [Wildcard]
      else resolveLoop d all (foldl (\<lambda>out n. if \<not> matches d sel n \<or> n_Handle n \<in> set out then out
             else out @ [n_Handle n]) out all) sels)"

definition resolveSources :: "Document \<Rightarrow> string list \<Rightarrow> Node list \<Rightarrow> string list" where
  "resolveSources d selectors all = resolveLoop d all [] selectors"

fun matchingSource :: "Document \<Rightarrow> string list \<Rightarrow> Node \<Rightarrow> string" where
  "matchingSource d [] n = []"
| "matchingSource d (s # ss) n = (if matches d s n then s else matchingSource d ss n)"

definition parseCIDRSelector :: "string \<Rightarrow> string option" where
  "parseCIDRSelector selector =
     (if CHR ''/'' \<notin> set selector then None
      else map_option (\<lambda>p. prefix_string (Some (Masked p))) (ParsePrefix selector))"

section \<open>Normal form\<close>

text \<open>Ports are ordered by both ends. Rules are ordered by their joined sources, their joined networks
  and their first port; the order of rules that agree in all three is not specified by the sort the
  code uses, and is here the order of emission.\<close>

definition sort_ports :: "PortRange list \<Rightarrow> PortRange list" where
  "sort_ports = sort_key (\<lambda>p. (First p, Last p))"

definition first_port :: "PortRange list \<Rightarrow> uint16" where
  "first_port ports = (case ports of p # _ \<Rightarrow> First p | [] \<Rightarrow> 0)"

definition normalize :: "FilterRule list \<Rightarrow> FilterRule list" where
  "normalize rules =
     sort_key (\<lambda>r. (join '','' (fr_Srcs r), join '','' (fr_DstCidrs r), first_port (fr_Ports r)))
       (map (\<lambda>r. r\<lparr>fr_Ports := sort_ports (fr_Ports r)\<rparr>) rules)"

definition normalizeEgress :: "EgressRule list \<Rightarrow> EgressRule list" where
  "normalizeEgress rules =
     sort_key (\<lambda>r. (join '','' (er_Dsts r) @ [chr 0] @ join '','' (er_DstCidrs r), first_port (er_Ports r)))
       (map (\<lambda>r. r\<lparr>er_Ports := sort_ports (er_Ports r)\<rparr>) rules)"

section \<open>Compilation\<close>

definition no_provenance :: Provenance where
  "no_provenance = \<lparr>pv_Rule = 0, pv_SourceTerm = [], pv_DestinationTerm = []\<rparr>"

definition compile_dst :: "Document \<Rightarrow> Node \<Rightarrow> Node list \<Rightarrow> nat \<Rightarrow> Rule \<Rightarrow> string \<Rightarrow> policy_error + FilterRule list" where
  "compile_dst d target all i rule dst =
     (case splitDst dst of
        Inl e \<Rightarrow> Inl (AclDst i e)
      | Inr (selector, ports) \<Rightarrow>
        if \<not> matches d selector target then Inr []
        else let srcs = resolveSources d (ru_Src rule) all
             in if length srcs = 0 then Inr []
                else Inr [\<lparr>fr_Srcs = srcs, fr_DstCidrs = [], fr_Ports = ports,
                   fr_Provenance = \<lparr>pv_Rule = i + 1, pv_SourceTerm = join '','' (ru_Src rule), pv_DestinationTerm = selector\<rparr>\<rparr>])"

definition compile_grant :: "Document \<Rightarrow> Node \<Rightarrow> Node list \<Rightarrow> Grant \<Rightarrow> policy_error + FilterRule list" where
  "compile_grant d target all g =
     (if n_Inactive target \<or> gr_Gateway g \<noteq> n_Handle target \<or> gr_Gateway g = [] then Inr []
      else let srcs = resolveSources d (map (\<lambda>i. ''group-id:'' @ i) (gr_SourceGroups g)) all
           in if length srcs = 0 then Inr []
              else case parsePorts (gr_Ports g) of Inl e \<Rightarrow> Inl (GrantPorts e)
                | Inr ports \<Rightarrow>
                  ebind (emap (\<lambda>network. case ParsePrefix network of None \<Rightarrow> Inl BadNetwork
                      | Some p \<Rightarrow> Inr (prefix_string (Some (Masked p)))) (gr_Networks g)) (\<lambda>prefixes.
                  Inr [\<lparr>fr_Srcs = srcs, fr_DstCidrs = sort prefixes, fr_Ports = ports, fr_Provenance = no_provenance\<rparr>]))"

definition Compile :: "Document \<Rightarrow> Node \<Rightarrow> Node list \<Rightarrow> policy_error + Filter" where
  "Compile d target all =
     ebind (emap (\<lambda>(i, rule). ebind (emap (compile_dst d target all i rule) (ru_Dst rule)) (\<lambda>rs. Inr (concat rs)))
        (enumerate 0 (packetRules d))) (\<lambda>acls.
     ebind (emap (compile_grant d target all) (d_Grants d)) (\<lambda>grants.
     Inr \<lparr>fl_Node = n_Handle target, fl_Rules = normalize (concat acls @ concat grants)\<rparr>))"

definition compile_ssh :: "Document \<Rightarrow> Node \<Rightarrow> Node list \<Rightarrow> nat \<Rightarrow> SshRule \<Rightarrow> string \<Rightarrow> FilterRule list" where
  "compile_ssh d target all i rule dst =
     (if \<not> matches d dst target then []
      else let srcs = resolveSources d (sr_Src rule) all
           in if length srcs = 0 then []
              else [\<lparr>fr_Srcs = srcs, fr_DstCidrs = [], fr_Ports = [\<lparr>First = 22, Last = 22\<rparr>],
                 fr_Provenance = \<lparr>pv_Rule = i + 1, pv_SourceTerm = join '','' (sr_Src rule), pv_DestinationTerm = dst\<rparr>\<rparr>])"

text \<open>No gate at all is \<^verbatim>\<open>None\<close>.\<close>

definition CompileSSH :: "Document \<Rightarrow> Node \<Rightarrow> Node list \<Rightarrow> Filter option" where
  "CompileSSH d target all =
     (if d_Ssh d = None \<and> \<not> hasSSHGrants d then None
      else Some \<lparr>fl_Node = n_Handle target, fl_Rules = normalize (concat (map (\<lambda>(i, rule).
             concat (map (compile_ssh d target all i rule) (sr_Dst rule))) (enumerate 0 (sshRules d))))\<rparr>)"

definition compile_egress_dst :: "Document \<Rightarrow> Node list \<Rightarrow> nat \<Rightarrow> string \<Rightarrow> string \<Rightarrow> policy_error + EgressRule list" where
  "compile_egress_dst d all i sourceTerm dst =
     (case splitDst dst of
        Inl e \<Rightarrow> Inl (AclDst i e)
      | Inr (selector, ports) \<Rightarrow>
        let prov = \<lparr>pv_Rule = i + 1, pv_SourceTerm = sourceTerm, pv_DestinationTerm = selector\<rparr>
        in case parseCIDRSelector selector of
             Some cidr \<Rightarrow> Inr [\<lparr>er_Dsts = [], er_DstCidrs = [cidr], er_Ports = ports, er_Provenance = prov\<rparr>]
           | None \<Rightarrow>
             (let dsts = resolveSources d [selector] all
              in if length dsts = 0 then Inr []
                 else Inr [\<lparr>er_Dsts = dsts, er_DstCidrs = [], er_Ports = ports, er_Provenance = prov\<rparr>]))"

definition compile_egress_rule :: "Document \<Rightarrow> Node \<Rightarrow> Node list \<Rightarrow> nat \<times> Rule \<Rightarrow> policy_error + EgressRule list" where
  "compile_egress_rule d target all = (\<lambda>(i, rule).
     let sourceTerm = matchingSource d (ru_Src rule) target
     in if sourceTerm = [] then Inr []
        else ebind (emap (compile_egress_dst d all i sourceTerm) (ru_Dst rule)) (\<lambda>rs. Inr (concat rs)))"

definition CompileEgress :: "Document \<Rightarrow> Node \<Rightarrow> Node list \<Rightarrow> policy_error + EgressFilter" where
  "CompileEgress d target all =
     ebind (emap (compile_egress_rule d target all) (enumerate 0 (packetRules d))) (\<lambda>rs.
     Inr \<lparr>ef_Node = n_Handle target, ef_Rules = normalizeEgress (concat rs)\<rparr>)"

section \<open>Evaluation\<close>

definition in_ports :: "uint16 \<Rightarrow> PortRange list \<Rightarrow> bool" where
  "in_ports port ports = list_ex (\<lambda>p. port \<ge> First p \<and> port \<le> Last p) ports"

definition in_cidrs :: "Addr \<Rightarrow> string list \<Rightarrow> bool" where
  "in_cidrs a cidrs = list_ex (\<lambda>cidr. case ParsePrefix cidr of Some p \<Rightarrow> Contains p a | None \<Rightarrow> False) cidrs"

text \<open>The forwarded destination; \<^verbatim>\<open>None\<close> is local delivery.\<close>

definition permits :: "Filter \<Rightarrow> string \<Rightarrow> uint16 \<Rightarrow> Addr option \<Rightarrow> bool \<Rightarrow> bool" where
  "permits f src port destination forwarded =
     list_ex (\<lambda>r.
       (length (fr_DstCidrs r) \<noteq> 0 \<longrightarrow>
          forwarded \<and> (case destination of Some a \<Rightarrow> in_cidrs a (fr_DstCidrs r) | None \<Rightarrow> False))
       \<and> list_ex (\<lambda>s. s = Wildcard \<or> s = src) (fr_Srcs r) \<and> in_ports port (fr_Ports r)) (fl_Rules f)"

definition Permits :: "Filter \<Rightarrow> string \<Rightarrow> uint16 \<Rightarrow> bool" where
  "Permits f src port = permits f src port None False"

definition PermitsForward :: "Filter \<Rightarrow> string \<Rightarrow> Addr option \<Rightarrow> uint16 \<Rightarrow> bool" where
  "PermitsForward f src destination port = permits f src port destination True"

definition EgressPermits :: "EgressFilter \<Rightarrow> string \<Rightarrow> uint16 \<Rightarrow> bool" where
  "EgressPermits f dst port =
     list_ex (\<lambda>r. (list_ex (\<lambda>s. s = Wildcard \<or> s = dst) (er_Dsts r)
         \<or> (case ParseAddr dst of Some a \<Rightarrow> in_cidrs a (er_DstCidrs r) | None \<Rightarrow> False))
       \<and> in_ports port (er_Ports r)) (ef_Rules f)"

text \<open>The editor position of a syntax error at a one-based byte offset.\<close>

definition ErrorLocation :: "bytes \<Rightarrow> int option \<Rightarrow> int \<times> int" where
  "ErrorLocation data syntax =
     (case syntax of None \<Rightarrow> (1, 1)
      | Some offset \<Rightarrow>
        if offset \<le> 0 then (1, 1)
        else foldl (\<lambda>(line, column) b. if b = chr 10 then (line + 1, 1) else (line, column + 1)) (1, 1)
               (take (nat (min (offset - 1) (int (length data)))) data))"

end
