(* ===== verification/Policy_Trust.thy ===== *)
theory Policy_Trust
  imports Policy
begin

text \<open>What the compiled filters mean. The policy is read as a relation between source handles,
  destinations and ports; the ingress filter of a node decides exactly that relation, the egress
  filter decides it from the other side, and a document that passed validation always compiles.\<close>

section \<open>Checks\<close>

lemma check_each_Inr: "check_each f xs = Inr () \<longleftrightarrow> (\<forall>x\<in>set xs. f x = Inr ())"
  unfolding check_each_def
proof (induction xs)
  case (Cons x xs)
  then show ?case by (cases "f x") auto
qed simp

lemma eforeach_reads:
  assumes "eforeach f s xs = Inr t" and "x \<in> set xs"
  shows "\<exists>u v. f u x = Inr v"
  using assms
proof (induction xs arbitrary: s)
  case (Cons y ys)
  then show ?case by (cases "f s y") auto
qed simp

lemma emap_all: "\<forall>x\<in>set xs. \<exists>y. f x = Inr y \<Longrightarrow> \<exists>ys. emap f xs = Inr ys"
proof (induction xs)
  case (Cons x xs)
  then obtain y ys where "f x = Inr y" "emap f xs = Inr ys" by fastforce
  then show ?case by simp
qed simp

lemma emap_nested_all:
  assumes "\<forall>x\<in>set xs. \<forall>z\<in>set (g x). \<exists>y. f x z = Inr y"
  shows "\<exists>yss. emap (\<lambda>x. ebind (emap (f x) (g x)) (\<lambda>rs. Inr (concat rs))) xs = Inr yss"
proof (rule emap_all, rule ballI)
  fix x assume "x \<in> set xs"
  with assms have "\<forall>z\<in>set (g x). \<exists>y. f x z = Inr y" by blast
  from emap_all [OF this] obtain rs where "emap (f x) (g x) = Inr rs" by blast
  then show "\<exists>y. ebind (emap (f x) (g x)) (\<lambda>rs. Inr (concat rs)) = Inr y" by simp
qed

lemma emap_set: "emap f xs = Inr ys \<Longrightarrow> y \<in> set ys \<longleftrightarrow> (\<exists>x\<in>set xs. f x = Inr y)"
proof (induction xs arbitrary: ys)
  case (Cons x xs)
  then show ?case by (auto simp: ebind_eq_Inr)
qed auto

lemma emap_reads: "emap f xs = Inr ys \<Longrightarrow> x \<in> set xs \<Longrightarrow> \<exists>y. f x = Inr y"
proof (induction xs arbitrary: ys)
  case (Cons z zs)
  then show ?case by (auto simp: ebind_eq_Inr)
qed simp

lemma emap_concat_ex:
  assumes "emap f xs = Inr yss"
  shows "list_ex P (concat yss) \<longleftrightarrow> (\<exists>x\<in>set xs. \<exists>ys. f x = Inr ys \<and> list_ex P ys)"
proof -
  have "list_ex P (concat yss) \<longleftrightarrow> (\<exists>ys\<in>set yss. list_ex P ys)" by (auto simp: list_ex_iff)
  then show ?thesis using emap_set [OF assms] by blast
qed

text \<open>Two nested loops that append what their body returns.\<close>

lemma emap_nested_ex:
  assumes "emap (\<lambda>x. ebind (emap (f x) (g x)) (\<lambda>rs. Inr (concat rs))) xs = Inr yss"
  shows "list_ex P (concat yss) \<longleftrightarrow> (\<exists>x\<in>set xs. \<exists>z\<in>set (g x). \<exists>ys. f x z = Inr ys \<and> list_ex P ys)"
proof -
  have "(\<exists>ys. ebind (emap (f x) (g x)) (\<lambda>rs. Inr (concat rs)) = Inr ys \<and> list_ex P ys)
      \<longleftrightarrow> (\<exists>z\<in>set (g x). \<exists>ys. f x z = Inr ys \<and> list_ex P ys)" if "x \<in> set xs" for x
  proof -
    from emap_reads [OF assms that] obtain rs where rs: "emap (f x) (g x) = Inr rs" by (auto simp: ebind_eq_Inr)
    show ?thesis unfolding rs using emap_concat_ex [OF rs, of P] by simp
  qed
  then show ?thesis unfolding emap_concat_ex [OF assms] by blast
qed

lemma enumerate_obtain:
  assumes "x \<in> set xs"
  obtains i where "(i, x) \<in> set (enumerate 0 xs)"
proof -
  from assms obtain i where "i < length xs" "x = xs ! i" by (auto simp: in_set_conv_nth)
  then have "(i, x) \<in> set (enumerate 0 xs)" by (simp add: in_set_enumerate_eq)
  then show thesis by (rule that)
qed

lemma enumerate_snd: "p \<in> set (enumerate n xs) \<Longrightarrow> snd p \<in> set xs"
proof -
  assume "p \<in> set (enumerate n xs)"
  then have "fst p - n < length xs" "xs ! (fst p - n) = snd p" by (auto simp: in_set_enumerate_eq)
  then show ?thesis by (metis nth_mem)
qed

section \<open>Ports\<close>

lemma word16_le: "a < 2 ^ 16 \<Longrightarrow> b < 2 ^ 16 \<Longrightarrow> (word_of_nat a :: uint16) \<le> word_of_nat b \<longleftrightarrow> a \<le> b"
  by (simp add: word_le_nat_alt unat_of_nat)

lemma parsePort_Inr: "parsePort part = Inr p \<Longrightarrow> First p \<le> Last p"
  by (auto simp: parsePort_def Let_def word16_le split: if_splits option.splits prod.splits dest!: parseUint_less)

lemma parsePorts_Inr:
  assumes "parsePorts spec = Inr ports"
  shows "ports \<noteq> []" and "p \<in> set ports \<Longrightarrow> First p \<le> Last p"
proof -
  show "ports \<noteq> []"
    using assms split_on_not_Nil [of "CHR '',''" spec]
    by (auto simp: parsePorts_def emap_eq_Inr split: if_splits dest: list_all2_lengthD)
  show "First p \<le> Last p" if "p \<in> set ports"
    using assms that by (auto simp: parsePorts_def AllPorts_def emap_set parsePort_Inr split: if_splits)
qed

lemma splitDst_Inr:
  "splitDst dst = Inr (sel, ports) \<longleftrightarrow> (\<exists>spec. dst = sel @ CHR '':'' # spec \<and> CHR '':'' \<notin> set spec \<and> sel \<noteq> []
     \<and> looksLikePortSpec spec \<and> parsePorts spec = Inr ports)"
proof -
  have "splitDst dst = Inr (sel, ports) \<longleftrightarrow> (\<exists>spec. cut_last (CHR '':'') dst = Some (sel, spec) \<and> sel \<noteq> []
     \<and> looksLikePortSpec spec \<and> parsePorts spec = Inr ports)"
    by (auto simp: splitDst_def split: option.splits if_splits sum.splits)
  then show ?thesis by (simp add: cut_last_Some conj_assoc)
qed

section \<open>Selectors\<close>

lemma dedup_set:
  "set (foldl (\<lambda>out n. if P n \<longrightarrow> f n \<in> set out then out else out @ [f n]) out ns) = set out \<union> f ` {n \<in> set ns. P n}"
  by (induction ns arbitrary: out) auto

lemma resolveLoop_set:
  "set (resolveLoop d all out sels) =
     (if Wildcard \<in> set sels then {Wildcard} else set out \<union> {n_Handle n | n s. n \<in> set all \<and> s \<in> set sels \<and> matches d s n})"
  by (induction sels arbitrary: out) (auto simp: dedup_set)

lemma resolveSources_set:
  "set (resolveSources d sels all) =
     (if Wildcard \<in> set sels then {Wildcard} else {n_Handle n | n s. n \<in> set all \<and> s \<in> set sels \<and> matches d s n})"
  by (simp add: resolveSources_def resolveLoop_set)

text \<open>The handles a list of selectors names: all of them, or those of the nodes one of them matches.\<close>

definition selects :: "Document \<Rightarrow> Node list \<Rightarrow> string list \<Rightarrow> string \<Rightarrow> bool" where
  "selects d all sels h \<longleftrightarrow> Wildcard \<in> set sels \<or> (\<exists>n\<in>set all. \<exists>s\<in>set sels. matches d s n \<and> n_Handle n = h)"

lemma resolveSources_selects:
  assumes "\<forall>n\<in>set all. n_Handle n \<noteq> Wildcard"
  shows "list_ex (\<lambda>s. s = Wildcard \<or> s = h) (resolveSources d sels all) \<longleftrightarrow> selects d all sels h"
  using assms by (auto simp: list_ex_iff resolveSources_set selects_def)

lemma matchingSource_matches: "matchingSource d ss n \<noteq> [] \<Longrightarrow> matchingSource d ss n \<in> set ss \<and> matches d (matchingSource d ss n) n"
  by (induction ss) (auto split: if_splits)

lemma matchingSource_Nil: "[] \<notin> set ss \<Longrightarrow> matchingSource d ss n = [] \<longleftrightarrow> \<not> (\<exists>s\<in>set ss. matches d s n)"
  by (induction ss) auto

section \<open>Normal forms\<close>

lemma in_ports_sort [simp]: "in_ports port (sort_ports ps) = in_ports port ps"
  by (simp add: in_ports_def sort_ports_def list_ex_iff)

lemma normalize_ex:
  assumes "\<And>r. P (r\<lparr>fr_Ports := sort_ports (fr_Ports r)\<rparr>) = P r"
  shows "list_ex P (normalize rules) \<longleftrightarrow> (\<exists>r\<in>set rules. P r)"
  using assms by (simp add: normalize_def list_ex_iff)

lemma normalizeEgress_ex:
  assumes "\<And>r. P (r\<lparr>er_Ports := sort_ports (er_Ports r)\<rparr>) = P r"
  shows "list_ex P (normalizeEgress rules) \<longleftrightarrow> (\<exists>r\<in>set rules. P r)"
  using assms by (simp add: normalizeEgress_def list_ex_iff)

section \<open>Validated documents\<close>

lemma validateGrant_Inr:
  assumes "validateGrant ids g = Inr ids'"
  shows "gr_Gateway g \<noteq> [] \<Longrightarrow> gr_Networks g \<noteq> [] \<and> gr_TargetNodes g = [] \<and> gr_TargetGroups g = [] \<and> \<not> gr_SSH g"
    and "network \<in> set (gr_Networks g) \<Longrightarrow> ParsePrefix network \<noteq> None"
    and "\<exists>ports. parsePorts (gr_Ports g) = Inr ports"
    and "gr_SSH g \<Longrightarrow> gr_Networks g = []"
  using assms
  by (auto simp: validateGrant_def ebind_eq_Inr check_each_Inr require_eq_Inr split: if_splits sum.splits)

lemma Validate_grant:
  assumes "Validate d = Inr ()" and "g \<in> set (d_Grants d)"
  obtains ids ids' where "validateGrant ids g = Inr ids'"
proof -
  from assms(1) obtain t where "eforeach validateGrant [] (d_Grants d) = Inr t"
    by (auto simp: Validate_def validateGrants_def ebind_eq_Inr)
  from eforeach_reads [OF this assms(2)] that show thesis by blast
qed

lemma Validate_rule:
  assumes "Validate d = Inr ()" and "r \<in> set (packetRules d)"
  shows "ru_Src r \<noteq> []" and "ru_Dst r \<noteq> []" and "dst \<in> set (ru_Dst r) \<Longrightarrow> \<exists>sel ports. splitDst dst = Inr (sel, ports)"
    and "src \<in> set (ru_Src r) \<Longrightarrow> \<not> undefined_group d src"
proof -
  from assms(2) obtain i where "(i, r) \<in> set (enumerate 0 (packetRules d))" by (rule enumerate_obtain)
  moreover have "check_each (validateAcl d) (enumerate 0 (packetRules d)) = Inr ()"
    using assms(1) by (auto simp: Validate_def ebind_eq_Inr)
  ultimately have v: "validateAcl d (i, r) = Inr ()" by (simp add: check_each_Inr)
  then show "ru_Src r \<noteq> []" "ru_Dst r \<noteq> []" by (auto simp: validateAcl_def split: if_splits)
  from v have dsts: "\<forall>dst\<in>set (ru_Dst r). (case splitDst dst of Inl e \<Rightarrow> Inl (AclDst i e) | Inr _ \<Rightarrow> Inr ()) = Inr ()"
    and srcs: "\<forall>src\<in>set (ru_Src r). \<not> undefined_group d src"
    by (auto simp: validateAcl_def ebind_eq_Inr check_each_Inr split: if_splits)
  show "\<not> undefined_group d src" if "src \<in> set (ru_Src r)" using srcs that by blast
  show "\<exists>sel ports. splitDst dst = Inr (sel, ports)" if "dst \<in> set (ru_Dst r)"
    using dsts that by (cases "splitDst dst") auto
qed

section \<open>The ingress filter\<close>

text \<open>Who may reach a node on a port, read off the document.\<close>

definition grants_flow :: "Document \<Rightarrow> Node list \<Rightarrow> string \<Rightarrow> Node \<Rightarrow> uint16 \<Rightarrow> bool" where
  "grants_flow d all src target port \<longleftrightarrow>
     (\<exists>r\<in>set (packetRules d). \<exists>dst\<in>set (ru_Dst r). \<exists>sel ports. splitDst dst = Inr (sel, ports)
        \<and> matches d sel target \<and> selects d all (ru_Src r) src \<and> in_ports port ports)"

lemma Compile_ex:
  assumes "Compile d target all = Inr f" and "\<And>r. P (r\<lparr>fr_Ports := sort_ports (fr_Ports r)\<rparr>) = P r"
  shows "list_ex P (fl_Rules f) \<longleftrightarrow>
     (\<exists>(i, rule)\<in>set (enumerate 0 (packetRules d)). \<exists>dst\<in>set (ru_Dst rule). \<exists>rs. compile_dst d target all i rule dst = Inr rs \<and> list_ex P rs)
     \<or> (\<exists>g\<in>set (d_Grants d). \<exists>rs. compile_grant d target all g = Inr rs \<and> list_ex P rs)"
proof -
  from assms(1) obtain acls grants where
    a: "emap (\<lambda>p. ebind (emap (compile_dst d target all (fst p) (snd p)) (ru_Dst (snd p))) (\<lambda>rs. Inr (concat rs)))
      (enumerate 0 (packetRules d)) = Inr acls"
    and g: "emap (compile_grant d target all) (d_Grants d) = Inr grants"
    and f: "fl_Rules f = normalize (concat acls @ concat grants)"
    by (auto simp: Compile_def ebind_eq_Inr case_prod_beta')
  have "list_ex P (fl_Rules f) \<longleftrightarrow> list_ex P (concat acls) \<or> list_ex P (concat grants)"
    unfolding f normalize_ex [of P, OF assms(2)] by (auto simp: list_ex_iff)
  then show ?thesis unfolding emap_nested_ex [OF a] emap_concat_ex [OF g] by (simp add: case_prod_beta')
qed

lemma ex_enumerate: "(\<exists>(i, x)\<in>set (enumerate 0 xs). P x) \<longleftrightarrow> (\<exists>x\<in>set xs. P x)"
proof
  assume "\<exists>x\<in>set xs. P x"
  then obtain x where x: "x \<in> set xs" "P x" by blast
  from x(1) obtain i where "(i, x) \<in> set (enumerate 0 xs)" by (rule enumerate_obtain)
  with x(2) show "\<exists>(i, x)\<in>set (enumerate 0 xs). P x" by blast
qed (fastforce dest: enumerate_snd)

lemma compile_dst_ex:
  "(\<exists>rs. compile_dst d target all i rule dst = Inr rs \<and> list_ex P rs) \<longleftrightarrow>
     (\<exists>sel ports. splitDst dst = Inr (sel, ports) \<and> matches d sel target \<and> resolveSources d (ru_Src rule) all \<noteq> []
        \<and> P \<lparr>fr_Srcs = resolveSources d (ru_Src rule) all, fr_DstCidrs = [], fr_Ports = ports,
             fr_Provenance = \<lparr>pv_Rule = i + 1, pv_SourceTerm = join '','' (ru_Src rule), pv_DestinationTerm = sel\<rparr>\<rparr>)"
  by (auto simp: compile_dst_def Let_def split: sum.splits prod.splits)

lemma compile_grant_rule:
  assumes "compile_grant d target all g = Inr rs" and "r \<in> set rs"
  obtains ports prefixes where "\<not> n_Inactive target" "gr_Gateway g = n_Handle target" "gr_Gateway g \<noteq> []"
    "parsePorts (gr_Ports g) = Inr ports" "fr_Ports r = ports"
    "fr_Srcs r = resolveSources d (map (\<lambda>i. ''group-id:'' @ i) (gr_SourceGroups g)) all" "fr_Srcs r \<noteq> []"
    "emap (\<lambda>network. case ParsePrefix network of None \<Rightarrow> Inl BadNetwork | Some p \<Rightarrow> Inr (prefix_string (Some (Masked p))))
       (gr_Networks g) = Inr prefixes" "fr_DstCidrs r = sort prefixes"
  using assms by (auto simp: compile_grant_def Let_def ebind_eq_Inr split: if_splits sum.splits)

lemma compile_grant_cidrs:
  assumes "Validate d = Inr ()" and "g \<in> set (d_Grants d)" and "compile_grant d target all g = Inr rs" and "r \<in> set rs"
  shows "fr_DstCidrs r \<noteq> []"
proof -
  obtain ids ids' where v: "validateGrant ids g = Inr ids'" using Validate_grant [OF assms(1,2)] .
  from assms(3,4) show ?thesis
  proof (rule compile_grant_rule)
    fix prefixes :: "string list"
    assume "gr_Gateway g \<noteq> []" and e: "emap (\<lambda>network. case ParsePrefix network of None \<Rightarrow> Inl BadNetwork
        | Some p \<Rightarrow> Inr (prefix_string (Some (Masked p)))) (gr_Networks g) = Inr prefixes" and r: "fr_DstCidrs r = sort prefixes"
    then have "gr_Networks g \<noteq> []" using validateGrant_Inr(1) [OF v] by blast
    then have "prefixes \<noteq> []" using e by (auto simp: emap_eq_Inr)
    then show "fr_DstCidrs r \<noteq> []" by (metis r length_0_conv length_sort)
  qed
qed

lemma Compile_local:
  assumes "Validate d = Inr ()" and "Compile d target all = Inr f" and "\<forall>n\<in>set all. n_Handle n \<noteq> Wildcard"
  shows "Permits f src port \<longleftrightarrow> grants_flow d all src target port"
proof -
  let ?P = "\<lambda>r. fr_DstCidrs r = [] \<and> list_ex (\<lambda>s. s = Wildcard \<or> s = src) (fr_Srcs r) \<and> in_ports port (fr_Ports r)"
  have ne: "resolveSources d sels all \<noteq> []" if "selects d all sels src" for sels
    using resolveSources_selects [OF assms(3), of src d sels] that by auto
  have no_grant: "\<not> (\<exists>g\<in>set (d_Grants d). \<exists>rs. compile_grant d target all g = Inr rs \<and> list_ex ?P rs)"
    using compile_grant_cidrs [OF assms(1)] by (auto simp: list_ex_iff)
  have sel: "resolveSources d sels all \<noteq> [] \<and> list_ex (\<lambda>s. s = Wildcard \<or> s = src) (resolveSources d sels all) \<and> X
      \<longleftrightarrow> selects d all sels src \<and> X" for sels X
    using resolveSources_selects [OF assms(3), of src d sels] ne [of sels] by blast
  have "Permits f src port \<longleftrightarrow> list_ex ?P (fl_Rules f)" by (simp add: Permits_def permits_def conj_assoc)
  also have "\<dots> \<longleftrightarrow> (\<exists>(i, rule)\<in>set (enumerate 0 (packetRules d)). \<exists>dst\<in>set (ru_Dst rule).
      \<exists>rs. compile_dst d target all i rule dst = Inr rs \<and> list_ex ?P rs)"
    using Compile_ex [OF assms(2), of ?P] no_grant by simp
  also have "\<dots> \<longleftrightarrow> (\<exists>(i, rule)\<in>set (enumerate 0 (packetRules d)). \<exists>dst\<in>set (ru_Dst rule).
      \<exists>sel ports. splitDst dst = Inr (sel, ports) \<and> matches d sel target \<and> selects d all (ru_Src rule) src \<and> in_ports port ports)"
    by (simp add: compile_dst_ex sel)
  also have "\<dots> \<longleftrightarrow> grants_flow d all src target port" unfolding ex_enumerate grants_flow_def ..
  finally show ?thesis .
qed

section \<open>The egress filter\<close>

lemma egress_rule_eq:
  "compile_egress_rule d target all = (\<lambda>p. ebind (emap (compile_egress_dst d all (fst p) (matchingSource d (ru_Src (snd p)) target))
     (if matchingSource d (ru_Src (snd p)) target = [] then [] else ru_Dst (snd p))) (\<lambda>rs. Inr (concat rs)))"
  by (auto simp: compile_egress_rule_def Let_def)

lemma CompileEgress_ex:
  assumes "CompileEgress d target all = Inr f" and "\<And>r. P (r\<lparr>er_Ports := sort_ports (er_Ports r)\<rparr>) = P r"
  shows "list_ex P (ef_Rules f) \<longleftrightarrow>
     (\<exists>(i, rule)\<in>set (enumerate 0 (packetRules d)). matchingSource d (ru_Src rule) target \<noteq> [] \<and>
       (\<exists>dst\<in>set (ru_Dst rule). \<exists>rs. compile_egress_dst d all i (matchingSource d (ru_Src rule) target) dst = Inr rs \<and> list_ex P rs))"
proof -
  let ?dsts = "\<lambda>p. if matchingSource d (ru_Src (snd p)) target = [] then [] else ru_Dst (snd p)"
  let ?f = "\<lambda>p. compile_egress_dst d all (fst p) (matchingSource d (ru_Src (snd p)) target)"
  from assms(1) obtain rs where
    a: "emap (\<lambda>p. ebind (emap (?f p) (?dsts p)) (\<lambda>rs. Inr (concat rs))) (enumerate 0 (packetRules d)) = Inr rs"
    and f: "ef_Rules f = normalizeEgress (concat rs)"
    unfolding CompileEgress_def egress_rule_eq by (auto simp: ebind_eq_Inr)
  have "list_ex P (ef_Rules f) \<longleftrightarrow> list_ex P (concat rs)"
    unfolding f normalizeEgress_ex [of P, OF assms(2)] by (simp add: list_ex_iff)
  then show ?thesis unfolding emap_nested_ex [OF a] by (auto simp: case_prod_beta')
qed

lemma compile_egress_dst_ex:
  "(\<exists>rs. compile_egress_dst d all i src dst = Inr rs \<and> list_ex P rs) \<longleftrightarrow>
     (\<exists>sel ports. splitDst dst = Inr (sel, ports) \<and> (let prov = \<lparr>pv_Rule = i + 1, pv_SourceTerm = src, pv_DestinationTerm = sel\<rparr> in
        case parseCIDRSelector sel of
          Some cidr \<Rightarrow> P \<lparr>er_Dsts = [], er_DstCidrs = [cidr], er_Ports = ports, er_Provenance = prov\<rparr>
        | None \<Rightarrow> resolveSources d [sel] all \<noteq> []
            \<and> P \<lparr>er_Dsts = resolveSources d [sel] all, er_DstCidrs = [], er_Ports = ports, er_Provenance = prov\<rparr>))"
  by (auto simp: compile_egress_dst_def Let_def split: sum.splits prod.splits option.splits)

lemma CompileEgress_handle:
  assumes "CompileEgress d target all = Inr f" and "\<forall>n\<in>set all. n_Handle n \<noteq> Wildcard" and "ParseAddr dst = None"
  shows "EgressPermits f dst port \<longleftrightarrow> (\<exists>r\<in>set (packetRules d). matchingSource d (ru_Src r) target \<noteq> []
     \<and> (\<exists>to\<in>set (ru_Dst r). \<exists>sel ports. splitDst to = Inr (sel, ports) \<and> parseCIDRSelector sel = None
          \<and> selects d all [sel] dst \<and> in_ports port ports))"
proof -
  let ?P = "\<lambda>r. list_ex (\<lambda>s. s = Wildcard \<or> s = dst) (er_Dsts r) \<and> in_ports port (er_Ports r)"
  have sel: "resolveSources d sels all \<noteq> [] \<and> list_ex (\<lambda>s. s = Wildcard \<or> s = dst) (resolveSources d sels all) \<and> X
      \<longleftrightarrow> selects d all sels dst \<and> X" for sels X
    using resolveSources_selects [OF assms(2), of dst d sels] by auto
  have inner: "(\<exists>rs. compile_egress_dst d all i src to = Inr rs \<and> list_ex ?P rs) \<longleftrightarrow> (\<exists>sel ports. splitDst to = Inr (sel, ports)
      \<and> parseCIDRSelector sel = None \<and> selects d all [sel] dst \<and> in_ports port ports)" for i src to
    unfolding compile_egress_dst_ex
    by (intro ex_cong1 conj_cong refl) (simp add: Let_def sel split: option.split)
  have "EgressPermits f dst port \<longleftrightarrow> list_ex ?P (ef_Rules f)" by (simp add: EgressPermits_def assms(3))
  also have "\<dots> \<longleftrightarrow> (\<exists>(i, r)\<in>set (enumerate 0 (packetRules d)). matchingSource d (ru_Src r) target \<noteq> []
     \<and> (\<exists>to\<in>set (ru_Dst r). \<exists>sel ports. splitDst to = Inr (sel, ports) \<and> parseCIDRSelector sel = None
          \<and> selects d all [sel] dst \<and> in_ports port ports))"
    using CompileEgress_ex [OF assms(1), of ?P] by (simp add: inner)
  finally show ?thesis unfolding ex_enumerate .
qed

section \<open>Both ends agree\<close>

lemma ParsePrefix_letter:
  assumes "c = CHR ''t'' \<or> c = CHR ''g''"
  shows "ParsePrefix (c # s) = None"
proof -
  have addr: "ParseAddr (c # a) = None" for a
  proof -
    have c: "c \<noteq> CHR ''.''" "c \<noteq> CHR '':''" "c \<noteq> CHR ''%''" "\<not> digit c" "hex_val c = None"
      using assms by (auto simp: digit_def hex_val_def)
    have "parseIPv4 (c # a) = None" using c by (simp add: parseIPv4_def)
    moreover have "parseIPv6 (c # a) = None"
      using c by (auto simp: parseIPv6_def hasPrefix_def numeral_eq_Suc split: option.splits)
    ultimately show ?thesis using c by (simp add: ParseAddr_def split: option.splits)
  qed
  have "c \<noteq> CHR ''/''" using assms by auto
  then show ?thesis by (auto simp: ParsePrefix_def addr split: option.splits)
qed

lemma matches_not_cidr:
  assumes "matches d sel n" and "parseCIDRSelector (n_User n) = None" and "parseCIDRSelector (n_Handle n) = None"
  shows "parseCIDRSelector sel = None"
proof -
  have pre: "parseCIDRSelector sel = None" if "hasPrefix sel p" "p \<noteq> []" "hd p = CHR ''t'' \<or> hd p = CHR ''g''" for p
  proof -
    from that obtain t where "sel = hd p # t" by (cases sel; cases p) (auto simp: hasPrefix_def)
    then show ?thesis using ParsePrefix_letter that(3) by (simp add: parseCIDRSelector_def)
  qed
  show ?thesis
  proof (cases "hasPrefix sel ''tag:'' \<or> hasPrefix sel ''group-id:'' \<or> hasPrefix sel ''group:''")
    case True
    then show ?thesis using pre [of "''tag:''"] pre [of "''group-id:''"] pre [of "''group:''"] by auto
  next
    case False
    with assms(1) have "sel = Wildcard \<or> sel = n_User n \<or> sel = n_Handle n" by (auto simp: matches_def split: if_splits)
    then show ?thesis using assms(2,3) by (auto simp: parseCIDRSelector_def Wildcard_def)
  qed
qed

lemma selects_node:
  assumes "n \<in> set all" and "distinct (map n_Handle all)" and "\<not> n_Inactive n"
  shows "selects d all sels (n_Handle n) \<longleftrightarrow> (\<exists>s\<in>set sels. matches d s n)"
proof -
  have "m = n" if "m \<in> set all" "n_Handle m = n_Handle n" for m
    using that assms(1,2) by (auto simp: distinct_map inj_on_def)
  moreover have "matches d Wildcard n" using assms(3) by (simp add: matches_def)
  ultimately show ?thesis using assms(1) unfolding selects_def by metis
qed

text \<open>A network of a laptop and a tagged server, with one rule.\<close>

definition demo_doc :: Document where
  "demo_doc = \<lparr>d_Grants = [], d_GroupBindings = [], d_Groups = [(''group:eng'', [''alice''])], d_TagOwners = [],
     d_ACLs = [\<lparr>ru_Action = ''accept'', ru_Src = [''group:eng''], ru_Dst = [''tag:prod:22,443'']\<rparr>], d_Ssh = None\<rparr>"

definition demo_laptop :: Node where
  "demo_laptop = \<lparr>n_Handle = ''laptop'', n_Inactive = False, n_GroupIDs = [], n_User = ''alice'', n_Tags = [],
     n_Addresses = [''100.64.0.1/32'']\<rparr>"

definition demo_server :: Node where
  "demo_server = \<lparr>n_Handle = ''server'', n_Inactive = False, n_GroupIDs = [], n_User = [], n_Tags = [''tag:prod''],
     n_Addresses = [''100.64.0.2/32'']\<rparr>"

definition demo_ports :: "PortRange list" where
  "demo_ports = [\<lparr>First = 22, Last = 22\<rparr>, \<lparr>First = 443, Last = 443\<rparr>]"

lemma demo_dst: "splitDst ''tag:prod:22,443'' = Inr (''tag:prod'', demo_ports)"
proof -
  have t: "trimSpace ''22'' = ''22''" "trimSpace ''443'' = ''443''"
    by (simp_all add: trimSpace_digits digit_def)
  show ?thesis
    by (simp add: splitDst_def looksLikePortSpec_def parsePorts_def parsePort_def t Wildcard_def digit_def
      parseUint_def dec_val_def digit_val_def demo_ports_def)
qed

lemma demo_valid: "Validate demo_doc = Inr ()"
  by (simp add: Validate_def validateGrants_def check_each_def validateAcl_def validateSsh_def demo_doc_def packetRules_def
    sshRules_def demo_dst undefined_group_def hasPrefix_def)

definition demo_filter :: Filter where
  "demo_filter = \<lparr>fl_Node = ''server'', fl_Rules = [\<lparr>fr_Srcs = [''laptop''], fr_DstCidrs = [], fr_Ports = demo_ports,
     fr_Provenance = \<lparr>pv_Rule = 1, pv_SourceTerm = ''group:eng'', pv_DestinationTerm = ''tag:prod''\<rparr>\<rparr>]\<rparr>"

definition demo_egress :: EgressFilter where
  "demo_egress = \<lparr>ef_Node = ''laptop'', ef_Rules = [\<lparr>er_Dsts = [''server''], er_DstCidrs = [], er_Ports = demo_ports,
     er_Provenance = \<lparr>pv_Rule = 1, pv_SourceTerm = ''group:eng'', pv_DestinationTerm = ''tag:prod''\<rparr>\<rparr>]\<rparr>"

lemmas demo_net_defs = demo_laptop_def demo_server_def matches_def Wildcard_def hasPrefix_def

lemma demo_compiles: "Compile demo_doc demo_server [demo_laptop, demo_server] = Inr demo_filter"
  by (simp add: Compile_def compile_dst_def demo_dst demo_net_defs resolveSources_def demo_filter_def normalize_def sort_ports_def
    demo_doc_def packetRules_def) (simp add: demo_ports_def)

lemma demo_egress_compiles: "CompileEgress demo_doc demo_laptop [demo_laptop, demo_server] = Inr demo_egress"
  by (simp add: CompileEgress_def compile_egress_rule_def compile_egress_dst_def demo_dst demo_net_defs resolveSources_def
    demo_egress_def normalizeEgress_def sort_ports_def demo_doc_def packetRules_def parseCIDRSelector_def)
    (simp add: demo_ports_def)

text \<open>C4. The ingress filter is exactly the policy. For a valid document and a network in which no node is
  called \<^verbatim>\<open>*\<close>, the compiled filter of a node permits local traffic from a handle on a port exactly when some rule
  has a destination whose selector matches the node and whose ports include the port, and a source list that
  names the handle. Everything else is denied; forwarding grants give no access to the machine itself.\<close>

theorem ingress_filter_exact:
  assumes "Validate d = Inr ()" and "Compile d target all = Inr f" and "\<forall>n\<in>set all. n_Handle n \<noteq> Wildcard"
  shows "Permits f src port \<longleftrightarrow>
     (\<exists>r\<in>set (packetRules d). \<exists>dst\<in>set (ru_Dst r). \<exists>sel ports. splitDst dst = Inr (sel, ports)
        \<and> matches d sel target
        \<and> (Wildcard \<in> set (ru_Src r) \<or> (\<exists>n\<in>set all. \<exists>s\<in>set (ru_Src r). matches d s n \<and> n_Handle n = src))
        \<and> in_ports port ports)"
  using Compile_local [OF assms, of src port] unfolding grants_flow_def selects_def .

theorem ingress_filter_exact_witness:
  "\<exists>r\<in>set (packetRules demo_doc). \<exists>dst\<in>set (ru_Dst r). \<exists>sel ports. splitDst dst = Inr (sel, ports)
      \<and> matches demo_doc sel demo_server
      \<and> (Wildcard \<in> set (ru_Src r) \<or> (\<exists>n\<in>set [demo_laptop, demo_server]. \<exists>s\<in>set (ru_Src r). matches demo_doc s n \<and> n_Handle n = ''laptop''))
      \<and> in_ports 443 ports"
proof -
  have "Permits demo_filter ''laptop'' 443"
    by (simp add: Permits_def permits_def demo_filter_def in_ports_def demo_ports_def)
  moreover have "\<forall>n\<in>set [demo_laptop, demo_server]. n_Handle n \<noteq> Wildcard" by (simp add: demo_net_defs)
  ultimately show ?thesis using ingress_filter_exact [OF demo_valid demo_compiles, of "''laptop''" 443] by blast
qed

text \<open>C31. The two ends enforce the same policy. In a network with distinct handles, for two active nodes and a
  document without empty source selectors, the sender's egress filter permits a port exactly when the receiver's ingress filter does:
  neither filter alone opens or blocks a flow between nodes. (No node is named like the wildcard, and the receiver's handle and owner
  are not written like addresses or networks.)\<close>

theorem ingress_egress_agree:
  assumes "Validate d = Inr ()" and "Compile d m all = Inr f" and "CompileEgress d n all = Inr e"
    and "n \<in> set all" and "m \<in> set all" and "distinct (map n_Handle all)" and "\<not> n_Inactive n" and "\<not> n_Inactive m"
    and "\<forall>x\<in>set all. n_Handle x \<noteq> Wildcard" and "\<forall>r\<in>set (packetRules d). [] \<notin> set (ru_Src r)"
    and "ParseAddr (n_Handle m) = None" and "parseCIDRSelector (n_User m) = None" and "parseCIDRSelector (n_Handle m) = None"
  shows "EgressPermits e (n_Handle m) port \<longleftrightarrow> Permits f (n_Handle n) port"
proof -
  have src: "matchingSource d (ru_Src r) n \<noteq> [] \<longleftrightarrow> selects d all (ru_Src r) (n_Handle n)" if "r \<in> set (packetRules d)" for r
    using matchingSource_Nil [of "ru_Src r" d n] assms(10) that selects_node [OF assms(4,6,7), of d "ru_Src r"] by auto
  have dst: "parseCIDRSelector sel = None \<and> selects d all [sel] (n_Handle m) \<longleftrightarrow> matches d sel m" for sel
    using selects_node [OF assms(5,6,8), of d "[sel]"] matches_not_cidr [OF _ assms(12,13), of d sel] by auto
  show ?thesis
    unfolding CompileEgress_handle [OF assms(3,9,11)] Compile_local [OF assms(1,2,9)] grants_flow_def
    using src dst by blast
qed

theorem ingress_egress_agree_witness:
  "EgressPermits demo_egress ''server'' 22 \<longleftrightarrow> Permits demo_filter ''laptop'' 22"
proof -
  have "n_Handle demo_server = ''server''" "n_Handle demo_laptop = ''laptop''" by (simp_all add: demo_net_defs)
  moreover have "EgressPermits demo_egress (n_Handle demo_server) 22 \<longleftrightarrow> Permits demo_filter (n_Handle demo_laptop) 22"
    by (rule ingress_egress_agree [OF demo_valid demo_compiles demo_egress_compiles])
      (simp_all add: demo_net_defs demo_doc_def packetRules_def ParseAddr_def parseCIDRSelector_def)
  ultimately show ?thesis by simp
qed

section \<open>Validated documents compile\<close>

definition ports_ok :: "PortRange list \<Rightarrow> bool" where
  "ports_ok ps \<longleftrightarrow> ps \<noteq> [] \<and> sorted (map (\<lambda>p. (First p, Last p)) ps) \<and> (\<forall>p\<in>set ps. First p \<le> Last p)"

lemma ports_ok_sort: "parsePorts spec = Inr ports \<Longrightarrow> ports_ok (sort_ports ports)"
  using parsePorts_Inr [of spec ports] by (auto simp: ports_ok_def sort_ports_def dest: arg_cong [where f = length])

lemma splitDst_ports: "splitDst dst = Inr (sel, ports) \<Longrightarrow> ports_ok (sort_ports ports)"
  by (auto simp: splitDst_Inr intro: ports_ok_sort)

lemma sort_ports_idem [simp]: "sort_ports (sort_ports ps) = sort_ports ps"
  by (simp add: sort_ports_def sort_key_id_if_sorted)

lemma Compile_total:
  assumes "Validate d = Inr ()"
  shows "\<exists>f. Compile d target all = Inr f"
proof -
  have "\<forall>p\<in>set (enumerate 0 (packetRules d)). \<forall>dst\<in>set (ru_Dst (snd p)). \<exists>rs. compile_dst d target all (fst p) (snd p) dst = Inr rs"
  proof (intro ballI)
    fix p dst assume p: "p \<in> set (enumerate 0 (packetRules d))" "dst \<in> set (ru_Dst (snd p))"
    have "snd p \<in> set (packetRules d)" using p(1) by (rule enumerate_snd)
    from Validate_rule(3) [OF assms this p(2)] show "\<exists>rs. compile_dst d target all (fst p) (snd p) dst = Inr rs"
      by (auto simp: compile_dst_def Let_def)
  qed
  from emap_nested_all [OF this] obtain acls where acls: "emap (\<lambda>(i, rule). ebind (emap (compile_dst d target all i rule) (ru_Dst rule))
      (\<lambda>rs. Inr (concat rs))) (enumerate 0 (packetRules d)) = Inr acls" by (auto simp: case_prod_beta')
  have "\<forall>g\<in>set (d_Grants d). \<exists>rs. compile_grant d target all g = Inr rs"
  proof
    fix g assume "g \<in> set (d_Grants d)"
    with assms obtain ids ids' where v: "validateGrant ids g = Inr ids'" by (rule Validate_grant)
    have "\<forall>network\<in>set (gr_Networks g). \<exists>y. (case ParsePrefix network of None \<Rightarrow> Inl BadNetwork
        | Some p \<Rightarrow> Inr (prefix_string (Some (Masked p)))) = Inr y"
      using validateGrant_Inr(2) [OF v] by (auto split: option.split)
    from emap_all [OF this] show "\<exists>rs. compile_grant d target all g = Inr rs"
      using validateGrant_Inr(3) [OF v] by (auto simp: compile_grant_def Let_def)
  qed
  from emap_all [OF this] obtain gs where "emap (compile_grant d target all) (d_Grants d) = Inr gs" by blast
  with acls show ?thesis by (simp add: Compile_def)
qed

lemma CompileEgress_total:
  assumes "Validate d = Inr ()"
  shows "\<exists>f. CompileEgress d target all = Inr f"
proof -
  have "\<exists>yss. emap (compile_egress_rule d target all) (enumerate 0 (packetRules d)) = Inr yss"
    unfolding egress_rule_eq
  proof (rule emap_nested_all, intro ballI)
    fix p dst assume p: "p \<in> set (enumerate 0 (packetRules d))"
      and "dst \<in> set (if matchingSource d (ru_Src (snd p)) target = [] then [] else ru_Dst (snd p))"
    then have dst: "dst \<in> set (ru_Dst (snd p))" by (simp split: if_splits)
    have "snd p \<in> set (packetRules d)" using p by (rule enumerate_snd)
    from Validate_rule(3) [OF assms this dst]
    show "\<exists>rs. compile_egress_dst d all (fst p) (matchingSource d (ru_Src (snd p)) target) dst = Inr rs"
      by (auto simp: compile_egress_dst_def Let_def split: option.split)
  qed
  then show ?thesis by (auto simp: CompileEgress_def)
qed

lemma normalized_ports:
  "r \<in> set (normalize rs) \<Longrightarrow> sort_ports (fr_Ports r) = fr_Ports r"
  "e \<in> set (normalizeEgress es) \<Longrightarrow> sort_ports (er_Ports e) = er_Ports e"
  by (auto simp: normalize_def normalizeEgress_def)

lemma Compile_rules_ok:
  assumes "Compile d target all = Inr f" and "r \<in> set (fl_Rules f)"
  shows "fr_Srcs r \<noteq> []" and "ports_ok (fr_Ports r)"
proof -
  let ?P = "\<lambda>r. \<not> (fr_Srcs r \<noteq> [] \<and> ports_ok (sort_ports (fr_Ports r)))"
  have "\<not> (\<exists>rs. compile_dst d target all i rule dst = Inr rs \<and> list_ex ?P rs)" for i rule dst
    unfolding compile_dst_ex by (auto dest: splitDst_ports)
  moreover have "\<not> (\<exists>rs. compile_grant d target all g = Inr rs \<and> list_ex ?P rs)" for g
    by (auto simp: list_ex_iff elim!: compile_grant_rule dest: ports_ok_sort)
  ultimately have "\<not> list_ex ?P (fl_Rules f)"
    using Compile_ex [OF assms(1), of ?P] by auto
  with assms(2) have "fr_Srcs r \<noteq> [] \<and> ports_ok (sort_ports (fr_Ports r))" by (auto simp: list_ex_iff)
  moreover have "sort_ports (fr_Ports r) = fr_Ports r"
    using assms by (auto simp: Compile_def ebind_eq_Inr dest: normalized_ports(1))
  ultimately show "fr_Srcs r \<noteq> []" "ports_ok (fr_Ports r)" by simp_all
qed

lemma CompileEgress_rules_ok:
  assumes "CompileEgress d target all = Inr f" and "r \<in> set (ef_Rules f)"
  shows "er_Dsts r = [] \<longleftrightarrow> er_DstCidrs r \<noteq> []" and "ports_ok (er_Ports r)"
proof -
  let ?P = "\<lambda>r. \<not> ((er_Dsts r = [] \<longleftrightarrow> er_DstCidrs r \<noteq> []) \<and> ports_ok (sort_ports (er_Ports r)))"
  have "\<not> (\<exists>rs. compile_egress_dst d all i src dst = Inr rs \<and> list_ex ?P rs)" for i src dst
    unfolding compile_egress_dst_ex by (auto simp: Let_def dest: splitDst_ports split: option.splits)
  then have "\<not> list_ex ?P (ef_Rules f)" using CompileEgress_ex [OF assms(1), of ?P] by auto
  with assms(2) have "(er_Dsts r = [] \<longleftrightarrow> er_DstCidrs r \<noteq> []) \<and> ports_ok (sort_ports (er_Ports r))" by (auto simp: list_ex_iff)
  moreover have "sort_ports (er_Ports r) = er_Ports r"
    using assms by (auto simp: CompileEgress_def ebind_eq_Inr dest: normalized_ports(2))
  ultimately show "er_Dsts r = [] \<longleftrightarrow> er_DstCidrs r \<noteq> []" "ports_ok (er_Ports r)" by simp_all
qed

lemma CompileSSH_rules_ok:
  assumes "CompileSSH d target all = Some f" and "r \<in> set (fl_Rules f)"
  shows "fr_Srcs r \<noteq> []" and "fr_Ports r = [\<lparr>First = 22, Last = 22\<rparr>]"
proof -
  have "fr_Srcs x \<noteq> [] \<and> fr_Ports x = [\<lparr>First = 22, Last = 22\<rparr>]" if "x \<in> set (compile_ssh d target all i rule dst)" for x i rule dst
    using that by (auto simp: compile_ssh_def Let_def split: if_splits)
  with assms have "fr_Srcs r \<noteq> [] \<and> fr_Ports r = [\<lparr>First = 22, Last = 22\<rparr>]"
    by (fastforce simp: CompileSSH_def normalize_def sort_ports_def split: if_splits)
  then show "fr_Srcs r \<noteq> []" "fr_Ports r = [\<lparr>First = 22, Last = 22\<rparr>]" by simp_all
qed

definition demo_ssh_doc :: Document where
  "demo_ssh_doc = demo_doc\<lparr>d_Ssh := Some [\<lparr>sr_Action = ''accept'', sr_Src = [''alice''], sr_Dst = [''tag:prod'']\<rparr>]\<rparr>"

lemma demo_ssh_valid: "Validate demo_ssh_doc = Inr ()"
  by (simp add: Validate_def validateGrants_def check_each_def validateAcl_def validateSsh_def demo_ssh_doc_def demo_doc_def packetRules_def
    sshRules_def validateSshDst_def looksLikePortSpec_def digit_def Wildcard_def demo_dst undefined_group_def hasPrefix_def)

text \<open>C32. Validated documents compile to well-formed filters. If validation accepts a document, compiling it
  for any node of any network succeeds in both directions. Every ingress rule then names at least one source, every egress
  rule names handles or networks and never both, and every port list is nonempty, ordered and made of
  ranges that are not inverted. An SSH gate, where the document has one, is well formed too: each of its rules names at least one source and exactly
  port 22.\<close>

theorem validated_policy_compiles:
  assumes "Validate d = Inr ()"
  shows "\<exists>f e. Compile d target all = Inr f \<and> CompileEgress d target all = Inr e
     \<and> list_all (\<lambda>r. fr_Srcs r \<noteq> [] \<and> ports_ok (fr_Ports r)) (fl_Rules f)
     \<and> list_all (\<lambda>r. (er_Dsts r = [] \<longleftrightarrow> er_DstCidrs r \<noteq> []) \<and> ports_ok (er_Ports r)) (ef_Rules e)
     \<and> pred_option (\<lambda>g. list_all (\<lambda>r. fr_Srcs r \<noteq> [] \<and> fr_Ports r = [\<lparr>First = 22, Last = 22\<rparr>]) (fl_Rules g)) (CompileSSH d target all)"
proof -
  obtain f e where "Compile d target all = Inr f" "CompileEgress d target all = Inr e"
    using Compile_total [OF assms] CompileEgress_total [OF assms] by blast
  then show ?thesis using Compile_rules_ok CompileEgress_rules_ok CompileSSH_rules_ok [of d target all]
    by (cases "CompileSSH d target all") (auto simp: list_all_iff)
qed

theorem validated_policy_compiles_witness:
  "\<exists>f e g. Compile demo_ssh_doc demo_server [demo_laptop, demo_server] = Inr f
     \<and> CompileEgress demo_ssh_doc demo_server [demo_laptop, demo_server] = Inr e
     \<and> CompileSSH demo_ssh_doc demo_server [demo_laptop, demo_server] = Some g
     \<and> list_all (\<lambda>r. fr_Srcs r \<noteq> [] \<and> ports_ok (fr_Ports r)) (fl_Rules f)
     \<and> list_all (\<lambda>r. fr_Srcs r \<noteq> [] \<and> fr_Ports r = [\<lparr>First = 22, Last = 22\<rparr>]) (fl_Rules g)"
proof -
  obtain g where "CompileSSH demo_ssh_doc demo_server [demo_laptop, demo_server] = Some g"
    by (simp add: CompileSSH_def demo_ssh_doc_def)
  then show ?thesis using validated_policy_compiles [OF demo_ssh_valid, of demo_server "[demo_laptop, demo_server]"] by auto
qed

section \<open>The SSH gate\<close>

text \<open>C33. The SSH gate is a second, independent condition. There is no gate exactly when the document has no SSH section
  and no grant asks for one; an empty section is a gate that denies everyone. A gate permits only port 22, and only sources named
  by a rule one of whose destinations matches the node.\<close>

theorem ssh_gate_exact:
  assumes "\<forall>n\<in>set all. n_Handle n \<noteq> Wildcard"
  shows "case CompileSSH d target all of
      None \<Rightarrow> d_Ssh d = None \<and> \<not> (\<exists>g\<in>set (d_Grants d). gr_SSH g)
    | Some f \<Rightarrow> (d_Ssh d \<noteq> None \<or> (\<exists>g\<in>set (d_Grants d). gr_SSH g))
        \<and> (Permits f src port \<longleftrightarrow> port = 22 \<and> (\<exists>r\<in>set (sshRules d). \<exists>dst\<in>set (sr_Dst r). matches d dst target
             \<and> (Wildcard \<in> set (sr_Src r) \<or> (\<exists>n\<in>set all. \<exists>s\<in>set (sr_Src r). matches d s n \<and> n_Handle n = src))))"
proof (cases "d_Ssh d = None \<and> \<not> hasSSHGrants d")
  case True
  then show ?thesis by (simp add: CompileSSH_def hasSSHGrants_def list_ex_iff)
next
  case False
  let ?rules = "concat (map (\<lambda>(i, rule). concat (map (compile_ssh d target all i rule) (sr_Dst rule))) (enumerate 0 (sshRules d)))"
  let ?P = "\<lambda>r. fr_DstCidrs r = [] \<and> list_ex (\<lambda>s. s = Wildcard \<or> s = src) (fr_Srcs r) \<and> in_ports port (fr_Ports r)"
  let ?ok = "\<lambda>r. \<exists>dst\<in>set (sr_Dst r). matches d dst target \<and> selects d all (sr_Src r) src"
  have one: "list_ex ?P (compile_ssh d target all i rule dst) \<longleftrightarrow> port = 22 \<and> matches d dst target \<and> selects d all (sr_Src rule) src"
    for i rule dst
    using resolveSources_selects [OF assms, of src d "sr_Src rule"]
    by (auto simp: compile_ssh_def Let_def in_ports_def)
  have "(\<exists>r\<in>set ?rules. ?P r) \<longleftrightarrow> (\<exists>(i, rule)\<in>set (enumerate 0 (sshRules d)). \<exists>dst\<in>set (sr_Dst rule). list_ex ?P (compile_ssh d target all i rule dst))"
    by (fastforce simp: list_ex_iff)
  also have "\<dots> \<longleftrightarrow> port = 22 \<and> (\<exists>(i, rule)\<in>set (enumerate 0 (sshRules d)). ?ok rule)" unfolding one by blast
  finally have "Permits \<lparr>fl_Node = n_Handle target, fl_Rules = normalize ?rules\<rparr> src port \<longleftrightarrow> port = 22 \<and> (\<exists>r\<in>set (sshRules d). ?ok r)"
    unfolding ex_enumerate using normalize_ex [of ?P ?rules] by (simp add: Permits_def permits_def conj_assoc)
  then show ?thesis using False
    by (simp add: CompileSSH_def hasSSHGrants_def list_ex_iff selects_def bex_simps)
qed

theorem ssh_gate_exact_witness:
  "\<exists>f. CompileSSH demo_ssh_doc demo_server [demo_laptop, demo_server] = Some f \<and> Permits f ''laptop'' 22 \<and> \<not> Permits f ''laptop'' 443"
proof -
  have all: "\<forall>n\<in>set [demo_laptop, demo_server]. n_Handle n \<noteq> Wildcard" by (simp add: demo_net_defs)
  note ex = ssh_gate_exact [OF all, where d = demo_ssh_doc and target = demo_server and src = "''laptop''"]
  obtain f where f: "CompileSSH demo_ssh_doc demo_server [demo_laptop, demo_server] = Some f"
    by (simp add: CompileSSH_def demo_ssh_doc_def)
  have "sshRules demo_ssh_doc = [\<lparr>sr_Action = ''accept'', sr_Src = [''alice''], sr_Dst = [''tag:prod'']\<rparr>]"
    by (simp add: sshRules_def demo_ssh_doc_def demo_doc_def)
  moreover have "matches demo_ssh_doc ''tag:prod'' demo_server" "matches demo_ssh_doc ''alice'' demo_laptop" "n_Handle demo_laptop = ''laptop''"
    by (simp_all add: demo_net_defs)
  ultimately show ?thesis using f ex [where port = 22] ex [where port = 443] by simp
qed

section \<open>Port lists\<close>

definition range_text :: "nat \<times> nat \<Rightarrow> string" where
  "range_text r = itoa (fst r) @ ''-'' @ itoa (snd r)"

lemma itoa_digits: "c \<in> set (itoa n) \<Longrightarrow> digit c"
  using itoa_val(2) [of n] by (simp add: list_all_iff)

lemma range_text_chars: "CHR '','' \<notin> set (range_text r)" "trimSpace (range_text r) = range_text r" "range_text r \<noteq> []"
proof -
  have "\<not> digit (CHR '','')" by (simp add: digit_def)
  then show "CHR '','' \<notin> set (range_text r)" using itoa_digits by (auto simp: range_text_def)
  have "digit (hd (itoa n))" "digit (last (itoa n))" for n
    using itoa_val(3) [of n] itoa_digits [of _ n] by (auto intro: hd_in_set last_in_set)
  then show "trimSpace (range_text r) = range_text r"
    using itoa_val(3) by (intro trimSpace_ends) (simp_all add: range_text_def digit_printable)
  show "range_text r \<noteq> []" by (simp add: range_text_def)
qed

lemma split_on_join:
  assumes "ws \<noteq> []" and "\<forall>w\<in>set ws. c \<notin> set w"
  shows "split_on c (join [c] ws) = ws"
proof -
  have step: "split_on c (w @ c # rest) = w # split_on c rest" if "c \<notin> set w" for w rest
    using that by (induction w) auto
  show ?thesis using assms
  proof (induction ws)
    case (Cons w ws)
    then show ?case by (cases ws) (simp_all add: split_on_no_sep step)
  qed simp
qed

lemma parsePort_range:
  assumes "fst r \<le> snd r"
  shows "parsePort (range_text r) = (if snd r < 65536
    then Inr \<lparr>First = word_of_nat (fst r), Last = word_of_nat (snd r)\<rparr>
    else Inl (BadPort (if fst r < 65536 then itoa (snd r) else itoa (fst r))))"
proof -
  have dash: "CHR ''-'' \<notin> set (itoa n)" for n using itoa_digits [of "CHR ''-''"] by (auto simp: digit_def)
  have "cut (CHR ''-'') (range_text r) = Some (itoa (fst r), itoa (snd r))"
    using dash by (simp add: range_text_def)
  moreover have "parseUint 16 (itoa n) = (if n < 65536 then Some n else None)" for n
    by (simp add: parseUint_def itoa_val)
  ultimately show ?thesis using assms range_text_chars [of r] by (simp add: parsePort_def)
qed

text \<open>C34. Port lists mean what they say, up to the last port. The text of a list of port ranges parses to exactly those
  ranges when every bound is at most 65535. If some bound is larger, the whole list is refused: no port number wraps around.\<close>

theorem port_list_roundtrip:
  assumes "rs \<noteq> []" and "\<forall>r\<in>set rs. fst r \<le> snd r"
  shows "if \<forall>r\<in>set rs. snd r < 65536
     then parsePorts (join '','' (map range_text rs)) = Inr (map (\<lambda>r. \<lparr>First = word_of_nat (fst r), Last = word_of_nat (snd r)\<rparr>) rs)
     else \<exists>s. parsePorts (join '','' (map range_text rs)) = Inl (BadPort s)"
proof -
  have "split_on (CHR '','') (join '','' (map range_text rs)) = map range_text rs"
    using assms(1) range_text_chars(1) by (intro split_on_join) auto
  moreover have "join '','' (map range_text rs) \<noteq> Wildcard"
  proof
    assume "join '','' (map range_text rs) = Wildcard"
    then have "split_on (CHR '','') Wildcard = map range_text rs" using calculation by simp
    then obtain r where "range_text r = Wildcard" by (cases rs) (auto simp: Wildcard_def)
    then show False using itoa_val(3) [of "fst r"] by (simp add: range_text_def Wildcard_def append_eq_Cons_conv)
  qed
  ultimately have parse: "parsePorts (join '','' (map range_text rs)) = emap parsePort (map range_text rs)"
    by (simp add: parsePorts_def)
  have "emap parsePort (map range_text rs) = (if \<forall>r\<in>set rs. snd r < 65536
      then Inr (map (\<lambda>r. \<lparr>First = word_of_nat (fst r), Last = word_of_nat (snd r)\<rparr>) rs) else emap parsePort (map range_text rs))"
    using assms(2) by (simp add: emap_Inr_map parsePort_range o_def) (simp add: emap_eq_Inr list_all2_map1 list_all2_map2 list_all2_same parsePort_range)
  moreover have "\<exists>s. emap parsePort (map range_text rs) = Inl (BadPort s)" if "\<not> (\<forall>r\<in>set rs. snd r < 65536)"
    using that assms(2)
  proof (induction rs)
    case (Cons r rs)
    then show ?case by (cases "snd r < 65536") (auto simp: parsePort_range)
  qed simp
  ultimately show ?thesis using parse by auto
qed

theorem port_list_roundtrip_witness:
  "parsePorts (join '','' (map range_text [(22, 22), (8000, 65535)]))
     = Inr [\<lparr>First = 22, Last = 22\<rparr>, \<lparr>First = 8000, Last = 65535\<rparr>]"
  using port_list_roundtrip [of "[(22, 22), (8000, 65535)]"] by simp

section \<open>Empty source selectors\<close>

text \<open>C35. An empty source selector splits the two ends. Validation accepts it; the receiver's filter then admits
  every active node that has no owner, since the selector equals the empty owner, while the egress filter of
  every node denies the rule, since the empty selector it found is read as no selector.\<close>

theorem empty_selector_splits_ends:
  assumes "Validate d = Inr ()" and "packetRules d = [r]" and "ru_Src r = [[]]"
    and "dst \<in> set (ru_Dst r)" and "splitDst dst = Inr (sel, ports)" and "matches d sel m" and "in_ports port ports"
    and "n \<in> set all" and "\<not> n_Inactive n" and "n_User n = []" and "\<forall>x\<in>set all. n_Handle x \<noteq> Wildcard"
    and "Compile d m all = Inr f" and "CompileEgress d n all = Inr e"
  shows "Permits f (n_Handle n) port \<and> \<not> EgressPermits e (n_Handle m) port"
proof
  have "matches d [] n" using assms(9,10) by (simp add: matches_def hasPrefix_def Wildcard_def)
  then have "selects d all (ru_Src r) (n_Handle n)" using assms(3,8) by (auto simp: selects_def)
  then show "Permits f (n_Handle n) port"
    unfolding Compile_local [OF assms(1,12,11)] grants_flow_def using assms(2,4,5,6,7) by auto
  have "matchingSource d (ru_Src r) n = []" using assms(3) by simp
  then show "\<not> EgressPermits e (n_Handle m) port"
    using assms(2,13) by (auto simp: CompileEgress_def compile_egress_rule_def EgressPermits_def normalizeEgress_def)
qed

definition demo_empty_doc :: Document where
  "demo_empty_doc = demo_doc\<lparr>d_ACLs := [\<lparr>ru_Action = ''accept'', ru_Src = [[]], ru_Dst = [''tag:prod:22,443'']\<rparr>]\<rparr>"

theorem empty_selector_splits_ends_witness:
  "\<exists>f e. Permits f ''server'' 443 \<and> \<not> EgressPermits e ''server'' 443
     \<and> Compile demo_empty_doc demo_server [demo_server] = Inr f \<and> CompileEgress demo_empty_doc demo_server [demo_server] = Inr e"
proof -
  have v: "Validate demo_empty_doc = Inr ()"
    by (simp add: Validate_def validateGrants_def check_each_def validateAcl_def validateSsh_def demo_empty_doc_def demo_doc_def
      packetRules_def sshRules_def demo_dst undefined_group_def hasPrefix_def)
  obtain f e where fe: "Compile demo_empty_doc demo_server [demo_server] = Inr f" "CompileEgress demo_empty_doc demo_server [demo_server] = Inr e"
    using Compile_total [OF v] CompileEgress_total [OF v] by blast
  have "packetRules demo_empty_doc = [\<lparr>ru_Action = ''accept'', ru_Src = [[]], ru_Dst = [''tag:prod:22,443'']\<rparr>]"
    by (simp add: packetRules_def demo_empty_doc_def demo_doc_def)
  from empty_selector_splits_ends [OF v this _ _ demo_dst _ _ _ _ _ _ fe, of 443] fe show ?thesis
    by (simp add: demo_net_defs in_ports_def demo_ports_def)
qed

end
