(* ===== verification/Compliance.thy ===== *)
theory Compliance
  imports Karst_Db Go_Text
begin

text \<open>Evaluation of device evidence against version requirements, \<^verbatim>\<open>compliance/compliance.go\<close> and
  \<^verbatim>\<open>compliance/version.go\<close>. The comparison of semantic versions is an external package and a
  parameter of the model.\<close>

section \<open>Requirements and evidence\<close>

definition EvidenceLifetime :: int where "EvidenceLifetime = seconds 180"

datatype ComplianceState = Compliant | Noncompliant | Unknown | Unsupported | Stale | EvaluationError

definition MinimumClientVersion :: string where "MinimumClientVersion = ''minimum-client-version''"

definition MinimumOSVersion :: string where "MinimumOSVersion = ''minimum-os-version''"

definition Linux :: string where "Linux = ''linux''"

definition MacOS :: string where "MacOS = ''darwin''"

definition Windows :: string where "Windows = ''windows''"

definition SelfReported :: string where "SelfReported = ''self-reported''"

definition Collected :: string where "Collected = ''collected''"

definition NotSupported :: string where "NotSupported = ''unsupported''"

definition CollectionError :: string where "CollectionError = ''collection-error''"

lemmas kind_defs = MinimumClientVersion_def MinimumOSVersion_def Linux_def MacOS_def Windows_def SelfReported_def
  Collected_def NotSupported_def CollectionError_def

record Subject =
  su_TenantID :: string
  su_DeviceID :: string

record Requirement =
  rq_ID :: string
  rq_Kind :: string
  rq_MinimumVersion :: string
  rq_Provenance :: string
  rq_Platform :: string
  rq_Distribution :: string

record Observation =
  ob_Status :: string
  ob_Version :: string

record Evidence =
  ev_Subject :: Subject
  ev_ReceivedAt :: instant
  ev_Provenance :: string
  ev_Platform :: string
  ev_Distribution :: string
  ev_ClientVersion :: Observation
  ev_OSVersion :: Observation

datatype Reason =
    Passed
  | BelowMinimum
  | MissingEvidence
  | MissingValue
  | IdentityMismatch
  | InvalidTime
  | EvidenceExpired
  | ProvenanceMismatch
  | UnsupportedPlatform
  | UnsupportedObservation
  | CollectionFailed
  | MalformedObservation
  | InvalidVersion

record Result =
  rs_RequirementID :: string
  rs_State :: ComplianceState
  rs_Reason :: Reason

record Evaluation =
  evl_Results :: "Result list"
  evl_ValidUntil :: instant

datatype compliance_error =
    RequirementIDMissing
  | UnsupportedProvenance string
  | ClientMustNotSpecifyOS string
  | BadVersion string
  | UnsupportedOS string
  | UnsupportedCheck string
  | SubjectMissing
  | TimeMissing
  | RequirementsEmpty
  | DuplicateRequirement string

record semver =
  sv_IsValid :: "string \<Rightarrow> bool"
  sv_Compare :: "string \<Rightarrow> string \<Rightarrow> int"

section \<open>Versions\<close>

definition supportedPlatform :: "string \<Rightarrow> bool" where
  "supportedPlatform p \<longleftrightarrow> p = Linux \<or> p = MacOS \<or> p = Windows"

definition supportedOS :: "string \<Rightarrow> string \<Rightarrow> bool" where
  "supportedOS p distribution =
     (if p = Linux then distribution = ''ubuntu'' \<or> distribution = ''debian''
      else (p = MacOS \<or> p = Windows) \<and> distribution = [])"

definition before :: "char \<Rightarrow> string \<Rightarrow> string" where
  "before c s = takeWhile (\<lambda>x. x \<noteq> c) s"

definition clientVersion :: "semver \<Rightarrow> string \<Rightarrow> string option" where
  "clientVersion V s =
     (if length s > 128 \<or> s = [] then None
      else let v = (if hasPrefix s ''v'' then s else CHR ''v'' # s);
               core = before (CHR ''-'') (before (CHR ''+'') (tl v))
           in if count_list core (CHR ''.'') \<noteq> 2 \<or> \<not> sv_IsValid V v then None else Some v)"

definition os_parts :: "string \<Rightarrow> string \<Rightarrow> nat \<times> nat" where
  "os_parts p distribution =
     (if p = Linux then (if distribution = ''ubuntu'' then (2, 2) else (1, 2))
      else if p = Windows then (3, 4) else (2, 3))"

definition osVersion :: "string \<Rightarrow> string \<Rightarrow> string \<Rightarrow> uint32 list option" where
  "osVersion p distribution s =
     (if \<not> supportedOS p distribution \<or> s = [] \<or> length s > 64 then None
      else let parts = split_on (CHR ''.'') s; (mn, mx) = os_parts p distribution
           in if length parts < mn \<or> length parts > mx then None
              else if list_ex (\<lambda>part. part = [] \<or> \<not> list_all digit part \<or> parseUint 32 part = None) parts then None
              else Some (map (\<lambda>part. word_of_nat (the (parseUint 32 part))) parts @ replicate (4 - length parts) 0))"

fun compare_parts :: "uint32 list \<Rightarrow> uint32 list \<Rightarrow> int" where
  "compare_parts (a # as) (b # bs) = (if a < b then - 1 else if a > b then 1 else compare_parts as bs)"
| "compare_parts _ _ = 0"

definition compare_version :: "semver \<Rightarrow> Requirement \<Rightarrow> string \<Rightarrow> int option" where
  "compare_version V r observed =
     (if rq_Kind r = MinimumClientVersion then
        (case clientVersion V observed of None \<Rightarrow> None
         | Some actual \<Rightarrow> (case clientVersion V (rq_MinimumVersion r) of None \<Rightarrow> None
           | Some minimum \<Rightarrow> Some (sv_Compare V actual minimum)))
      else
        (case osVersion (rq_Platform r) (rq_Distribution r) observed of None \<Rightarrow> None
         | Some actual \<Rightarrow> (case osVersion (rq_Platform r) (rq_Distribution r) (rq_MinimumVersion r) of None \<Rightarrow> None
           | Some minimum \<Rightarrow> Some (compare_parts actual minimum))))"

section \<open>Evaluation\<close>

definition ValidateRequirement :: "semver \<Rightarrow> Requirement \<Rightarrow> compliance_error + unit" where
  "ValidateRequirement V r =
     (if rq_ID r = [] then Inl RequirementIDMissing
      else if rq_Provenance r \<noteq> SelfReported then Inl (UnsupportedProvenance (rq_ID r))
      else if rq_Kind r = MinimumClientVersion then
        if rq_Platform r \<noteq> [] \<or> rq_Distribution r \<noteq> [] then Inl (ClientMustNotSpecifyOS (rq_ID r))
        else if clientVersion V (rq_MinimumVersion r) = None then Inl (BadVersion (rq_ID r)) else Inr ()
      else if rq_Kind r = MinimumOSVersion then
        if \<not> supportedOS (rq_Platform r) (rq_Distribution r) then Inl (UnsupportedOS (rq_ID r))
        else if osVersion (rq_Platform r) (rq_Distribution r) (rq_MinimumVersion r) = None then Inl (BadVersion (rq_ID r))
        else Inr ()
      else Inl (UnsupportedCheck (rq_ID r)))"

definition Satisfied :: "Evaluation \<Rightarrow> bool" where
  "Satisfied e = (if length (evl_Results e) = 0 then False else list_all (\<lambda>r. rs_State r = Compliant) (evl_Results e))"

definition observed :: "Requirement \<Rightarrow> Evidence \<Rightarrow> Observation" where
  "observed r e = (if rq_Kind r = MinimumOSVersion then ev_OSVersion e else ev_ClientVersion e)"

definition evaluate_one :: "semver \<Rightarrow> Requirement \<Rightarrow> Subject \<Rightarrow> Evidence option \<Rightarrow> instant \<Rightarrow> ComplianceState \<times> Reason" where
  "evaluate_one V r subject evidence now =
     (case evidence of None \<Rightarrow> (Unknown, MissingEvidence)
      | Some e \<Rightarrow>
        if ev_Subject e \<noteq> subject then (EvaluationError, IdentityMismatch)
        else if ev_ReceivedAt e = zero_time \<or> ev_ReceivedAt e > now then (EvaluationError, InvalidTime)
        else if \<not> now < ev_ReceivedAt e + EvidenceLifetime then (Stale, EvidenceExpired)
        else if ev_Provenance e \<noteq> rq_Provenance r then (Unsupported, ProvenanceMismatch)
        else if \<not> supportedPlatform (ev_Platform e) then (Unsupported, UnsupportedPlatform)
        else if rq_Kind r = MinimumOSVersion \<and> (ev_Platform e \<noteq> rq_Platform r \<or> ev_Distribution e \<noteq> rq_Distribution r)
        then (Unsupported, UnsupportedPlatform)
        else let obs = observed r e
        in if ob_Status obs \<noteq> Collected \<and> ob_Version obs \<noteq> [] then (EvaluationError, MalformedObservation)
           else if ob_Status obs = [] then (Unknown, MissingValue)
           else if ob_Status obs = NotSupported then (Unsupported, UnsupportedObservation)
           else if ob_Status obs = CollectionError then (EvaluationError, CollectionFailed)
           else if ob_Status obs \<noteq> Collected then (EvaluationError, MalformedObservation)
           else if ob_Version obs = [] then (Unknown, MissingValue)
           else (case compare_version V r (ob_Version obs) of None \<Rightarrow> (EvaluationError, InvalidVersion)
             | Some c \<Rightarrow> if c < 0 then (Noncompliant, BelowMinimum) else (Compliant, Passed)))"

definition validate_requirements :: "semver \<Rightarrow> Requirement list \<Rightarrow> compliance_error + string list" where
  "validate_requirements V requirements = eforeach (\<lambda>ids r.
     ebind (ValidateRequirement V r) (\<lambda>_.
     if rq_ID r \<in> set ids then Inl (DuplicateRequirement (rq_ID r)) else Inr (rq_ID r # ids))) [] requirements"

definition Evaluate :: "semver \<Rightarrow> Requirement list \<Rightarrow> Subject \<Rightarrow> Evidence option \<Rightarrow> instant \<Rightarrow> compliance_error + Evaluation" where
  "Evaluate V requirements subject evidence now =
     (if su_TenantID subject = [] \<or> su_DeviceID subject = [] then Inl SubjectMissing
      else if now = zero_time then Inl TimeMissing
      else if length requirements = 0 then Inl RequirementsEmpty
      else ebind (validate_requirements V requirements) (\<lambda>_.
        let results = map (\<lambda>r. let (state, reason) = evaluate_one V r subject evidence now
                           in \<lparr>rs_RequirementID = rq_ID r, rs_State = state, rs_Reason = reason\<rparr>) requirements;
            evaluation = \<lparr>evl_Results = results, evl_ValidUntil = zero_time\<rparr>
        in Inr (if Satisfied evaluation
                then evaluation\<lparr>evl_ValidUntil := (case evidence of Some e \<Rightarrow> ev_ReceivedAt e + EvidenceLifetime | None \<Rightarrow> zero_time)\<rparr>
                else evaluation)))"

section \<open>What a satisfied evaluation means\<close>

definition meets :: "semver \<Rightarrow> Subject \<Rightarrow> instant \<Rightarrow> Evidence \<Rightarrow> Requirement \<Rightarrow> bool" where
  "meets V subject now e r \<longleftrightarrow> ev_Subject e = subject \<and> ev_ReceivedAt e \<le> now \<and> now < ev_ReceivedAt e + EvidenceLifetime
     \<and> ev_Provenance e = rq_Provenance r \<and> supportedPlatform (ev_Platform e)
     \<and> (rq_Kind r = MinimumOSVersion \<longrightarrow> ev_Platform e = rq_Platform r \<and> ev_Distribution e = rq_Distribution r)
     \<and> ob_Status (observed r e) = Collected
     \<and> (\<exists>c. compare_version V r (ob_Version (observed r e)) = Some c \<and> c \<ge> 0)"

lemma clientVersion_Nil [simp]: "clientVersion V [] = None"
  by (simp add: clientVersion_def)

lemma osVersion_Nil [simp]: "osVersion p d [] = None"
  by (simp add: osVersion_def)

lemma compare_version_Nil: "compare_version V r [] = None"
  by (simp add: compare_version_def)

lemma evaluate_one_Compliant:
  "fst (evaluate_one V r subject evidence now) = Compliant \<longleftrightarrow>
     (\<exists>e. evidence = Some e \<and> ev_ReceivedAt e \<noteq> zero_time \<and> meets V subject now e r)"
proof (cases evidence)
  case (Some e)
  show ?thesis
  proof (cases "ev_ReceivedAt e \<noteq> zero_time \<and> ev_Subject e = subject \<and> ev_ReceivedAt e \<le> now \<and> now < ev_ReceivedAt e + EvidenceLifetime
      \<and> ev_Provenance e = rq_Provenance r \<and> supportedPlatform (ev_Platform e)
      \<and> (rq_Kind r = MinimumOSVersion \<longrightarrow> ev_Platform e = rq_Platform r \<and> ev_Distribution e = rq_Distribution r)")
    case False
    then show ?thesis using Some unfolding evaluate_one_def meets_def by (auto simp: not_le)
  next
    case True
    let ?o = "observed r e"
    have "fst (evaluate_one V r subject evidence now) = Compliant \<longleftrightarrow>
        ob_Status ?o = Collected \<and> (\<exists>c. compare_version V r (ob_Version ?o) = Some c \<and> c \<ge> 0)"
      using True Some unfolding evaluate_one_def
      by (auto simp: Let_def kind_defs compare_version_Nil split: option.split)
    then show ?thesis using True Some by (simp add: meets_def)
  qed
qed (simp add: evaluate_one_def)

lemma Evaluate_Satisfied:
  assumes "Evaluate V requirements subject evidence now = Inr e"
  shows "Satisfied e \<longleftrightarrow> (\<exists>x. evidence = Some x \<and> ev_ReceivedAt x \<noteq> zero_time \<and> (\<forall>r\<in>set requirements. meets V subject now x r))"
    and "Satisfied e \<Longrightarrow> evidence = Some x \<Longrightarrow> evl_ValidUntil e = ev_ReceivedAt x + EvidenceLifetime \<and> now < evl_ValidUntil e"
    and "\<not> Satisfied e \<Longrightarrow> evl_ValidUntil e = zero_time"
proof -
  let ?rs = "map (\<lambda>r. let (state, reason) = evaluate_one V r subject evidence now
      in \<lparr>rs_RequirementID = rq_ID r, rs_State = state, rs_Reason = reason\<rparr>) requirements"
  let ?e = "\<lparr>evl_Results = ?rs, evl_ValidUntil = zero_time\<rparr>"
  from assms have ne: "requirements \<noteq> []"
    and e: "e = (if Satisfied ?e then ?e\<lparr>evl_ValidUntil := (case evidence of Some e \<Rightarrow> ev_ReceivedAt e + EvidenceLifetime | None \<Rightarrow> zero_time)\<rparr> else ?e)"
    by (auto simp: Evaluate_def ebind_eq_Inr Let_def split: if_splits)
  have same: "Satisfied e \<longleftrightarrow> Satisfied ?e" using e by (simp add: Satisfied_def)
  have "Satisfied ?e \<longleftrightarrow> (\<forall>r\<in>set requirements. fst (evaluate_one V r subject evidence now) = Compliant)"
    using ne by (simp add: Satisfied_def list_all_iff case_prod_beta Let_def)
  also have "\<dots> \<longleftrightarrow> (\<exists>x. evidence = Some x \<and> ev_ReceivedAt x \<noteq> zero_time \<and> (\<forall>r\<in>set requirements. meets V subject now x r))"
    unfolding evaluate_one_Compliant using ne by (cases evidence) auto
  finally show sat: "Satisfied e \<longleftrightarrow> (\<exists>x. evidence = Some x \<and> ev_ReceivedAt x \<noteq> zero_time \<and> (\<forall>r\<in>set requirements. meets V subject now x r))"
    using same by simp
  show "\<not> Satisfied e \<Longrightarrow> evl_ValidUntil e = zero_time" using e same by simp
  assume s: "Satisfied e" and x: "evidence = Some x"
  then have "evl_ValidUntil e = ev_ReceivedAt x + EvidenceLifetime" using e same by simp
  moreover have "\<forall>r\<in>set requirements. meets V subject now x r" using s sat x by simp
  then have "now < ev_ReceivedAt x + EvidenceLifetime" using ne by (cases requirements) (auto simp: meets_def)
  ultimately show "evl_ValidUntil e = ev_ReceivedAt x + EvidenceLifetime \<and> now < evl_ValidUntil e" by simp
qed

end
