(* ===== verification/Compliance_Gate.thy ===== *)
theory Compliance_Gate
  imports Policy Compliance
begin

text \<open>Compliance guardrails on top of the access policy, \<^verbatim>\<open>policy/compliance.go\<close> and
  \<^verbatim>\<open>policy/compliance_compile.go\<close>: validation of a draft, the preview of one flow, the compilation into
  ingress and egress gates of one device, and the reference evaluator of a gate.\<close>

section \<open>Drafts\<close>

record ComplianceResource =
  cr_Selector :: string
  cr_Protocol :: string
  cr_Ports :: PortRange

record ComplianceGuardrail =
  cg_ID :: string
  cg_Resource :: ComplianceResource
  cg_RequirementSets :: "string list"

record ComplianceDraft =
  cd_TenantID :: string
  cd_RequirementSets :: "(string \<times> Requirement list) list"
  cd_Guardrails :: "ComplianceGuardrail list"
  cd_Remediation :: "ComplianceResource list"

record ComplianceFlow =
  cf_Subject :: Subject
  cf_DestinationHandle :: string
  cf_Address :: "Addr option"
  cf_Protocol :: string
  cf_Port :: uint16
  cf_IdentityAllowed :: bool
  cf_SSHAllowed :: bool

record CompliancePreview =
  cp_Allowed :: bool
  cp_IdentityAllowed :: bool
  cp_SSHAllowed :: bool
  cp_Guardrails :: "string list"
  cp_RequirementSets :: "(string \<times> Evaluation) list"
  cp_ValidUntil :: instant

datatype draft_error =
    IdentityPolicyRequired
  | PolicyInvalid policy_error
  | TenantRequired
  | RequirementSetEmpty string
  | RequirementInvalid compliance_error
  | RequirementRepeated string string
  | GuardrailID string
  | UnsupportedProtocol string
  | ReversedPorts
  | InvalidSelector
  | InvalidCIDR string
  | AddressSelector
  | SelectorPort dst_error
  | UndefinedGroup string
  | NoRequirements string
  | MissingSet string string
  | RepeatedSet string string
  | RemediationOverlaps string
  | SubjectMismatch
  | InvalidFlow
  | AmbiguousDestination
  | UnknownDestination
  | AddressNotOwned
  | EvaluateFailed compliance_error
  | CompileTimeMissing
  | DeviceHandle
  | DeviceEnrollment
  | DeviceAddresses
  | InvalidPrefix string
  | TargetNotEnrolled

definition validateComplianceResource :: "Document \<Rightarrow> ComplianceResource \<Rightarrow> draft_error + unit" where
  "validateComplianceResource d r =
     (let sel = cr_Selector r; slash = CHR ''/'' \<in> set sel
      in if cr_Protocol r \<noteq> ''tcp'' \<and> cr_Protocol r \<noteq> ''udp'' \<and> cr_Protocol r \<noteq> Wildcard then Inl (UnsupportedProtocol (cr_Protocol r))
         else if First (cr_Ports r) > Last (cr_Ports r) then Inl ReversedPorts
         else if trimSpace sel = [] \<or> trimSpace sel \<noteq> sel then Inl InvalidSelector
         else if slash \<and> (case ParsePrefix sel of None \<Rightarrow> True | Some p \<Rightarrow> is4In6 (pf_ip p)) then Inl (InvalidCIDR sel)
         else if \<not> slash \<and> ParseAddr sel \<noteq> None then Inl AddressSelector
         else ebind (if \<not> slash then wrap_err SelectorPort (validateSshDst sel) else Inr ()) (\<lambda>_.
              if undefined_group d sel then Inl (UndefinedGroup sel) else Inr ()))"

definition complianceResourcesOverlap :: "Document \<Rightarrow> ComplianceResource \<Rightarrow> ComplianceResource \<Rightarrow> Node list \<Rightarrow> bool" where
  "complianceResourcesOverlap d a b nodes =
     (if cr_Protocol a \<noteq> Wildcard \<and> cr_Protocol b \<noteq> Wildcard \<and> cr_Protocol a \<noteq> cr_Protocol b then False
      else if Last (cr_Ports a) < First (cr_Ports b) \<or> Last (cr_Ports b) < First (cr_Ports a) then False
      else if cr_Selector a = Wildcard \<or> cr_Selector b = Wildcard \<or> cr_Selector a = cr_Selector b then True
      else case (ParsePrefix (cr_Selector a), ParsePrefix (cr_Selector b)) of
        (Some pa, Some pb) \<Rightarrow> Overlaps pa pb
      | (None, None) \<Rightarrow> list_ex (\<lambda>n. matches d (cr_Selector a) n \<and> matches d (cr_Selector b) n) nodes
      | (pa, pb) \<Rightarrow>
        let (prefix, selector) = (case pb of Some p \<Rightarrow> (p, cr_Selector a) | None \<Rightarrow> (the pa, cr_Selector b))
        in list_ex (\<lambda>n. matches d selector n \<and> list_ex (\<lambda>address. case ParsePrefix address of
             Some owned \<Rightarrow> Overlaps prefix owned | None \<Rightarrow> False) (n_Addresses n)) nodes)"

definition validate_set :: "semver \<Rightarrow> string \<times> Requirement list \<Rightarrow> draft_error + unit" where
  "validate_set V = (\<lambda>(i, requirements).
     if trimSpace i = [] \<or> length requirements = 0 then Inl (RequirementSetEmpty i)
     else ebind (eforeach (\<lambda>seen r. ebind (wrap_err RequirementInvalid (ValidateRequirement V r)) (\<lambda>_.
            if rq_ID r \<in> set seen then Inl (RequirementRepeated (rq_ID r) i) else Inr (rq_ID r # seen))) [] requirements)
          (\<lambda>_. Inr ()))"

definition validate_guardrail :: "Document \<Rightarrow> ComplianceDraft \<Rightarrow> string list \<Rightarrow> ComplianceGuardrail \<Rightarrow> draft_error + string list" where
  "validate_guardrail d draft seen g =
     (if trimSpace (cg_ID g) = [] \<or> cg_ID g \<in> set seen then Inl (GuardrailID (cg_ID g))
      else ebind (validateComplianceResource d (cg_Resource g)) (\<lambda>_.
        if length (cg_RequirementSets g) = 0 then Inl (NoRequirements (cg_ID g))
        else ebind (eforeach (\<lambda>refs i.
               if map_of (cd_RequirementSets draft) i = None then Inl (MissingSet (cg_ID g) i)
               else if i \<in> set refs then Inl (RepeatedSet (cg_ID g) i) else Inr (i # refs)) [] (cg_RequirementSets g))
             (\<lambda>_. Inr (cg_ID g # seen))))"

definition ValidateComplianceDraft :: "semver \<Rightarrow> Document option \<Rightarrow> ComplianceDraft \<Rightarrow> Node list \<Rightarrow> draft_error + unit" where
  "ValidateComplianceDraft V doc draft inventory =
     (case doc of None \<Rightarrow> Inl IdentityPolicyRequired
      | Some d \<Rightarrow>
        ebind (wrap_err PolicyInvalid (Validate d)) (\<lambda>_.
        if cd_TenantID draft = [] then Inl TenantRequired
        else ebind (check_each (validate_set V) (cd_RequirementSets draft)) (\<lambda>_.
             ebind (eforeach (validate_guardrail d draft) [] (cd_Guardrails draft)) (\<lambda>_.
             check_each (\<lambda>r. ebind (validateComplianceResource d r) (\<lambda>_.
               case find (\<lambda>g. complianceResourcesOverlap d r (cg_Resource g) inventory) (cd_Guardrails draft) of
                 Some g \<Rightarrow> Inl (RemediationOverlaps (cg_ID g)) | None \<Rightarrow> Inr ())) (cd_Remediation draft)))))"

section \<open>Preview of one flow\<close>

definition complianceSelectorMatches :: "Document \<Rightarrow> string \<Rightarrow> Node option \<Rightarrow> Addr \<Rightarrow> bool" where
  "complianceSelectorMatches d selector node address =
     (if selector = Wildcard then True
      else case ParsePrefix selector of Some prefix \<Rightarrow> Contains prefix address
        | None \<Rightarrow> (case node of Some n \<Rightarrow> matches d selector n | None \<Rightarrow> False))"

definition requirements_of :: "ComplianceDraft \<Rightarrow> string \<Rightarrow> Requirement list" where
  "requirements_of draft i = (case map_of (cd_RequirementSets draft) i of Some rs \<Rightarrow> rs | None \<Rightarrow> [])"

definition resolve_destination :: "Node list \<Rightarrow> string \<Rightarrow> Addr \<Rightarrow> draft_error + Node option" where
  "resolve_destination inventory handle address =
     (if handle = [] then Inr None
      else case filter (\<lambda>n. n_Handle n = handle) inventory of
        [] \<Rightarrow> Inl UnknownDestination
      | [n] \<Rightarrow> if list_ex (\<lambda>a. case ParsePrefix a of Some p \<Rightarrow> Contains p address | None \<Rightarrow> False) (n_Addresses n)
               then Inr (Some n) else Inl AddressNotOwned
      | _ \<Rightarrow> Inl AmbiguousDestination)"

definition earlier :: "instant \<Rightarrow> instant \<Rightarrow> instant" where
  "earlier deadline t = (if t \<noteq> zero_time \<and> (deadline = zero_time \<or> t < deadline) then t else deadline)"

definition in_range :: "uint16 \<Rightarrow> PortRange \<Rightarrow> bool" where
  "in_range port p \<longleftrightarrow> \<not> (port < First p \<or> port > Last p)"

definition PreviewCompliance :: "semver \<Rightarrow> Document option \<Rightarrow> ComplianceDraft \<Rightarrow> Node list \<Rightarrow> ComplianceFlow \<Rightarrow> Evidence option
    \<Rightarrow> instant \<Rightarrow> draft_error + CompliancePreview" where
  "PreviewCompliance V doc draft inventory flow evidence now =
     ebind (ValidateComplianceDraft V doc draft inventory) (\<lambda>_.
     if su_TenantID (cf_Subject flow) \<noteq> cd_TenantID draft \<or> su_DeviceID (cf_Subject flow) = [] \<or> now = zero_time
     then Inl SubjectMismatch
     else case cf_Address flow of None \<Rightarrow> Inl InvalidFlow
     | Some address \<Rightarrow>
       if is4In6 address \<or> zone address \<noteq> [] \<or> (cf_Protocol flow \<noteq> ''tcp'' \<and> cf_Protocol flow \<noteq> ''udp'') then Inl InvalidFlow
       else ebind (resolve_destination inventory (cf_DestinationHandle flow) address) (\<lambda>destination.
         let hits = filter (\<lambda>g. let r = cg_Resource g in (cr_Protocol r = Wildcard \<or> cr_Protocol r = cf_Protocol flow)
                \<and> in_range (cf_Port flow) (cr_Ports r) \<and> complianceSelectorMatches (the doc) (cr_Selector r) destination address)
              (cd_Guardrails draft);
             ids = sort (remdups (concat (map cg_RequirementSets hits)))
         in ebind (emap (\<lambda>i. wrap_err EvaluateFailed (Evaluate V (requirements_of draft i) (cf_Subject flow) evidence now)) ids) (\<lambda>evs.
            let allowed = cf_IdentityAllowed flow \<and> (cf_Protocol flow \<noteq> ''tcp'' \<or> cf_Port flow \<noteq> 22 \<or> cf_SSHAllowed flow)
                    \<and> list_all Satisfied evs
            in Inr \<lparr>cp_Allowed = allowed, cp_IdentityAllowed = cf_IdentityAllowed flow, cp_SSHAllowed = cf_SSHAllowed flow,
                 cp_Guardrails = sort (map cg_ID hits), cp_RequirementSets = zip ids evs,
                 cp_ValidUntil = (if allowed then foldl earlier zero_time (map evl_ValidUntil evs) else zero_time)\<rparr>)))"

section \<open>Compilation for one device\<close>

record ComplianceDevice =
  dv_Node :: Node
  dv_Subject :: Subject
  dv_Evidence :: "Evidence option"

record ComplianceSourceDecision =
  sd_Handle :: string
  sd_ValidUntil :: instant

record ComplianceGate =
  gt_GuardrailID :: string
  gt_Destinations :: "Prefix list"
  gt_Protocol :: string
  gt_Ports :: PortRange
  gt_Sources :: "ComplianceSourceDecision list"

record ComplianceCompilation =
  cc_TenantID :: string
  cc_Node :: string
  cc_CompiledAt :: instant
  cc_Ingress :: "ComplianceGate list"
  cc_Egress :: "ComplianceGate list"
  cc_valid :: bool

definition compliancePrefix :: "string \<Rightarrow> draft_error + Prefix" where
  "compliancePrefix s =
     (case ParsePrefix s of None \<Rightarrow> Inl (InvalidPrefix s)
      | Some p \<Rightarrow> if is4In6 (pf_ip p) then Inl (InvalidPrefix s) else Inr (Masked p))"

definition normalizeCompliancePrefixes :: "Prefix list \<Rightarrow> Prefix list" where
  "normalizeCompliancePrefixes prefixes = remdups_adj (sort_key (\<lambda>p. (addr_key (pf_ip p), pf_bits p)) prefixes)"

text \<open>The devices read so far: their handles, their enrollments and the prefixes each owns.\<close>

type_synonym roster = "string list \<times> string list \<times> (string \<times> Prefix list) list"

definition admit_device :: "ComplianceDraft \<Rightarrow> roster \<Rightarrow> ComplianceDevice \<Rightarrow> draft_error + roster" where
  "admit_device draft = (\<lambda>(handles, subjects, owned) device.
     let handle = n_Handle (dv_Node device); subject = dv_Subject device
     in if handle = [] \<or> handle = Wildcard \<or> handle \<in> set handles then Inl DeviceHandle
        else if su_TenantID subject \<noteq> cd_TenantID draft \<or> su_DeviceID subject = [] \<or> su_DeviceID subject \<in> set subjects
        then Inl DeviceEnrollment
        else if length (n_Addresses (dv_Node device)) = 0 then Inl DeviceAddresses
        else ebind (emap compliancePrefix (n_Addresses (dv_Node device))) (\<lambda>prefixes.
             Inr (handle # handles, su_DeviceID subject # subjects, (handle, prefixes) # owned)))"

definition owned_by :: "(string \<times> Prefix list) list \<Rightarrow> string \<Rightarrow> Prefix list" where
  "owned_by owned handle = (case map_of owned handle of Some ps \<Rightarrow> ps | None \<Rightarrow> [])"

definition intersections :: "Prefix list \<Rightarrow> Prefix \<Rightarrow> Prefix list" where
  "intersections scopes prefix =
     map (\<lambda>s. if pf_bits prefix > pf_bits s then prefix else s) (filter (\<lambda>s. Overlaps s prefix) scopes)"

text \<open>The prefixes a guardrail covers at the target's ingress and on its egress.\<close>

definition guard_scopes :: "Document \<Rightarrow> Node list \<Rightarrow> (string \<times> Prefix list) list \<Rightarrow> string \<Rightarrow> Prefix list \<Rightarrow> string
    \<Rightarrow> Prefix list \<times> Prefix list" where
  "guard_scopes d inventory owned target ingressScope selector =
     (if selector = Wildcard then (ingressScope, [\<lparr>pf_ip = Addr4 0, pf_bits = 0\<rparr>, \<lparr>pf_ip = Addr6 0 [], pf_bits = 0\<rparr>])
      else case ParsePrefix selector of
        Some prefix \<Rightarrow> (intersections ingressScope (Masked prefix), [Masked prefix])
      | None \<Rightarrow>
        let hits = filter (matches d selector) inventory
        in (concat (map (\<lambda>n. if n_Handle n = target then owned_by owned target else []) hits),
            concat (map (\<lambda>n. owned_by owned (n_Handle n)) hits)))"

definition device_decision :: "semver \<Rightarrow> ComplianceDraft \<Rightarrow> instant \<Rightarrow> string list \<Rightarrow> ComplianceDevice
    \<Rightarrow> draft_error + ComplianceSourceDecision list" where
  "device_decision V draft now sets device =
     ebind (emap (\<lambda>i. wrap_err EvaluateFailed (Evaluate V (requirements_of draft i) (dv_Subject device) (dv_Evidence device) now)) sets)
       (\<lambda>evs. Inr (if list_all Satisfied evs
          then [\<lparr>sd_Handle = n_Handle (dv_Node device), sd_ValidUntil = foldl earlier zero_time (map evl_ValidUntil evs)\<rparr>] else []))"

definition compile_guard :: "semver \<Rightarrow> Document \<Rightarrow> ComplianceDraft \<Rightarrow> ComplianceDevice list \<Rightarrow> (string \<times> Prefix list) list \<Rightarrow> string
    \<Rightarrow> Prefix list \<Rightarrow> instant \<Rightarrow> ComplianceGuardrail \<Rightarrow> draft_error + (ComplianceGate list \<times> ComplianceGate list)" where
  "compile_guard V d draft devices owned target ingressScope now guard =
     (let r = cg_Resource guard;
          (ingress, egress) = guard_scopes d (map dv_Node devices) owned target ingressScope (cr_Selector r)
      in if length ingress = 0 \<and> length egress = 0 then Inr ([], [])
         else ebind (emap (\<lambda>device.
                if length ingress = 0 \<and> n_Handle (dv_Node device) \<noteq> target then Inr []
                else device_decision V draft now (cg_RequirementSets guard) device) devices) (\<lambda>decisions.
              let gate = (\<lambda>dsts sources. \<lparr>gt_GuardrailID = cg_ID guard, gt_Destinations = normalizeCompliancePrefixes dsts,
                    gt_Protocol = cr_Protocol r, gt_Ports = cr_Ports r, gt_Sources = sources\<rparr>)
              in Inr (if length ingress > 0 then [gate ingress (sort_key sd_Handle (concat decisions))] else [],
                      if length egress > 0 then [gate egress (filter (\<lambda>s. sd_Handle s = target) (concat decisions))] else [])))"

definition CompileCompliance :: "semver \<Rightarrow> Document option \<Rightarrow> ComplianceDraft \<Rightarrow> ComplianceDevice list \<Rightarrow> string \<Rightarrow> string list
    \<Rightarrow> instant \<Rightarrow> draft_error + ComplianceCompilation" where
  "CompileCompliance V doc draft devices target routedPrefixes now =
     (if now = zero_time then Inl CompileTimeMissing
      else ebind (eforeach (admit_device draft) ([], [], []) devices) (\<lambda>(handles, subjects, owned).
        if target \<notin> set handles then Inl TargetNotEnrolled
        else ebind (ValidateComplianceDraft V doc draft (map dv_Node devices)) (\<lambda>_.
             ebind (emap compliancePrefix routedPrefixes) (\<lambda>routed.
             ebind (emap (compile_guard V (the doc) draft devices owned target (owned_by owned target @ routed) now)
                      (sort_key cg_ID (cd_Guardrails draft))) (\<lambda>gates.
             Inr \<lparr>cc_TenantID = cd_TenantID draft, cc_Node = target, cc_CompiledAt = now,
                  cc_Ingress = concat (map fst gates), cc_Egress = concat (map snd gates), cc_valid = True\<rparr>)))))"

section \<open>Evaluation of the gates\<close>

definition complianceGatesSatisfied :: "ComplianceGate list \<Rightarrow> string \<Rightarrow> Addr option \<Rightarrow> string \<Rightarrow> uint16 \<Rightarrow> instant \<Rightarrow> bool" where
  "complianceGatesSatisfied gates source destination protocol port now =
     (case destination of None \<Rightarrow> False
      | Some a \<Rightarrow>
        if source = [] \<or> source = Wildcard \<or> is4In6 a \<or> zone a \<noteq> [] \<or> (protocol \<noteq> ''tcp'' \<and> protocol \<noteq> ''udp'') then False
        else list_all (\<lambda>g.
          if gt_Protocol g \<noteq> Wildcard \<and> gt_Protocol g \<noteq> protocol then True
          else if port < First (gt_Ports g) \<or> port > Last (gt_Ports g) then True
          else if \<not> list_ex (\<lambda>p. Contains p a) (gt_Destinations g) then True
          else list_ex (\<lambda>s. sd_Handle s = source \<and> now < sd_ValidUntil s) (gt_Sources g)) gates)"

definition IngressSatisfied :: "ComplianceCompilation option \<Rightarrow> string \<Rightarrow> Addr option \<Rightarrow> string \<Rightarrow> uint16 \<Rightarrow> instant \<Rightarrow> bool" where
  "IngressSatisfied c source destination protocol port now =
     (case c of None \<Rightarrow> False
      | Some c \<Rightarrow> if \<not> cc_valid c \<or> now = zero_time \<or> now < cc_CompiledAt c then False
          else complianceGatesSatisfied (cc_Ingress c) source destination protocol port now)"

definition EgressSatisfied :: "ComplianceCompilation option \<Rightarrow> Addr option \<Rightarrow> string \<Rightarrow> uint16 \<Rightarrow> instant \<Rightarrow> bool" where
  "EgressSatisfied c destination protocol port now =
     (case c of None \<Rightarrow> False
      | Some c \<Rightarrow> if \<not> cc_valid c \<or> now = zero_time \<or> now < cc_CompiledAt c then False
          else complianceGatesSatisfied (cc_Egress c) (cc_Node c) destination protocol port now)"

end
