(* ===== verification/Compliance_Trust.thy ===== *)
theory Compliance_Trust
  imports Compliance_Gate Policy_Trust
begin

text \<open>What the compliance gates guarantee: a flow into a guarded resource passes only from a device whose
  own evidence met every requirement when the gates were compiled and has not expired since.\<close>

section \<open>Prefixes\<close>

lemma word_xor_0 [simp]: "v XOR w = 0 \<longleftrightarrow> v = (w :: 'a::len word)"
  by (metis xor.left_neutral xor.assoc xor_self_eq xor.right_neutral)

lemma drop_bit_mono: "drop_bit k v = drop_bit k w \<Longrightarrow> k \<le> l \<Longrightarrow> drop_bit l v = drop_bit l (w :: 'a::len word)"
  by (metis drop_bit_drop_bit le_add_diff_inverse2)

lemma drop_push_drop: "drop_bit k (push_bit k (drop_bit k (w :: 'a::len word))) = drop_bit k w"
  by (rule bit_eqI) (auto simp: bit_simps dest: bit_imp_le_length)

lemma Contains_Masked [simp]: "Contains (Masked p) a = Contains p a"
  by (cases "pf_ip p"; cases a) (simp_all add: Contains_def Masked_def drop_push_drop)

lemma addr_contains_mask:
  assumes "addr_contains b ip a" and "m \<le> b"
  shows "mask_addr m ip = mask_addr m a" and "bitLen ip = bitLen a"
proof -
  have d: "push_bit (n - m) (drop_bit (n - m) w) = push_bit (n - m) (drop_bit (n - m) v)"
    if "drop_bit (n - b) v = drop_bit (n - b) w" for n and v w :: "'a::len word"
    using drop_bit_mono [OF that, of "n - m"] assms(2) by (simp add: diff_le_mono2)
  show "mask_addr m ip = mask_addr m a" using assms(1) by (cases ip; cases a) (simp_all, (erule d)+)
  show "bitLen ip = bitLen a" using assms(1) by (cases ip; cases a) simp_all
qed

lemma Contains_Overlaps:
  assumes "Contains p a" and "Contains q a"
  shows "Overlaps p q"
proof -
  have "addr_contains (pf_bits p) (pf_ip p) a" "addr_contains (pf_bits q) (pf_ip q) a" using assms by (simp_all add: Contains_def)
  from addr_contains_mask [OF this(1)] addr_contains_mask [OF this(2)]
  have "mask_addr m (pf_ip p) = mask_addr m (pf_ip q)" if "m \<le> pf_bits p" "m \<le> pf_bits q" for m using that by simp
  moreover have "bitLen (pf_ip p) = bitLen (pf_ip q)"
    using assms by (cases "pf_ip p"; cases "pf_ip q"; cases a) (simp_all add: Contains_def)
  ultimately show ?thesis by (simp add: Overlaps_def Let_def)
qed

lemma intersections_contain:
  assumes "s \<in> set scopes" and "Contains s a" and "Contains p a"
  shows "\<exists>q\<in>set (intersections scopes p). Contains q a"
proof
  show "(if pf_bits p > pf_bits s then p else s) \<in> set (intersections scopes p)"
    using assms(1) Contains_Overlaps [OF assms(2,3)] unfolding intersections_def by simp
  show "Contains (if pf_bits p > pf_bits s then p else s) a" using assms(2,3) by simp
qed

lemma normalizeCompliancePrefixes_set [simp]: "set (normalizeCompliancePrefixes ps) = set ps"
  by (simp add: normalizeCompliancePrefixes_def)

section \<open>Devices and their decisions\<close>

declare wrap_err_Inr [simp]

lemma earlier_const: "ts \<noteq> [] \<Longrightarrow> \<forall>t\<in>set ts. t = x \<Longrightarrow> foldl earlier zero_time ts = x"
proof -
  assume "ts \<noteq> []" and c: "\<forall>t\<in>set ts. t = x"
  have const: "foldl earlier x us = x" if "\<forall>t\<in>set us. t = x" for us
    using that by (induction us) (auto simp: earlier_def)
  obtain u us where "ts = u # us" using \<open>ts \<noteq> []\<close> by (cases ts) auto
  then show ?thesis using c const [of us] by (auto simp: earlier_def)
qed

definition passes :: "semver \<Rightarrow> ComplianceDraft \<Rightarrow> instant \<Rightarrow> string list \<Rightarrow> ComplianceDevice \<Rightarrow> Evidence \<Rightarrow> bool" where
  "passes V draft t sets device e \<longleftrightarrow> dv_Evidence device = Some e
     \<and> (\<forall>i\<in>set sets. \<forall>r\<in>set (requirements_of draft i). meets V (dv_Subject device) t e r)"

lemma device_decision_passes:
  assumes "device_decision V draft t sets device = Inr ds" and "s \<in> set ds" and "sets \<noteq> []"
  obtains e where "sd_Handle s = n_Handle (dv_Node device)" "passes V draft t sets device e"
    "ev_ReceivedAt e \<le> t" "sd_ValidUntil s = ev_ReceivedAt e + EvidenceLifetime"
proof -
  let ?eval = "\<lambda>i. Evaluate V (requirements_of draft i) (dv_Subject device) (dv_Evidence device) t"
  from assms obtain evs where evs: "emap (\<lambda>i. wrap_err EvaluateFailed (?eval i)) sets = Inr evs" and sat: "list_all Satisfied evs"
    and s: "s = \<lparr>sd_Handle = n_Handle (dv_Node device), sd_ValidUntil = foldl earlier zero_time (map evl_ValidUntil evs)\<rparr>"
    by (auto simp: device_decision_def ebind_eq_Inr split: if_splits)
  have ev: "\<exists>i\<in>set sets. ?eval i = Inr e" if "e \<in> set evs" for e using emap_set [OF evs, of e] that by simp
  have vi: "\<exists>e. ?eval i = Inr e \<and> e \<in> set evs" if i: "i \<in> set sets" for i
  proof -
    from emap_reads [OF evs i] obtain e where e: "?eval i = Inr e" by auto
    then have "e \<in> set evs" using emap_set [OF evs, of e] i by auto
    with e show ?thesis by blast
  qed
  obtain i0 where i0: "i0 \<in> set sets" using assms(3) by (cases sets) auto
  from vi [OF i0] obtain e0 where e0: "?eval i0 = Inr e0" "e0 \<in> set evs" by blast
  then have "Satisfied e0" using sat by (simp add: list_all_iff)
  with Evaluate_Satisfied(1) [OF e0(1)] obtain e where e: "dv_Evidence device = Some e" by blast
  have until: "evl_ValidUntil x = ev_ReceivedAt e + EvidenceLifetime" if x: "x \<in> set evs" for x
  proof -
    from ev [OF x] obtain i where "?eval i = Inr x" by blast
    moreover have "Satisfied x" using sat x by (simp add: list_all_iff)
    ultimately show ?thesis using Evaluate_Satisfied(2) e by blast
  qed
  have met: "\<forall>r\<in>set (requirements_of draft i). meets V (dv_Subject device) t e r" if i: "i \<in> set sets" for i
  proof -
    from vi [OF i] obtain x where x: "?eval i = Inr x" "x \<in> set evs" by blast
    then have "Satisfied x" using sat by (simp add: list_all_iff)
    with Evaluate_Satisfied(1) [OF x(1)] e show ?thesis by auto
  qed
  have "requirements_of draft i0 \<noteq> []" using e0(1) by (auto simp: Evaluate_def split: if_splits)
  then obtain r where "r \<in> set (requirements_of draft i0)" by (cases "requirements_of draft i0") auto
  then have "ev_ReceivedAt e \<le> t" using met [OF i0] by (simp add: meets_def)
  moreover have "sd_ValidUntil s = ev_ReceivedAt e + EvidenceLifetime"
    unfolding s using until e0(2) by (simp, intro earlier_const) auto
  moreover have "passes V draft t sets device e" using met e by (simp add: passes_def)
  ultimately show thesis using that s by simp
qed

lemma admit_devices:
  assumes "eforeach (admit_device draft) ([], [], []) devices = Inr (handles, subjects, owned)"
  shows "set handles = (\<lambda>v. n_Handle (dv_Node v)) ` set devices" and "distinct (map (\<lambda>v. n_Handle (dv_Node v)) devices)"
    and "v \<in> set devices \<Longrightarrow> \<exists>ps. map_of owned (n_Handle (dv_Node v)) = Some ps \<and> emap compliancePrefix (n_Addresses (dv_Node v)) = Inr ps"
proof -
  have "set handles = (\<lambda>v. n_Handle (dv_Node v)) ` set devices \<and> distinct (map (\<lambda>v. n_Handle (dv_Node v)) devices)
    \<and> (\<forall>v\<in>set devices. \<exists>ps. map_of owned (n_Handle (dv_Node v)) = Some ps \<and> emap compliancePrefix (n_Addresses (dv_Node v)) = Inr ps)"
    using assms
  proof (induction devices arbitrary: handles subjects owned rule: rev_induct)
    case (snoc v vs)
    from snoc.prems obtain hs ss os where pre: "eforeach (admit_device draft) ([], [], []) vs = Inr (hs, ss, os)"
      and step: "admit_device draft (hs, ss, os) v = Inr (handles, subjects, owned)"
      by (auto simp: eforeach_append ebind_eq_Inr)
    note IH = snoc.IH [OF pre]
    from step obtain ps where v: "n_Handle (dv_Node v) \<notin> set hs" "emap compliancePrefix (n_Addresses (dv_Node v)) = Inr ps"
      "handles = n_Handle (dv_Node v) # hs" "owned = (n_Handle (dv_Node v), ps) # os"
      by (auto simp: admit_device_def Let_def ebind_eq_Inr split: if_splits)
    have other: "n_Handle (dv_Node w) \<noteq> n_Handle (dv_Node v)" if "w \<in> set vs" for w
      using that v(1) IH by (metis imageI)
    show ?case
    proof (intro conjI ballI)
      show "set handles = (\<lambda>v. n_Handle (dv_Node v)) ` set (vs @ [v])" using v(3) IH by simp
      show "distinct (map (\<lambda>v. n_Handle (dv_Node v)) (vs @ [v]))" using v(1) IH by simp
      fix w assume "w \<in> set (vs @ [v])"
      then consider "w = v" | "w \<in> set vs" by auto
      then show "\<exists>ps. map_of owned (n_Handle (dv_Node w)) = Some ps \<and> emap compliancePrefix (n_Addresses (dv_Node w)) = Inr ps"
      proof cases
        case 1
        then show ?thesis using v(2,4) by simp
      next
        case 2
        then have "map_of owned (n_Handle (dv_Node w)) = map_of os (n_Handle (dv_Node w))" using v(4) other by simp
        with 2 IH show ?thesis by metis
      qed
    qed
  qed simp
  then show "set handles = (\<lambda>v. n_Handle (dv_Node v)) ` set devices" "distinct (map (\<lambda>v. n_Handle (dv_Node v)) devices)"
    "v \<in> set devices \<Longrightarrow> \<exists>ps. map_of owned (n_Handle (dv_Node v)) = Some ps \<and> emap compliancePrefix (n_Addresses (dv_Node v)) = Inr ps"
    by auto
qed

section \<open>What a guardrail covers\<close>

definition text_contains :: "Addr \<Rightarrow> string \<Rightarrow> bool" where
  "text_contains a s \<longleftrightarrow> (\<exists>p. ParsePrefix s = Some p \<and> Contains p a)"

text \<open>A destination address at a device: owned by it or routed through it, and named by the selector. On the
  way out any address the selector names is covered.\<close>

definition covers_in :: "Document \<Rightarrow> Node \<Rightarrow> string list \<Rightarrow> string \<Rightarrow> Addr \<Rightarrow> bool" where
  "covers_in d n routed sel a \<longleftrightarrow>
     (if sel = Wildcard then list_ex (text_contains a) (n_Addresses n @ routed)
      else case ParsePrefix sel of
        Some p \<Rightarrow> Contains p a \<and> list_ex (text_contains a) (n_Addresses n @ routed)
      | None \<Rightarrow> matches d sel n \<and> list_ex (text_contains a) (n_Addresses n))"

definition covers_out :: "Document \<Rightarrow> Node list \<Rightarrow> string \<Rightarrow> Addr \<Rightarrow> bool" where
  "covers_out d inventory sel a \<longleftrightarrow>
     (if sel = Wildcard then zone a = []
      else case ParsePrefix sel of
        Some p \<Rightarrow> Contains p a
      | None \<Rightarrow> \<exists>n\<in>set inventory. matches d sel n \<and> list_ex (text_contains a) (n_Addresses n))"

lemma prefixes_contain:
  assumes "emap compliancePrefix ss = Inr ps"
  shows "(\<exists>p\<in>set ps. Contains p a) \<longleftrightarrow> list_ex (text_contains a) ss"
proof -
  have one: "(\<exists>p. compliancePrefix s = Inr p \<and> Contains p a) \<longleftrightarrow> text_contains a s" if "s \<in> set ss" for s
    using emap_reads [OF assms that] by (auto simp: compliancePrefix_def text_contains_def split: option.splits if_splits)
  have "(\<exists>p\<in>set ps. Contains p a) \<longleftrightarrow> (\<exists>s\<in>set ss. \<exists>p. compliancePrefix s = Inr p \<and> Contains p a)"
    using emap_set [OF assms] by blast
  then show ?thesis using one by (auto simp: list_ex_iff)
qed

lemma guard_scopes_in:
  assumes "emap compliancePrefix (n_Addresses n) = Inr ps" and "map_of owned (n_Handle n) = Some ps"
    and "emap compliancePrefix routed = Inr rs" and "n \<in> set inventory" and "covers_in d n routed sel a"
  shows "\<exists>p\<in>set (fst (guard_scopes d inventory owned (n_Handle n) (owned_by owned (n_Handle n) @ rs) sel)). Contains p a"
proof -
  have own: "owned_by owned (n_Handle n) = ps" using assms(2) by (simp add: owned_by_def)
  note in_own = prefixes_contain [OF assms(1), of a] and in_routes = prefixes_contain [OF assms(3), of a]
  consider (wild) "sel = Wildcard" | (cidr) p where "sel \<noteq> Wildcard" "ParsePrefix sel = Some p" | (node) "sel \<noteq> Wildcard" "ParsePrefix sel = None"
    by (cases "ParsePrefix sel") auto
  then show ?thesis
  proof cases
    case wild
    with assms(5) in_own in_routes show ?thesis by (auto simp: guard_scopes_def covers_in_def own)
  next
    case cidr
    with assms(5) in_own in_routes obtain s where "s \<in> set (ps @ rs)" "Contains s a" "Contains (Masked p) a" by (auto simp: covers_in_def)
    from intersections_contain [OF this] cidr show ?thesis by (simp add: guard_scopes_def own)
  next
    case node
    with assms(5) in_own obtain p where p: "p \<in> set ps" "Contains p a" "matches d sel n" by (auto simp: covers_in_def)
    have "p \<in> set (fst (guard_scopes d inventory owned (n_Handle n) (owned_by owned (n_Handle n) @ rs) sel))"
      using node p(1,3) assms(4) by (auto simp: guard_scopes_def Let_def own)
    with p(2) show ?thesis by blast
  qed
qed

lemma guard_scopes_out:
  assumes "\<And>n. n \<in> set inventory \<Longrightarrow> \<exists>ps. map_of owned (n_Handle n) = Some ps \<and> emap compliancePrefix (n_Addresses n) = Inr ps"
    and "covers_out d inventory sel a"
  shows "\<exists>p\<in>set (snd (guard_scopes d inventory owned target scope sel)). Contains p a"
proof -
  consider (wild) "sel = Wildcard" | (cidr) p where "sel \<noteq> Wildcard" "ParsePrefix sel = Some p" | (node) "sel \<noteq> Wildcard" "ParsePrefix sel = None"
    by (cases "ParsePrefix sel") auto
  then show ?thesis
  proof cases
    case wild
    then have z: "zone a = []" using assms(2) by (simp add: covers_out_def)
    show ?thesis using wild z by (cases a) (simp_all add: guard_scopes_def Contains_def)
  next
    case cidr
    with assms(2) show ?thesis by (simp add: guard_scopes_def covers_out_def)
  next
    case node
    with assms(2) obtain n where n: "n \<in> set inventory" "matches d sel n" "list_ex (text_contains a) (n_Addresses n)"
      by (auto simp: covers_out_def)
    from assms(1) [OF n(1)] obtain ps where ps: "map_of owned (n_Handle n) = Some ps" "emap compliancePrefix (n_Addresses n) = Inr ps" by blast
    then obtain p where "p \<in> set ps" "Contains p a" using prefixes_contain [OF ps(2), of a] n(3) by blast
    moreover from this have "p \<in> set (snd (guard_scopes d inventory owned target scope sel))"
      using n(1,2) ps(1) node by (force simp: guard_scopes_def Let_def owned_by_def)
    ultimately show ?thesis by blast
  qed
qed

section \<open>Gates\<close>

lemma Validate_guardrail:
  assumes "ValidateComplianceDraft V doc draft inventory = Inr ()" and "g \<in> set (cd_Guardrails draft)"
  shows "cg_RequirementSets g \<noteq> []"
proof -
  from assms(1) obtain d u where "eforeach (validate_guardrail d draft) [] (cd_Guardrails draft) = Inr u"
    by (auto simp: ValidateComplianceDraft_def ebind_eq_Inr split: option.splits if_splits)
  from eforeach_reads [OF this assms(2)] show ?thesis
    by (auto simp: validate_guardrail_def ebind_eq_Inr split: if_splits)
qed

lemma compile_guard_gates:
  assumes "compile_guard V d draft devices owned target scope t g = Inr (ins, outs)" and "cg_RequirementSets g \<noteq> []"
    and "guard_scopes d (map dv_Node devices) owned target scope (cr_Selector (cg_Resource g)) = (ingress, egress)"
  shows "ingress \<noteq> [] \<Longrightarrow> \<exists>gate\<in>set ins. gt_Destinations gate = normalizeCompliancePrefixes ingress
      \<and> gt_Protocol gate = cr_Protocol (cg_Resource g) \<and> gt_Ports gate = cr_Ports (cg_Resource g)
      \<and> (\<forall>s\<in>set (gt_Sources gate). \<exists>v\<in>set devices. \<exists>e. sd_Handle s = n_Handle (dv_Node v)
           \<and> passes V draft t (cg_RequirementSets g) v e \<and> ev_ReceivedAt e \<le> t \<and> sd_ValidUntil s = ev_ReceivedAt e + EvidenceLifetime)"
    and "egress \<noteq> [] \<Longrightarrow> \<exists>gate\<in>set outs. gt_Destinations gate = normalizeCompliancePrefixes egress
      \<and> gt_Protocol gate = cr_Protocol (cg_Resource g) \<and> gt_Ports gate = cr_Ports (cg_Resource g)
      \<and> (\<forall>s\<in>set (gt_Sources gate). \<exists>v\<in>set devices. \<exists>e. sd_Handle s = n_Handle (dv_Node v)
           \<and> passes V draft t (cg_RequirementSets g) v e \<and> ev_ReceivedAt e \<le> t \<and> sd_ValidUntil s = ev_ReceivedAt e + EvidenceLifetime)"
proof -
  let ?dec = "\<lambda>v. if length ingress = 0 \<and> n_Handle (dv_Node v) \<noteq> target then Inr [] else device_decision V draft t (cg_RequirementSets g) v"
  let ?gate = "\<lambda>dsts sources. \<lparr>gt_GuardrailID = cg_ID g, gt_Destinations = normalizeCompliancePrefixes dsts,
     gt_Protocol = cr_Protocol (cg_Resource g), gt_Ports = cr_Ports (cg_Resource g), gt_Sources = sources\<rparr>"
  let ?good = "\<lambda>s. \<exists>v\<in>set devices. \<exists>e. sd_Handle s = n_Handle (dv_Node v)
     \<and> passes V draft t (cg_RequirementSets g) v e \<and> ev_ReceivedAt e \<le> t \<and> sd_ValidUntil s = ev_ReceivedAt e + EvidenceLifetime"
  have res: "\<exists>decisions. emap ?dec devices = Inr decisions
      \<and> ins = (if length ingress > 0 then [?gate ingress (sort_key sd_Handle (concat decisions))] else [])
      \<and> outs = (if length egress > 0 then [?gate egress (filter (\<lambda>s. sd_Handle s = target) (concat decisions))] else [])"
    if "ingress \<noteq> [] \<or> egress \<noteq> []"
    using assms(1,3) that by (auto simp: compile_guard_def Let_def ebind_eq_Inr split: if_splits)
  have good: "?good s" if dec: "emap ?dec devices = Inr decisions" and s: "s \<in> set (concat decisions)" for decisions s
  proof -
    from s obtain ds where "ds \<in> set decisions" "s \<in> set ds" by auto
    with emap_set [OF dec] obtain v where v: "v \<in> set devices" "?dec v = Inr ds" by blast
    with \<open>s \<in> set ds\<close> have "device_decision V draft t (cg_RequirementSets g) v = Inr ds" by (auto split: if_splits)
    from this \<open>s \<in> set ds\<close> assms(2) show ?thesis
      by (rule device_decision_passes) (use v(1) in blast)
  qed
  show "\<exists>gate\<in>set ins. gt_Destinations gate = normalizeCompliancePrefixes ingress \<and> gt_Protocol gate = cr_Protocol (cg_Resource g)
      \<and> gt_Ports gate = cr_Ports (cg_Resource g) \<and> (\<forall>s\<in>set (gt_Sources gate). ?good s)" if "ingress \<noteq> []"
    using res that good by fastforce
  show "\<exists>gate\<in>set outs. gt_Destinations gate = normalizeCompliancePrefixes egress \<and> gt_Protocol gate = cr_Protocol (cg_Resource g)
      \<and> gt_Ports gate = cr_Ports (cg_Resource g) \<and> (\<forall>s\<in>set (gt_Sources gate). ?good s)" if "egress \<noteq> []"
    using res that good by fastforce
qed

lemma gate_needs_source:
  assumes "complianceGatesSatisfied gates src (Some a) protocol port now" and "gate \<in> set gates"
    and "gt_Protocol gate = Wildcard \<or> gt_Protocol gate = protocol" and "in_range port (gt_Ports gate)"
    and "\<exists>p\<in>set (gt_Destinations gate). Contains p a"
  shows "\<exists>s\<in>set (gt_Sources gate). sd_Handle s = src \<and> now < sd_ValidUntil s"
proof -
  have "\<forall>g\<in>set gates. (gt_Protocol g = Wildcard \<or> gt_Protocol g = protocol) \<longrightarrow> in_range port (gt_Ports g)
      \<longrightarrow> (\<exists>p\<in>set (gt_Destinations g). Contains p a) \<longrightarrow> (\<exists>s\<in>set (gt_Sources g). sd_Handle s = src \<and> now < sd_ValidUntil s)"
    using assms(1) unfolding complianceGatesSatisfied_def list_all_iff list_ex_iff in_range_def by (fastforce split: if_splits)
  with assms(2-5) show ?thesis by blast
qed

lemma gate_source_passes:
  assumes "cr_Protocol (cg_Resource g) \<in> {Wildcard, protocol}" and "in_range port (cr_Ports (cg_Resource g))"
    and "complianceGatesSatisfied gs who (Some a) protocol port now" and "gate \<in> set gs"
    and "gt_Destinations gate = normalizeCompliancePrefixes ps" and "\<exists>p\<in>set ps. Contains p a"
    and "gt_Protocol gate = cr_Protocol (cg_Resource g)" and "gt_Ports gate = cr_Ports (cg_Resource g)"
    and "\<forall>s\<in>set (gt_Sources gate). \<exists>v\<in>set devices. \<exists>e. sd_Handle s = n_Handle (dv_Node v)
         \<and> passes V draft t (cg_RequirementSets g) v e \<and> ev_ReceivedAt e \<le> t \<and> sd_ValidUntil s = ev_ReceivedAt e + EvidenceLifetime"
  shows "\<exists>s\<in>set devices. \<exists>e. n_Handle (dv_Node s) = who \<and> passes V draft t (cg_RequirementSets g) s e
      \<and> ev_ReceivedAt e \<le> t \<and> now < ev_ReceivedAt e + EvidenceLifetime"
proof -
  have "\<exists>s\<in>set (gt_Sources gate). sd_Handle s = who \<and> now < sd_ValidUntil s"
    by (rule gate_needs_source [OF assms(3,4)]) (use assms(1,2,5-8) in auto)
  with assms(9) show ?thesis by metis
qed

text \<open>Everything a compilation rests on.\<close>

lemma CompileCompliance_guard:
  assumes "CompileCompliance V (Some d) draft devices target routed t = Inr c" and "g \<in> set (cd_Guardrails draft)"
  obtains owned rs ins outs where
    "\<And>v. v \<in> set devices \<Longrightarrow> \<exists>ps. map_of owned (n_Handle (dv_Node v)) = Some ps \<and> emap compliancePrefix (n_Addresses (dv_Node v)) = Inr ps"
    "emap compliancePrefix routed = Inr rs" "cg_RequirementSets g \<noteq> []"
    "compile_guard V d draft devices owned target (owned_by owned target @ rs) t g = Inr (ins, outs)"
    "set ins \<subseteq> set (cc_Ingress c)" "set outs \<subseteq> set (cc_Egress c)" "cc_Node c = target"
proof -
  from assms(1) obtain handles subjects owned rs gates where
    adm: "eforeach (admit_device draft) ([], [], []) devices = Inr (handles, subjects, owned)"
    and val: "ValidateComplianceDraft V (Some d) draft (map dv_Node devices) = Inr ()"
    and rs: "emap compliancePrefix routed = Inr rs"
    and gates: "emap (compile_guard V d draft devices owned target (owned_by owned target @ rs) t) (sort_key cg_ID (cd_Guardrails draft)) = Inr gates"
    and c: "c = \<lparr>cc_TenantID = cd_TenantID draft, cc_Node = target, cc_CompiledAt = t,
      cc_Ingress = concat (map fst gates), cc_Egress = concat (map snd gates), cc_valid = True\<rparr>"
    by (auto simp: CompileCompliance_def ebind_eq_Inr split: if_splits)
  have g: "g \<in> set (sort_key cg_ID (cd_Guardrails draft))" using assms(2) by simp
  from emap_reads [OF gates g] obtain ins outs where
    io: "compile_guard V d draft devices owned target (owned_by owned target @ rs) t g = Inr (ins, outs)" by fastforce
  then have "(ins, outs) \<in> set gates" using emap_set [OF gates, of "(ins, outs)"] g by blast
  then have "set ins \<subseteq> set (cc_Ingress c)" "set outs \<subseteq> set (cc_Egress c)" "cc_Node c = target" by (auto simp: c)
  then show thesis using rs Validate_guardrail [OF val assms(2)] io by (intro that [OF admit_devices(3) [OF adm]])
qed

text \<open>C5. Guarded traffic needs fresh, passing evidence. Let the gates of a device be compiled at time \<^verbatim>\<open>t\<close>. Whatever
  guardrail of the draft covers a packet by protocol, port and destination, if the gates let the packet
  in, its source is an enrolled device whose evidence, received by \<^verbatim>\<open>t\<close>, met every requirement of every
  set of the guardrail at \<^verbatim>\<open>t\<close> and is still younger than its lifetime; if they let the packet out, the same holds of the
  device itself. A missing, stale or failing report denies.\<close>

theorem guarded_traffic_needs_evidence:
  assumes "CompileCompliance V (Some d) draft devices target routed t = Inr c"
    and "g \<in> set (cd_Guardrails draft)" and "cr_Protocol (cg_Resource g) \<in> {Wildcard, protocol}"
    and "in_range port (cr_Ports (cg_Resource g))"
  shows "(\<forall>v\<in>set devices. n_Handle (dv_Node v) = target \<and> covers_in d (dv_Node v) routed (cr_Selector (cg_Resource g)) a
        \<and> IngressSatisfied (Some c) src (Some a) protocol port now \<longrightarrow>
        (\<exists>s\<in>set devices. \<exists>e. n_Handle (dv_Node s) = src \<and> passes V draft t (cg_RequirementSets g) s e
           \<and> ev_ReceivedAt e \<le> t \<and> now < ev_ReceivedAt e + EvidenceLifetime))
     \<and> (covers_out d (map dv_Node devices) (cr_Selector (cg_Resource g)) a \<and> EgressSatisfied (Some c) (Some a) protocol port now \<longrightarrow>
        (\<exists>s\<in>set devices. \<exists>e. n_Handle (dv_Node s) = target \<and> passes V draft t (cg_RequirementSets g) s e
           \<and> ev_ReceivedAt e \<le> t \<and> now < ev_ReceivedAt e + EvidenceLifetime))"
  using assms(1,2)
proof (rule CompileCompliance_guard)
  fix owned rs ins outs
  assume own: "\<And>v. v \<in> set devices \<Longrightarrow> \<exists>ps. map_of owned (n_Handle (dv_Node v)) = Some ps \<and> emap compliancePrefix (n_Addresses (dv_Node v)) = Inr ps"
    and rs: "emap compliancePrefix routed = Inr rs" and ne: "cg_RequirementSets g \<noteq> []"
    and io: "compile_guard V d draft devices owned target (owned_by owned target @ rs) t g = Inr (ins, outs)"
    and sub: "set ins \<subseteq> set (cc_Ingress c)" "set outs \<subseteq> set (cc_Egress c)" "cc_Node c = target"
  obtain ingress egress where sc: "guard_scopes d (map dv_Node devices) owned target (owned_by owned target @ rs)
      (cr_Selector (cg_Resource g)) = (ingress, egress)" by fastforce
  note gates = compile_guard_gates [OF io ne sc]
  show ?thesis
  proof (intro conjI ballI impI; (elim conjE)?)
    fix v assume v: "v \<in> set devices" "n_Handle (dv_Node v) = target" "covers_in d (dv_Node v) routed (cr_Selector (cg_Resource g)) a"
      and sat: "IngressSatisfied (Some c) src (Some a) protocol port now"
    from own [OF v(1)] obtain ps where ps: "map_of owned (n_Handle (dv_Node v)) = Some ps" "emap compliancePrefix (n_Addresses (dv_Node v)) = Inr ps" by blast
    have cov: "\<exists>p\<in>set ingress. Contains p a"
      using guard_scopes_in [OF ps(2,1) rs _ v(3), of "map dv_Node devices"] v(1,2) sc by auto
    then obtain gate where "gate \<in> set (cc_Ingress c)" "gt_Destinations gate = normalizeCompliancePrefixes ingress"
      "gt_Protocol gate = cr_Protocol (cg_Resource g)" "gt_Ports gate = cr_Ports (cg_Resource g)"
      "\<forall>s\<in>set (gt_Sources gate). \<exists>v\<in>set devices. \<exists>e. sd_Handle s = n_Handle (dv_Node v)
           \<and> passes V draft t (cg_RequirementSets g) v e \<and> ev_ReceivedAt e \<le> t \<and> sd_ValidUntil s = ev_ReceivedAt e + EvidenceLifetime"
      using gates(1) sub(1) by fastforce
    moreover have "complianceGatesSatisfied (cc_Ingress c) src (Some a) protocol port now"
      using sat by (simp add: IngressSatisfied_def split: if_splits)
    ultimately show "\<exists>s\<in>set devices. \<exists>e. n_Handle (dv_Node s) = src \<and> passes V draft t (cg_RequirementSets g) s e
        \<and> ev_ReceivedAt e \<le> t \<and> now < ev_ReceivedAt e + EvidenceLifetime" using gate_source_passes [OF assms(3,4)] cov by blast
  next
    assume cov: "covers_out d (map dv_Node devices) (cr_Selector (cg_Resource g)) a"
      and sat: "EgressSatisfied (Some c) (Some a) protocol port now"
    have cov: "\<exists>p\<in>set egress. Contains p a"
      using guard_scopes_out [OF _ cov, of owned target "owned_by owned target @ rs"] own sc by auto
    then obtain gate where "gate \<in> set (cc_Egress c)" "gt_Destinations gate = normalizeCompliancePrefixes egress"
      "gt_Protocol gate = cr_Protocol (cg_Resource g)" "gt_Ports gate = cr_Ports (cg_Resource g)"
      "\<forall>s\<in>set (gt_Sources gate). \<exists>v\<in>set devices. \<exists>e. sd_Handle s = n_Handle (dv_Node v)
           \<and> passes V draft t (cg_RequirementSets g) v e \<and> ev_ReceivedAt e \<le> t \<and> sd_ValidUntil s = ev_ReceivedAt e + EvidenceLifetime"
      using gates(2) sub(2) by fastforce
    moreover have "complianceGatesSatisfied (cc_Egress c) target (Some a) protocol port now"
      using sat sub(3) by (simp add: EgressSatisfied_def split: if_splits)
    ultimately show "\<exists>s\<in>set devices. \<exists>e. n_Handle (dv_Node s) = target \<and> passes V draft t (cg_RequirementSets g) s e
        \<and> ev_ReceivedAt e \<le> t \<and> now < ev_ReceivedAt e + EvidenceLifetime" using gate_source_passes [OF assms(3,4)] cov by blast
  qed
qed

section \<open>A compiled gate\<close>

definition demo_semver :: semver where
  "demo_semver = \<lparr>sv_IsValid = (\<lambda>_. True), sv_Compare = (\<lambda>_ _. 0)\<rparr>"

definition demo_requirement :: Requirement where
  "demo_requirement = \<lparr>rq_ID = ''r1'', rq_Kind = MinimumClientVersion, rq_MinimumVersion = ''1.0.0'', rq_Provenance = SelfReported,
     rq_Platform = [], rq_Distribution = []\<rparr>"

definition demo_draft :: ComplianceDraft where
  "demo_draft = \<lparr>cd_TenantID = ''acct'', cd_RequirementSets = [(''base'', [demo_requirement])],
     cd_Guardrails = [\<lparr>cg_ID = ''g1'', cg_Resource = \<lparr>cr_Selector = ''tag:prod'', cr_Protocol = ''tcp'',
        cr_Ports = \<lparr>First = 443, Last = 443\<rparr>\<rparr>, cg_RequirementSets = [''base'']\<rparr>], cd_Remediation = []\<rparr>"

definition demo_evidence :: Evidence where
  "demo_evidence = \<lparr>ev_Subject = \<lparr>su_TenantID = ''acct'', su_DeviceID = ''d1''\<rparr>, ev_ReceivedAt = seconds 1000, ev_Provenance = SelfReported,
     ev_Platform = Linux, ev_Distribution = ''debian'', ev_ClientVersion = \<lparr>ob_Status = Collected, ob_Version = ''1.2.3''\<rparr>,
     ev_OSVersion = \<lparr>ob_Status = [], ob_Version = []\<rparr>\<rparr>"

definition demo_devices :: "ComplianceDevice list" where
  "demo_devices = [\<lparr>dv_Node = demo_laptop, dv_Subject = \<lparr>su_TenantID = ''acct'', su_DeviceID = ''d1''\<rparr>, dv_Evidence = Some demo_evidence\<rparr>,
     \<lparr>dv_Node = demo_server, dv_Subject = \<lparr>su_TenantID = ''acct'', su_DeviceID = ''d2''\<rparr>, dv_Evidence = None\<rparr>]"

definition demo_prefix :: "32 word \<Rightarrow> Prefix" where
  "demo_prefix n = \<lparr>pf_ip = Addr4 (1681915904 + n), pf_bits = 32\<rparr>"

lemma demo_prefixes: "ParsePrefix ''100.64.0.1/32'' = Some (demo_prefix 1)" "ParsePrefix ''100.64.0.2/32'' = Some (demo_prefix 2)"
  by (simp_all add: ParsePrefix_def ParseAddr_def parseIPv4_def digit_def digit_val_def of_fields_def parseUint_def dec_val_def demo_prefix_def)

lemma demo_trim: "trimSpace ''base'' = ''base''" "trimSpace ''g1'' = ''g1''" "trimSpace ''tag:prod'' = ''tag:prod''"
  by (simp_all add: trimSpace_ends printable_def)

lemma demo_requirement_valid: "ValidateRequirement demo_semver demo_requirement = Inr ()"
  by (simp add: ValidateRequirement_def demo_requirement_def clientVersion_def demo_semver_def hasPrefix_def before_def)

lemma demo_draft_valid: "ValidateComplianceDraft demo_semver (Some demo_doc) demo_draft (map dv_Node demo_devices) = Inr ()"
  by (simp add: ValidateComplianceDraft_def demo_valid demo_draft_def check_each_def validate_set_def demo_trim demo_requirement_valid
    validate_guardrail_def validateComplianceResource_def ParseAddr_def parseIPv6_def hex_val_def numeral_eq_Suc hasPrefix_def
    validateSshDst_def looksLikePortSpec_def Wildcard_def digit_def undefined_group_def wrap_err_def Let_def)

lemma demo_evaluate:
  "Evaluate demo_semver [demo_requirement] \<lparr>su_TenantID = ''acct'', su_DeviceID = ''d1''\<rparr> (Some demo_evidence) (seconds 1060)
     = Inr \<lparr>evl_Results = [\<lparr>rs_RequirementID = ''r1'', rs_State = Compliant, rs_Reason = Passed\<rparr>], evl_ValidUntil = seconds 1180\<rparr>"
  "Evaluate demo_semver [demo_requirement] \<lparr>su_TenantID = ''acct'', su_DeviceID = ''d2''\<rparr> None (seconds 1060)
     = Inr \<lparr>evl_Results = [\<lparr>rs_RequirementID = ''r1'', rs_State = Unknown, rs_Reason = MissingEvidence\<rparr>], evl_ValidUntil = zero_time\<rparr>"
proof -
  have req: "rq_ID demo_requirement = ''r1''" "rq_Kind demo_requirement = MinimumClientVersion" "rq_Provenance demo_requirement = SelfReported"
    "rq_MinimumVersion demo_requirement = ''1.0.0''"
    by (simp_all add: demo_requirement_def)
  have "clientVersion demo_semver ''1.2.3'' = Some ''v1.2.3''" "clientVersion demo_semver ''1.0.0'' = Some ''v1.0.0''"
    by (simp_all add: clientVersion_def demo_semver_def hasPrefix_def before_def)
  then have "compare_version demo_semver demo_requirement ''1.2.3'' = Some 0"
    by (simp add: compare_version_def req demo_semver_def)
  then have "evaluate_one demo_semver demo_requirement \<lparr>su_TenantID = ''acct'', su_DeviceID = ''d1''\<rparr> (Some demo_evidence) (seconds 1060)
      = (Compliant, Passed)"
    by (simp add: evaluate_one_def req demo_evidence_def observed_def kind_defs supportedPlatform_def zero_time_def EvidenceLifetime_def)
  then show "Evaluate demo_semver [demo_requirement] \<lparr>su_TenantID = ''acct'', su_DeviceID = ''d1''\<rparr> (Some demo_evidence) (seconds 1060)
     = Inr \<lparr>evl_Results = [\<lparr>rs_RequirementID = ''r1'', rs_State = Compliant, rs_Reason = Passed\<rparr>], evl_ValidUntil = seconds 1180\<rparr>"
    by (simp add: Evaluate_def validate_requirements_def demo_requirement_valid req Satisfied_def zero_time_def demo_evidence_def EvidenceLifetime_def)
  show "Evaluate demo_semver [demo_requirement] \<lparr>su_TenantID = ''acct'', su_DeviceID = ''d2''\<rparr> None (seconds 1060)
     = Inr \<lparr>evl_Results = [\<lparr>rs_RequirementID = ''r1'', rs_State = Unknown, rs_Reason = MissingEvidence\<rparr>], evl_ValidUntil = zero_time\<rparr>"
    by (simp add: Evaluate_def validate_requirements_def demo_requirement_valid req Satisfied_def evaluate_one_def zero_time_def)
qed

definition demo_compiled :: ComplianceCompilation where
  "demo_compiled = (let gate = (\<lambda>sources. \<lparr>gt_GuardrailID = ''g1'', gt_Destinations = [Masked (demo_prefix 2)], gt_Protocol = ''tcp'',
       gt_Ports = \<lparr>First = 443, Last = 443\<rparr>, gt_Sources = sources\<rparr>)
     in \<lparr>cc_TenantID = ''acct'', cc_Node = ''server'', cc_CompiledAt = seconds 1060,
          cc_Ingress = [gate [\<lparr>sd_Handle = ''laptop'', sd_ValidUntil = seconds 1180\<rparr>]], cc_Egress = [gate []], cc_valid = True\<rparr>)"

lemma demo_compliance_compiles:
  "CompileCompliance demo_semver (Some demo_doc) demo_draft demo_devices ''server'' [] (seconds 1060) = Inr demo_compiled"
proof -
  have pre: "compliancePrefix ''100.64.0.1/32'' = Inr (Masked (demo_prefix 1))" "compliancePrefix ''100.64.0.2/32'' = Inr (Masked (demo_prefix 2))"
    by (simp_all add: compliancePrefix_def demo_prefixes) (simp_all add: demo_prefix_def)
  have admit: "eforeach (admit_device demo_draft) ([], [], []) demo_devices = Inr ([''server'', ''laptop''], [''d2'', ''d1''],
      [(''server'', [Masked (demo_prefix 2)]), (''laptop'', [Masked (demo_prefix 1)])])"
    by (simp add: admit_device_def demo_devices_def demo_laptop_def demo_server_def pre demo_draft_def Wildcard_def Let_def)
  have reqs: "requirements_of demo_draft ''base'' = [demo_requirement]" by (simp add: requirements_of_def demo_draft_def)
  have dec: "device_decision demo_semver demo_draft (seconds 1060) [''base''] (demo_devices ! 0) = Inr [\<lparr>sd_Handle = ''laptop'', sd_ValidUntil = seconds 1180\<rparr>]"
    "device_decision demo_semver demo_draft (seconds 1060) [''base''] (demo_devices ! 1) = Inr []"
    by (simp_all add: device_decision_def reqs demo_devices_def demo_evaluate [simplified] wrap_err_def Satisfied_def earlier_def zero_time_def demo_laptop_def)
  have sel: "ParsePrefix ''tag:prod'' = None" "matches demo_doc ''tag:prod'' demo_server" "\<not> matches demo_doc ''tag:prod'' demo_laptop"
    by (simp_all add: ParsePrefix_letter demo_net_defs)
  let ?g = "\<lparr>cg_ID = ''g1'', cg_Resource = \<lparr>cr_Selector = ''tag:prod'', cr_Protocol = ''tcp'',
     cr_Ports = \<lparr>First = 443, Last = 443\<rparr>\<rparr>, cg_RequirementSets = [''base'']\<rparr>"
  let ?owned = "[(''server'', [Masked (demo_prefix 2)]), (''laptop'', [Masked (demo_prefix 1)])]"
  have scopes: "guard_scopes demo_doc (map dv_Node demo_devices) ?owned ''server'' sc ''tag:prod'' = ([Masked (demo_prefix 2)], [Masked (demo_prefix 2)])" for sc
    using sel by (simp add: guard_scopes_def demo_devices_def Wildcard_def Let_def owned_by_def) (simp add: demo_server_def)
  have devs: "demo_devices = [demo_devices ! 0, demo_devices ! 1]" by (simp add: demo_devices_def)
  have "compile_guard demo_semver demo_doc demo_draft demo_devices ?owned ''server'' (owned_by ?owned ''server'' @ []) (seconds 1060) ?g
      = Inr (cc_Ingress demo_compiled, cc_Egress demo_compiled)"
    unfolding compile_guard_def using dec
    by (simp add: scopes Let_def) (subst devs, simp add: demo_compiled_def Let_def normalizeCompliancePrefixes_def)
  then show ?thesis
    using admit demo_draft_valid by (simp add: CompileCompliance_def zero_time_def demo_compiled_def Let_def demo_draft_def)
qed

theorem guarded_traffic_needs_evidence_witness:
  "\<exists>s\<in>set demo_devices. \<exists>e. n_Handle (dv_Node s) = ''laptop'' \<and> passes demo_semver demo_draft (seconds 1060) [''base''] s e
     \<and> ev_ReceivedAt e \<le> seconds 1060 \<and> seconds 1100 < ev_ReceivedAt e + EvidenceLifetime"
proof -
  let ?g = "cd_Guardrails demo_draft ! 0" and ?a = "pf_ip (demo_prefix 2)"
  have "text_contains ?a ''100.64.0.2/32''" by (simp add: text_contains_def demo_prefixes demo_prefix_def Contains_def)
  then have cov: "covers_in demo_doc (dv_Node (demo_devices ! 1)) [] (cr_Selector (cg_Resource ?g)) ?a"
    by (simp add: covers_in_def demo_draft_def demo_devices_def ParsePrefix_letter demo_net_defs)
  have "Contains (Masked (demo_prefix 2)) ?a" unfolding Contains_Masked by (simp add: demo_prefix_def Contains_def)
  then have sat: "IngressSatisfied (Some demo_compiled) ''laptop'' (Some ?a) ''tcp'' 443 (seconds 1100)"
    by (simp add: IngressSatisfied_def demo_compiled_def Let_def zero_time_def complianceGatesSatisfied_def Wildcard_def)
      (simp add: demo_prefix_def)
  have "?g \<in> set (cd_Guardrails demo_draft)" "cr_Protocol (cg_Resource ?g) \<in> {Wildcard, ''tcp''}" "in_range 443 (cr_Ports (cg_Resource ?g))"
    "cg_RequirementSets ?g = [''base'']"
    by (simp_all add: demo_draft_def in_range_def)
  moreover have "demo_devices ! 1 \<in> set demo_devices" "n_Handle (dv_Node (demo_devices ! 1)) = ''server''"
    by (simp_all add: demo_devices_def demo_server_def)
  ultimately show ?thesis
    using guarded_traffic_needs_evidence [OF demo_compliance_compiles, of ?g "''tcp''" 443 ?a "''laptop''" "seconds 1100"] cov sat by metis
qed

end
