(* ===== verification/Billing_Pricing.thy ===== *)
theory Billing_Pricing
  imports Karst_Db Go_Text Complex_Main
begin

text \<open>The billing calculation, \<^verbatim>\<open>billing/pricing.go\<close>, \<^verbatim>\<open>billing/rates.go\<close> and the amounts of
  \<^verbatim>\<open>billing/invoice.go\<close>: graduated device prices and pooled relay overage over exact rationals
  (\<^verbatim>\<open>big.Rat\<close> is a rational in lowest terms, \<^verbatim>\<open>big.Int\<close> an integer), and the truncation of a line to
  minor units. Counters and prices keep their 64-bit width.\<close>

section \<open>Schedules, reports and estimates\<close>

record DeviceTier =
  dt_UpToDevices :: int64
  dt_MinorPerPeriod :: int64

record RateSchedule =
  rs_Version :: string
  rs_Currency :: string
  rs_DeviceTiers :: "DeviceTier list"
  rs_RelayIncludedBytes :: uint64
  rs_RelayUnitBytes :: uint64
  rs_RelayMinorPerUnit :: int64

record ExactAmount =
  xa_Numerator :: string
  xa_Denominator :: string

record Estimate =
  es_ScheduleVersion :: string
  es_Currency :: string
  es_DeviceExact :: "ExactAmount option"
  es_RelayExact :: "ExactAmount option"
  es_TotalExact :: "ExactAmount option"
  es_UsageComplete :: bool
  es_Incomplete :: "string list"

record DeviceSegment =
  sg_Start :: instant
  sg_End :: instant
  sg_Coverage :: string
  sg_Devices :: "int64 option"

record DeviceReport =
  dr_Start :: instant
  dr_End :: instant
  dr_AsOf :: instant
  dr_Complete :: bool
  dr_DeviceMicroseconds :: string
  dr_Segments :: "DeviceSegment list"

record ReportDay =
  rd_Date :: string
  rd_ReportedBytes :: string
  rd_ReportedWindows :: uint64
  rd_GapWindows :: uint64
  rd_ExpectedWindows :: uint64
  rd_MissingWindows :: uint64
  rd_UnexpectedWindows :: uint64
  rd_GapReasons :: "string list"

record RelayReport =
  rr_Start :: instant
  rr_End :: instant
  rr_AsOf :: instant
  rr_AuthorizationHistoryStart :: instant
  rr_FirstReceivedWindowStart :: "instant option"
  rr_LastReceivedAt :: "instant option"
  rr_Coverage :: string
  rr_HistoryComplete :: bool
  rr_Complete :: bool
  rr_ExpectedWindows :: uint64
  rr_MissingWindows :: uint64
  rr_UnexpectedWindows :: uint64
  rr_ReportedBytes :: string
  rr_Days :: "ReportDay list"
  rr_Limitations :: "string list"

datatype pricing_error = ErrInvalidRateSchedule | ErrReportData | InvalidExact | NoncanonicalExact | LineTooLarge

section \<open>Integers as text, and instants\<close>

definition int_string :: "int \<Rightarrow> string" where
  "int_string i = (if i < 0 then CHR ''-'' # itoa (nat (- i)) else itoa (nat i))"

definition parse_nat :: "string \<Rightarrow> int option" where
  "parse_nat s = (if s \<noteq> [] \<and> list_all digit s then Some (int (dec_val s)) else None)"

definition big_SetString :: "string \<Rightarrow> int option" where
  "big_SetString s =
     (case s of [] \<Rightarrow> None
      | c # cs \<Rightarrow> if c = CHR ''-'' then map_option uminus (parse_nat cs)
                 else if c = CHR ''+'' then parse_nat cs else parse_nat s)"

definition unixMicro :: "instant \<Rightarrow> int64" where
  "unixMicro t = word_of_int (t div 1000)"

definition year10000 :: instant where "year10000 = seconds 253402300800"

definition validBillingTime :: "instant \<Rightarrow> bool" where
  "validBillingTime t \<longleftrightarrow> \<not> t < 0 \<and> t < year10000 \<and> t mod 1000 = 0"

section \<open>Validation\<close>

definition validToken :: "string \<Rightarrow> bool" where
  "validToken token \<longleftrightarrow> token \<noteq> [] \<and> length token \<le> 128 \<and>
     list_all (\<lambda>r. (CHR ''a'' \<le> r \<and> r \<le> CHR ''z'') \<or> (CHR ''A'' \<le> r \<and> r \<le> CHR ''Z'') \<or> digit r
       \<or> r = CHR ''-'' \<or> r = CHR ''_'' \<or> r = CHR ''.'') token"

fun validTiers :: "int64 \<Rightarrow> DeviceTier list \<Rightarrow> bool" where
  "validTiers previous [] \<longleftrightarrow> True"
| "validTiers previous (tier # tiers) \<longleftrightarrow>
     \<not> (sint (dt_MinorPerPeriod tier) < 0 \<or> (dt_UpToDevices tier \<noteq> 0 \<and> sint (dt_UpToDevices tier) \<le> sint previous))
     \<and> \<not> (dt_UpToDevices tier = 0 \<and> tiers \<noteq> []) \<and> validTiers (dt_UpToDevices tier) tiers"

text \<open>A currency of three letters A to Z is its own upper case, so the comparison with
  \<^verbatim>\<open>strings.ToUpper\<close> adds nothing to the range check.\<close>

definition validateRateSchedule :: "RateSchedule \<Rightarrow> pricing_error + unit" where
  "validateRateSchedule s =
     (if \<not> validToken (rs_Version s) \<or> length (rs_Currency s) \<noteq> 3 \<or> rs_RelayUnitBytes s = 0
         \<or> sint (rs_RelayMinorPerUnit s) < 0 \<or> rs_DeviceTiers s = [] then Inl ErrInvalidRateSchedule
      else if \<not> list_all (\<lambda>r. CHR ''A'' \<le> r \<and> r \<le> CHR ''Z'') (rs_Currency s) then Inl ErrInvalidRateSchedule
      else if \<not> validTiers 0 (rs_DeviceTiers s) then Inl ErrInvalidRateSchedule
      else if dt_UpToDevices (last (rs_DeviceTiers s)) \<noteq> 0 then Inl ErrInvalidRateSchedule
      else Inr ())"

fun validSegments :: "int64 \<Rightarrow> int64 \<Rightarrow> DeviceSegment list \<Rightarrow> int64 option" where
  "validSegments endUS cursor [] = Some cursor"
| "validSegments endUS cursor (segment # segments) =
     (if \<not> validBillingTime (sg_Start segment) \<or> \<not> validBillingTime (sg_End segment) then None
      else let left = unixMicro (sg_Start segment); right = unixMicro (sg_End segment)
      in if sg_Coverage segment \<noteq> ''complete'' \<or> left \<noteq> cursor \<or> sint right \<le> sint left \<or> sint right > sint endUS then None
         else (case sg_Devices segment of None \<Rightarrow> None
               | Some devices \<Rightarrow> if sint devices < 0 then None else validSegments endUS right segments))"

definition validDeviceReport :: "DeviceReport \<Rightarrow> bool" where
  "validDeviceReport report \<longleftrightarrow>
     dr_Complete report \<and> validBillingTime (dr_Start report) \<and> validBillingTime (dr_End report) \<and> validBillingTime (dr_AsOf report)
     \<and> dr_Start report < dr_End report \<and> \<not> dr_End report > dr_AsOf report \<and> dr_Segments report \<noteq> []
     \<and> validSegments (unixMicro (dr_End report)) (unixMicro (dr_Start report)) (dr_Segments report) = Some (unixMicro (dr_End report))"

definition validRelayReport :: "RelayReport \<Rightarrow> instant \<Rightarrow> instant \<Rightarrow> bool" where
  "validRelayReport report start stop \<longleftrightarrow>
     rr_Complete report \<and> rr_HistoryComplete report \<and> rr_Coverage report = ''authorized_producers''
     \<and> rr_ExpectedWindows report \<noteq> 0 \<and> rr_MissingWindows report = 0 \<and> rr_UnexpectedWindows report = 0
     \<and> validBillingTime (rr_Start report) \<and> validBillingTime (rr_End report) \<and> validBillingTime (rr_AsOf report)
     \<and> rr_Start report = start \<and> rr_End report = stop \<and> rr_End report > rr_Start report \<and> \<not> rr_End report > rr_AsOf report
     \<and> list_all (\<lambda>day. rd_GapWindows day = 0 \<and> rd_MissingWindows day = 0 \<and> rd_UnexpectedWindows day = 0) (rr_Days report)"

section \<open>Charges\<close>

fun addDeviceCost :: "int \<Rightarrow> int64 \<Rightarrow> int64 \<Rightarrow> int64 \<Rightarrow> DeviceTier list \<Rightarrow> pricing_error + int" where
  "addDeviceCost acc remaining previousUpper durationUS [] =
     (if remaining \<noteq> 0 then Inl ErrInvalidRateSchedule else Inr acc)"
| "addDeviceCost acc remaining previousUpper durationUS (tier # tiers) =
     (let room = dt_UpToDevices tier - previousUpper;
          capacity = (if dt_UpToDevices tier \<noteq> 0 then (if sint remaining \<le> sint room then remaining else room) else remaining)
      in if sint capacity < 0 then Inl ErrInvalidRateSchedule
         else let acc = acc + sint capacity * sint (dt_MinorPerPeriod tier) * sint durationUS; remaining = remaining - capacity
         in if remaining = 0 then Inr acc else addDeviceCost acc remaining (dt_UpToDevices tier) durationUS tiers)"

definition segment_cost :: "DeviceTier list \<Rightarrow> int \<Rightarrow> DeviceSegment \<Rightarrow> pricing_error + int" where
  "segment_cost tiers acc segment =
     addDeviceCost acc (the (sg_Devices segment)) 0 (unixMicro (sg_End segment) - unixMicro (sg_Start segment)) tiers"

definition deviceCharge :: "DeviceReport \<Rightarrow> DeviceTier list \<Rightarrow> pricing_error + rat" where
  "deviceCharge report tiers =
     (let periodUS = unixMicro (dr_End report) - unixMicro (dr_Start report)
      in if sint periodUS \<le> 0 then Inl ErrInvalidRateSchedule
         else ebind (eforeach (segment_cost tiers) 0 (dr_Segments report)) (\<lambda>numerator.
           Inr (rat_of_int numerator / rat_of_int (sint periodUS))))"

definition relayCharge :: "int \<Rightarrow> RateSchedule \<Rightarrow> rat" where
  "relayCharge b schedule =
     (let overage = b - uint (rs_RelayIncludedBytes schedule); overage = (if overage < 0 then 0 else overage)
      in rat_of_int (overage * sint (rs_RelayMinorPerUnit schedule)) / rat_of_int (uint (rs_RelayUnitBytes schedule)))"

definition exactAmount :: "rat \<Rightarrow> ExactAmount" where
  "exactAmount amount = (let (n, d) = quotient_of amount in \<lparr>xa_Numerator = int_string n, xa_Denominator = int_string d\<rparr>)"

definition relay_line :: "DeviceReport \<Rightarrow> RelayReport \<Rightarrow> RateSchedule \<Rightarrow> pricing_error + rat option" where
  "relay_line device relay schedule =
     (if validRelayReport relay (dr_Start device) (dr_End device)
      then (case big_SetString (rr_ReportedBytes relay) of None \<Rightarrow> Inl ErrReportData
            | Some b \<Rightarrow> if b < 0 \<or> int_string b \<noteq> rr_ReportedBytes relay then Inl ErrReportData
                       else Inr (Some (relayCharge b schedule)))
      else Inr None)"

definition Calculate :: "DeviceReport \<Rightarrow> RelayReport \<Rightarrow> RateSchedule \<Rightarrow> pricing_error + Estimate" where
  "Calculate device relay schedule =
     ebind (validateRateSchedule schedule) (\<lambda>_.
     ebind (if validDeviceReport device then ebind (deviceCharge device (rs_DeviceTiers schedule)) (\<lambda>c. Inr (Some c)) else Inr None) (\<lambda>dev.
     ebind (relay_line device relay schedule) (\<lambda>rel.
     let incomplete = (if dev = None then [''device_usage''] else []) @ (if rel = None then [''relay_usage''] else [])
     in Inr \<lparr>es_ScheduleVersion = rs_Version schedule, es_Currency = rs_Currency schedule,
             es_DeviceExact = map_option exactAmount dev, es_RelayExact = map_option exactAmount rel,
             es_TotalExact = (if incomplete \<noteq> [] then None else Some (exactAmount (the dev + the rel))),
             es_UsageComplete = (incomplete = []), es_Incomplete = incomplete\<rparr>)))"

definition PilotRateSchedule :: RateSchedule where
  "PilotRateSchedule =
     \<lparr>rs_Version = ''pilot-2026-10-12-v1'', rs_Currency = ''USD'',
      rs_DeviceTiers = [\<lparr>dt_UpToDevices = 10, dt_MinorPerPeriod = 250\<rparr>, \<lparr>dt_UpToDevices = 50, dt_MinorPerPeriod = 150\<rparr>,
        \<lparr>dt_UpToDevices = 0, dt_MinorPerPeriod = 75\<rparr>],
      rs_RelayIncludedBytes = 10000000000, rs_RelayUnitBytes = 1000000000, rs_RelayMinorPerUnit = 20\<rparr>"

section \<open>Invoice amounts\<close>

definition parse_part :: "string \<Rightarrow> int option" where
  "parse_part s = (case big_SetString s of None \<Rightarrow> None | Some i \<Rightarrow> if int_string i = s then Some i else None)"

definition parseExactNonnegative :: "ExactAmount \<Rightarrow> pricing_error + rat" where
  "parseExactNonnegative amount =
     (case parse_part (xa_Numerator amount) of None \<Rightarrow> Inl InvalidExact
      | Some n \<Rightarrow> if n < 0 then Inl InvalidExact
        else (case parse_part (xa_Denominator amount) of None \<Rightarrow> Inl InvalidExact
        | Some d \<Rightarrow> if d \<le> 0 then Inl InvalidExact
          else let r = rat_of_int n / rat_of_int d
          in if exactAmount r \<noteq> amount then Inl NoncanonicalExact else Inr r))"

definition truncateMinor :: "rat option \<Rightarrow> pricing_error + int64" where
  "truncateMinor amount =
     (case amount of None \<Rightarrow> Inl InvalidExact
      | Some r \<Rightarrow> if r < 0 then Inl InvalidExact
        else let (n, d) = quotient_of r; minor = n div d
        in if minor < 2 ^ 63 then Inr (word_of_int minor) else Inl LineTooLarge)"

end
