(* ===== verification/Billing_Store.thy ===== *)
theory Billing_Store
  imports Billing_Pricing
begin

text \<open>Rate schedules, their assignment to account periods and finalized invoices, \<^verbatim>\<open>billing/store.go\<close> and
  \<^verbatim>\<open>billing/invoice.go\<close>. The JSON text of a snapshot and SHA-256 are parameters; the tables hold the text
  and its digest as the code writes them.\<close>

section \<open>Calendar\<close>

text \<open>The proleptic Gregorian date of a day number counted from 1970-01-01, and the day number of a date.\<close>

definition date_of :: "int \<Rightarrow> int \<times> int \<times> int" where
  "date_of days =
     (let z = days + 719468; era = z div 146097; doe = z mod 146097;
          yoe = (doe - doe div 1460 + doe div 36524 - doe div 146096) div 365;
          doy = doe - (365 * yoe + yoe div 4 - yoe div 100); mp = (5 * doy + 2) div 153;
          d = doy - (153 * mp + 2) div 5 + 1; m = (if mp < 10 then mp + 3 else mp - 9)
      in (yoe + era * 400 + (if m \<le> 2 then 1 else 0), m, d))"

definition days_of :: "int \<Rightarrow> int \<Rightarrow> int \<Rightarrow> int" where
  "days_of y m d =
     (let y = (if m \<le> 2 then y - 1 else y); era = y div 400; yoe = y mod 400;
          doy = (153 * (if m > 2 then m - 3 else m + 9) + 2) div 5 + d - 1;
          doe = yoe * 365 + yoe div 4 - yoe div 100 + doy
      in era * 146097 + doe - 719468)"

abbreviation day_length :: int where "day_length \<equiv> seconds 86400"

text \<open>One month after midnight on the first of a month.\<close>

definition next_month :: "instant \<Rightarrow> instant" where
  "next_month t =
     (let (y, m, d) = date_of (t div day_length)
      in (if m = 12 then days_of (y + 1) 1 1 else days_of y (m + 1) 1) * day_length)"

definition fromMicro :: "int64 \<Rightarrow> instant" where "fromMicro us = sint us * 1000"

definition isUTCCalendarMonth :: "int64 \<Rightarrow> int64 \<Rightarrow> bool" where
  "isUTCCalendarMonth startUS endUS =
     (let start = fromMicro startUS; stop = fromMicro endUS; (y, m, d) = date_of (start div day_length)
      in if d \<noteq> 1 \<or> start mod day_length \<noteq> 0 then False else stop = next_month start)"

section \<open>Rows and errors\<close>

record rateScheduleRow =
  sr_Version :: string
  sr_Digest :: string
  sr_Snapshot :: bytes
  sr_CreatedAt :: instant

record rateAssignmentRow =
  ra_AccountID :: string
  ra_PeriodStartUS :: int64
  ra_PeriodEndUS :: int64
  ra_ScheduleVersion :: string
  ra_CreatedAt :: instant

record invoiceRow =
  iv_AccountID :: string
  iv_PeriodStartUS :: int64
  iv_PeriodEndUS :: int64
  iv_Digest :: string
  iv_Snapshot :: bytes
  iv_FinalizedAt :: instant

record FinalInvoice =
  fi_SchemaVersion :: string
  fi_AccountID :: string
  fi_PeriodStart :: instant
  fi_PeriodEnd :: instant
  fi_ScheduleVersion :: string
  fi_Currency :: string
  fi_DeviceUsage :: DeviceReport
  fi_RelayUsage :: RelayReport
  fi_DeviceInputHash :: string
  fi_RelayInputHash :: string
  fi_DeviceExact :: ExactAmount
  fi_RelayExact :: ExactAmount
  fi_TotalExact :: ExactAmount
  fi_DeviceMinor :: int64
  fi_RelayMinor :: int64
  fi_TotalMinor :: int64
  fi_FinalizedAt :: instant

record Assignment =
  as_AccountID :: string
  as_PeriodStart :: instant
  as_PeriodEnd :: instant
  as_ScheduleVersion :: string

record billing_db =
  bd_schedules :: "rateScheduleRow list"
  bd_assignments :: "rateAssignmentRow list"
  bd_locks :: "string list"
  bd_invoices :: "invoiceRow list"

datatype billing_error =
    ErrNoBillingAccount | ErrScheduleNotFound | ErrScheduleConflict | ErrScheduleUnassigned | ErrAssignmentConflict
  | ErrInvalidPeriod | ErrInvoiceIncomplete | ErrInvoiceConflict | ErrInvoiceNotFound
  | Pricing pricing_error | Encode | Decode | ScheduleInvalid | DigestMismatch | BadTotal | TotalTooLarge
  | InvoiceInvalid | InputDigest | CurrencyDiffers | AmountsDiffer | BadLine | DbFault stmt
  | ErrPaymentNotFound | ErrPaymentConflict | ErrWebhookConflict | ErrInvalidPaymentState | ErrPaymentRetryConflict
  | ErrInvalidPaddleInvoice | ErrNoPaddleCharge | ErrPaddleAPIUnavailable | ErrPaymentRequiresReconciliation
  | ErrPaddleAccountNotConfigured | RecordNotFound | UniqueViolation | InvalidEvent | MissingEventID | BadReference | InvalidBatch
  | Provider string | Process string billing_error | Joined "billing_error list"

text \<open>The text encodings of the stored values, and the digest.\<close>

record codec =
  enc_schedule :: "RateSchedule \<Rightarrow> bytes option"
  dec_schedule :: "bytes \<Rightarrow> RateSchedule option"
  enc_invoice :: "FinalInvoice \<Rightarrow> bytes option"
  dec_invoice :: "bytes \<Rightarrow> FinalInvoice option"
  enc_device :: "DeviceReport \<Rightarrow> bytes option"
  enc_relay :: "RelayReport \<Rightarrow> bytes option"
  sha256 :: "bytes \<Rightarrow> bytes"

definition digestJSON :: "codec \<Rightarrow> bytes option \<Rightarrow> billing_error + string" where
  "digestJSON C encoded = (case encoded of None \<Rightarrow> Inl Encode | Some b \<Rightarrow> Inr (hex (sha256 C b)))"

definition billingAccountFromContext :: "string \<Rightarrow> billing_error + string" where
  "billingAccountFromContext acct = (if acct = [] then Inl ErrNoBillingAccount else Inr acct)"

definition billingPeriodMicros :: "instant \<Rightarrow> instant \<Rightarrow> billing_error + (int64 \<times> int64)" where
  "billingPeriodMicros start stop =
     (if \<not> validBillingTime start \<or> \<not> validBillingTime stop \<or> \<not> start < stop then Inl ErrInvalidPeriod
      else Inr (unixMicro start, unixMicro stop))"

section \<open>Schedules and assignments\<close>

definition PutSchedule :: "codec \<Rightarrow> faults \<Rightarrow> RateSchedule \<Rightarrow> instant \<Rightarrow> 'a billing_db_scheme \<Rightarrow> 'a billing_db_scheme \<times> (billing_error + unit)" where
  "PutSchedule C F s now db =
     (case validateRateSchedule s of Inl e \<Rightarrow> (db, Inl (Pricing e))
      | Inr _ \<Rightarrow> (case enc_schedule C s of None \<Rightarrow> (db, Inl Encode)
      | Some snapshot \<Rightarrow>
        let row = \<lparr>sr_Version = rs_Version s, sr_Digest = hex (sha256 C snapshot), sr_Snapshot = snapshot, sr_CreatedAt = now\<rparr>
        in if F (Insert ''schedules'' 0) then (db, Inl (DbFault (Insert ''schedules'' 0)))
        else if \<not> has_key sr_Version (rs_Version s) (bd_schedules db)
        then (db\<lparr>bd_schedules := bd_schedules db @ [row]\<rparr>, Inr ())
        else if F (Select ''schedules'') then (db, Inl (DbFault (Select ''schedules'')))
        else (case find (\<lambda>r. sr_Version r = rs_Version s) (bd_schedules db) of None \<Rightarrow> (db, Inl RecordNotFound)
        | Some existing \<Rightarrow>
          if sr_Digest existing \<noteq> sr_Digest row \<or> sr_Snapshot existing \<noteq> sr_Snapshot row then (db, Inl ErrScheduleConflict)
          else (db, Inr ()))))"

definition Schedule :: "codec \<Rightarrow> faults \<Rightarrow> string \<Rightarrow> 'a billing_db_scheme \<Rightarrow> billing_error + RateSchedule" where
  "Schedule C F version db =
     (if F (Select ''schedules'') then Inl (DbFault (Select ''schedules''))
      else (case find (\<lambda>r. sr_Version r = version) (bd_schedules db) of None \<Rightarrow> Inl ErrScheduleNotFound
      | Some row \<Rightarrow> (case dec_schedule C (sr_Snapshot row) of None \<Rightarrow> Inl Decode
      | Some s \<Rightarrow>
        if rs_Version s \<noteq> sr_Version row \<or> validateRateSchedule s \<noteq> Inr () then Inl ScheduleInvalid
        else if hex (sha256 C (sr_Snapshot row)) \<noteq> sr_Digest row then Inl DigestMismatch
        else Inr s)))"

definition overlaps_period :: "string \<Rightarrow> int64 \<Rightarrow> int64 \<Rightarrow> rateAssignmentRow \<Rightarrow> bool" where
  "overlaps_period acct startUS endUS r \<longleftrightarrow>
     ra_AccountID r = acct \<and> sint (ra_PeriodStartUS r) < sint endUS \<and> sint (ra_PeriodEndUS r) > sint startUS"

definition assign_tx :: "faults \<Rightarrow> string \<Rightarrow> int64 \<Rightarrow> int64 \<Rightarrow> string \<Rightarrow> instant \<Rightarrow> 'a billing_db_scheme \<Rightarrow> billing_error + ('a billing_db_scheme \<times> unit)" where
  "assign_tx F acct startUS endUS version now db =
     (if F (Insert ''locks'' 0) then Inl (DbFault (Insert ''locks'' 0))
      else let db = db\<lparr>bd_locks := insert_new (\<lambda>x. x) acct (bd_locks db)\<rparr>
      in if F (Select ''locks'') then Inl (DbFault (Select ''locks''))
      else if F (Select ''assignments'') then Inl (DbFault (Select ''assignments''))
      else let overlaps = filter (overlaps_period acct startUS endUS) (bd_assignments db)
      in if overlaps \<noteq> []
         then (if length overlaps = 1 \<and> ra_PeriodStartUS (hd overlaps) = startUS \<and> ra_PeriodEndUS (hd overlaps) = endUS
                 \<and> ra_ScheduleVersion (hd overlaps) = version then Inr (db, ()) else Inl ErrAssignmentConflict)
         else if F (Insert ''assignments'' 0) then Inl (DbFault (Insert ''assignments'' 0))
         else if has_key (\<lambda>r. (ra_AccountID r, ra_PeriodStartUS r)) (acct, startUS) (bd_assignments db) then Inl UniqueViolation
         else Inr (db\<lparr>bd_assignments := bd_assignments db @ [\<lparr>ra_AccountID = acct, ra_PeriodStartUS = startUS,
           ra_PeriodEndUS = endUS, ra_ScheduleVersion = version, ra_CreatedAt = now\<rparr>]\<rparr>, ()))"

definition AssignSchedule :: "codec \<Rightarrow> faults \<Rightarrow> string \<Rightarrow> instant \<Rightarrow> instant \<Rightarrow> string \<Rightarrow> instant \<Rightarrow> 'a billing_db_scheme
    \<Rightarrow> 'a billing_db_scheme \<times> (billing_error + unit)" where
  "AssignSchedule C F acct start stop version now db =
     (case ebind (billingAccountFromContext acct) (\<lambda>acct. ebind (billingPeriodMicros start stop) (\<lambda>(startUS, endUS).
            ebind (Schedule C F version db) (\<lambda>_. Inr (acct, startUS, endUS)))) of
        Inl e \<Rightarrow> (db, Inl e)
      | Inr (acct, startUS, endUS) \<Rightarrow> transaction F (DbFault Commit) db (assign_tx F acct startUS endUS version now))"

definition AssignmentOf :: "faults \<Rightarrow> string \<Rightarrow> instant \<Rightarrow> instant \<Rightarrow> 'a billing_db_scheme \<Rightarrow> billing_error + Assignment" where
  "AssignmentOf F acct start stop db =
     ebind (billingAccountFromContext acct) (\<lambda>acct. ebind (billingPeriodMicros start stop) (\<lambda>(startUS, endUS).
     if F (Select ''assignments'') then Inl (DbFault (Select ''assignments''))
     else (case find (\<lambda>r. (ra_AccountID r, ra_PeriodStartUS r) = (acct, startUS)) (bd_assignments db) of
         None \<Rightarrow> Inl ErrScheduleUnassigned
       | Some row \<Rightarrow> if ra_PeriodEndUS row \<noteq> endUS then Inl ErrScheduleUnassigned
         else Inr \<lparr>as_AccountID = ra_AccountID row, as_PeriodStart = fromMicro (ra_PeriodStartUS row),
                   as_PeriodEnd = fromMicro (ra_PeriodEndUS row), as_ScheduleVersion = ra_ScheduleVersion row\<rparr>)))"

definition AssignedSchedule :: "codec \<Rightarrow> faults \<Rightarrow> string \<Rightarrow> instant \<Rightarrow> instant \<Rightarrow> 'a billing_db_scheme \<Rightarrow> billing_error + RateSchedule" where
  "AssignedSchedule C F acct start stop db =
     ebind (AssignmentOf F acct start stop db) (\<lambda>a. Schedule C F (as_ScheduleVersion a) db)"

definition StoreCalculate :: "codec \<Rightarrow> faults \<Rightarrow> string \<Rightarrow> DeviceReport \<Rightarrow> RelayReport \<Rightarrow> 'a billing_db_scheme \<Rightarrow> billing_error + Estimate" where
  "StoreCalculate C F acct device relay db =
     ebind (AssignedSchedule C F acct (dr_Start device) (dr_End device) db) (\<lambda>s. wrap_err Pricing (Calculate device relay s))"

section \<open>Finalized invoices\<close>

definition invoiceSchema :: string where "invoiceSchema = ''invoice-inputs-v1''"

definition sameInvoiceInputs :: "FinalInvoice \<Rightarrow> FinalInvoice \<Rightarrow> bool" where
  "sameInvoiceInputs a b \<longleftrightarrow>
     fi_SchemaVersion a = fi_SchemaVersion b \<and> fi_AccountID a = fi_AccountID b
     \<and> fi_PeriodStart a = fi_PeriodStart b \<and> fi_PeriodEnd a = fi_PeriodEnd b
     \<and> fi_ScheduleVersion a = fi_ScheduleVersion b \<and> fi_Currency a = fi_Currency b
     \<and> fi_DeviceInputHash a = fi_DeviceInputHash b \<and> fi_RelayInputHash a = fi_RelayInputHash b
     \<and> fi_DeviceExact a = fi_DeviceExact b \<and> fi_RelayExact a = fi_RelayExact b \<and> fi_TotalExact a = fi_TotalExact b
     \<and> fi_DeviceMinor a = fi_DeviceMinor b \<and> fi_RelayMinor a = fi_RelayMinor b \<and> fi_TotalMinor a = fi_TotalMinor b"

text \<open>The checks of a stored invoice against its inputs.\<close>

definition check_amounts :: "FinalInvoice \<Rightarrow> Estimate \<Rightarrow> billing_error + unit" where
  "check_amounts invoice estimate =
     (if \<not> es_UsageComplete estimate \<or> es_DeviceExact estimate \<noteq> Some (fi_DeviceExact invoice)
         \<or> es_RelayExact estimate \<noteq> Some (fi_RelayExact invoice) \<or> es_TotalExact estimate \<noteq> Some (fi_TotalExact invoice)
      then Inl AmountsDiffer
      else ebind (wrap_err Pricing (parseExactNonnegative (fi_DeviceExact invoice))) (\<lambda>deviceAmount.
      ebind (wrap_err Pricing (parseExactNonnegative (fi_RelayExact invoice))) (\<lambda>relayAmount.
      ebind (wrap_err Pricing (parseExactNonnegative (fi_TotalExact invoice))) (\<lambda>totalAmount.
      if deviceAmount + relayAmount \<noteq> totalAmount then Inl BadTotal
      else (case truncateMinor (Some deviceAmount) of Inl _ \<Rightarrow> Inl BadLine
      | Inr deviceMinor \<Rightarrow> if deviceMinor \<noteq> fi_DeviceMinor invoice then Inl BadLine
      else (case truncateMinor (Some relayAmount) of Inl _ \<Rightarrow> Inl BadLine
      | Inr relayMinor \<Rightarrow>
        if relayMinor \<noteq> fi_RelayMinor invoice \<or> sint deviceMinor > 2 ^ 63 - 1 - sint relayMinor
           \<or> deviceMinor + relayMinor \<noteq> fi_TotalMinor invoice then Inl BadLine else Inr ()))))))"

definition verify_invoice :: "codec \<Rightarrow> faults \<Rightarrow> string \<Rightarrow> int64 \<Rightarrow> int64 \<Rightarrow> FinalInvoice \<Rightarrow> 'a billing_db_scheme \<Rightarrow> billing_error + FinalInvoice" where
  "verify_invoice C F acct startUS endUS invoice db =
     (if fi_AccountID invoice \<noteq> acct \<or> fi_SchemaVersion invoice \<noteq> invoiceSchema \<or> unixMicro (fi_PeriodStart invoice) \<noteq> startUS
         \<or> unixMicro (fi_PeriodEnd invoice) \<noteq> endUS \<or> fi_FinalizedAt invoice = zero_time \<or> \<not> isUTCCalendarMonth startUS endUS
      then Inl InvoiceInvalid
      else if digestJSON C (enc_device C (fi_DeviceUsage invoice)) \<noteq> Inr (fi_DeviceInputHash invoice) then Inl InputDigest
      else if digestJSON C (enc_relay C (fi_RelayUsage invoice)) \<noteq> Inr (fi_RelayInputHash invoice) then Inl InputDigest
      else ebind (Schedule C F (fi_ScheduleVersion invoice) db) (\<lambda>s.
      if rs_Currency s \<noteq> fi_Currency invoice then Inl CurrencyDiffers
      else (case Calculate (fi_DeviceUsage invoice) (fi_RelayUsage invoice) s of Inl _ \<Rightarrow> Inl AmountsDiffer
      | Inr estimate \<Rightarrow> ebind (check_amounts invoice estimate) (\<lambda>_. Inr invoice))))"

definition Invoice :: "codec \<Rightarrow> faults \<Rightarrow> string \<Rightarrow> instant \<Rightarrow> instant \<Rightarrow> 'a billing_db_scheme \<Rightarrow> billing_error + FinalInvoice" where
  "Invoice C F acct start stop db =
     ebind (billingAccountFromContext acct) (\<lambda>acct. ebind (billingPeriodMicros start stop) (\<lambda>(startUS, endUS).
     if F (Select ''invoices'') then Inl (DbFault (Select ''invoices''))
     else (case find (\<lambda>r. (iv_AccountID r, iv_PeriodStartUS r) = (acct, startUS)) (bd_invoices db) of
         None \<Rightarrow> Inl ErrInvoiceNotFound
       | Some row \<Rightarrow> if iv_PeriodEndUS row \<noteq> endUS then Inl ErrInvoiceNotFound
         else if hex (sha256 C (iv_Snapshot row)) \<noteq> iv_Digest row then Inl DigestMismatch
         else (case dec_invoice C (iv_Snapshot row) of None \<Rightarrow> Inl Decode
         | Some invoice \<Rightarrow> verify_invoice C F acct startUS endUS invoice db))))"

text \<open>The invoice to store: the assigned schedule's estimate, its lines truncated to minor units.\<close>

definition invoice_amounts :: "Estimate \<Rightarrow> billing_error + (ExactAmount \<times> ExactAmount \<times> ExactAmount \<times> int64 \<times> int64)" where
  "invoice_amounts estimate =
     (case (es_DeviceExact estimate, es_RelayExact estimate, es_TotalExact estimate) of
        (Some d, Some r, Some t) \<Rightarrow>
        ebind (wrap_err Pricing (parseExactNonnegative d)) (\<lambda>deviceExact.
        ebind (wrap_err Pricing (parseExactNonnegative r)) (\<lambda>relayExact.
        ebind (wrap_err Pricing (parseExactNonnegative t)) (\<lambda>totalExact.
        if deviceExact + relayExact \<noteq> totalExact then Inl BadTotal
        else ebind (wrap_err Pricing (truncateMinor (Some deviceExact))) (\<lambda>deviceMinor.
        ebind (wrap_err Pricing (truncateMinor (Some relayExact))) (\<lambda>relayMinor.
        if sint deviceMinor > 2 ^ 63 - 1 - sint relayMinor then Inl TotalTooLarge
        else Inr (d, r, t, deviceMinor, relayMinor))))))
      | _ \<Rightarrow> Inl ErrInvoiceIncomplete)"

definition prepare_invoice :: "codec \<Rightarrow> faults \<Rightarrow> string \<Rightarrow> DeviceReport \<Rightarrow> RelayReport \<Rightarrow> instant \<Rightarrow> 'a billing_db_scheme
    \<Rightarrow> billing_error + (int64 \<times> int64 \<times> FinalInvoice)" where
  "prepare_invoice C F acct device relay now db =
     ebind (billingAccountFromContext acct) (\<lambda>acct.
     ebind (billingPeriodMicros (dr_Start device) (dr_End device)) (\<lambda>(startUS, endUS).
     if \<not> isUTCCalendarMonth startUS endUS then Inl ErrInvalidPeriod
     else ebind (StoreCalculate C F acct device relay db) (\<lambda>estimate.
     if \<not> es_UsageComplete estimate \<or> es_Incomplete estimate \<noteq> [] \<or> es_DeviceExact estimate = None
        \<or> es_RelayExact estimate = None \<or> es_TotalExact estimate = None then Inl ErrInvoiceIncomplete
     else ebind (AssignmentOf F acct (dr_Start device) (dr_End device) db) (\<lambda>assignment.
     if es_ScheduleVersion estimate \<noteq> as_ScheduleVersion assignment then Inl ErrScheduleUnassigned
     else ebind (Schedule C F (as_ScheduleVersion assignment) db) (\<lambda>schedule.
     if es_Currency estimate \<noteq> rs_Currency schedule then Inl (Pricing ErrInvalidRateSchedule)
     else ebind (digestJSON C (enc_device C device)) (\<lambda>deviceHash.
     ebind (digestJSON C (enc_relay C relay)) (\<lambda>relayHash.
     ebind (invoice_amounts estimate) (\<lambda>(d, r, t, deviceMinor, relayMinor).
     Inr (startUS, endUS,
       \<lparr>fi_SchemaVersion = invoiceSchema, fi_AccountID = acct, fi_PeriodStart = fromMicro startUS, fi_PeriodEnd = fromMicro endUS,
        fi_ScheduleVersion = rs_Version schedule, fi_Currency = rs_Currency schedule, fi_DeviceUsage = device, fi_RelayUsage = relay,
        fi_DeviceInputHash = deviceHash, fi_RelayInputHash = relayHash, fi_DeviceExact = d, fi_RelayExact = r, fi_TotalExact = t,
        fi_DeviceMinor = deviceMinor, fi_RelayMinor = relayMinor, fi_TotalMinor = deviceMinor + relayMinor, fi_FinalizedAt = now\<rparr>)))))))))"

definition FinalizeInvoice :: "codec \<Rightarrow> faults \<Rightarrow> string \<Rightarrow> DeviceReport \<Rightarrow> RelayReport \<Rightarrow> instant \<Rightarrow> 'a billing_db_scheme
    \<Rightarrow> 'a billing_db_scheme \<times> (billing_error + FinalInvoice)" where
  "FinalizeInvoice C F acct device relay now db =
     (case prepare_invoice C F acct device relay now db of Inl e \<Rightarrow> (db, Inl e)
      | Inr (startUS, endUS, invoice) \<Rightarrow>
     (case enc_invoice C invoice of None \<Rightarrow> (db, Inl Encode)
      | Some snapshot \<Rightarrow>
        if F (Insert ''invoices'' 0) then (db, Inl (DbFault (Insert ''invoices'' 0)))
        else if \<not> has_key (\<lambda>r. (iv_AccountID r, iv_PeriodStartUS r)) (acct, startUS) (bd_invoices db)
        then (db\<lparr>bd_invoices := bd_invoices db @ [\<lparr>iv_AccountID = acct, iv_PeriodStartUS = startUS, iv_PeriodEndUS = endUS,
                iv_Digest = hex (sha256 C snapshot), iv_Snapshot = snapshot, iv_FinalizedAt = now\<rparr>]\<rparr>, Inr invoice)
        else (case Invoice C F acct (dr_Start device) (dr_End device) db of Inl e \<Rightarrow> (db, Inl e)
        | Inr stored \<Rightarrow> if sameInvoiceInputs invoice stored then (db, Inr stored) else (db, Inl ErrInvoiceConflict))))"

end
