(* ===== verification/Billing_Payments.thy ===== *)
theory Billing_Payments
  imports Billing_Store "HOL-Library.Product_Lexorder"
begin

text \<open>Collection of finalized invoices, \<^verbatim>\<open>billing/payment_state.go\<close>, \<^verbatim>\<open>payment_retry.go\<close>, \<^verbatim>\<open>webhook_process.go\<close>,
  \<^verbatim>\<open>paddle.go\<close>, \<^verbatim>\<open>paddle_account.go\<close> and \<^verbatim>\<open>paddle_process.go\<close>: the outbox of payment intents, their attempts, the
  transition history and the webhook inbox. Each transaction is one step on the tables; the provider is a parameter
  and the requests sent to it are collected. An operation reads its clock once.\<close>

section \<open>States and rows\<close>

definition PaymentReady :: string where "PaymentReady = ''ready''"

definition PaymentSubmitting :: string where "PaymentSubmitting = ''submitting''"

definition PaymentReconcile :: string where "PaymentReconcile = ''reconcile''"

definition PaymentCheckout :: string where "PaymentCheckout = ''checkout''"

definition PaymentPaid :: string where "PaymentPaid = ''paid''"

definition PaymentPastDue :: string where "PaymentPastDue = ''past_due''"

definition PaymentOperatorHold :: string where "PaymentOperatorHold = ''operator_hold''"

definition paymentRetryQueued :: string where "paymentRetryQueued = ''queued''"

definition paymentRetrySkipped :: string where "paymentRetrySkipped = ''skipped''"

lemmas payment_states = PaymentReady_def PaymentSubmitting_def PaymentReconcile_def PaymentCheckout_def PaymentPaid_def
  PaymentPastDue_def PaymentOperatorHold_def paymentRetryQueued_def paymentRetrySkipped_def

definition paymentRetryDays :: "int list" where "paymentRetryDays = [1, 3, 7, 12]"

record paymentOutboxRow =
  po_InvoiceRef :: string
  po_AccountID :: string
  po_PeriodStart :: int64
  po_PeriodEnd :: int64
  po_Currency :: string
  po_AmountMinor :: int64
  po_InvoiceHash :: string
  po_State :: string
  po_ProviderID :: string
  po_ProviderCustomerID :: string
  po_CheckoutURL :: string
  po_LatestAttempt :: int
  po_FirstFailureAtUS :: "int64 option"
  po_AttemptStartedAt :: instant
  po_LastProviderEventUS :: int64
  po_UpdatedAt :: instant

record paymentAttemptRow =
  pa_InvoiceRef :: string
  pa_Number :: int
  pa_State :: string
  pa_ScheduledAt :: instant
  pa_AttemptStartedAt :: instant
  pa_ProviderID :: string
  pa_CheckoutURL :: string
  pa_LastProviderEventUS :: int64
  pa_UpdatedAt :: instant

record paymentHistoryRow =
  ph_InvoiceRef :: string
  ph_FromState :: string
  ph_ToState :: string
  ph_EventID :: string
  ph_CreatedAt :: instant

record NormalizedPaddleEvent =
  ne_EventID :: string
  ne_EventType :: string
  ne_OccurredAt :: instant
  ne_TransactionID :: string
  ne_CustomerID :: string
  ne_InvoiceRef :: string
  ne_AttemptNumber :: int
  ne_Status :: string

text \<open>The payload column holds the text of an event; it is represented by what decoding it gives, nothing for text
  that does not decode.\<close>

record webhookInboxRow =
  wi_EventID :: string
  wi_EventType :: string
  wi_OccurredUS :: int64
  wi_ReceivedAt :: instant
  wi_ProcessedAt :: "instant option"
  wi_Payload :: "NormalizedPaddleEvent option"

record paddleAccountRow =
  pc_AccountID :: string
  pc_Enabled :: bool
  pc_CustomerID :: string
  pc_ProductID :: string
  pc_UpdatedAt :: instant

record payment_db = billing_db +
  bd_outbox :: "paymentOutboxRow list"
  bd_attempts :: "paymentAttemptRow list"
  bd_history :: "paymentHistoryRow list"
  bd_inbox :: "webhookInboxRow list"
  bd_accounts :: "paddleAccountRow list"

abbreviation attempt_key :: "paymentAttemptRow \<Rightarrow> string \<times> int" where
  "attempt_key a \<equiv> (pa_InvoiceRef a, pa_Number a)"

definition outbox_row :: "string \<Rightarrow> payment_db \<Rightarrow> paymentOutboxRow option" where
  "outbox_row ref db = find (\<lambda>p. po_InvoiceRef p = ref) (bd_outbox db)"

definition attempt_row :: "string \<Rightarrow> int \<Rightarrow> payment_db \<Rightarrow> paymentAttemptRow option" where
  "attempt_row ref n db = find (\<lambda>a. attempt_key a = (ref, n)) (bd_attempts db)"

record PaymentIntent =
  pi_InvoiceReference :: string
  pi_AccountID :: string
  pi_PeriodStart :: instant
  pi_PeriodEnd :: instant
  pi_Currency :: string
  pi_AmountMinor :: int64
  pi_InvoiceSHA256 :: string
  pi_State :: string
  pi_ProviderID :: string
  pi_ProviderCustomerID :: string
  pi_CheckoutURL :: string
  pi_AttemptStartedAt :: instant
  pi_UpdatedAt :: instant

definition paymentIntent :: "paymentOutboxRow \<Rightarrow> PaymentIntent" where
  "paymentIntent row =
     \<lparr>pi_InvoiceReference = po_InvoiceRef row, pi_AccountID = po_AccountID row, pi_PeriodStart = fromMicro (po_PeriodStart row),
      pi_PeriodEnd = fromMicro (po_PeriodEnd row), pi_Currency = po_Currency row, pi_AmountMinor = po_AmountMinor row,
      pi_InvoiceSHA256 = po_InvoiceHash row, pi_State = po_State row, pi_ProviderID = po_ProviderID row,
      pi_ProviderCustomerID = po_ProviderCustomerID row, pi_CheckoutURL = po_CheckoutURL row,
      pi_AttemptStartedAt = po_AttemptStartedAt row, pi_UpdatedAt = po_UpdatedAt row\<rparr>"

definition validPaymentTransition :: "string \<Rightarrow> string \<Rightarrow> bool" where
  "validPaymentTransition old new =
     (if old = PaymentReady then new = PaymentSubmitting \<or> new = PaymentOperatorHold
      else if old = PaymentSubmitting
      then new = PaymentReconcile \<or> new = PaymentCheckout \<or> new = PaymentPaid \<or> new = PaymentPastDue \<or> new = PaymentOperatorHold
      else if old = PaymentReconcile then new = PaymentCheckout \<or> new = PaymentPaid \<or> new = PaymentPastDue \<or> new = PaymentOperatorHold
      else if old = PaymentCheckout then new = PaymentPaid \<or> new = PaymentPastDue \<or> new = PaymentOperatorHold
      else if old = PaymentPastDue then new = PaymentPaid \<or> new = PaymentOperatorHold
      else if old = PaymentOperatorHold
      then new = PaymentReconcile \<or> new = PaymentCheckout \<or> new = PaymentPaid \<or> new = PaymentPastDue
      else False)"

section \<open>Statements\<close>

definition add_history :: "faults \<Rightarrow> string \<Rightarrow> string \<Rightarrow> string \<Rightarrow> string \<Rightarrow> instant \<Rightarrow> payment_db \<Rightarrow> billing_error + payment_db" where
  "add_history F ref old new event now db =
     (if F (Insert ''history'' 0) then Inl (DbFault (Insert ''history'' 0))
      else Inr (db\<lparr>bd_history := bd_history db @ [\<lparr>ph_InvoiceRef = ref, ph_FromState = old, ph_ToState = new,
             ph_EventID = event, ph_CreatedAt = now\<rparr>]\<rparr>))"

definition update_outbox :: "faults \<Rightarrow> (paymentOutboxRow \<Rightarrow> bool) \<Rightarrow> (paymentOutboxRow \<Rightarrow> paymentOutboxRow) \<Rightarrow> payment_db \<Rightarrow> billing_error + payment_db" where
  "update_outbox F P f db =
     (if F (Update ''outbox'') then Inl (DbFault (Update ''outbox'')) else Inr (db\<lparr>bd_outbox := update_rows P f (bd_outbox db)\<rparr>))"

definition update_attempts :: "faults \<Rightarrow> (paymentAttemptRow \<Rightarrow> bool) \<Rightarrow> (paymentAttemptRow \<Rightarrow> paymentAttemptRow) \<Rightarrow> payment_db \<Rightarrow> billing_error + payment_db" where
  "update_attempts F P f db =
     (if F (Update ''attempts'') then Inl (DbFault (Update ''attempts''))
      else Inr (db\<lparr>bd_attempts := update_rows P f (bd_attempts db)\<rparr>))"

definition select_outbox :: "faults \<Rightarrow> string \<Rightarrow> payment_db \<Rightarrow> billing_error + paymentOutboxRow" where
  "select_outbox F ref db =
     (if F (Select ''outbox'') then Inl (DbFault (Select ''outbox''))
      else case outbox_row ref db of None \<Rightarrow> Inl RecordNotFound | Some p \<Rightarrow> Inr p)"

definition select_attempt :: "faults \<Rightarrow> string \<Rightarrow> int \<Rightarrow> payment_db \<Rightarrow> billing_error + paymentAttemptRow" where
  "select_attempt F ref n db =
     (if F (Select ''attempts'') then Inl (DbFault (Select ''attempts''))
      else case attempt_row ref n db of None \<Rightarrow> Inl RecordNotFound | Some a \<Rightarrow> Inr a)"

definition ensureInitialPaymentAttempt :: "faults \<Rightarrow> paymentOutboxRow \<Rightarrow> payment_db \<Rightarrow> billing_error + payment_db" where
  "ensureInitialPaymentAttempt F payment db =
     (if F (Insert ''attempts'' 0) then Inl (DbFault (Insert ''attempts'' 0))
      else Inr (db\<lparr>bd_attempts := insert_new attempt_key
        \<lparr>pa_InvoiceRef = po_InvoiceRef payment, pa_Number = 0, pa_State = po_State payment, pa_ScheduledAt = po_UpdatedAt payment,
         pa_AttemptStartedAt = po_AttemptStartedAt payment, pa_ProviderID = po_ProviderID payment, pa_CheckoutURL = po_CheckoutURL payment,
         pa_LastProviderEventUS = po_LastProviderEventUS payment, pa_UpdatedAt = po_UpdatedAt payment\<rparr> (bd_attempts db)\<rparr>))"

section \<open>Provider requests\<close>

definition validPaddleID :: "string \<Rightarrow> string \<Rightarrow> bool" where
  "validPaddleID v prefix \<longleftrightarrow> length v = length prefix + 26 \<and> take (length prefix) v = prefix
     \<and> list_all (\<lambda>c. (CHR ''a'' \<le> c \<and> c \<le> CHR ''z'') \<or> digit c) (drop (length prefix) v)"

definition paddleInvoiceReference :: "codec \<Rightarrow> FinalInvoice \<Rightarrow> string" where
  "paddleInvoiceReference C invoice =
     ''ki_'' @ hex (sha256 C (''karst-invoice-v1'' @ [chr 0] @ fi_AccountID invoice @ [chr 0] @ int_string (sint (unixMicro (fi_PeriodStart invoice)))
       @ [chr 0] @ int_string (sint (unixMicro (fi_PeriodEnd invoice)))))"

text \<open>The price of an item and the custom data are nested structs of the wire format, written here as fields of their owner. The
  billing cycle of a price is always absent.\<close>

record PaddleTransactionItem =
  it_Quantity :: int
  it_ProductID :: string
  it_Description :: string
  it_Name :: string
  it_Amount :: string
  it_CurrencyCode :: string

record PaddleTransactionRequest =
  tq_CustomerID :: string
  tq_CollectionMode :: string
  tq_CurrencyCode :: string
  tq_Items :: "PaddleTransactionItem list"
  tq_KarstInvoiceID :: string
  tq_KarstAttemptNumber :: int

record PaddleTransaction =
  tn_ID :: string
  tn_Status :: string
  tn_CustomerID :: string
  tn_CurrencyCode :: string
  tn_KarstInvoiceID :: string
  tn_KarstAttemptNumber :: int
  tn_CheckoutURL :: string
  tn_CreatedAt :: instant

definition paddleItem :: "string \<Rightarrow> string \<Rightarrow> string \<Rightarrow> int64 \<Rightarrow> PaddleTransactionItem" where
  "paddleItem productID name description amount =
     \<lparr>it_Quantity = 1, it_ProductID = productID, it_Description = description, it_Name = name,
      it_Amount = int_string (sint amount), it_CurrencyCode = ''USD''\<rparr>"

definition pad_left :: "nat \<Rightarrow> string \<Rightarrow> string" where
  "pad_left width s = replicate (width - length s) (CHR ''0'') @ s"

definition format_month :: "instant \<Rightarrow> string" where
  "format_month t =
     (let (y, m, d) = date_of (t div day_length)
      in (if y < 0 then ''-'' else []) @ pad_left 4 (itoa (nat \<bar>y\<bar>)) @ ''-'' @ pad_left 2 (itoa (nat m)))"

definition BuildPaddleAttemptRequest :: "codec \<Rightarrow> FinalInvoice \<Rightarrow> string \<Rightarrow> string \<Rightarrow> int \<Rightarrow> billing_error + PaddleTransactionRequest" where
  "BuildPaddleAttemptRequest C invoice customerID productID attemptNumber =
     (if \<not> validPaddleID customerID ''ctm_'' \<or> \<not> validPaddleID productID ''pro_''
         \<or> attemptNumber < 0 \<or> attemptNumber > int (length paymentRetryDays)
         \<or> fi_AccountID invoice = [] \<or> fi_SchemaVersion invoice \<noteq> invoiceSchema
         \<or> fi_Currency invoice \<noteq> ''USD'' \<or> fi_FinalizedAt invoice = zero_time
         \<or> \<not> isUTCCalendarMonth (unixMicro (fi_PeriodStart invoice)) (unixMicro (fi_PeriodEnd invoice))
         \<or> fi_PeriodStart invoice mod 1000 \<noteq> 0 \<or> fi_PeriodEnd invoice mod 1000 \<noteq> 0
         \<or> sint (fi_DeviceMinor invoice) < 0 \<or> sint (fi_RelayMinor invoice) < 0 \<or> sint (fi_TotalMinor invoice) < 0
         \<or> sint (fi_DeviceMinor invoice) > 2 ^ 63 - 1 - sint (fi_RelayMinor invoice)
         \<or> fi_DeviceMinor invoice + fi_RelayMinor invoice \<noteq> fi_TotalMinor invoice then Inl ErrInvalidPaddleInvoice
      else if fi_TotalMinor invoice = 0 then Inl ErrNoPaddleCharge
      else let period = format_month (fi_PeriodStart invoice);
               device = (if sint (fi_DeviceMinor invoice) > 0
                 then [paddleItem productID (''Managed device usage '' @ period) (''Karst managed device usage for '' @ period) (fi_DeviceMinor invoice)] else []);
               relay = (if sint (fi_RelayMinor invoice) > 0
                 then [paddleItem productID (''Managed relay usage '' @ period) (''Karst managed relay usage for '' @ period) (fi_RelayMinor invoice)] else [])
           in Inr \<lparr>tq_CustomerID = customerID, tq_CollectionMode = ''automatic'', tq_CurrencyCode = ''USD'', tq_Items = device @ relay,
                   tq_KarstInvoiceID = paddleInvoiceReference C invoice, tq_KarstAttemptNumber = attemptNumber\<rparr>)"

definition BuildPaddleTransactionRequest :: "codec \<Rightarrow> FinalInvoice \<Rightarrow> string \<Rightarrow> string \<Rightarrow> billing_error + PaddleTransactionRequest" where
  "BuildPaddleTransactionRequest C invoice customerID productID = BuildPaddleAttemptRequest C invoice customerID productID 0"

definition paddlePaymentState :: "string \<Rightarrow> string" where
  "paddlePaymentState status =
     (if status \<in> {''completed'', ''paid''} then PaymentPaid else if status = ''past_due'' then PaymentPastDue
      else if status \<in> {''draft'', ''ready'', ''billed''} then PaymentCheckout else PaymentOperatorHold)"

section \<open>Intents\<close>

definition new_attempt :: "string \<Rightarrow> int \<Rightarrow> string \<Rightarrow> instant \<Rightarrow> instant \<Rightarrow> paymentAttemptRow" where
  "new_attempt ref n state scheduled updated =
     \<lparr>pa_InvoiceRef = ref, pa_Number = n, pa_State = state, pa_ScheduledAt = scheduled, pa_AttemptStartedAt = zero_time,
      pa_ProviderID = [], pa_CheckoutURL = [], pa_LastProviderEventUS = 0, pa_UpdatedAt = updated\<rparr>"

definition queue_tx :: "faults \<Rightarrow> paymentOutboxRow \<Rightarrow> payment_db \<Rightarrow> billing_error + (payment_db \<times> paymentOutboxRow)" where
  "queue_tx F row db =
     (if F (Insert ''outbox'' 0) then Inl (DbFault (Insert ''outbox'' 0))
      else let ref = po_InvoiceRef row
      in if \<not> has_key po_InvoiceRef ref (bd_outbox db)
      then ebind (add_history F ref [] PaymentReady [] (po_UpdatedAt row) (db\<lparr>bd_outbox := bd_outbox db @ [row]\<rparr>)) (\<lambda>db.
           if F (Insert ''attempts'' 0) then Inl (DbFault (Insert ''attempts'' 0))
           else if has_key attempt_key (ref, 0) (bd_attempts db) then Inl UniqueViolation
           else Inr (db\<lparr>bd_attempts := bd_attempts db @ [new_attempt ref 0 PaymentReady (po_UpdatedAt row) (po_UpdatedAt row)]\<rparr>, row))
      else ebind (select_outbox F ref db) (\<lambda>existing.
           if po_AccountID existing \<noteq> po_AccountID row \<or> po_PeriodStart existing \<noteq> po_PeriodStart row \<or> po_PeriodEnd existing \<noteq> po_PeriodEnd row
              \<or> po_AmountMinor existing \<noteq> po_AmountMinor row \<or> po_Currency existing \<noteq> po_Currency row \<or> po_InvoiceHash existing \<noteq> po_InvoiceHash row
           then Inl ErrPaymentConflict
           else ebind (ensureInitialPaymentAttempt F existing db) (\<lambda>db. Inr (db, existing))))"

definition intent_result :: "payment_db \<times> (billing_error + paymentOutboxRow) \<Rightarrow> payment_db \<times> (billing_error + PaymentIntent)" where
  "intent_result r = (fst r, ebind (snd r) (\<lambda>row. Inr (paymentIntent row)))"

definition QueuePayment :: "codec \<Rightarrow> faults \<Rightarrow> string \<Rightarrow> instant \<Rightarrow> instant \<Rightarrow> instant \<Rightarrow> payment_db \<Rightarrow> payment_db \<times> (billing_error + PaymentIntent)" where
  "QueuePayment C F acct start stop now db =
     (case Invoice C F acct start stop db of Inl e \<Rightarrow> (db, Inl e)
      | Inr invoice \<Rightarrow>
        if sint (fi_TotalMinor invoice) \<le> 0 \<or> fi_Currency invoice \<noteq> ''USD'' then (db, Inl ErrInvalidPaddleInvoice)
        else (case digestJSON C (enc_invoice C invoice) of Inl e \<Rightarrow> (db, Inl e)
        | Inr hash \<Rightarrow>
          intent_result (transaction F (DbFault Commit) db (queue_tx F
            \<lparr>po_InvoiceRef = paddleInvoiceReference C invoice, po_AccountID = fi_AccountID invoice, po_PeriodStart = unixMicro (fi_PeriodStart invoice),
             po_PeriodEnd = unixMicro (fi_PeriodEnd invoice), po_Currency = fi_Currency invoice, po_AmountMinor = fi_TotalMinor invoice,
             po_InvoiceHash = hash, po_State = PaymentReady, po_ProviderID = [], po_ProviderCustomerID = [], po_CheckoutURL = [],
             po_LatestAttempt = 0, po_FirstFailureAtUS = None, po_AttemptStartedAt = zero_time, po_LastProviderEventUS = 0, po_UpdatedAt = now\<rparr>))))"

definition Payment :: "faults \<Rightarrow> string \<Rightarrow> instant \<Rightarrow> instant \<Rightarrow> payment_db \<Rightarrow> billing_error + PaymentIntent" where
  "Payment F acct start stop db =
     ebind (billingAccountFromContext acct) (\<lambda>acct. ebind (billingPeriodMicros start stop) (\<lambda>(startUS, endUS).
     if F (Select ''outbox'') then Inl (DbFault (Select ''outbox''))
     else (case first_row (order_asc po_InvoiceRef (filter (\<lambda>p. po_AccountID p = acct \<and> po_PeriodStart p = startUS \<and> po_PeriodEnd p = endUS) (bd_outbox db))) of
         None \<Rightarrow> Inl ErrPaymentNotFound | Some row \<Rightarrow> Inr (paymentIntent row))))"

definition PaymentFailureNotices :: "faults \<Rightarrow> string \<Rightarrow> instant \<Rightarrow> instant \<Rightarrow> payment_db \<Rightarrow> billing_error + (instant \<times> instant \<times> instant) list" where
  "PaymentFailureNotices F acct start stop db =
     ebind (billingAccountFromContext acct) (\<lambda>acct. ebind (billingPeriodMicros start stop) (\<lambda>(startUS, endUS).
     if F (Select ''history'') then Inl (DbFault (Select ''history''))
     else Inr (map (\<lambda>(p, h). (fromMicro (po_PeriodStart p), fromMicro (po_PeriodEnd p), ph_CreatedAt h))
       (order_asc (\<lambda>(p, h). ph_CreatedAt h)
         [(p, h). h \<leftarrow> bd_history db, p \<leftarrow> bd_outbox db, po_InvoiceRef p = ph_InvoiceRef h \<and> po_AccountID p = acct
           \<and> po_PeriodStart p = startUS \<and> po_PeriodEnd p = endUS \<and> ph_ToState h = PaymentPastDue]))))"

definition move_outbox :: "string \<Rightarrow> string \<Rightarrow> string \<Rightarrow> instant \<Rightarrow> paymentOutboxRow \<Rightarrow> paymentOutboxRow" where
  "move_outbox new providerID checkoutURL now row =
     row\<lparr>po_State := new, po_UpdatedAt := now,
         po_AttemptStartedAt := (if new = PaymentSubmitting then now else po_AttemptStartedAt row),
         po_ProviderID := (if providerID \<noteq> [] then providerID else po_ProviderID row),
         po_CheckoutURL := (if checkoutURL \<noteq> [] then checkoutURL else po_CheckoutURL row)\<rparr>"

definition move_attempt :: "string \<Rightarrow> string \<Rightarrow> string \<Rightarrow> instant \<Rightarrow> paymentAttemptRow \<Rightarrow> paymentAttemptRow" where
  "move_attempt new providerID checkoutURL now row =
     row\<lparr>pa_State := new, pa_UpdatedAt := now,
         pa_AttemptStartedAt := (if new = PaymentSubmitting then now else pa_AttemptStartedAt row),
         pa_ProviderID := (if providerID \<noteq> [] then providerID else pa_ProviderID row),
         pa_CheckoutURL := (if checkoutURL \<noteq> [] then checkoutURL else pa_CheckoutURL row)\<rparr>"

definition update_state_tx :: "faults \<Rightarrow> string \<Rightarrow> string \<Rightarrow> string \<Rightarrow> string \<Rightarrow> string \<Rightarrow> instant \<Rightarrow> payment_db \<Rightarrow> billing_error + (payment_db \<times> paymentOutboxRow)" where
  "update_state_tx F ref expected new providerID checkoutURL now db =
     (case select_outbox F ref db of Inl _ \<Rightarrow> Inl ErrPaymentNotFound
      | Inr row \<Rightarrow>
        if po_State row = new then Inr (db, row)
        else if po_State row \<noteq> expected then Inl ErrInvalidPaymentState
        else let P = (\<lambda>p. po_InvoiceRef p = ref \<and> po_State p = expected)
        in ebind (update_outbox F P (move_outbox new providerID checkoutURL now) db) (\<lambda>db'.
           if affected P (bd_outbox db) \<noteq> 1 then Inl ErrInvalidPaymentState
           else ebind (add_history F ref expected new [] now db') (\<lambda>db'.
           ebind (ensureInitialPaymentAttempt F row db') (\<lambda>db'.
           ebind (update_attempts F (\<lambda>a. attempt_key a = (ref, 0)) (move_attempt new providerID checkoutURL now) db') (\<lambda>db'.
           Inr (db', move_outbox new providerID checkoutURL now row))))))"

definition UpdatePaymentState :: "faults \<Rightarrow> string \<Rightarrow> string \<Rightarrow> string \<Rightarrow> string \<Rightarrow> string \<Rightarrow> instant \<Rightarrow> payment_db
    \<Rightarrow> payment_db \<times> (billing_error + PaymentIntent)" where
  "UpdatePaymentState F ref expected new providerID checkoutURL now db =
     (if \<not> validPaymentTransition expected new then (db, Inl ErrInvalidPaymentState)
      else intent_result (transaction F (DbFault Commit) db (update_state_tx F ref expected new providerID checkoutURL now)))"

definition set_customer_tx :: "faults \<Rightarrow> string \<Rightarrow> string \<Rightarrow> instant \<Rightarrow> payment_db \<Rightarrow> billing_error + (payment_db \<times> paymentOutboxRow)" where
  "set_customer_tx F ref customerID now db =
     (case select_outbox F ref db of Inl _ \<Rightarrow> Inl ErrPaymentNotFound
      | Inr row \<Rightarrow>
        if po_ProviderCustomerID row \<noteq> [] \<and> po_ProviderCustomerID row \<noteq> customerID then Inl ErrPaymentConflict
        else if po_State row \<noteq> PaymentReady then Inl ErrInvalidPaymentState
        else if po_ProviderCustomerID row = []
        then let P = (\<lambda>p. po_InvoiceRef p = ref \<and> po_State p = PaymentReady \<and> po_ProviderCustomerID p = [])
             in ebind (update_outbox F P (\<lambda>p. p\<lparr>po_ProviderCustomerID := customerID, po_UpdatedAt := now\<rparr>) db) (\<lambda>db'.
                if affected P (bd_outbox db) \<noteq> 1 then Inl ErrInvalidPaymentState
                else Inr (db', row\<lparr>po_ProviderCustomerID := customerID\<rparr>))
        else Inr (db, row))"

definition SetPaymentCustomer :: "faults \<Rightarrow> string \<Rightarrow> string \<Rightarrow> instant \<Rightarrow> payment_db \<Rightarrow> payment_db \<times> (billing_error + PaymentIntent)" where
  "SetPaymentCustomer F ref customerID now db =
     (if \<not> validPaddleID customerID ''ctm_'' then (db, Inl ErrInvalidPaddleInvoice)
      else intent_result (transaction F (DbFault Commit) db (set_customer_tx F ref customerID now)))"

section \<open>Webhooks\<close>

text \<open>An instant has a JSON text when its year has four digits.\<close>

definition year0 :: instant where "year0 = - seconds 62167219200"

definition RecordWebhook :: "faults \<Rightarrow> NormalizedPaddleEvent \<Rightarrow> instant \<Rightarrow> payment_db \<Rightarrow> payment_db \<times> (billing_error + bool)" where
  "RecordWebhook F event now db =
     (if ne_EventID event = [] \<or> length (ne_EventID event) > 128 \<or> ne_EventType event = [] \<or> length (ne_EventType event) > 128
         \<or> ne_OccurredAt event = zero_time then (db, Inl InvalidEvent)
      else if ne_OccurredAt event < year0 \<or> ne_OccurredAt event \<ge> year10000 then (db, Inl Encode)
      else let row = \<lparr>wi_EventID = ne_EventID event, wi_EventType = ne_EventType event, wi_OccurredUS = unixMicro (ne_OccurredAt event),
                      wi_ReceivedAt = now, wi_ProcessedAt = None, wi_Payload = Some event\<rparr>
      in if F (Insert ''inbox'' 0) then (db, Inl (DbFault (Insert ''inbox'' 0)))
      else if \<not> has_key wi_EventID (ne_EventID event) (bd_inbox db) then (db\<lparr>bd_inbox := bd_inbox db @ [row]\<rparr>, Inr True)
      else if F (Select ''inbox'') then (db, Inl (DbFault (Select ''inbox'')))
      else (case find (\<lambda>r. wi_EventID r = ne_EventID event) (bd_inbox db) of None \<Rightarrow> (db, Inl RecordNotFound)
      | Some old \<Rightarrow>
        if wi_EventType old \<noteq> wi_EventType row \<or> wi_OccurredUS old \<noteq> wi_OccurredUS row \<or> wi_Payload old \<noteq> wi_Payload row
        then (db, Inl ErrWebhookConflict) else (db, Inr False)))"

definition markWebhookProcessed :: "faults \<Rightarrow> webhookInboxRow \<Rightarrow> instant \<Rightarrow> payment_db \<Rightarrow> billing_error + (payment_db \<times> bool)" where
  "markWebhookProcessed F inbox now db =
     (let P = (\<lambda>r. wi_EventID r = wi_EventID inbox \<and> wi_ProcessedAt r = None)
      in if F (Update ''inbox'') then Inl (DbFault (Update ''inbox''))
         else Inr (db\<lparr>bd_inbox := update_rows P (\<lambda>r. r\<lparr>wi_ProcessedAt := Some now\<rparr>) (bd_inbox db)\<rparr>, affected P (bd_inbox db) = 1))"

definition insert_retry :: "faults \<Rightarrow> string \<Rightarrow> instant \<Rightarrow> payment_db \<Rightarrow> nat \<times> int \<Rightarrow> billing_error + payment_db" where
  "insert_retry F ref failedAt db = (\<lambda>(index, days).
     if F (Insert ''attempts'' (index + 1)) then Inl (DbFault (Insert ''attempts'' (index + 1)))
     else Inr (db\<lparr>bd_attempts := insert_new attempt_key
       (new_attempt ref (int index + 1) paymentRetryQueued (failedAt + days * day_length) failedAt) (bd_attempts db)\<rparr>))"

definition schedulePaymentRetriesTx :: "faults \<Rightarrow> paymentOutboxRow \<Rightarrow> instant \<Rightarrow> instant \<Rightarrow> payment_db \<Rightarrow> billing_error + payment_db" where
  "schedulePaymentRetriesTx F payment failedAt now db =
     (if po_FirstFailureAtUS payment \<noteq> None then Inr db
      else ebind (update_outbox F (\<lambda>p. po_InvoiceRef p = po_InvoiceRef payment \<and> po_FirstFailureAtUS p = None)
             (\<lambda>p. p\<lparr>po_FirstFailureAtUS := Some (unixMicro failedAt), po_UpdatedAt := now\<rparr>) db) (\<lambda>db.
           eforeach (insert_retry F (po_InvoiceRef payment) failedAt) db (List.enumerate 0 paymentRetryDays)))"

definition webhook_target :: "string \<Rightarrow> string option" where
  "webhook_target eventType =
     (if eventType \<in> {''transaction.completed'', ''transaction.paid''} then Some PaymentPaid
      else if eventType \<in> {''transaction.past_due'', ''transaction.payment_failed''} then Some PaymentPastDue
      else if eventType \<in> {''transaction.ready'', ''transaction.billed''} then Some PaymentCheckout
      else if eventType = ''transaction.canceled'' then Some PaymentOperatorHold
      else None)"

definition skip_later_retries :: "faults \<Rightarrow> string \<Rightarrow> int \<Rightarrow> instant \<Rightarrow> payment_db \<Rightarrow> billing_error + payment_db" where
  "skip_later_retries F ref n now =
     update_attempts F (\<lambda>a. pa_InvoiceRef a = ref \<and> pa_Number a > n \<and> pa_State a = paymentRetryQueued)
       (\<lambda>a. a\<lparr>pa_State := paymentRetrySkipped, pa_UpdatedAt := now\<rparr>)"

text \<open>What an event does to its attempt, its invoice, the history and the later retries, once it is known to be news.\<close>

definition webhook_attempt :: "faults \<Rightarrow> NormalizedPaddleEvent \<Rightarrow> int64 \<Rightarrow> string \<Rightarrow> instant \<Rightarrow> payment_db \<Rightarrow> billing_error + payment_db" where
  "webhook_attempt F event occurredUS target now db =
     update_attempts F (\<lambda>a. attempt_key a = (ne_InvoiceRef event, ne_AttemptNumber event))
       (\<lambda>a. a\<lparr>pa_ProviderID := ne_TransactionID event, pa_LastProviderEventUS := occurredUS, pa_UpdatedAt := now, pa_State := target\<rparr>) db"

definition webhook_invoice :: "faults \<Rightarrow> NormalizedPaddleEvent \<Rightarrow> int64 \<Rightarrow> string \<Rightarrow> paymentOutboxRow \<Rightarrow> instant \<Rightarrow> payment_db \<Rightarrow> billing_error + payment_db" where
  "webhook_invoice F event occurredUS target payment now db =
     (let current = ((target = PaymentPaid \<or> po_LatestAttempt payment = ne_AttemptNumber event)
            \<and> \<not> (po_State payment = PaymentPaid \<and> target \<noteq> PaymentPaid))
      in update_outbox F (\<lambda>p. po_InvoiceRef p = ne_InvoiceRef event)
           (\<lambda>p. p\<lparr>po_UpdatedAt := now,
                  po_LastProviderEventUS := (if sint occurredUS > sint (po_LastProviderEventUS payment) then occurredUS else po_LastProviderEventUS p),
                  po_State := (if current then target else po_State p),
                  po_ProviderID := (if current then ne_TransactionID event else po_ProviderID p)\<rparr>) db)"

definition webhook_history :: "faults \<Rightarrow> NormalizedPaddleEvent \<Rightarrow> string \<Rightarrow> paymentOutboxRow \<Rightarrow> paymentAttemptRow \<Rightarrow> instant \<Rightarrow> payment_db \<Rightarrow> billing_error + payment_db" where
  "webhook_history F event target payment attempt now db =
     (let fromState = (if po_LatestAttempt payment = ne_AttemptNumber event then po_State payment else pa_State attempt)
      in if fromState \<noteq> target then add_history F (ne_InvoiceRef event) fromState target (ne_EventID event) now db
         else if target = PaymentPastDue then add_history F (ne_InvoiceRef event) PaymentPastDue PaymentPastDue (ne_EventID event) now db
         else Inr db)"

definition webhook_retries :: "faults \<Rightarrow> NormalizedPaddleEvent \<Rightarrow> int64 \<Rightarrow> string \<Rightarrow> paymentOutboxRow \<Rightarrow> instant \<Rightarrow> payment_db \<Rightarrow> billing_error + payment_db" where
  "webhook_retries F event occurredUS target payment now db =
     ebind (if target = PaymentPastDue \<and> po_FirstFailureAtUS payment = None
            then schedulePaymentRetriesTx F payment (fromMicro occurredUS) now db else Inr db) (\<lambda>db.
     if target \<in> {PaymentPaid, PaymentCheckout, PaymentOperatorHold}
     then skip_later_retries F (ne_InvoiceRef event) (ne_AttemptNumber event) now db else Inr db)"

definition webhook_apply :: "faults \<Rightarrow> NormalizedPaddleEvent \<Rightarrow> int64 \<Rightarrow> string \<Rightarrow> paymentOutboxRow \<Rightarrow> paymentAttemptRow \<Rightarrow> instant
    \<Rightarrow> payment_db \<Rightarrow> billing_error + payment_db" where
  "webhook_apply F event occurredUS target payment attempt now db =
     ebind (webhook_attempt F event occurredUS target now db) (\<lambda>db.
     ebind (webhook_invoice F event occurredUS target payment now db) (\<lambda>db.
     ebind (webhook_history F event target payment attempt now db) (\<lambda>db.
     webhook_retries F event occurredUS target payment now db)))"

definition webhook_news :: "faults \<Rightarrow> webhookInboxRow \<Rightarrow> NormalizedPaddleEvent \<Rightarrow> string \<Rightarrow> paymentOutboxRow \<Rightarrow> paymentAttemptRow \<Rightarrow> instant
    \<Rightarrow> payment_db \<Rightarrow> billing_error + (payment_db \<times> bool)" where
  "webhook_news F inbox event target payment attempt now db =
     (if pa_ProviderID attempt \<noteq> [] \<and> pa_ProviderID attempt \<noteq> ne_TransactionID event then Inl ErrWebhookConflict
      else if sint (pa_LastProviderEventUS attempt) > sint (wi_OccurredUS inbox) \<or> (po_State payment = PaymentPaid \<and> target \<noteq> PaymentPaid)
      then markWebhookProcessed F inbox now db
      else if po_State payment \<noteq> target \<and> po_LatestAttempt payment = ne_AttemptNumber event
        \<and> \<not> validPaymentTransition (po_State payment) target then Inl ErrInvalidPaymentState
      else ebind (webhook_apply F event (wi_OccurredUS inbox) target payment attempt now db) (\<lambda>db.
           markWebhookProcessed F inbox now db))"

definition webhook_event :: "faults \<Rightarrow> webhookInboxRow \<Rightarrow> NormalizedPaddleEvent \<Rightarrow> string \<Rightarrow> instant \<Rightarrow> payment_db \<Rightarrow> billing_error + (payment_db \<times> bool)" where
  "webhook_event F inbox event target now db =
     (if ne_InvoiceRef event = [] \<or> \<not> validPaddleID (ne_TransactionID event) ''txn_'' then Inl BadReference
      else (case select_outbox F (ne_InvoiceRef event) db of Inl _ \<Rightarrow> Inl ErrPaymentNotFound
      | Inr payment \<Rightarrow>
        if po_ProviderCustomerID payment = [] \<or> ne_CustomerID event \<noteq> po_ProviderCustomerID payment then Inl ErrWebhookConflict
        else if ne_AttemptNumber event < 0 \<or> ne_AttemptNumber event > int (length paymentRetryDays) then Inl ErrWebhookConflict
        else ebind (ensureInitialPaymentAttempt F payment db) (\<lambda>db.
          case select_attempt F (ne_InvoiceRef event) (ne_AttemptNumber event) db of
            Inl e \<Rightarrow> Inl (if e = RecordNotFound \<and> ne_AttemptNumber event > 0 then ErrWebhookConflict else e)
          | Inr attempt \<Rightarrow> webhook_news F inbox event target payment attempt now db)))"

definition webhook_tx :: "faults \<Rightarrow> string \<Rightarrow> instant \<Rightarrow> payment_db \<Rightarrow> billing_error + (payment_db \<times> bool)" where
  "webhook_tx F eventID now db =
     (if F (Select ''inbox'') then Inl (DbFault (Select ''inbox''))
      else (case find (\<lambda>r. wi_EventID r = eventID) (bd_inbox db) of None \<Rightarrow> Inl RecordNotFound
      | Some inbox \<Rightarrow>
        if wi_ProcessedAt inbox \<noteq> None then Inr (db, False)
        else (case wi_Payload inbox of None \<Rightarrow> Inl Decode
        | Some event \<Rightarrow> (case webhook_target (ne_EventType event) of None \<Rightarrow> markWebhookProcessed F inbox now db
          | Some target \<Rightarrow> webhook_event F inbox event target now db))))"

definition ProcessWebhook :: "faults \<Rightarrow> string \<Rightarrow> instant \<Rightarrow> payment_db \<Rightarrow> payment_db \<times> (billing_error + bool)" where
  "ProcessWebhook F eventID now db =
     (if eventID = [] then (db, Inl MissingEventID) else transaction F (DbFault Commit) db (webhook_tx F eventID now))"

text \<open>A pass over a batch whose failures are collected.\<close>

fun each_collect :: "('r \<Rightarrow> 's \<Rightarrow> 's \<times> billing_error option) \<Rightarrow> 'r list \<Rightarrow> 's \<Rightarrow> 's \<times> billing_error list" where
  "each_collect f [] s = (s, [])"
| "each_collect f (r # rs) s =
     (let (s', failure) = f r s; (s'', failures) = each_collect f rs s'
      in (s'', (case failure of None \<Rightarrow> failures | Some e \<Rightarrow> e # failures)))"

definition joined :: "'s \<times> billing_error list \<Rightarrow> 's \<times> (billing_error + unit)" where
  "joined r = (fst r, if snd r = [] then Inr () else Inl (Joined (snd r)))"

definition failure_of :: "string \<Rightarrow> 'b \<times> (billing_error + 'a) \<Rightarrow> 'b \<times> billing_error option" where
  "failure_of what r = (fst r, (case snd r of Inl e \<Rightarrow> Some (Process what e) | Inr _ \<Rightarrow> None))"

definition ProcessPendingWebhooks :: "faults \<Rightarrow> nat \<Rightarrow> instant \<Rightarrow> payment_db \<Rightarrow> payment_db \<times> (billing_error + unit)" where
  "ProcessPendingWebhooks F limit now db =
     (if limit = 0 \<or> limit > 1000 then (db, Inl InvalidBatch)
      else if F (Select ''pending'') then (db, Inl (DbFault (Select ''pending'')))
      else let rows = take limit (order_asc (\<lambda>r. (sint (wi_OccurredUS r), wi_EventID r)) (filter (\<lambda>r. wi_ProcessedAt r = None) (bd_inbox db)))
      in joined (each_collect (\<lambda>row db. failure_of (wi_EventID row) (ProcessWebhook F (wi_EventID row) now db)) rows db))"

section \<open>Provider accounts\<close>

definition ConfigurePaddleAccount :: "faults \<Rightarrow> string \<Rightarrow> bool \<Rightarrow> string \<Rightarrow> string \<Rightarrow> instant \<Rightarrow> payment_db \<Rightarrow> payment_db \<times> (billing_error + paddleAccountRow)" where
  "ConfigurePaddleAccount F acct enabled customerID productID now db =
     (case billingAccountFromContext acct of Inl e \<Rightarrow> (db, Inl e)
      | Inr acct \<Rightarrow>
        if enabled \<and> (\<not> validPaddleID customerID ''ctm_'' \<or> \<not> validPaddleID productID ''pro_'') then (db, Inl ErrInvalidPaddleInvoice)
        else if \<not> enabled \<and> customerID \<noteq> [] \<and> \<not> validPaddleID customerID ''ctm_'' then (db, Inl ErrInvalidPaddleInvoice)
        else if \<not> enabled \<and> productID \<noteq> [] \<and> \<not> validPaddleID productID ''pro_'' then (db, Inl ErrInvalidPaddleInvoice)
        else if \<not> enabled \<and> F (Select ''accounts'') then (db, Inl (DbFault (Select ''accounts'')))
        else let row = \<lparr>pc_AccountID = acct, pc_Enabled = enabled, pc_CustomerID = customerID, pc_ProductID = productID, pc_UpdatedAt = now\<rparr>;
                 row = (case find (\<lambda>r. pc_AccountID r = acct) (bd_accounts db) of
                          Some existing \<Rightarrow> if enabled then row else row\<lparr>pc_CustomerID := pc_CustomerID existing, pc_ProductID := pc_ProductID existing\<rparr>
                        | None \<Rightarrow> row)
        in if F (Insert ''accounts'' 0) then (db, Inl (DbFault (Insert ''accounts'' 0)))
           else (db\<lparr>bd_accounts := (if has_key pc_AccountID acct (bd_accounts db)
             then update_rows (\<lambda>r. pc_AccountID r = acct) (\<lambda>_. row) (bd_accounts db) else bd_accounts db @ [row])\<rparr>, Inr row))"

definition PaddleAccount :: "faults \<Rightarrow> string \<Rightarrow> payment_db \<Rightarrow> billing_error + paddleAccountRow" where
  "PaddleAccount F acct db =
     ebind (billingAccountFromContext acct) (\<lambda>acct.
     if F (Select ''accounts'') then Inl (DbFault (Select ''accounts''))
     else (case find (\<lambda>r. pc_AccountID r = acct \<and> pc_Enabled r) (bd_accounts db) of
         None \<Rightarrow> Inl ErrPaddleAccountNotConfigured | Some row \<Rightarrow> Inr row))"

end
