(* ===== verification/Billing_Workers.thy ===== *)
theory Billing_Workers
  imports Billing_Payments
begin

text \<open>The payment workers, \<^verbatim>\<open>billing/payment_retry.go\<close> and \<^verbatim>\<open>billing/paddle_process.go\<close>. A worker is a sequence of points,
  one transaction or provider call between two of them, so that several workers can be interleaved; the sequential
  operation runs its points one after the other. The provider's answers are a parameter.\<close>

record paddle_client =
  cl_CreateTransaction :: "PaddleTransactionRequest \<Rightarrow> billing_error + PaddleTransaction"
  cl_FindTransactionsByAttempt :: "string \<Rightarrow> string \<Rightarrow> int \<Rightarrow> instant \<Rightarrow> instant \<Rightarrow> billing_error + PaddleTransaction list"
  cl_HasSavedPaymentMethod :: "string \<Rightarrow> billing_error + bool"

definition paddleLookupWindow :: int where "paddleLookupWindow = 7 * day_length"

section \<open>Retries\<close>

definition claim_tx :: "faults \<Rightarrow> string \<Rightarrow> int \<Rightarrow> instant \<Rightarrow> payment_db
    \<Rightarrow> billing_error + (payment_db \<times> paymentOutboxRow \<times> paymentAttemptRow \<times> bool)" where
  "claim_tx F ref n now db =
     ebind (select_outbox F ref db) (\<lambda>payment. ebind (select_attempt F ref n db) (\<lambda>attempt.
     if pa_State attempt \<noteq> paymentRetryQueued \<or> now < pa_ScheduledAt attempt then Inr (db, payment, attempt, False)
     else let P = (\<lambda>a. attempt_key a = (ref, n) \<and> pa_State a = paymentRetryQueued)
     in if po_State payment \<noteq> PaymentPastDue
     then ebind (update_attempts F P (\<lambda>a. a\<lparr>pa_State := paymentRetrySkipped, pa_UpdatedAt := now\<rparr>) db) (\<lambda>db.
          Inr (db, payment, attempt\<lparr>pa_State := paymentRetrySkipped, pa_UpdatedAt := now\<rparr>, False))
     else ebind (update_attempts F P (\<lambda>a. a\<lparr>pa_State := PaymentSubmitting, pa_AttemptStartedAt := now, pa_UpdatedAt := now\<rparr>) db) (\<lambda>db'.
     if affected P (bd_attempts db) \<noteq> 1 then Inr (db', payment, attempt, False)
     else ebind (update_outbox F (\<lambda>p. po_InvoiceRef p = ref \<and> po_State p = PaymentPastDue)
            (\<lambda>p. p\<lparr>po_State := PaymentSubmitting, po_LatestAttempt := n, po_AttemptStartedAt := now, po_UpdatedAt := now\<rparr>) db') (\<lambda>db'.
     ebind (add_history F ref PaymentPastDue PaymentSubmitting [] now db') (\<lambda>db'.
     Inr (db', payment\<lparr>po_State := PaymentSubmitting, po_LatestAttempt := n, po_AttemptStartedAt := now, po_UpdatedAt := now\<rparr>,
          attempt\<lparr>pa_State := PaymentSubmitting, pa_AttemptStartedAt := now, pa_UpdatedAt := now\<rparr>, True))))))"

definition claimPaymentRetry :: "faults \<Rightarrow> string \<Rightarrow> int \<Rightarrow> instant \<Rightarrow> payment_db
    \<Rightarrow> payment_db \<times> (billing_error + (paymentOutboxRow \<times> paymentAttemptRow \<times> bool))" where
  "claimPaymentRetry F ref n now db = transaction F (DbFault Commit) db (claim_tx F ref n now)"

definition release_tx :: "faults \<Rightarrow> string \<Rightarrow> int \<Rightarrow> instant \<Rightarrow> payment_db \<Rightarrow> billing_error + (payment_db \<times> unit)" where
  "release_tx F ref n now db =
     (let P = (\<lambda>a. attempt_key a = (ref, n) \<and> pa_State a = PaymentSubmitting \<and> pa_ProviderID a = [])
      in ebind (update_attempts F P (\<lambda>a. a\<lparr>pa_State := paymentRetryQueued, pa_AttemptStartedAt := zero_time, pa_UpdatedAt := now\<rparr>) db) (\<lambda>db'.
         if affected P (bd_attempts db) = 0 then Inr (db', ())
         else ebind (update_outbox F (\<lambda>p. po_InvoiceRef p = ref \<and> po_LatestAttempt p = n \<and> po_State p = PaymentSubmitting)
                (\<lambda>p. p\<lparr>po_State := PaymentPastDue, po_AttemptStartedAt := zero_time, po_UpdatedAt := now\<rparr>) db') (\<lambda>db'.
         ebind (add_history F ref PaymentSubmitting PaymentPastDue [] now db') (\<lambda>db'. Inr (db', ())))))"

definition releasePaymentRetry :: "faults \<Rightarrow> string \<Rightarrow> int \<Rightarrow> billing_error \<Rightarrow> instant \<Rightarrow> payment_db \<Rightarrow> payment_db \<times> (billing_error + unit)" where
  "releasePaymentRetry F ref n cause now db =
     (case transaction F (DbFault Commit) db (release_tx F ref n now) of
        (db', Inl e) \<Rightarrow> (db', Inl (Joined [cause, e]))
      | (db', Inr _) \<Rightarrow> (db', Inl (Joined [cause])))"

definition finish_attempt :: "faults \<Rightarrow> string \<Rightarrow> int \<Rightarrow> string \<Rightarrow> string \<Rightarrow> PaddleTransaction option \<Rightarrow> int64 \<Rightarrow> instant \<Rightarrow> payment_db \<Rightarrow> billing_error + payment_db" where
  "finish_attempt F ref n expected new txn occurredUS now db =
     update_attempts F (\<lambda>a. attempt_key a = (ref, n) \<and> pa_State a = expected)
       (\<lambda>a. a\<lparr>pa_State := new, pa_UpdatedAt := now,
              pa_ProviderID := (case txn of None \<Rightarrow> pa_ProviderID a | Some t \<Rightarrow> tn_ID t),
              pa_CheckoutURL := (case txn of None \<Rightarrow> pa_CheckoutURL a | Some t \<Rightarrow> tn_CheckoutURL t),
              pa_LastProviderEventUS := (if occurredUS \<noteq> 0 then occurredUS else pa_LastProviderEventUS a)\<rparr>) db"

definition finish_invoice :: "faults \<Rightarrow> string \<Rightarrow> int \<Rightarrow> string \<Rightarrow> PaddleTransaction option \<Rightarrow> int64 \<Rightarrow> paymentOutboxRow \<Rightarrow> paymentAttemptRow \<Rightarrow> instant
    \<Rightarrow> payment_db \<Rightarrow> billing_error + payment_db" where
  "finish_invoice F ref n new txn occurredUS payment attempt now db =
     (let current = (new = PaymentPaid \<or> po_LatestAttempt payment = n)
      in update_outbox F (\<lambda>p. po_InvoiceRef p = ref)
           (\<lambda>p. p\<lparr>po_UpdatedAt := now, po_State := (if current then new else po_State p),
                  po_ProviderID := (if current then (case txn of None \<Rightarrow> pa_ProviderID attempt | Some t \<Rightarrow> tn_ID t) else po_ProviderID p),
                  po_CheckoutURL := (if current then (case txn of None \<Rightarrow> pa_CheckoutURL attempt | Some t \<Rightarrow> tn_CheckoutURL t) else po_CheckoutURL p),
                  po_LastProviderEventUS := (if occurredUS \<noteq> 0 \<and> sint occurredUS > sint (po_LastProviderEventUS payment)
                    then occurredUS else po_LastProviderEventUS p)\<rparr>) db)"

definition finish_history :: "faults \<Rightarrow> string \<Rightarrow> int \<Rightarrow> string \<Rightarrow> string \<Rightarrow> paymentOutboxRow \<Rightarrow> instant \<Rightarrow> payment_db \<Rightarrow> billing_error + payment_db" where
  "finish_history F ref n expected new payment now db =
     (let old = (if po_LatestAttempt payment \<noteq> n \<and> new \<noteq> PaymentPaid then po_State payment else expected)
      in if old \<noteq> new then add_history F ref old new [] now db else Inr db)"

definition finish_tx :: "faults \<Rightarrow> string \<Rightarrow> int \<Rightarrow> string \<Rightarrow> string \<Rightarrow> PaddleTransaction option \<Rightarrow> int64 \<Rightarrow> instant \<Rightarrow> payment_db
    \<Rightarrow> billing_error + (payment_db \<times> unit)" where
  "finish_tx F ref n expected new txn occurredUS now db =
     ebind (select_outbox F ref db) (\<lambda>payment. ebind (select_attempt F ref n db) (\<lambda>attempt.
     if pa_State attempt = new \<and> (case txn of None \<Rightarrow> True | Some t \<Rightarrow> pa_ProviderID attempt = tn_ID t) then Inr (db, ())
     else if pa_State attempt \<noteq> expected then Inl ErrPaymentRetryConflict
     else ebind (finish_attempt F ref n expected new txn occurredUS now db) (\<lambda>db.
     ebind (finish_invoice F ref n new txn occurredUS payment attempt now db) (\<lambda>db.
     ebind (finish_history F ref n expected new payment now db) (\<lambda>db.
     ebind (if new \<in> {PaymentCheckout, PaymentOperatorHold, PaymentPaid} then skip_later_retries F ref n now db else Inr db) (\<lambda>db.
     Inr (db, ())))))))"

definition finishPaymentRetry :: "faults \<Rightarrow> string \<Rightarrow> int \<Rightarrow> string \<Rightarrow> string \<Rightarrow> PaddleTransaction option \<Rightarrow> int64 \<Rightarrow> instant \<Rightarrow> payment_db
    \<Rightarrow> payment_db \<times> (billing_error + unit)" where
  "finishPaymentRetry F ref n expected new txn occurredUS now db =
     transaction F (DbFault Commit) db (finish_tx F ref n expected new txn occurredUS now)"

datatype retry_point =
    RetryClaim
  | RetryPrepare paymentOutboxRow
  | RetryRelease billing_error
  | RetryCreate PaddleTransactionRequest
  | RetrySettle string "PaddleTransaction option" "billing_error list"
  | RetryReturn "billing_error + unit"

definition retry_prepare :: "codec \<Rightarrow> faults \<Rightarrow> paddle_client \<Rightarrow> paymentOutboxRow \<Rightarrow> int \<Rightarrow> payment_db \<Rightarrow> retry_point" where
  "retry_prepare C F client payment n db =
     (case PaddleAccount F (po_AccountID payment) db of Inl e \<Rightarrow> RetryRelease e
      | Inr account \<Rightarrow> (case cl_HasSavedPaymentMethod client (pc_CustomerID account) of Inl e \<Rightarrow> RetryRelease e
      | Inr _ \<Rightarrow> (case Invoice C F (po_AccountID payment) (fromMicro (po_PeriodStart payment)) (fromMicro (po_PeriodEnd payment)) db of
          Inl _ \<Rightarrow> RetrySettle PaymentOperatorHold None []
        | Inr invoice \<Rightarrow> (case BuildPaddleAttemptRequest C invoice (pc_CustomerID account) (pc_ProductID account) n of
            Inl _ \<Rightarrow> RetrySettle PaymentOperatorHold None []
          | Inr request \<Rightarrow> RetryCreate request))))"

fun retry_step :: "codec \<Rightarrow> faults \<Rightarrow> paddle_client \<Rightarrow> instant \<Rightarrow> string \<Rightarrow> int \<Rightarrow> retry_point \<Rightarrow> payment_db
    \<Rightarrow> payment_db \<times> PaddleTransactionRequest list \<times> retry_point" where
  "retry_step C F client now ref n RetryClaim db =
     (case claimPaymentRetry F ref n now db of
        (db', Inl e) \<Rightarrow> (db', [], RetryReturn (Inl e))
      | (db', Inr (payment, attempt, claimed)) \<Rightarrow> (db', [], if claimed then RetryPrepare payment else RetryReturn (Inr ())))"
| "retry_step C F client now ref n (RetryPrepare payment) db = (db, [], retry_prepare C F client payment n db)"
| "retry_step C F client now ref n (RetryRelease cause) db =
     (case releasePaymentRetry F ref n cause now db of (db', r) \<Rightarrow> (db', [], RetryReturn r))"
| "retry_step C F client now ref n (RetryCreate request) db =
     (db, [request], (case cl_CreateTransaction client request of
        Inl e \<Rightarrow> RetrySettle PaymentReconcile None [ErrPaymentRequiresReconciliation, e]
      | Inr txn \<Rightarrow> RetrySettle (paddlePaymentState (tn_Status txn)) (Some txn) []))"
| "retry_step C F client now ref n (RetrySettle new txn errs) db =
     (case finishPaymentRetry F ref n PaymentSubmitting new txn 0 now db of
        (db', r) \<Rightarrow> (db', [], RetryReturn (if errs = [] then r else Inl (Joined (errs @ (case r of Inl e \<Rightarrow> [e] | Inr _ \<Rightarrow> []))))))"
| "retry_step C F client now ref n (RetryReturn r) db = (db, [], RetryReturn r)"

primrec retry_run :: "nat \<Rightarrow> codec \<Rightarrow> faults \<Rightarrow> paddle_client \<Rightarrow> instant \<Rightarrow> string \<Rightarrow> int \<Rightarrow> retry_point \<Rightarrow> payment_db
    \<Rightarrow> payment_db \<times> PaddleTransactionRequest list \<times> retry_point" where
  "retry_run 0 C F client now ref n pt db = (db, [], pt)"
| "retry_run (Suc k) C F client now ref n pt db =
     (case retry_step C F client now ref n pt db of (db', sent, pt') \<Rightarrow>
      (case retry_run k C F client now ref n pt' db' of (db'', sent', pt'') \<Rightarrow> (db'', sent @ sent', pt'')))"

text \<open>Claim, prepare, create, settle: four steps end every retry.\<close>

definition processPaymentRetry :: "codec \<Rightarrow> faults \<Rightarrow> paddle_client \<Rightarrow> instant \<Rightarrow> string \<Rightarrow> int \<Rightarrow> payment_db
    \<Rightarrow> payment_db \<times> PaddleTransactionRequest list \<times> retry_point" where
  "processPaymentRetry C F client now ref n db = retry_run 4 C F client now ref n RetryClaim db"

definition enabled_account :: "string \<Rightarrow> payment_db \<Rightarrow> bool" where
  "enabled_account acct db \<longleftrightarrow> list_ex (\<lambda>a. pc_AccountID a = acct \<and> pc_Enabled a) (bd_accounts db)"

definition attempt_joins :: "(paymentOutboxRow \<Rightarrow> bool) \<Rightarrow> payment_db \<Rightarrow> paymentAttemptRow \<Rightarrow> bool" where
  "attempt_joins P db r \<longleftrightarrow>
     list_ex (\<lambda>p. po_InvoiceRef p = pa_InvoiceRef r \<and> P p \<and> enabled_account (po_AccountID p) db) (bd_outbox db)"

fun first_per_invoice :: "string list \<Rightarrow> paymentAttemptRow list \<Rightarrow> paymentAttemptRow list" where
  "first_per_invoice seen [] = []"
| "first_per_invoice seen (r # rs) =
     (if pa_InvoiceRef r \<in> set seen then first_per_invoice seen rs else r # first_per_invoice (pa_InvoiceRef r # seen) rs)"

definition point_failure :: "retry_point \<Rightarrow> billing_error option" where
  "point_failure pt = (case pt of RetryReturn (Inl e) \<Rightarrow> Some e | _ \<Rightarrow> None)"

definition ProcessScheduledPaymentRetries :: "codec \<Rightarrow> faults \<Rightarrow> paddle_client option \<Rightarrow> instant \<Rightarrow> nat \<Rightarrow> payment_db
    \<Rightarrow> (payment_db \<times> PaddleTransactionRequest list) \<times> (billing_error + unit)" where
  "ProcessScheduledPaymentRetries C F client now limit db =
     (case client of None \<Rightarrow> ((db, []), Inr ())
      | Some client \<Rightarrow>
        if now = zero_time \<or> limit = 0 \<or> limit > 1000 then ((db, []), Inl InvalidBatch)
        else if F (Select ''due'') then ((db, []), Inl (DbFault (Select ''due'')))
        else let due = filter (\<lambda>r. pa_Number r > 0 \<and> pa_State r = paymentRetryQueued \<and> pa_ScheduledAt r \<le> now
                   \<and> attempt_joins (\<lambda>p. po_State p = PaymentPastDue) db r) (bd_attempts db);
                 rows = take limit (order_asc (\<lambda>r. (pa_ScheduledAt r, pa_InvoiceRef r, pa_Number r)) due)
        in joined (each_collect (\<lambda>r (db, sent).
             case processPaymentRetry C F client now (pa_InvoiceRef r) (pa_Number r) db of (db', new, pt) \<Rightarrow>
               ((db', sent @ new), map_option (Process (pa_InvoiceRef r)) (point_failure pt))) (first_per_invoice [] rows) (db, [])))"

section \<open>Reconciliation of ambiguous creates\<close>

definition reconcilePaymentAttempt :: "faults \<Rightarrow> paddle_client \<Rightarrow> paymentAttemptRow \<Rightarrow> instant \<Rightarrow> payment_db \<Rightarrow> payment_db \<times> (billing_error + unit)" where
  "reconcilePaymentAttempt F client attempt now db =
     (let ref = pa_InvoiceRef attempt; n = pa_Number attempt;
          hold = finishPaymentRetry F ref n PaymentReconcile PaymentOperatorHold None 0 now db
      in case select_outbox F ref db of Inl e \<Rightarrow> (db, Inl e)
      | Inr payment \<Rightarrow>
        if po_ProviderCustomerID payment = [] \<or> pa_AttemptStartedAt attempt = zero_time \<or> now < pa_AttemptStartedAt attempt then hold
        else if now - pa_AttemptStartedAt attempt > paddleLookupWindow then hold
        else (case cl_FindTransactionsByAttempt client (po_ProviderCustomerID payment) ref n (pa_AttemptStartedAt attempt) now of
            Inl e \<Rightarrow> (db, Inl e)
          | Inr [] \<Rightarrow> (db, Inl ErrPaymentRequiresReconciliation)
          | Inr [txn] \<Rightarrow> finishPaymentRetry F ref n PaymentReconcile (paddlePaymentState (tn_Status txn)) (Some txn) 0 now db
          | Inr _ \<Rightarrow> hold))"

definition ReconcilePendingPaymentAttempts :: "faults \<Rightarrow> paddle_client option \<Rightarrow> instant \<Rightarrow> nat \<Rightarrow> payment_db \<Rightarrow> payment_db \<times> (billing_error + unit)" where
  "ReconcilePendingPaymentAttempts F client now limit db =
     (case client of None \<Rightarrow> (db, Inr ())
      | Some client \<Rightarrow>
        if now = zero_time \<or> limit = 0 \<or> limit > 1000 then (db, Inl InvalidBatch)
        else if F (Select ''reconcile'') then (db, Inl (DbFault (Select ''reconcile'')))
        else let rows = take limit (order_asc (\<lambda>r. (pa_UpdatedAt r, pa_InvoiceRef r, pa_Number r))
                   (filter (\<lambda>r. pa_State r = PaymentReconcile \<and> attempt_joins (\<lambda>p. po_State p = PaymentReconcile) db r) (bd_attempts db)))
        in joined (each_collect (\<lambda>r db. failure_of (pa_InvoiceRef r) (reconcilePaymentAttempt F client r now db)) rows db))"

definition ReconcilePayment :: "faults \<Rightarrow> paddle_client option \<Rightarrow> string \<Rightarrow> instant \<Rightarrow> instant \<Rightarrow> instant \<Rightarrow> string \<Rightarrow> payment_db
    \<Rightarrow> payment_db \<times> (billing_error + PaymentIntent)" where
  "ReconcilePayment F client acct start stop now customerID db =
     (case client of None \<Rightarrow> (db, Inl ErrPaddleAPIUnavailable)
      | Some client \<Rightarrow> (case Payment F acct start stop db of Inl e \<Rightarrow> (db, Inl e)
      | Inr intent \<Rightarrow>
        let ref = pi_InvoiceReference intent; started = pi_AttemptStartedAt intent
        in if pi_State intent \<noteq> PaymentReconcile then (db, Inl ErrInvalidPaymentState)
        else if pi_ProviderCustomerID intent = [] \<or> customerID \<noteq> pi_ProviderCustomerID intent then (db, Inl ErrPaymentConflict)
        else if started = zero_time \<or> now = zero_time \<or> now < started \<or> now - started > paddleLookupWindow
        then UpdatePaymentState F ref PaymentReconcile PaymentOperatorHold [] [] now db
        else (case cl_FindTransactionsByAttempt client customerID ref 0 started now of Inl e \<Rightarrow> (db, Inl e)
          | Inr [] \<Rightarrow> (db, Inl ErrPaymentRequiresReconciliation)
          | Inr [txn] \<Rightarrow> UpdatePaymentState F ref PaymentReconcile (paddlePaymentState (tn_Status txn)) (tn_ID txn) (tn_CheckoutURL txn) now db
          | Inr _ \<Rightarrow> (case UpdatePaymentState F ref PaymentReconcile PaymentOperatorHold [] [] now db of
              (db', Inl e) \<Rightarrow> (db', Inl e) | (db', Inr _) \<Rightarrow> (db', Inl ErrPaymentRequiresReconciliation)))))"

section \<open>Initial submission\<close>

datatype submit_point =
    SubmitQueue
  | SubmitCustomer string PaddleTransactionRequest
  | SubmitClaim string PaddleTransactionRequest
  | SubmitCreate string PaddleTransactionRequest
  | SubmitSettle string "billing_error + PaddleTransaction"
  | SubmitReturn "billing_error + PaymentIntent"

definition submit_queue :: "codec \<Rightarrow> faults \<Rightarrow> string \<Rightarrow> instant \<Rightarrow> instant \<Rightarrow> string \<Rightarrow> string \<Rightarrow> instant \<Rightarrow> payment_db \<Rightarrow> payment_db \<times> submit_point" where
  "submit_queue C F acct start stop customerID productID now db =
     (case ebind (Invoice C F acct start stop db) (\<lambda>invoice. BuildPaddleTransactionRequest C invoice customerID productID) of
        Inl e \<Rightarrow> (db, SubmitReturn (Inl e))
      | Inr request \<Rightarrow> (case QueuePayment C F acct start stop now db of (db', Inl e) \<Rightarrow> (db', SubmitReturn (Inl e))
      | (db', Inr intent) \<Rightarrow>
        (db', if pi_State intent \<noteq> PaymentReady then SubmitReturn (Inl ErrPaymentRequiresReconciliation)
              else SubmitCustomer (pi_InvoiceReference intent) request)))"

definition submit_settle :: "faults \<Rightarrow> string \<Rightarrow> billing_error + PaddleTransaction \<Rightarrow> instant \<Rightarrow> payment_db \<Rightarrow> payment_db \<times> (billing_error + PaymentIntent)" where
  "submit_settle F ref outcome now db =
     (case outcome of
        Inl requestErr \<Rightarrow> (case UpdatePaymentState F ref PaymentSubmitting PaymentReconcile [] [] now db of
            (db', Inl stateErr) \<Rightarrow> (db', Inl (Joined [requestErr, stateErr]))
          | (db', Inr _) \<Rightarrow> (db', Inl (Joined [ErrPaymentRequiresReconciliation, requestErr])))
      | Inr txn \<Rightarrow>
        let new = paddlePaymentState (tn_Status txn); r = UpdatePaymentState F ref PaymentSubmitting new (tn_ID txn) (tn_CheckoutURL txn) now db
        in if new = PaymentOperatorHold
           then (fst r, (case snd r of Inl e \<Rightarrow> Inl e | Inr _ \<Rightarrow> Inl ErrPaymentRequiresReconciliation)) else r)"

fun submit_step :: "codec \<Rightarrow> faults \<Rightarrow> paddle_client \<Rightarrow> string \<Rightarrow> instant \<Rightarrow> instant \<Rightarrow> string \<Rightarrow> string \<Rightarrow> instant \<Rightarrow> submit_point \<Rightarrow> payment_db
    \<Rightarrow> payment_db \<times> PaddleTransactionRequest list \<times> submit_point" where
  "submit_step C F client acct start stop customerID productID now SubmitQueue db =
     (case submit_queue C F acct start stop customerID productID now db of (db', pt) \<Rightarrow> (db', [], pt))"
| "submit_step C F client acct start stop customerID productID now (SubmitCustomer ref request) db =
     (case SetPaymentCustomer F ref customerID now db of
        (db', Inl e) \<Rightarrow> (db', [], SubmitReturn (Inl e)) | (db', Inr intent) \<Rightarrow> (db', [], SubmitClaim (pi_InvoiceReference intent) request))"
| "submit_step C F client acct start stop customerID productID now (SubmitClaim ref request) db =
     (case UpdatePaymentState F ref PaymentReady PaymentSubmitting [] [] now db of
        (db', Inl e) \<Rightarrow> (db', [], SubmitReturn (Inl e)) | (db', Inr intent) \<Rightarrow> (db', [], SubmitCreate (pi_InvoiceReference intent) request))"
| "submit_step C F client acct start stop customerID productID now (SubmitCreate ref request) db =
     (db, [request], SubmitSettle ref (cl_CreateTransaction client request))"
| "submit_step C F client acct start stop customerID productID now (SubmitSettle ref outcome) db =
     (case submit_settle F ref outcome now db of (db', r) \<Rightarrow> (db', [], SubmitReturn r))"
| "submit_step C F client acct start stop customerID productID now (SubmitReturn r) db = (db, [], SubmitReturn r)"

primrec submit_run :: "nat \<Rightarrow> codec \<Rightarrow> faults \<Rightarrow> paddle_client \<Rightarrow> string \<Rightarrow> instant \<Rightarrow> instant \<Rightarrow> string \<Rightarrow> string \<Rightarrow> instant \<Rightarrow> submit_point \<Rightarrow> payment_db
    \<Rightarrow> payment_db \<times> PaddleTransactionRequest list \<times> submit_point" where
  "submit_run 0 C F client acct start stop customerID productID now pt db = (db, [], pt)"
| "submit_run (Suc k) C F client acct start stop customerID productID now pt db =
     (case submit_step C F client acct start stop customerID productID now pt db of (db', sent, pt') \<Rightarrow>
      (case submit_run k C F client acct start stop customerID productID now pt' db' of (db'', sent', pt'') \<Rightarrow> (db'', sent @ sent', pt'')))"

text \<open>Queue, customer, claim, create, settle: five steps end every submission.\<close>

definition SubmitFinalizedInvoice :: "codec \<Rightarrow> faults \<Rightarrow> paddle_client option \<Rightarrow> string \<Rightarrow> instant \<Rightarrow> instant \<Rightarrow> string \<Rightarrow> string \<Rightarrow> instant \<Rightarrow> payment_db
    \<Rightarrow> payment_db \<times> PaddleTransactionRequest list \<times> submit_point" where
  "SubmitFinalizedInvoice C F client acct start stop customerID productID now db =
     (case client of None \<Rightarrow> (db, [], SubmitReturn (Inl ErrPaddleAPIUnavailable))
      | Some client \<Rightarrow> submit_run 5 C F client acct start stop customerID productID now SubmitQueue db)"

definition submit_failure :: "submit_point \<Rightarrow> billing_error option" where
  "submit_failure pt = (case pt of SubmitReturn (Inl e) \<Rightarrow> Some e | _ \<Rightarrow> None)"

definition submit_row :: "codec \<Rightarrow> faults \<Rightarrow> paddle_client \<Rightarrow> instant \<Rightarrow> paymentOutboxRow \<Rightarrow> payment_db \<times> PaddleTransactionRequest list
    \<Rightarrow> (payment_db \<times> PaddleTransactionRequest list) \<times> billing_error option" where
  "submit_row C F client now row = (\<lambda>(db, sent).
     case PaddleAccount F (po_AccountID row) db of Inl e \<Rightarrow> ((db, sent), Some (Process (po_InvoiceRef row) e))
     | Inr account \<Rightarrow>
       (case SubmitFinalizedInvoice C F (Some client) (po_AccountID row) (fromMicro (po_PeriodStart row)) (fromMicro (po_PeriodEnd row))
          (pc_CustomerID account) (pc_ProductID account) now db of (db', new, pt) \<Rightarrow>
          ((db', sent @ new), map_option (Process (po_InvoiceRef row)) (submit_failure pt))))"

definition ProcessReadyPayments :: "codec \<Rightarrow> faults \<Rightarrow> paddle_client option \<Rightarrow> instant \<Rightarrow> nat \<Rightarrow> payment_db
    \<Rightarrow> (payment_db \<times> PaddleTransactionRequest list) \<times> (billing_error + unit)" where
  "ProcessReadyPayments C F client now limit db =
     (case client of None \<Rightarrow> ((db, []), Inr ())
      | Some client \<Rightarrow>
        if limit = 0 \<or> limit > 1000 then ((db, []), Inl InvalidBatch)
        else if F (Select ''ready'') then ((db, []), Inl (DbFault (Select ''ready'')))
        else let rows = take limit (order_asc (\<lambda>p. (po_UpdatedAt p, po_InvoiceRef p))
                   (filter (\<lambda>p. po_State p = PaymentReady \<and> enabled_account (po_AccountID p) db) (bd_outbox db)))
        in joined (each_collect (submit_row C F client now) rows (db, [])))"

end
