(* ===== verification/Billing_Trust.thy ===== *)
theory Billing_Trust
  imports Billing_Store
begin

text \<open>What the billing calculation computes: the tiered loop charges each device its marginal price, an
  estimate is complete exactly when both usages are, and the text of an exact amount reads back as the
  amount, so a finalized invoice can be checked against its inputs.\<close>

section \<open>Words and text\<close>

lemma sint_minus_nonneg:
  assumes "0 \<le> sint a" and "0 \<le> sint (b :: int64)"
  shows "sint (a - b) = sint a - sint b"
proof -
  have "sint a < 2 ^ 63" "sint b < 2 ^ 63" using sint_lt [of a] sint_lt [of b] by simp_all
  then show ?thesis using assms by (simp add: sint_word_ariths signed_take_bit_int_eq_self)
qed

lemma itoa_not_sign: "itoa n = c # cs \<Longrightarrow> c \<noteq> CHR ''-'' \<and> c \<noteq> CHR ''+''"
  using itoa_val(2) [of n] by (auto simp: digit_def)

lemma parse_nat_itoa [simp]: "parse_nat (itoa n) = Some (int n)"
  by (simp add: parse_nat_def itoa_val)

lemma big_SetString_int_string [simp]: "big_SetString (int_string i) = Some i"
proof (cases "i < 0")
  case False
  obtain c cs where c: "itoa (nat i) = c # cs" using itoa_val(3) by (metis neq_Nil_conv)
  with itoa_not_sign [OF c] parse_nat_itoa [of "nat i"] False show ?thesis by (simp add: big_SetString_def int_string_def)
qed (simp add: big_SetString_def int_string_def)

lemma parse_part_int_string [simp]: "parse_part (int_string i) = Some i"
  by (simp add: parse_part_def)

lemma int_string_inj: "int_string i = int_string j \<longleftrightarrow> i = j"
  by (metis big_SetString_int_string option.inject)

lemma parse_exactAmount:
  assumes "0 \<le> r"
  shows "parseExactNonnegative (exactAmount r) = Inr r"
proof -
  obtain n d where q: "quotient_of r = (n, d)" by fastforce
  have "d > 0" using quotient_of_denom_pos [OF q] .
  moreover have r: "r = rat_of_int n / rat_of_int d" using quotient_of_div [OF q] .
  ultimately have "0 \<le> n" using assms by (simp add: zero_le_divide_iff)
  with \<open>d > 0\<close> show ?thesis by (simp add: parseExactNonnegative_def exactAmount_def q Let_def flip: r)
qed

section \<open>The graduated tariff\<close>

text \<open>The price of the k-th device: that of the first tier that reaches it. The tariff of a fleet is the
  sum over its devices.\<close>

fun price_of :: "DeviceTier list \<Rightarrow> int \<Rightarrow> int" where
  "price_of [] k = 0"
| "price_of (tier # tiers) k =
     (if dt_UpToDevices tier = 0 \<or> k \<le> sint (dt_UpToDevices tier) then sint (dt_MinorPerPeriod tier) else price_of tiers k)"

definition tariff :: "DeviceTier list \<Rightarrow> int \<Rightarrow> int" where
  "tariff tiers n = (\<Sum>k\<in>{1..n}. price_of tiers k)"

lemma price_of_nonneg: "validTiers p tiers \<Longrightarrow> 0 \<le> price_of tiers k"
  by (induction tiers arbitrary: p) auto

lemma addDeviceCost_tariff:
  assumes "validTiers p tiers" and "tiers \<noteq> []" and "dt_UpToDevices (last tiers) = 0" and "0 \<le> sint p" and "0 \<le> sint n"
  shows "addDeviceCost acc n p dur tiers = Inr (acc + (\<Sum>k\<in>{sint p + 1..sint p + sint n}. price_of tiers k) * sint dur)"
  using assms
proof (induction tiers arbitrary: acc n p)
  case (Cons tier tiers)
  let ?u = "dt_UpToDevices tier" and ?c = "sint (dt_MinorPerPeriod tier)"
  have const: "(\<Sum>k\<in>{sint p + 1..sint p + m}. price_of (tier # tiers) k) = m * ?c"
    if "0 \<le> m" "?u = 0 \<or> sint p + m \<le> sint ?u" for m
  proof -
    have "(\<Sum>k\<in>{sint p + 1..sint p + m}. price_of (tier # tiers) k) = (\<Sum>k\<in>{sint p + 1..sint p + m}. ?c)"
      by (rule sum.cong) (use that in auto)
    then show ?thesis using that(1) by simp
  qed
  show ?case
  proof (cases "?u = 0 \<or> sint p + sint n \<le> sint ?u")
    case True
    have "sint (?u - p) = sint ?u - sint p" if "?u \<noteq> 0" using that Cons.prems by (intro sint_minus_nonneg) auto
    with True Cons.prems const [OF Cons.prems(5) True] show ?thesis by (auto simp: Let_def algebra_simps)
  next
    case False
    define room where "room = ?u - p"
    have room: "sint room = sint ?u - sint p" unfolding room_def using False Cons.prems by (intro sint_minus_nonneg) auto
    have up: "sint p < sint ?u" using False Cons.prems(1) by auto
    have rest: "sint (n - room) = sint n - sint room" using Cons.prems(5) room up by (intro sint_minus_nonneg) auto
    have left: "0 < sint (n - room)" using False rest room by simp
    then have nz: "n \<noteq> room" by auto
    have ne: "tiers \<noteq> []" using False Cons.prems(3) by auto
    have step: "addDeviceCost acc n p dur (tier # tiers) = addDeviceCost (acc + sint room * ?c * sint dur) (n - room) ?u dur tiers"
      using False room up nz by (simp add: Let_def flip: room_def)
    have eq: "(\<Sum>k\<in>{sint ?u + 1..sint p + sint n}. price_of tiers k) = (\<Sum>k\<in>{sint ?u + 1..sint p + sint n}. price_of (tier # tiers) k)"
      by (rule sum.cong) (use False in auto)
    have "addDeviceCost a (n - room) ?u dur tiers = Inr (a + (\<Sum>k\<in>{sint ?u + 1..sint ?u + sint (n - room)}. price_of tiers k) * sint dur)" for a
      using Cons.prems left up ne by (intro Cons.IH) auto
    then have ih: "addDeviceCost a (n - room) ?u dur tiers
        = Inr (a + (\<Sum>k\<in>{sint ?u + 1..sint p + sint n}. price_of (tier # tiers) k) * sint dur)" for a
      using rest room by (simp only: eq [symmetric]) (simp add: add.commute)
    have "{sint p + 1..sint p + sint n} = {sint p + 1..sint ?u} \<union> {sint ?u + 1..sint p + sint n}" using up False by auto
    then have "(\<Sum>k\<in>{sint p + 1..sint p + sint n}. price_of (tier # tiers) k)
        = (\<Sum>k\<in>{sint p + 1..sint ?u}. price_of (tier # tiers) k) + (\<Sum>k\<in>{sint ?u + 1..sint p + sint n}. price_of (tier # tiers) k)"
      by (simp add: sum.union_disjoint ivl_disj_int del: price_of.simps)
    also have "(\<Sum>k\<in>{sint p + 1..sint ?u}. price_of (tier # tiers) k) = sint room * ?c"
      using const [of "sint room"] room up by (simp del: price_of.simps)
    finally show ?thesis unfolding step ih by (simp add: distrib_right del: price_of.simps)
  qed
qed simp

lemma tariff_cost:
  assumes "validateRateSchedule s = Inr ()" and "0 \<le> sint n"
  shows "addDeviceCost acc n 0 dur (rs_DeviceTiers s) = Inr (acc + tariff (rs_DeviceTiers s) (sint n) * sint dur)"
  using assms addDeviceCost_tariff [of 0 "rs_DeviceTiers s" n acc dur]
  by (auto simp: validateRateSchedule_def tariff_def split: if_splits)

lemma tariff_nonneg: "validateRateSchedule s = Inr () \<Longrightarrow> 0 \<le> tariff (rs_DeviceTiers s) n"
  by (auto simp: tariff_def validateRateSchedule_def intro!: sum_nonneg dest: price_of_nonneg split: if_splits)

section \<open>Reports\<close>

lemma sint_unixMicro: "validBillingTime t \<Longrightarrow> sint (unixMicro t) = t div 1000"
  by (auto simp: validBillingTime_def unixMicro_def year10000_def sint_sbintrunc' intro!: signed_take_bit_int_eq_self)

lemma micro_span:
  assumes "validBillingTime t" and "validBillingTime u"
  shows "sint (unixMicro u - unixMicro t) = u div 1000 - t div 1000"
proof -
  have "sint (unixMicro t) = t div 1000" "sint (unixMicro u) = u div 1000" using assms by (simp_all add: sint_unixMicro)
  moreover have "0 \<le> t div 1000" "0 \<le> u div 1000" using assms by (simp_all add: validBillingTime_def pos_imp_zdiv_nonneg_iff)
  ultimately show ?thesis using sint_minus_nonneg [of "unixMicro u" "unixMicro t"] by simp
qed

definition micros :: "DeviceSegment \<Rightarrow> int" where
  "micros segment = sg_End segment div 1000 - sg_Start segment div 1000"

definition segment_ok :: "DeviceSegment \<Rightarrow> bool" where
  "segment_ok segment \<longleftrightarrow> validBillingTime (sg_Start segment) \<and> validBillingTime (sg_End segment) \<and> 0 < micros segment
     \<and> (\<exists>n. sg_Devices segment = Some n \<and> 0 \<le> sint n)"

lemma validSegments_ok:
  "validSegments e c segs = Some c' \<Longrightarrow> segment \<in> set segs \<Longrightarrow> segment_ok segment"
proof (induction segs arbitrary: c)
  case (Cons s segs)
  from Cons.prems(1) have s: "segment_ok s" and rest: "validSegments e (unixMicro (sg_End s)) segs = Some c'"
    by (auto simp: segment_ok_def micros_def Let_def sint_unixMicro split: if_splits option.splits)
  from Cons.IH [OF rest] Cons.prems(2) s show ?case by auto
qed simp

lemma validSegments_cover:
  assumes "validSegments e c segs = Some c'"
  shows "sint c' = sint c + sum_list (map micros segs)"
  using assms
proof (induction segs arbitrary: c)
  case (Cons s segs)
  from Cons.prems have rest: "validSegments e (unixMicro (sg_End s)) segs = Some c'" and c: "unixMicro (sg_Start s) = c"
    by (auto simp: Let_def split: if_splits option.splits)
  have "segment_ok s" using validSegments_ok [OF Cons.prems, of s] by simp
  then have "sint (unixMicro (sg_Start s)) = sg_Start s div 1000" "sint (unixMicro (sg_End s)) = sg_End s div 1000"
    by (simp_all add: segment_ok_def sint_unixMicro)
  with Cons.IH [OF rest] c show ?case by (simp add: micros_def)
qed simp

text \<open>The device line: each stretch of time at its fleet's tariff, as a share of the period.\<close>

definition fleet :: "DeviceSegment \<Rightarrow> int" where "fleet segment = sint (the (sg_Devices segment))"

definition device_line :: "DeviceTier list \<Rightarrow> DeviceReport \<Rightarrow> rat" where
  "device_line tiers report =
     rat_of_int (\<Sum>segment\<leftarrow>dr_Segments report. tariff tiers (fleet segment) * micros segment)
     / rat_of_int (\<Sum>segment\<leftarrow>dr_Segments report. micros segment)"

lemma segment_cost_ok:
  assumes "validateRateSchedule s = Inr ()" and "segment_ok segment"
  shows "segment_cost (rs_DeviceTiers s) acc segment = Inr (acc + tariff (rs_DeviceTiers s) (fleet segment) * micros segment)"
proof -
  from assms(2) have "0 \<le> sint (the (sg_Devices segment))"
    and "sint (unixMicro (sg_End segment) - unixMicro (sg_Start segment)) = micros segment"
    by (auto simp: segment_ok_def micros_def micro_span)
  with tariff_cost [OF assms(1)] show ?thesis by (simp add: segment_cost_def fleet_def)
qed

lemma deviceCharge_line:
  assumes "validateRateSchedule s = Inr ()" and "validDeviceReport report"
  shows "deviceCharge report (rs_DeviceTiers s) = Inr (device_line (rs_DeviceTiers s) report)"
proof -
  let ?T = "rs_DeviceTiers s"
  have v: "validSegments (unixMicro (dr_End report)) (unixMicro (dr_Start report)) (dr_Segments report) = Some (unixMicro (dr_End report))"
    and t: "validBillingTime (dr_Start report)" "validBillingTime (dr_End report)" and ne: "dr_Segments report \<noteq> []"
    using assms(2) by (auto simp: validDeviceReport_def)
  have cost: "eforeach (segment_cost ?T) a segs = Inr (a + (\<Sum>g\<leftarrow>segs. tariff ?T (fleet g) * micros g))"
    if "\<forall>g\<in>set segs. segment_ok g" for a segs
    using that by (induction segs arbitrary: a) (simp_all add: segment_cost_ok [OF assms(1)])
  have ok: "\<forall>g\<in>set (dr_Segments report). segment_ok g" using validSegments_ok [OF v] by blast
  have span: "sint (unixMicro (dr_End report) - unixMicro (dr_Start report)) = sum_list (map micros (dr_Segments report))"
    using validSegments_cover [OF v] micro_span [OF t] by (simp add: sint_unixMicro t)
  obtain g gs where gs: "dr_Segments report = g # gs" using ne by (cases "dr_Segments report") auto
  have "0 < micros h" if "h \<in> set (dr_Segments report)" for h using ok that by (simp add: segment_ok_def)
  then have "0 < micros g" "\<And>h. h \<in> set gs \<Longrightarrow> 0 \<le> micros h" unfolding gs by (simp_all add: less_imp_le)
  then have "0 < sum_list (map micros (dr_Segments report))"
    unfolding gs by (auto intro!: add_pos_nonneg sum_list_nonneg)
  with span cost [OF ok, of 0] show ?thesis by (simp add: deviceCharge_def Let_def device_line_def)
qed

lemma device_line_nonneg:
  assumes "validateRateSchedule s = Inr ()" and "validDeviceReport report"
  shows "0 \<le> device_line (rs_DeviceTiers s) report"
proof -
  have "0 < micros g" if "g \<in> set (dr_Segments report)" for g
    using that assms(2) validSegments_ok by (fastforce simp: validDeviceReport_def segment_ok_def)
  then have "0 \<le> micros g" if "g \<in> set (dr_Segments report)" for g using that less_imp_le by blast
  then show ?thesis unfolding device_line_def
    by (intro divide_nonneg_nonneg; unfold of_int_0_le_iff; intro sum_list_nonneg) (auto intro: mult_nonneg_nonneg tariff_nonneg [OF assms(1)])
qed

definition relay_overage :: "RateSchedule \<Rightarrow> int \<Rightarrow> rat" where
  "relay_overage s b = rat_of_int (max 0 (b - uint (rs_RelayIncludedBytes s)) * sint (rs_RelayMinorPerUnit s)) / rat_of_int (uint (rs_RelayUnitBytes s))"

lemma relayCharge_overage: "relayCharge b s = relay_overage s b"
  by (simp add: relayCharge_def relay_overage_def Let_def max_def)

lemma relay_overage_nonneg: "validateRateSchedule s = Inr () \<Longrightarrow> 0 \<le> relay_overage s b"
  unfolding relay_overage_def
  by (intro divide_nonneg_nonneg; unfold of_int_0_le_iff) (auto simp: validateRateSchedule_def not_less split: if_splits)

text \<open>C12. The estimate is the tariff. For a valid schedule and a canonical byte count the calculation returns an
  estimate. It is complete exactly when both usage reports are valid for the same period; then its device line
  reads back as every device priced at the tier that reaches it, for the share of the period it was enrolled,
  its relay line as the bytes beyond the included volume at the unit price, and its total as their sum.\<close>

theorem estimate_is_tariff:
  assumes "validateRateSchedule s = Inr ()" and "rr_ReportedBytes relay = int_string b" and "0 \<le> b"
  shows "\<exists>e. Calculate device relay s = Inr e
     \<and> (es_UsageComplete e \<longleftrightarrow> validDeviceReport device \<and> validRelayReport relay (dr_Start device) (dr_End device))
     \<and> (es_UsageComplete e \<longrightarrow> (\<exists>d r t. es_DeviceExact e = Some d \<and> es_RelayExact e = Some r \<and> es_TotalExact e = Some t
          \<and> parseExactNonnegative d = Inr (device_line (rs_DeviceTiers s) device)
          \<and> parseExactNonnegative r = Inr (relay_overage s b)
          \<and> parseExactNonnegative t = Inr (device_line (rs_DeviceTiers s) device + relay_overage s b)))"
proof -
  let ?D = "device_line (rs_DeviceTiers s) device" and ?R = "relay_overage s b"
  have rel: "relay_line device relay s = Inr (if validRelayReport relay (dr_Start device) (dr_End device) then Some ?R else None)"
    using assms(2,3) by (simp add: relay_line_def relayCharge_overage)
  have "parseExactNonnegative (exactAmount ?R) = Inr ?R" by (intro parse_exactAmount relay_overage_nonneg assms(1))
  moreover have "parseExactNonnegative (exactAmount ?D) = Inr ?D \<and> parseExactNonnegative (exactAmount (?D + ?R)) = Inr (?D + ?R)"
    if "validDeviceReport device"
    using device_line_nonneg [OF assms(1) that] relay_overage_nonneg [OF assms(1), of b] by (simp add: parse_exactAmount)
  ultimately show ?thesis
    by (cases "validDeviceReport device") (simp_all add: Calculate_def assms(1) rel deviceCharge_line Let_def)
qed

definition demo_usage :: DeviceReport where
  "demo_usage = \<lparr>dr_Start = 0, dr_End = seconds 2678400, dr_AsOf = seconds 2678400, dr_Complete = True, dr_DeviceMicroseconds = int_string 32140800000000,
     dr_Segments = [\<lparr>sg_Start = 0, sg_End = seconds 2678400, sg_Coverage = ''complete'', sg_Devices = Some 12\<rparr>]\<rparr>"

definition demo_relay :: RelayReport where
  "demo_relay = \<lparr>rr_Start = 0, rr_End = seconds 2678400, rr_AsOf = seconds 2678400, rr_AuthorizationHistoryStart = 0,
     rr_FirstReceivedWindowStart = Some 0, rr_LastReceivedAt = Some (seconds 2678400), rr_Coverage = ''authorized_producers'',
     rr_HistoryComplete = True, rr_Complete = True, rr_ExpectedWindows = 4, rr_MissingWindows = 0, rr_UnexpectedWindows = 0,
     rr_ReportedBytes = int_string 15000000000, rr_Days = [], rr_Limitations = []\<rparr>"

lemma demo_schedule_valid: "validateRateSchedule PilotRateSchedule = Inr ()"
  by (simp add: validateRateSchedule_def PilotRateSchedule_def validToken_def digit_def)

lemma demo_usage_valid: "validDeviceReport demo_usage" "validRelayReport demo_relay 0 (seconds 2678400)"
  by (simp_all add: validDeviceReport_def demo_usage_def validBillingTime_def year10000_def unixMicro_def validRelayReport_def demo_relay_def)

lemma demo_lines:
  "device_line (rs_DeviceTiers PilotRateSchedule) demo_usage = 2800" "relay_overage PilotRateSchedule 15000000000 = 100"
proof -
  have "{1..12::int} = set [1..12]" by auto
  also have "\<dots> = {1,2,3,4,5,6,7,8,9,10,11,12}" by (simp add: upto.simps)
  finally have "{1..12::int} = {1,2,3,4,5,6,7,8,9,10,11,12}" .
  then have "tariff (rs_DeviceTiers PilotRateSchedule) 12 = 2800" by (simp add: tariff_def PilotRateSchedule_def)
  then show "device_line (rs_DeviceTiers PilotRateSchedule) demo_usage = 2800"
    by (simp add: device_line_def demo_usage_def micros_def fleet_def)
  show "relay_overage PilotRateSchedule 15000000000 = 100" by (simp add: relay_overage_def PilotRateSchedule_def)
qed

theorem estimate_is_tariff_witness:
  "\<exists>e t. Calculate demo_usage demo_relay PilotRateSchedule = Inr e \<and> es_UsageComplete e \<and> es_TotalExact e = Some t
     \<and> parseExactNonnegative t = Inr 2900"
proof -
  have "rr_ReportedBytes demo_relay = int_string 15000000000" by (simp add: demo_relay_def)
  from estimate_is_tariff [OF demo_schedule_valid this, of demo_usage] obtain e
    where e: "Calculate demo_usage demo_relay PilotRateSchedule = Inr e" "es_UsageComplete e"
      "\<exists>t. es_TotalExact e = Some t \<and> parseExactNonnegative t = Inr (2800 + 100)"
    using demo_usage_valid unfolding demo_lines by (auto simp: demo_usage_def)
  from e(3) have "\<exists>t. es_TotalExact e = Some t \<and> parseExactNonnegative t = Inr 2900" by simp
  with e(1,2) show ?thesis by blast
qed

section \<open>Finalized invoices are immutable\<close>

lemma unixMicro_fromMicro [simp]: "unixMicro (fromMicro us) = us"
  by (simp add: unixMicro_def fromMicro_def)

lemma Schedule_ok:
  assumes "Schedule C F v db = Inr s" and "bd_schedules db' = bd_schedules db"
  shows "Schedule C no_faults (rs_Version s) db' = Inr s"
  using assms find_Some_in [of "\<lambda>r. sr_Version r = v" "bd_schedules db"]
  by (auto simp: Schedule_def no_faults_def split: if_splits option.splits)

lemma verify_invoice_no_faults:
  assumes "verify_invoice C F acct s e i db = Inr j"
  shows "verify_invoice C no_faults acct s e i db = Inr j"
proof -
  have "Schedule C no_faults v db = Inr x" if "Schedule C F v db = Inr x" for v x
    using that by (auto simp: Schedule_def no_faults_def split: if_splits option.splits)
  then show ?thesis using assms by (auto simp: verify_invoice_def result_simps split: if_splits)
qed

lemma Invoice_no_faults:
  assumes "Invoice C F acct start stop db = Inr i"
  shows "Invoice C no_faults acct start stop db = Inr i"
proof -
  from assms obtain startUS endUS row j where "acct \<noteq> []" "billingPeriodMicros start stop = Inr (startUS, endUS)"
    "find (\<lambda>r. (iv_AccountID r, iv_PeriodStartUS r) = (acct, startUS)) (bd_invoices db) = Some row" "iv_PeriodEndUS row = endUS"
    "hex (sha256 C (iv_Snapshot row)) = iv_Digest row" "dec_invoice C (iv_Snapshot row) = Some j"
    and v: "verify_invoice C F acct startUS endUS j db = Inr i"
    by (auto simp: Invoice_def billingAccountFromContext_def result_simps split: if_splits option.splits)
  then show ?thesis using verify_invoice_no_faults [OF v]
    by (simp add: Invoice_def billingAccountFromContext_def) (simp add: no_faults_def)
qed

lemma invoice_amounts_check:
  assumes "invoice_amounts estimate = Inr (d, r, t, dm, rm)" and "es_UsageComplete estimate"
    and "fi_DeviceExact invoice = d" "fi_RelayExact invoice = r" "fi_TotalExact invoice = t"
    and "fi_DeviceMinor invoice = dm" "fi_RelayMinor invoice = rm" "fi_TotalMinor invoice = dm + rm"
  shows "check_amounts invoice estimate = Inr ()"
  using assms by (auto simp: invoice_amounts_def check_amounts_def result_simps split: option.splits if_splits)

lemma prepare_invoice_ok:
  assumes "prepare_invoice C F acct device relay now db = Inr (startUS, endUS, invoice)"
  obtains estimate schedule v where "acct \<noteq> []" "billingPeriodMicros (dr_Start device) (dr_End device) = Inr (startUS, endUS)"
    "isUTCCalendarMonth startUS endUS" "Schedule C F v db = Inr schedule" "Calculate device relay schedule = Inr estimate"
    "es_UsageComplete estimate" "check_amounts invoice estimate = Inr ()"
    "digestJSON C (enc_device C device) = Inr (fi_DeviceInputHash invoice)" "digestJSON C (enc_relay C relay) = Inr (fi_RelayInputHash invoice)"
    "fi_SchemaVersion invoice = invoiceSchema" "fi_AccountID invoice = acct" "fi_PeriodStart invoice = fromMicro startUS"
    "fi_PeriodEnd invoice = fromMicro endUS" "fi_ScheduleVersion invoice = rs_Version schedule" "fi_Currency invoice = rs_Currency schedule"
    "fi_DeviceUsage invoice = device" "fi_RelayUsage invoice = relay" "fi_FinalizedAt invoice = now"
proof -
  from assms obtain estimate assignment schedule d r t dm rm dh rh where p: "acct \<noteq> []"
    "billingPeriodMicros (dr_Start device) (dr_End device) = Inr (startUS, endUS)" "isUTCCalendarMonth startUS endUS"
    "StoreCalculate C F acct device relay db = Inr estimate" "es_UsageComplete estimate"
    "AssignmentOf F acct (dr_Start device) (dr_End device) db = Inr assignment"
    "Schedule C F (as_ScheduleVersion assignment) db = Inr schedule" "invoice_amounts estimate = Inr (d, r, t, dm, rm)"
    and h: "digestJSON C (enc_device C device) = Inr dh" "digestJSON C (enc_relay C relay) = Inr rh"
    and i: "invoice = \<lparr>fi_SchemaVersion = invoiceSchema, fi_AccountID = acct, fi_PeriodStart = fromMicro startUS, fi_PeriodEnd = fromMicro endUS,
        fi_ScheduleVersion = rs_Version schedule, fi_Currency = rs_Currency schedule, fi_DeviceUsage = device, fi_RelayUsage = relay,
        fi_DeviceInputHash = dh, fi_RelayInputHash = rh, fi_DeviceExact = d, fi_RelayExact = r, fi_TotalExact = t,
        fi_DeviceMinor = dm, fi_RelayMinor = rm, fi_TotalMinor = dm + rm, fi_FinalizedAt = now\<rparr>"
    unfolding prepare_invoice_def billingAccountFromContext_def
    by (clarsimp simp: result_simps split: if_splits prod.splits)
  have "Calculate device relay schedule = Inr estimate" using p(4) p(6,7) by (simp add: StoreCalculate_def AssignedSchedule_def result_simps)
  moreover have "check_amounts invoice estimate = Inr ()" by (rule invoice_amounts_check [OF p(8,5)]) (simp_all add: i)
  ultimately show thesis by (intro that [OF p(1-3,7)]) (simp_all add: p h i)
qed

lemma verify_prepared:
  assumes "prepare_invoice C F acct device relay now db = Inr (startUS, endUS, invoice)" and "now \<noteq> zero_time"
    and "bd_schedules db' = bd_schedules db"
  shows "verify_invoice C no_faults acct startUS endUS invoice db' = Inr invoice"
proof -
  from prepare_invoice_ok [OF assms(1)] obtain estimate schedule v where p: "isUTCCalendarMonth startUS endUS"
    "Schedule C F v db = Inr schedule" "Calculate device relay schedule = Inr estimate" "check_amounts invoice estimate = Inr ()"
    "digestJSON C (enc_device C device) = Inr (fi_DeviceInputHash invoice)" "digestJSON C (enc_relay C relay) = Inr (fi_RelayInputHash invoice)"
    "fi_SchemaVersion invoice = invoiceSchema" "fi_AccountID invoice = acct" "fi_PeriodStart invoice = fromMicro startUS"
    "fi_PeriodEnd invoice = fromMicro endUS" "fi_ScheduleVersion invoice = rs_Version schedule" "fi_Currency invoice = rs_Currency schedule"
    "fi_DeviceUsage invoice = device" "fi_RelayUsage invoice = relay" "fi_FinalizedAt invoice = now" by metis
  with assms(2) Schedule_ok [OF p(2) assms(3)] show ?thesis by (simp add: verify_invoice_def)
qed

lemma FinalizeInvoice_reads_back:
  assumes "FinalizeInvoice C F acct device relay now db = (db', Inr invoice)" and "now \<noteq> zero_time"
    and "\<forall>i b. enc_invoice C i = Some b \<longrightarrow> dec_invoice C b = Some i"
  shows "Invoice C no_faults acct (dr_Start device) (dr_End device) db' = Inr invoice"
proof -
  let ?key = "\<lambda>r. (iv_AccountID r, iv_PeriodStartUS r)"
  from assms(1) obtain startUS endUS new snapshot where new: "prepare_invoice C F acct device relay now db = Inr (startUS, endUS, new)"
    and snap: "enc_invoice C new = Some snapshot"
    by (auto simp: FinalizeInvoice_def split: sum.splits option.splits)
  show ?thesis
  proof (cases "has_key ?key (acct, startUS) (bd_invoices db)")
    case True
    with assms(1) new snap have "db' = db" "Invoice C F acct (dr_Start device) (dr_End device) db = Inr invoice"
      by (auto simp: FinalizeInvoice_def split: if_splits sum.splits)
    then show ?thesis by (simp add: Invoice_no_faults)
  next
    case False
    let ?row = "\<lparr>iv_AccountID = acct, iv_PeriodStartUS = startUS, iv_PeriodEndUS = endUS,
      iv_Digest = hex (sha256 C snapshot), iv_Snapshot = snapshot, iv_FinalizedAt = now\<rparr>"
    from False assms(1) new snap have db': "db' = db\<lparr>bd_invoices := bd_invoices db @ [?row]\<rparr>" "invoice = new"
      by (auto simp: FinalizeInvoice_def split: if_splits)
    have "find (\<lambda>r. ?key r = (acct, startUS)) (bd_invoices db) = None" using False find_has_key [of ?key] by blast
    then have "find (\<lambda>r. ?key r = (acct, startUS)) (bd_invoices db') = Some ?row"
      by (simp add: db' find_append)
    moreover have "acct \<noteq> []" "billingPeriodMicros (dr_Start device) (dr_End device) = Inr (startUS, endUS)"
      using prepare_invoice_ok [OF new] by metis+
    moreover have "verify_invoice C no_faults acct startUS endUS invoice db' = Inr invoice"
      unfolding db'(2) by (rule verify_prepared [OF new assms(2)]) (simp add: db')
    moreover have "dec_invoice C snapshot = Some invoice" using assms(3) snap db'(2) by blast
    ultimately show ?thesis by (simp add: Invoice_def billingAccountFromContext_def) (simp add: no_faults_def)
  qed
qed

text \<open>What may happen to the store afterwards: any schedule is stored, any period of any account is assigned, any month of any account
  is finalized, each with any statement failures and also when it is refused.\<close>

inductive invoice_step :: "codec \<Rightarrow> 'a billing_db_scheme \<Rightarrow> 'a billing_db_scheme \<Rightarrow> bool" for C where
  put: "PutSchedule C F s now db = (db', r) \<Longrightarrow> invoice_step C db db'"
| assign: "AssignSchedule C F acct start stop version now db = (db', r) \<Longrightarrow> invoice_step C db db'"
| finalize: "FinalizeInvoice C F acct device relay now db = (db', i) \<Longrightarrow> invoice_step C db db'"

lemma assign_tx_keeps:
  "assign_tx F acct s e version now db = Inr (db', u) \<Longrightarrow> bd_invoices db' = bd_invoices db \<and> bd_schedules db' = bd_schedules db"
  by (auto simp: assign_tx_def Let_def split: if_splits option.splits)

lemma AssignSchedule_keeps:
  assumes "AssignSchedule C F acct start stop version now db = (db', r)"
  shows "bd_invoices db' = bd_invoices db \<and> bd_schedules db' = bd_schedules db"
proof -
  have "bd_invoices db' = bd_invoices db \<and> bd_schedules db' = bd_schedules db"
    if t: "transaction F (DbFault Commit) db (assign_tx F a s e version now) = (db', r)" for a s e
    using t by (cases r) (auto simp: transaction_ok dest: transaction_error assign_tx_keeps)
  with assms show ?thesis by (auto simp: AssignSchedule_def billingAccountFromContext_def split: sum.splits prod.splits)
qed

lemma invoice_step_grows:
  assumes "invoice_step C db db'"
  shows "(\<exists>new. bd_invoices db' = bd_invoices db @ new) \<and> (\<exists>new. bd_schedules db' = bd_schedules db @ new)"
  using assms
proof cases
  case (put F s now r)
  then show ?thesis by (auto simp: PutSchedule_def Let_def split: if_splits option.splits sum.splits)
next
  case (assign F acct start stop version now r)
  from AssignSchedule_keeps [OF this] show ?thesis by simp
next
  case (finalize F acct device relay now i)
  then show ?thesis by (auto simp: FinalizeInvoice_def split: if_splits option.splits sum.splits prod.splits)
qed

interpretation irows: append_only "invoice_step C" bd_invoices "\<lambda>_. True" n for C n
  by unfold_locales (auto dest: invoice_step_grows)

interpretation srows: append_only "invoice_step C" bd_schedules "\<lambda>_. True" n for C n
  by unfold_locales (auto dest: invoice_step_grows)

lemma Schedule_extends:
  "Schedule C F v db = Inr s \<Longrightarrow> bd_schedules db' = bd_schedules db @ new \<Longrightarrow> Schedule C F v db' = Inr s"
  by (auto simp: Schedule_def find_append split: if_splits option.splits)

lemma verify_invoice_extends:
  assumes "verify_invoice C F acct s e i db = Inr j" and "bd_schedules db' = bd_schedules db @ new"
  shows "verify_invoice C F acct s e i db' = Inr j"
  using assms(1) Schedule_extends [OF _ assms(2)] by (auto simp: verify_invoice_def result_simps split: if_splits)

lemma Invoice_extends:
  assumes "Invoice C F acct start stop db = Inr i"
    and "bd_invoices db' = bd_invoices db @ added" and "bd_schedules db' = bd_schedules db @ new"
  shows "Invoice C F acct start stop db' = Inr i"
proof -
  from assms(1) obtain startUS endUS row j where "acct \<noteq> []" "billingPeriodMicros start stop = Inr (startUS, endUS)" "\<not> F (Select ''invoices'')"
    "find (\<lambda>r. (iv_AccountID r, iv_PeriodStartUS r) = (acct, startUS)) (bd_invoices db) = Some row" "iv_PeriodEndUS row = endUS"
    "hex (sha256 C (iv_Snapshot row)) = iv_Digest row" "dec_invoice C (iv_Snapshot row) = Some j"
    and v: "verify_invoice C F acct startUS endUS j db = Inr i"
    by (auto simp: Invoice_def billingAccountFromContext_def result_simps split: if_splits option.splits)
  then show ?thesis using verify_invoice_extends [OF v assms(3)]
    by (simp add: Invoice_def billingAccountFromContext_def assms(2) find_append)
qed

lemma Invoice_run:
  assumes "Invoice C F acct start stop db = Inr i" and "(invoice_step C)\<^sup>*\<^sup>* db db'"
  shows "Invoice C F acct start stop db' = Inr i"
proof -
  from irows.run_extends [OF assms(2), of "Suc (length (bd_invoices db'))"] obtain added where "bd_invoices db' = bd_invoices db @ added" by auto
  moreover from srows.run_extends [OF assms(2), of "Suc (length (bd_schedules db'))"] obtain new where "bd_schedules db' = bd_schedules db @ new" by auto
  ultimately show ?thesis by (rule Invoice_extends [OF assms(1)])
qed

text \<open>A month whose invoice reads back cannot be finalized into anything else.\<close>

lemma FinalizeInvoice_again:
  assumes "Invoice C no_faults acct (dr_Start device) (dr_End device) db = Inr invoice"
  shows "FinalizeInvoice C F acct device relay now db \<in> {(db, Inr invoice)} \<union> {(db, Inl e) |e. True}"
proof (cases "prepare_invoice C F acct device relay now db")
  case (Inr p)
  obtain startUS endUS row where key: "billingPeriodMicros (dr_Start device) (dr_End device) = Inr (startUS, endUS)"
    "find (\<lambda>r. (iv_AccountID r, iv_PeriodStartUS r) = (acct, startUS)) (bd_invoices db) = Some row"
    using assms by (auto simp: Invoice_def billingAccountFromContext_def result_simps split: if_splits option.splits)
  then have present: "has_key (\<lambda>r. (iv_AccountID r, iv_PeriodStartUS r)) (acct, startUS) (bd_invoices db)"
    using find_has_key [of "\<lambda>r. (iv_AccountID r, iv_PeriodStartUS r)" "(acct, startUS)" "bd_invoices db"] by auto
  have same: "Invoice C F acct (dr_Start device) (dr_End device) db = Inr i \<Longrightarrow> i = invoice" for i
    using Invoice_no_faults [of C F] assms by fastforce
  obtain s e i where p: "p = (s, e, i)" by (cases p)
  with prepare_invoice_ok [OF Inr [unfolded p]] key(1) have "s = startUS" by (metis Pair_inject Inr_inject)
  with p Inr present same show ?thesis by (auto simp: FinalizeInvoice_def split: option.splits sum.splits)
qed (simp add: FinalizeInvoice_def)

text \<open>C15. A finalized invoice is immutable. When finalizing a month succeeds, then after any further sequence of schedules stored,
  periods assigned and months finalized, for any accounts and periods and with any database failures, reading the invoice
  back returns it with every check passed; and finalizing the month again, with whatever usage, changes nothing: it returns
  that same invoice or an error. (Decoding the text of an invoice gives the invoice. The deletion of invoices after seven
  years is not one of these operations.)\<close>

theorem finalized_invoice_immutable:
  assumes "FinalizeInvoice C F acct device relay now db = (db', Inr invoice)" and "now \<noteq> zero_time"
    and "\<forall>i b. enc_invoice C i = Some b \<longrightarrow> dec_invoice C b = Some i" and "(invoice_step C)\<^sup>*\<^sup>* db' db''"
    and "dr_Start device' = dr_Start device" and "dr_End device' = dr_End device"
  shows "Invoice C no_faults acct (dr_Start device) (dr_End device) db'' = Inr invoice
     \<and> FinalizeInvoice C F' acct device' relay' now' db'' \<in> {(db'', Inr invoice)} \<union> {(db'', Inl e) |e. True}"
proof -
  have readback: "Invoice C no_faults acct (dr_Start device) (dr_End device) db'' = Inr invoice"
    by (rule Invoice_run [OF FinalizeInvoice_reads_back [OF assms(1-3)] assms(4)])
  with FinalizeInvoice_again [of C acct device' db'' invoice] assms(5,6) show ?thesis by simp
qed

definition demo_invoice :: FinalInvoice where
  "demo_invoice = \<lparr>fi_SchemaVersion = invoiceSchema, fi_AccountID = ''acct'', fi_PeriodStart = 0, fi_PeriodEnd = seconds 2678400,
     fi_ScheduleVersion = rs_Version PilotRateSchedule, fi_Currency = rs_Currency PilotRateSchedule, fi_DeviceUsage = demo_usage,
     fi_RelayUsage = demo_relay, fi_DeviceInputHash = hex ''D'', fi_RelayInputHash = hex ''R'', fi_DeviceExact = exactAmount 2800,
     fi_RelayExact = exactAmount 100, fi_TotalExact = exactAmount 2900, fi_DeviceMinor = 2800, fi_RelayMinor = 100,
     fi_TotalMinor = 2900, fi_FinalizedAt = seconds 2700000\<rparr>"

definition demo_codec :: codec where
  "demo_codec = \<lparr>enc_schedule = (\<lambda>s. if s = PilotRateSchedule then Some ''P'' else None),
     dec_schedule = (\<lambda>b. if b = ''P'' then Some PilotRateSchedule else None),
     enc_invoice = (\<lambda>i. if i = demo_invoice then Some ''I'' else None), dec_invoice = (\<lambda>b. if b = ''I'' then Some demo_invoice else None),
     enc_device = (\<lambda>_. Some ''D''), enc_relay = (\<lambda>_. Some ''R''), sha256 = (\<lambda>b. b)\<rparr>"

definition demo_billing :: billing_db where
  "demo_billing = \<lparr>bd_schedules = [\<lparr>sr_Version = rs_Version PilotRateSchedule, sr_Digest = hex ''P'', sr_Snapshot = ''P'', sr_CreatedAt = 0\<rparr>],
     bd_assignments = [\<lparr>ra_AccountID = ''acct'', ra_PeriodStartUS = 0, ra_PeriodEndUS = 2678400000000,
       ra_ScheduleVersion = rs_Version PilotRateSchedule, ra_CreatedAt = 0\<rparr>], bd_locks = [], bd_invoices = []\<rparr>"

lemma demo_estimate:
  "Calculate demo_usage demo_relay PilotRateSchedule
     = Inr \<lparr>es_ScheduleVersion = rs_Version PilotRateSchedule, es_Currency = rs_Currency PilotRateSchedule,
            es_DeviceExact = Some (exactAmount 2800), es_RelayExact = Some (exactAmount 100), es_TotalExact = Some (exactAmount 2900),
            es_UsageComplete = True, es_Incomplete = []\<rparr>"
proof -
  have "deviceCharge demo_usage (rs_DeviceTiers PilotRateSchedule) = Inr 2800"
    using deviceCharge_line [OF demo_schedule_valid demo_usage_valid(1)] by (simp add: demo_lines)
  moreover have "relayCharge 15000000000 PilotRateSchedule = 100" "rr_ReportedBytes demo_relay = int_string 15000000000"
    "validRelayReport demo_relay (dr_Start demo_usage) (dr_End demo_usage)"
    using demo_lines(2) demo_usage_valid(2) by (simp_all add: relayCharge_overage demo_relay_def demo_usage_def)
  then have "relay_line demo_usage demo_relay PilotRateSchedule = Inr (Some 100)" by (simp add: relay_line_def)
  ultimately show ?thesis by (simp add: Calculate_def demo_schedule_valid demo_usage_valid Let_def)
qed

lemma demo_finalize:
  "FinalizeInvoice demo_codec no_faults ''acct'' demo_usage demo_relay (seconds 2700000) demo_billing
     = (demo_billing\<lparr>bd_invoices := [\<lparr>iv_AccountID = ''acct'', iv_PeriodStartUS = 0, iv_PeriodEndUS = 2678400000000,
          iv_Digest = hex ''I'', iv_Snapshot = ''I'', iv_FinalizedAt = seconds 2700000\<rparr>]\<rparr>, Inr demo_invoice)"
proof -
  have period: "billingPeriodMicros (dr_Start demo_usage) (dr_End demo_usage) = Inr (0, 2678400000000)"
    by (simp add: billingPeriodMicros_def demo_usage_def validBillingTime_def year10000_def unixMicro_def)
  have sched: "Schedule demo_codec no_faults (rs_Version PilotRateSchedule) demo_billing = Inr PilotRateSchedule"
    by (simp add: Schedule_def no_faults_def demo_billing_def demo_codec_def demo_schedule_valid)
  have assign: "AssignmentOf no_faults ''acct'' (dr_Start demo_usage) (dr_End demo_usage) demo_billing
      = Inr \<lparr>as_AccountID = ''acct'', as_PeriodStart = 0, as_PeriodEnd = seconds 2678400, as_ScheduleVersion = rs_Version PilotRateSchedule\<rparr>"
    by (simp add: AssignmentOf_def billingAccountFromContext_def period no_faults_def demo_billing_def fromMicro_def)
  have "truncateMinor (Some 2800) = Inr 2800" "truncateMinor (Some 100) = Inr 100" by (simp_all add: truncateMinor_def)
  then have amounts: "invoice_amounts \<lparr>es_ScheduleVersion = v, es_Currency = c, es_DeviceExact = Some (exactAmount 2800),
      es_RelayExact = Some (exactAmount 100), es_TotalExact = Some (exactAmount 2900), es_UsageComplete = u, es_Incomplete = l\<rparr>
      = Inr (exactAmount 2800, exactAmount 100, exactAmount 2900, 2800, 100)" for v c u l
    by (simp add: invoice_amounts_def parse_exactAmount)
  have codes: "digestJSON demo_codec (enc_device demo_codec demo_usage) = Inr (hex ''D'')" "digestJSON demo_codec (enc_relay demo_codec demo_relay) = Inr (hex ''R'')"
    by (simp_all add: digestJSON_def demo_codec_def)
  have month: "isUTCCalendarMonth 0 2678400000000" by code_simp
  have "prepare_invoice demo_codec no_faults ''acct'' demo_usage demo_relay (seconds 2700000) demo_billing = Inr (0, 2678400000000, demo_invoice)"
    using month by (simp add: prepare_invoice_def StoreCalculate_def AssignedSchedule_def billingAccountFromContext_def period assign sched
      demo_estimate amounts codes) (simp add: demo_invoice_def fromMicro_def)
  moreover have "enc_invoice demo_codec demo_invoice = Some ''I''" "sha256 demo_codec = (\<lambda>b. b)" by (simp_all add: demo_codec_def)
  moreover have "bd_invoices demo_billing = []" by (simp add: demo_billing_def)
  ultimately show ?thesis by (simp add: FinalizeInvoice_def no_faults_def has_key_def)
qed

text \<open>A later operation: another account is assigned a period.\<close>

definition demo_reassigned :: billing_db where
  "demo_reassigned = fst (AssignSchedule demo_codec no_faults ''other'' 0 (seconds 2678400) (rs_Version PilotRateSchedule) (seconds 2700001)
     (fst (FinalizeInvoice demo_codec no_faults ''acct'' demo_usage demo_relay (seconds 2700000) demo_billing)))"

lemma demo_reassigned_rows: "length (bd_assignments demo_reassigned) = 2"
  unfolding demo_reassigned_def demo_finalize fst_conv
  by (simp add: AssignSchedule_def billingAccountFromContext_def billingPeriodMicros_def validBillingTime_def
      year10000_def unixMicro_def Schedule_def no_faults_def demo_billing_def demo_codec_def demo_schedule_valid transaction_def assign_tx_def
      overlaps_period_def has_key_def)

theorem finalized_invoice_immutable_witness:
  "(invoice_step demo_codec)\<^sup>*\<^sup>* (fst (FinalizeInvoice demo_codec no_faults ''acct'' demo_usage demo_relay (seconds 2700000) demo_billing)) demo_reassigned
     \<and> length (bd_assignments demo_reassigned) = 2
     \<and> Invoice demo_codec no_faults ''acct'' 0 (seconds 2678400) demo_reassigned = Inr demo_invoice"
proof -
  let ?db = "fst (FinalizeInvoice demo_codec no_faults ''acct'' demo_usage demo_relay (seconds 2700000) demo_billing)"
  have codec: "\<forall>i b. enc_invoice demo_codec i = Some b \<longrightarrow> dec_invoice demo_codec b = Some i" by (simp add: demo_codec_def)
  have now: "seconds 2700000 \<noteq> zero_time" by (simp add: zero_time_def)
  have "invoice_step demo_codec ?db demo_reassigned"
    unfolding demo_reassigned_def by (rule invoice_step.assign [OF prod.collapse [symmetric]])
  then have run: "(invoice_step demo_codec)\<^sup>*\<^sup>* ?db demo_reassigned" by (rule r_into_rtranclp)
  have "FinalizeInvoice demo_codec no_faults ''acct'' demo_usage demo_relay (seconds 2700000) demo_billing = (?db, Inr demo_invoice)"
    using demo_finalize by simp
  from finalized_invoice_immutable [OF this now codec run refl refl] run demo_reassigned_rows show ?thesis by (simp add: demo_usage_def)
qed

end
