(* ===== verification/Payment_Trust.thy ===== *)
theory Payment_Trust
  imports Billing_Workers Billing_Trust
begin

text \<open>What the payment workers guarantee: however retry workers are interleaved with each other, with webhooks and with the
  other payment operations, each scheduled retry is sent to the provider at most once, and at most four are.\<close>

section \<open>Attempt states\<close>

definition state_of :: "paymentAttemptRow list \<Rightarrow> string \<times> int \<Rightarrow> string option" where
  "state_of as k = map_option pa_State (find (\<lambda>a. attempt_key a = k) as)"

text \<open>What no step but the release of a claim does to a retry: bring it back to the queue, delete it, or create one past the fourth.\<close>

definition keeps :: "paymentAttemptRow list \<Rightarrow> paymentAttemptRow list \<Rightarrow> bool" where
  "keeps xs ys \<longleftrightarrow> (\<forall>k. 0 < snd k \<longrightarrow>
     (state_of ys k = Some paymentRetryQueued \<longrightarrow> state_of xs k \<in> {None, Some paymentRetryQueued})
     \<and> (state_of ys k = None \<longrightarrow> state_of xs k = None) \<and> (4 < snd k \<longrightarrow> state_of xs k = None \<longrightarrow> state_of ys k = None))"

lemma keeps_refl [simp]: "keeps xs xs"
  by (simp add: keeps_def)

lemma state_of_update:
  assumes "\<And>a. attempt_key (f a) = attempt_key a"
  shows "state_of (update_rows P f ys) k = (case find (\<lambda>a. attempt_key a = k) ys of None \<Rightarrow> None
      | Some a \<Rightarrow> Some (if P a then pa_State (f a) else pa_State a))"
  unfolding state_of_def using find_update_rows [of attempt_key f k P ys] assms by (simp split: option.splits)

lemma keeps_update:
  assumes "keeps xs ys" and "\<And>a. attempt_key (f a) = attempt_key a" and "\<And>a. P a \<Longrightarrow> pa_State (f a) \<noteq> paymentRetryQueued \<or> pa_Number a \<le> 0"
  shows "keeps xs (update_rows P f ys)"
proof -
  note st = state_of_update [of f P ys, OF assms(2)]
  have "state_of ys k = Some paymentRetryQueued" if "state_of (update_rows P f ys) k = Some paymentRetryQueued" "0 < snd k" for k
  proof -
    from that(1) obtain a where a: "find (\<lambda>a. attempt_key a = k) ys = Some a" "(if P a then pa_State (f a) else pa_State a) = paymentRetryQueued"
      unfolding st by (auto split: option.splits)
    from find_Some_in [OF a(1)] that(2) have "0 < pa_Number a" by auto
    with a assms(3) [of a] show ?thesis by (auto simp: state_of_def split: if_splits)
  qed
  moreover have "state_of (update_rows P f ys) k = None \<longleftrightarrow> state_of ys k = None" for k
    unfolding st by (simp add: state_of_def split: option.splits)
  ultimately show ?thesis using assms(1) unfolding keeps_def by blast
qed

lemma keeps_insert:
  assumes "keeps xs ys" and "pa_Number r \<le> 4"
  shows "keeps xs (insert_new attempt_key r ys)"
proof -
  have "state_of (insert_new attempt_key r ys) k
      = (if attempt_key r = k \<and> state_of ys k = None then Some (pa_State r) else state_of ys k)" for k
    using find_insert_new [of attempt_key k r ys] by (auto simp: state_of_def)
  then show ?thesis using assms unfolding keeps_def by auto
qed

lemma keeps_append:
  assumes "keeps xs ys" and "pa_Number r \<le> 0"
  shows "keeps xs (ys @ [r])"
proof -
  have "state_of (ys @ [r]) k = state_of ys k" if "0 < snd k" for k
    using assms(2) that by (auto simp: state_of_def find_append split: option.splits)
  then show ?thesis using assms(1) by (simp add: keeps_def)
qed

section \<open>Transactions\<close>

lemmas statement_defs = add_history_def update_outbox_def update_attempts_def ensureInitialPaymentAttempt_def

lemma transaction_keeps:
  assumes "\<And>db' x. body db = Inr (db', x) \<Longrightarrow> keeps (bd_attempts db) (bd_attempts db')"
  shows "keeps (bd_attempts db) (bd_attempts (fst (transaction F e db body)))"
  using assms by (auto simp: transaction_def split: sum.splits)

lemma schedule_keeps:
  assumes "schedulePaymentRetriesTx F payment failedAt now db = Inr db'" and "keeps xs (bd_attempts db)"
  shows "keeps xs (bd_attempts db')"
  using assms by (auto simp: schedulePaymentRetriesTx_def paymentRetryDays_def enumerate_simps insert_retry_def update_outbox_def new_attempt_def
      result_simps intro!: keeps_insert split: if_splits)

lemma outbox_keeps: "update_outbox F P f db = Inr db' \<Longrightarrow> keeps xs (bd_attempts db) \<Longrightarrow> keeps xs (bd_attempts db')"
  and history_keeps: "add_history F ref old new event now db = Inr db' \<Longrightarrow> keeps xs (bd_attempts db) \<Longrightarrow> keeps xs (bd_attempts db')"
  and initial_keeps: "ensureInitialPaymentAttempt F p db = Inr db' \<Longrightarrow> keeps xs (bd_attempts db) \<Longrightarrow> keeps xs (bd_attempts db')"
  and skip_keeps: "skip_later_retries F ref n now db = Inr db' \<Longrightarrow> keeps xs (bd_attempts db) \<Longrightarrow> keeps xs (bd_attempts db')"
  and mark_keeps: "markWebhookProcessed F inbox now db = Inr (db', b) \<Longrightarrow> keeps xs (bd_attempts db) \<Longrightarrow> keeps xs (bd_attempts db')"
  by (auto simp: statement_defs skip_later_retries_def markWebhookProcessed_def Let_def payment_states
      intro!: keeps_update keeps_insert split: if_splits)

lemma attempts_keeps:
  assumes "update_attempts F P f db = Inr db'" and "\<And>a. attempt_key (f a) = attempt_key a"
    and "\<And>a. P a \<Longrightarrow> pa_State (f a) \<noteq> paymentRetryQueued \<or> pa_Number a \<le> 0" and "keeps xs (bd_attempts db)"
  shows "keeps xs (bd_attempts db')"
  using assms(1) keeps_update [OF assms(4,2,3)] by (auto simp: update_attempts_def split: if_splits)

lemmas statement_keeps = outbox_keeps history_keeps initial_keeps skip_keeps mark_keeps schedule_keeps

lemma webhook_apply_keeps:
  assumes "webhook_apply F event us target payment attempt now db = Inr db'" and "target \<noteq> paymentRetryQueued"
    and "keeps xs (bd_attempts db)"
  shows "keeps xs (bd_attempts db')"
proof -
  from assms(1) obtain db1 db2 db3 where s: "webhook_attempt F event us target now db = Inr db1"
    "webhook_invoice F event us target payment now db1 = Inr db2" "webhook_history F event target payment attempt now db2 = Inr db3"
    "webhook_retries F event us target payment now db3 = Inr db'"
    by (auto simp: webhook_apply_def result_simps)
  have "keeps xs (bd_attempts db1)"
    using s(1) unfolding webhook_attempt_def by (rule attempts_keeps) (use assms(2,3) in auto)
  then have "keeps xs (bd_attempts db2)" using s(2) unfolding webhook_invoice_def Let_def by (rule outbox_keeps [rotated])
  then have "keeps xs (bd_attempts db3)" using s(3) by (auto simp: webhook_history_def Let_def intro: history_keeps split: if_splits)
  then show ?thesis using s(4) by (auto simp: webhook_retries_def result_simps intro: schedule_keeps skip_keeps split: if_splits)
qed

lemma webhook_target_not_queued: "webhook_target t = Some target \<Longrightarrow> target \<noteq> paymentRetryQueued"
  by (auto simp: webhook_target_def payment_states split: if_splits)

lemma webhook_news_cases:
  assumes "webhook_news F inbox event target payment attempt now db = Inr (db', b)"
  obtains "markWebhookProcessed F inbox now db = Inr (db', b)"
    | db2 where "po_State payment = PaymentPaid \<longrightarrow> target = PaymentPaid"
      "webhook_apply F event (wi_OccurredUS inbox) target payment attempt now db = Inr db2" "markWebhookProcessed F inbox now db2 = Inr (db', b)"
  using assms by (auto simp: webhook_news_def result_simps split: if_splits)

lemma webhook_event_cases:
  assumes "webhook_event F inbox event target now db = Inr (db', b)"
  obtains payment attempt db1 where "select_outbox F (ne_InvoiceRef event) db = Inr payment"
    "ensureInitialPaymentAttempt F payment db = Inr db1" "select_attempt F (ne_InvoiceRef event) (ne_AttemptNumber event) db1 = Inr attempt"
    "webhook_news F inbox event target payment attempt now db1 = Inr (db', b)"
proof -
  from assms obtain payment where p: "select_outbox F (ne_InvoiceRef event) db = Inr payment"
    by (auto simp: webhook_event_def split: if_splits sum.splits)
  with assms obtain db1 where "ensureInitialPaymentAttempt F payment db = Inr db1"
    "(case select_attempt F (ne_InvoiceRef event) (ne_AttemptNumber event) db1 of
        Inl e \<Rightarrow> Inl (if e = RecordNotFound \<and> ne_AttemptNumber event > 0 then ErrWebhookConflict else e)
      | Inr attempt \<Rightarrow> webhook_news F inbox event target payment attempt now db1) = Inr (db', b)"
    by (auto simp: webhook_event_def elim!: ebindE split: if_splits)
  with p that show thesis by (cases "select_attempt F (ne_InvoiceRef event) (ne_AttemptNumber event) db1") auto
qed

lemma webhook_tx_cases:
  assumes "webhook_tx F eventID now db = Inr (db', b)"
  obtains "db' = db" | inbox where "markWebhookProcessed F inbox now db = Inr (db', b)"
    | event target inbox where "webhook_target (ne_EventType event) = Some target" "webhook_event F inbox event target now db = Inr (db', b)"
  using assms by (auto simp: webhook_tx_def split: if_splits option.splits)

lemma webhook_keeps: "keeps (bd_attempts db) (bd_attempts (fst (ProcessWebhook F eventID now db)))"
proof -
  have "keeps (bd_attempts db) (bd_attempts db')" if "webhook_tx F eventID now db = Inr (db', b)" for db' b
    using that
  proof (cases rule: webhook_tx_cases)
    case (3 event target inbox)
    from 3(2) obtain payment attempt db1 where init: "ensureInitialPaymentAttempt F payment db = Inr db1"
      and news: "webhook_news F inbox event target payment attempt now db1 = Inr (db', b)" by (rule webhook_event_cases)
    have "keeps (bd_attempts db) (bd_attempts db1)" by (rule initial_keeps [OF init keeps_refl])
    with news webhook_target_not_queued [OF 3(1)] show ?thesis
      by (elim webhook_news_cases) (auto intro: mark_keeps webhook_apply_keeps)
  qed (auto intro: mark_keeps)
  then show ?thesis by (auto simp: ProcessWebhook_def intro!: transaction_keeps)
qed

lemma queue_keeps: "keeps (bd_attempts db) (bd_attempts (fst (QueuePayment C F acct start stop now db)))"
proof -
  have "keeps (bd_attempts db) (bd_attempts db')" if "queue_tx F row db = Inr (db', r)" for row db' r
    using that by (auto simp: queue_tx_def Let_def result_simps statement_defs new_attempt_def intro!: keeps_append keeps_insert split: if_splits)
  then show ?thesis by (auto simp: QueuePayment_def intent_result_def intro!: transaction_keeps split: sum.splits)
qed

lemma update_state_keeps: "keeps (bd_attempts db) (bd_attempts (fst (UpdatePaymentState F ref expected new pid url now db)))"
proof -
  have "keeps (bd_attempts db) (bd_attempts db')" if tx: "update_state_tx F ref expected new pid url now db = Inr (db', r)" for db' r
  proof (cases "db' = db")
    case False
    with tx obtain P f db1 db2 row db3 where "update_outbox F P f db = Inr db1" "add_history F ref expected new [] now db1 = Inr db2"
      "ensureInitialPaymentAttempt F row db2 = Inr db3"
      and last: "update_attempts F (\<lambda>a. attempt_key a = (ref, 0)) (move_attempt new pid url now) db3 = Inr db'"
      by (auto simp: update_state_tx_def Let_def result_simps split: if_splits sum.splits)
    then have "keeps (bd_attempts db) (bd_attempts db3)" by (blast intro: statement_keeps keeps_refl)
    then show ?thesis by (intro attempts_keeps [OF last]) (auto simp: move_attempt_def)
  qed simp
  then show ?thesis by (auto simp: UpdatePaymentState_def intent_result_def intro!: transaction_keeps)
qed

lemma customer_keeps: "bd_attempts (fst (SetPaymentCustomer F ref customerID now db)) = bd_attempts db"
  by (auto simp: SetPaymentCustomer_def intent_result_def transaction_def set_customer_tx_def Let_def update_outbox_def result_simps
      split: sum.splits if_splits)

lemma record_keeps: "bd_attempts (fst (RecordWebhook F event now db)) = bd_attempts db"
  by (simp add: RecordWebhook_def Let_def split: option.splits)

lemma configure_keeps: "bd_attempts (fst (ConfigurePaddleAccount F acct enabled customerID productID now db)) = bd_attempts db"
  by (simp add: ConfigurePaddleAccount_def Let_def split: sum.splits option.splits)

section \<open>Claim, release and settlement of a retry\<close>

lemma update_other:
  assumes "\<And>a. attempt_key (f a) = attempt_key a" and "\<And>a. P a \<Longrightarrow> attempt_key a = k0" and "k \<noteq> k0"
  shows "state_of (update_rows P f ys) k = state_of ys k"
  unfolding state_of_update [of f, OF assms(1)]
  using assms(2,3) by (auto simp: state_of_def dest!: find_Some_in split: option.splits)

lemma claim_effect:
  assumes "claimPaymentRetry F ref n now db = (db', Inr (p, a, c))"
  shows "c \<Longrightarrow> state_of (bd_attempts db) (ref, n) = Some paymentRetryQueued \<and> state_of (bd_attempts db') (ref, n) = Some PaymentSubmitting
      \<and> (\<forall>k. k \<noteq> (ref, n) \<longrightarrow> state_of (bd_attempts db') k = state_of (bd_attempts db) k)"
    and "\<not> c \<Longrightarrow> keeps (bd_attempts db) (bd_attempts db')"
proof -
  let ?P = "\<lambda>a. attempt_key a = (ref, n) \<and> pa_State a = paymentRetryQueued"
  let ?f = "\<lambda>a. a\<lparr>pa_State := PaymentSubmitting, pa_AttemptStartedAt := now, pa_UpdatedAt := now\<rparr>"
  from assms have tx: "claim_tx F ref n now db = Inr (db', p, a, c)" by (simp add: claimPaymentRetry_def transaction_ok)
  show "keeps (bd_attempts db) (bd_attempts db')" if "\<not> c"
    using tx that by (auto simp: claim_tx_def Let_def result_simps update_attempts_def update_outbox_def payment_states intro!: keeps_update split: if_splits)
  assume c
  with tx obtain r where r: "attempt_row ref n db = Some r" "pa_State r = paymentRetryQueued"
    and db': "bd_attempts db' = update_rows ?P ?f (bd_attempts db)"
    by (auto simp: claim_tx_def Let_def result_simps statement_defs select_attempt_def split: if_splits option.splits)
  have key: "attempt_key (?f b) = attempt_key b" for b by simp
  have "find (\<lambda>a. attempt_key a = (ref, n)) (bd_attempts db) = Some r" using r(1) by (simp add: attempt_row_def)
  moreover from find_Some_in [OF this] have "?P r" using r(2) by simp
  ultimately have "state_of (bd_attempts db) (ref, n) = Some paymentRetryQueued" "state_of (bd_attempts db') (ref, n) = Some PaymentSubmitting"
    unfolding db' state_of_update [of ?f, OF key] by (simp_all add: state_of_def)
  moreover have "state_of (bd_attempts db') k = state_of (bd_attempts db) k" if "k \<noteq> (ref, n)" for k
    unfolding db' by (rule update_other [where ?k0.0 = "(ref, n)"]) (use that in auto)
  ultimately show "state_of (bd_attempts db) (ref, n) = Some paymentRetryQueued \<and> state_of (bd_attempts db') (ref, n) = Some PaymentSubmitting
      \<and> (\<forall>k. k \<noteq> (ref, n) \<longrightarrow> state_of (bd_attempts db') k = state_of (bd_attempts db) k)" by blast
qed

lemma release_effect:
  assumes "releasePaymentRetry F ref n cause now db = (db', r)"
  shows "(\<forall>k. k \<noteq> (ref, n) \<longrightarrow> state_of (bd_attempts db') k = state_of (bd_attempts db) k)
     \<and> (state_of (bd_attempts db') (ref, n) = state_of (bd_attempts db) (ref, n) \<or> state_of (bd_attempts db) (ref, n) = Some PaymentSubmitting)"
proof -
  let ?P = "\<lambda>a. attempt_key a = (ref, n) \<and> pa_State a = PaymentSubmitting \<and> pa_ProviderID a = []"
  let ?f = "\<lambda>a. a\<lparr>pa_State := paymentRetryQueued, pa_AttemptStartedAt := zero_time, pa_UpdatedAt := now\<rparr>"
  have key: "attempt_key (?f b) = attempt_key b" for b by simp
  have other: "state_of (update_rows ?P ?f xs) k = state_of xs k" if "k \<noteq> (ref, n)" for xs k
    by (rule update_other [where ?k0.0 = "(ref, n)"]) (use that in auto)
  have self: "state_of (update_rows ?P ?f xs) (ref, n) = state_of xs (ref, n) \<or> state_of xs (ref, n) = Some PaymentSubmitting" for xs
    unfolding state_of_update [of ?f, OF key] by (auto simp: state_of_def split: option.splits)
  from assms have "bd_attempts db' = bd_attempts db \<or> bd_attempts db' = update_rows ?P ?f (bd_attempts db)"
    by (auto simp: releasePaymentRetry_def transaction_def release_tx_def Let_def statement_defs result_simps elim!: ebindE
        split: sum.splits prod.splits if_splits)
  then show ?thesis
  proof
    assume eq: "bd_attempts db' = update_rows ?P ?f (bd_attempts db)"
    show ?thesis unfolding eq using other self by blast
  qed simp
qed

lemma finish_keeps:
  assumes "new \<noteq> paymentRetryQueued"
  shows "keeps (bd_attempts db) (bd_attempts (fst (finishPaymentRetry F ref n expected new txn us now db)))"
proof -
  have "keeps (bd_attempts db) (bd_attempts db')" if tx: "finish_tx F ref n expected new txn us now db = Inr (db', u)" for db' u
  proof (cases "db' = db")
    case False
    with tx obtain payment attempt db1 db2 db3 where a: "finish_attempt F ref n expected new txn us now db = Inr db1"
      and o: "finish_invoice F ref n new txn us payment attempt now db1 = Inr db2" and h: "finish_history F ref n expected new payment now db2 = Inr db3"
      and s: "(if new \<in> {PaymentCheckout, PaymentOperatorHold, PaymentPaid} then skip_later_retries F ref n now db3 else Inr db3) = Inr db'"
      unfolding finish_tx_def by (elim ebindE if_InrE) (auto elim!: ebindE)
    have "keeps (bd_attempts db) (bd_attempts db1)"
      using a unfolding finish_attempt_def by (rule attempts_keeps) (use assms in auto)
    then have "keeps (bd_attempts db) (bd_attempts db2)" using o unfolding finish_invoice_def Let_def by (rule outbox_keeps [rotated])
    with h have "keeps (bd_attempts db) (bd_attempts db3)" by (auto simp: finish_history_def Let_def intro: history_keeps split: if_splits)
    with s show ?thesis by (auto intro: skip_keeps split: if_splits)
  qed simp
  then show ?thesis by (auto simp: finishPaymentRetry_def intro!: transaction_keeps)
qed

lemma paddlePaymentState_not_queued: "paddlePaymentState status \<noteq> paymentRetryQueued"
  by (simp add: paddlePaymentState_def payment_states)

lemma reconcile_keeps: "keeps (bd_attempts db) (bd_attempts (fst (reconcilePaymentAttempt F client attempt now db)))"
proof -
  have "PaymentOperatorHold \<noteq> paymentRetryQueued" by (simp add: payment_states)
  then show ?thesis
    by (auto simp: reconcilePaymentAttempt_def Let_def intro: finish_keeps finish_keeps [OF paddlePaymentState_not_queued] split: sum.splits list.splits)
qed

section \<open>Interleaved workers\<close>

text \<open>Everything else that runs on the payment tables while retry workers are at work: webhooks, intents, initial
  submissions and reconciliation.\<close>

inductive payment_op :: "payment_db \<Rightarrow> payment_db \<Rightarrow> bool" where
  op_webhook: "payment_op db (fst (ProcessWebhook F eventID now db))"
| op_record: "payment_op db (fst (RecordWebhook F event now db))"
| op_queue: "payment_op db (fst (QueuePayment C F acct start stop now db))"
| op_update: "payment_op db (fst (UpdatePaymentState F ref expected new providerID checkoutURL now db))"
| op_customer: "payment_op db (fst (SetPaymentCustomer F ref customerID now db))"
| op_configure: "payment_op db (fst (ConfigurePaddleAccount F acct enabled customerID productID now db))"
| op_reconcile: "payment_op db (fst (reconcilePaymentAttempt F client attempt now db))"

lemma payment_op_keeps: "payment_op db db' \<Longrightarrow> keeps (bd_attempts db) (bd_attempts db')"
  by (induction rule: payment_op.induct)
    (simp_all add: webhook_keeps record_keeps queue_keeps update_state_keeps customer_keeps configure_keeps reconcile_keeps)

text \<open>Any number of workers, each somewhere in a retry, on shared tables; a worker may stop for good at any point. The last
  component lists the attempts for which a create request was sent.\<close>

record retry_system =
  ry_db :: payment_db
  ry_workers :: "((string \<times> int) \<times> retry_point) list"
  ry_sent :: "(string \<times> int) list"

inductive retry_system_step :: "retry_system \<Rightarrow> retry_system \<Rightarrow> bool" where
  start: "0 < n \<Longrightarrow> retry_system_step s (s\<lparr>ry_workers := ((ref, n), RetryClaim) # ry_workers s\<rparr>)"
| work: "ry_workers s = ws @ ((ref, n), pt) # vs \<Longrightarrow> retry_step C F client now ref n pt (ry_db s) = (db', requests, pt') \<Longrightarrow>
    retry_system_step s \<lparr>ry_db = db', ry_workers = ws @ ((ref, n), pt') # vs, ry_sent = ry_sent s @ map (\<lambda>_. (ref, n)) requests\<rparr>"
| crash: "ry_workers s = ws @ w # vs \<Longrightarrow> retry_system_step s (s\<lparr>ry_workers := ws @ vs\<rparr>)"
| other: "payment_op (ry_db s) db' \<Longrightarrow> retry_system_step s (s\<lparr>ry_db := db'\<rparr>)"

inductive_cases retry_system_stepE: "retry_system_step s s'"

text \<open>A worker between its claim and its create holds the attempt.\<close>

fun holding :: "retry_point \<Rightarrow> bool" where
  "holding (RetryPrepare payment) = True"
| "holding (RetryRelease e) = True"
| "holding (RetryCreate request) = True"
| "holding pt = False"

definition used :: "retry_system \<Rightarrow> string \<times> int \<Rightarrow> nat" where
  "used s k = length (filter (\<lambda>(k', pt). k' = k \<and> holding pt) (ry_workers s)) + count_list (ry_sent s) k"

definition once_inv :: "retry_system \<Rightarrow> bool" where
  "once_inv s \<longleftrightarrow>
     (\<forall>k. 0 < snd k \<longrightarrow> used s k \<le> 1 \<and> (0 < used s k \<longrightarrow> state_of (bd_attempts (ry_db s)) k \<notin> {None, Some paymentRetryQueued}))
     \<and> (\<forall>k. 4 < snd k \<longrightarrow> state_of (bd_attempts (ry_db s)) k = None)
     \<and> (\<forall>(k, pt)\<in>set (ry_workers s). 0 < snd k \<and> (\<forall>new txn errs. pt = RetrySettle new txn errs \<longrightarrow> new \<noteq> paymentRetryQueued))
     \<and> (\<forall>k\<in>set (ry_sent s). 0 < snd k)"

lemma once_inv_keeps:
  assumes "once_inv s" and "keeps (bd_attempts (ry_db s)) (bd_attempts (ry_db s'))" and "\<And>k. used s' k \<le> used s k"
    and "\<forall>(k, pt)\<in>set (ry_workers s'). 0 < snd k \<and> (\<forall>new txn errs. pt = RetrySettle new txn errs \<longrightarrow> new \<noteq> paymentRetryQueued)"
    and "\<forall>k\<in>set (ry_sent s'). 0 < snd k"
  shows "once_inv s'"
proof -
  let ?st = "\<lambda>s. state_of (bd_attempts (ry_db s))"
  have "used s' k \<le> 1 \<and> (0 < used s' k \<longrightarrow> ?st s' k \<notin> {None, Some paymentRetryQueued})" if k: "0 < snd k" for k
  proof -
    have u: "used s k \<le> 1" "0 < used s k \<Longrightarrow> ?st s k \<notin> {None, Some paymentRetryQueued}" using assms(1) k unfolding once_inv_def by blast+
    moreover have "?st s' k \<in> {None, Some paymentRetryQueued} \<Longrightarrow> ?st s k \<in> {None, Some paymentRetryQueued}"
      using assms(2) k unfolding keeps_def by blast
    ultimately show ?thesis using assms(3) [of k] by fastforce
  qed
  moreover have "?st s' k = None" if "4 < snd k" for k
    using assms(1,2) that unfolding once_inv_def keeps_def by (metis less_trans zero_less_numeral)
  ultimately show ?thesis unfolding once_inv_def using assms(4,5) by blast
qed

lemma used_work:
  assumes "ry_workers s = ws @ (k0, pt) # vs"
  shows "used \<lparr>ry_db = db', ry_workers = ws @ (k0, pt') # vs, ry_sent = ry_sent s @ map (\<lambda>_. k0) requests\<rparr> k
      + (if k = k0 \<and> holding pt then 1 else 0) = used s k + (if k = k0 then (if holding pt' then 1 else 0) + length requests else 0)"
proof -
  have "count_list (map (\<lambda>_. k0) requests) k = (if k = k0 then length requests else 0)" by (induction requests) auto
  then show ?thesis by (auto simp: used_def assms)
qed

lemma prepare_point: "\<exists>e. retry_prepare C F client payment n db = RetryRelease e
    \<or> retry_prepare C F client payment n db = RetrySettle PaymentOperatorHold None []
    \<or> (\<exists>request. retry_prepare C F client payment n db = RetryCreate request)"
  by (auto simp: retry_prepare_def split: sum.splits)

text \<open>One step of a worker: it claims a queued attempt, gives its claim up, or neither touches the queue nor gains a hold.\<close>

lemma retry_step_cases:
  assumes "retry_step C F client now ref n pt db = (db', requests, pt')"
    and "\<forall>new txn errs. pt = RetrySettle new txn errs \<longrightarrow> new \<noteq> paymentRetryQueued"
  obtains (claim) "pt = RetryClaim" "holding pt'" "requests = []" "state_of (bd_attempts db) (ref, n) = Some paymentRetryQueued"
      "state_of (bd_attempts db') (ref, n) = Some PaymentSubmitting"
      "\<forall>k. k \<noteq> (ref, n) \<longrightarrow> state_of (bd_attempts db') k = state_of (bd_attempts db) k"
      "\<And>new txn errs. pt' \<noteq> RetrySettle new txn errs"
    | (release) "holding pt" "\<not> holding pt'" "requests = []" "\<forall>k. k \<noteq> (ref, n) \<longrightarrow> state_of (bd_attempts db') k = state_of (bd_attempts db) k"
      "state_of (bd_attempts db') (ref, n) = state_of (bd_attempts db) (ref, n) \<or> state_of (bd_attempts db) (ref, n) = Some PaymentSubmitting"
      "\<And>new txn errs. pt' \<noteq> RetrySettle new txn errs"
    | (rest) "keeps (bd_attempts db) (bd_attempts db')"
      "(if holding pt' then 1 else 0) + length requests \<le> (if holding pt then 1 else 0 :: nat)"
      "\<And>new txn errs. pt' = RetrySettle new txn errs \<Longrightarrow> new \<noteq> paymentRetryQueued"
proof (cases pt)
  case RetryClaim
  obtain db1 r where c: "claimPaymentRetry F ref n now db = (db1, r)" by fastforce
  show thesis
  proof (cases r)
    case (Inl e)
    with c have "db1 = db" by (auto simp: claimPaymentRetry_def dest: transaction_error)
    with assms(1) RetryClaim c Inl show thesis by (intro rest) auto
  next
    case (Inr x)
    obtain p a cl where x: "x = (p, a, cl)" by (cases x)
    from claim_effect [OF c [unfolded Inr x]] assms(1) RetryClaim c Inr x show thesis
      by (cases cl) (intro claim rest, auto)+
  qed
next
  case (RetryPrepare payment)
  with assms(1) prepare_point [of C F client payment n db] show thesis by (intro rest) (auto simp: payment_states)
next
  case (RetryRelease e)
  obtain db1 r where "releasePaymentRetry F ref n e now db = (db1, r)" by fastforce
  with release_effect [OF this] assms(1) RetryRelease show thesis by (intro release) auto
next
  case (RetryCreate request)
  with assms(1) show thesis
    by (intro rest) (auto simp: payment_states paddlePaymentState_not_queued [unfolded payment_states] split: sum.splits)
next
  case (RetrySettle new txn errs)
  with assms finish_keeps [of new db F ref n PaymentSubmitting txn 0 now] show thesis by (intro rest) (auto split: prod.splits)
next
  case (RetryReturn r)
  with assms(1) show thesis by (intro rest) auto
qed

lemma once_inv_change:
  assumes inv: "once_inv s" and other: "\<And>k. k \<noteq> k0 \<Longrightarrow> used s' k = used s k"
      "\<And>k. k \<noteq> k0 \<Longrightarrow> state_of (bd_attempts (ry_db s')) k = state_of (bd_attempts (ry_db s)) k"
    and self: "used s' k0 \<le> 1" "0 < used s' k0 \<Longrightarrow> state_of (bd_attempts (ry_db s')) k0 \<notin> {None, Some paymentRetryQueued}"
      "4 < snd k0 \<Longrightarrow> state_of (bd_attempts (ry_db s')) k0 = None"
    and ws: "\<forall>(k, pt)\<in>set (ry_workers s'). 0 < snd k \<and> (\<forall>new txn errs. pt = RetrySettle new txn errs \<longrightarrow> new \<noteq> paymentRetryQueued)"
    and sent: "\<forall>k\<in>set (ry_sent s'). 0 < snd k"
  shows "once_inv s'"
proof -
  let ?st = "\<lambda>s. state_of (bd_attempts (ry_db s))"
  have "used s' k \<le> 1 \<and> (0 < used s' k \<longrightarrow> ?st s' k \<notin> {None, Some paymentRetryQueued})" if k: "0 < snd k" for k
  proof (cases "k = k0")
    case False
    have "used s k \<le> 1 \<and> (0 < used s k \<longrightarrow> ?st s k \<notin> {None, Some paymentRetryQueued})" using inv k unfolding once_inv_def by blast
    then show ?thesis unfolding other(1) [OF False] other(2) [OF False] .
  qed (use self in blast)
  moreover have "?st s' k = None" if k: "4 < snd k" for k
  proof (cases "k = k0")
    case False
    show ?thesis unfolding other(2) [OF False] using inv k unfolding once_inv_def by blast
  qed (use self(3) k in simp)
  ultimately show ?thesis using ws sent unfolding once_inv_def by blast
qed

lemma once_inv_work:
  assumes inv: "once_inv s" and ws: "ry_workers s = ws @ ((ref, n), pt) # vs"
    and step: "retry_step C F client now ref n pt (ry_db s) = (db', requests, pt')"
  shows "once_inv \<lparr>ry_db = db', ry_workers = ws @ ((ref, n), pt') # vs, ry_sent = ry_sent s @ map (\<lambda>_. (ref, n)) requests\<rparr>"
    (is "once_inv ?s")
proof -
  let ?st = "\<lambda>s. state_of (bd_attempts (ry_db s))"
  have n: "0 < n" and settle: "\<forall>new txn errs. pt = RetrySettle new txn errs \<longrightarrow> new \<noteq> paymentRetryQueued"
    and old: "\<forall>(k, pt)\<in>set (ws @ vs). 0 < snd k \<and> (\<forall>new txn errs. pt = RetrySettle new txn errs \<longrightarrow> new \<noteq> paymentRetryQueued)"
    and sent: "\<forall>k\<in>set (ry_sent s). 0 < snd k" and none: "\<And>k. 4 < snd k \<Longrightarrow> ?st s k = None"
    and one: "\<And>k. 0 < snd k \<Longrightarrow> used s k \<le> 1" "\<And>k. 0 < snd k \<Longrightarrow> 0 < used s k \<Longrightarrow> ?st s k \<notin> {None, Some paymentRetryQueued}"
    using inv ws unfolding once_inv_def by auto
  note cnt = used_work [OF ws, of db' pt' requests]
  have cnt': "used ?s k = used s k" if "k \<noteq> (ref, n)" for k using cnt [of k] that by simp
  have sent': "\<forall>k\<in>set (ry_sent ?s). 0 < snd k" using sent n by auto
  have ws': "\<forall>(k, pt)\<in>set (ry_workers ?s). 0 < snd k \<and> (\<forall>new txn errs. pt = RetrySettle new txn errs \<longrightarrow> new \<noteq> paymentRetryQueued)"
    if "\<And>new txn errs. pt' = RetrySettle new txn errs \<Longrightarrow> new \<noteq> paymentRetryQueued" using old n that by auto
  from step settle show ?thesis
  proof (cases rule: retry_step_cases)
    case claim
    show ?thesis
    proof (rule once_inv_change [OF inv, where ?k0.0 = "(ref, n)"])
      have "used s (ref, n) = 0" using one(2) [of "(ref, n)"] n claim(4) by auto
      then show "used ?s (ref, n) \<le> 1" using cnt [of "(ref, n)"] claim by simp
      show "?st ?s (ref, n) \<notin> {None, Some paymentRetryQueued}" using claim(5) by (simp add: payment_states)
      show "?st ?s (ref, n) = None" if "4 < snd (ref, n)" using none [OF that] claim(4) by simp
      show "?st ?s k = ?st s k" if "k \<noteq> (ref, n)" for k using spec [OF claim(6), of k] that by simp
    qed (use cnt' ws' claim(7) sent' in blast)+
  next
    case release
    show ?thesis
    proof (rule once_inv_change [OF inv, where ?k0.0 = "(ref, n)"])
      have "used ?s (ref, n) = 0" using cnt [of "(ref, n)"] release one(1) [of "(ref, n)"] n by auto
      then show "used ?s (ref, n) \<le> 1" "0 < used ?s (ref, n) \<Longrightarrow> ?st ?s (ref, n) \<notin> {None, Some paymentRetryQueued}" by simp_all
      show "?st ?s (ref, n) = None" if "4 < snd (ref, n)" using none [OF that] release(5) by auto
      show "?st ?s k = ?st s k" if "k \<noteq> (ref, n)" for k using spec [OF release(4), of k] that by simp
    qed (use cnt' ws' release(6) sent' in blast)+
  next
    case rest
    have "used ?s k \<le> used s k" for k
      using cnt [of k] rest(2) by (cases "k = (ref, n)") (auto split: if_splits)
    with rest show ?thesis by (intro once_inv_keeps [OF inv]) (use ws' sent' in auto)
  qed
qed

lemma once_inv_step:
  assumes "retry_system_step s s'" and "once_inv s"
  shows "once_inv s'"
  using assms
proof (induction rule: retry_system_step.induct)
  case (start n s ref)
  then show ?case by (intro once_inv_keeps [OF start.prems]) (auto simp: used_def once_inv_def)
next
  case (work s ws ref n pt vs C F client now db' requests pt')
  then show ?case by (intro once_inv_work)
next
  case (crash s ws w vs)
  then show ?case by (intro once_inv_keeps [OF crash.prems]) (auto simp: used_def once_inv_def)
next
  case (other s db')
  then show ?case by (intro once_inv_keeps [OF other.prems]) (auto simp: used_def once_inv_def payment_op_keeps)
qed

lemma once_inv_run: "retry_system_step\<^sup>*\<^sup>* s s' \<Longrightarrow> once_inv s \<Longrightarrow> once_inv s'"
  by (induction rule: rtranclp_induct) (auto intro: once_inv_step)

lemma count_distinct: "(\<And>x. x \<in> set xs \<Longrightarrow> count_list xs x \<le> 1) \<Longrightarrow> distinct xs"
proof (induction xs)
  case (Cons x xs)
  from Cons.prems [of x] have "x \<notin> set xs" by (simp add: count_list_0_iff)
  moreover have "count_list xs y \<le> 1" if "y \<in> set xs" for y using Cons.prems [of y] that by (auto split: if_splits)
  ultimately show ?case using Cons.IH by simp
qed simp

text \<open>C9. A retry is created once. However the workers of all replicas are interleaved with each other, with webhooks and with
  every other payment operation, and wherever workers crash, no retry is ever sent to the provider twice, and the retries sent for
  an invoice are among its four scheduled ones. (The tables start with no retry past the fourth.)\<close>

theorem retry_created_once:
  assumes "retry_system_step\<^sup>*\<^sup>* \<lparr>ry_db = db, ry_workers = [], ry_sent = []\<rparr> s"
    and "\<forall>a\<in>set (bd_attempts db). pa_Number a \<le> int (length paymentRetryDays)"
  shows "distinct (ry_sent s) \<and> (\<forall>ref n. (ref, n) \<in> set (ry_sent s) \<longrightarrow> 1 \<le> n \<and> n \<le> int (length paymentRetryDays))"
proof -
  let ?s0 = "\<lparr>ry_db = db, ry_workers = [], ry_sent = []\<rparr>"
  have "state_of (bd_attempts db) k = None" if "4 < snd k" for k
    using that assms(2) by (auto simp: state_of_def find_None_iff paymentRetryDays_def)
  then have "once_inv ?s0" by (simp add: once_inv_def used_def)
  from once_inv_run [OF assms(1) this]
  have one: "\<And>k. 0 < snd k \<Longrightarrow> used s k \<le> 1" and st: "\<And>k. 0 < snd k \<Longrightarrow> 0 < used s k \<Longrightarrow> state_of (bd_attempts (ry_db s)) k \<noteq> None"
    and none: "\<And>k. 4 < snd k \<Longrightarrow> state_of (bd_attempts (ry_db s)) k = None" and pos: "\<And>k. k \<in> set (ry_sent s) \<Longrightarrow> 0 < snd k"
    by (auto simp: once_inv_def)
  have cnt: "count_list (ry_sent s) k \<le> 1" if "k \<in> set (ry_sent s)" for k
    using one [OF pos [OF that]] by (simp add: used_def)
  then have "distinct (ry_sent s)" by (intro count_distinct) blast
  moreover have "n \<le> 4" if "(ref, n) \<in> set (ry_sent s)" for ref n
  proof (rule ccontr)
    assume "\<not> n \<le> 4"
    moreover have "0 < used s (ref, n)" using that count_list_0_iff [of "ry_sent s" "(ref, n)"] by (auto simp: used_def)
    ultimately show False using st [of "(ref, n)"] none [of "(ref, n)"] by auto
  qed
  ultimately show ?thesis using pos by (fastforce simp: paymentRetryDays_def)
qed

section \<open>A network with one finalized invoice\<close>

definition demo_customer :: string where "demo_customer = ''ctm_'' @ replicate 26 (CHR ''a'')"

definition demo_product :: string where "demo_product = ''pro_'' @ replicate 26 (CHR ''a'')"

definition demo_ref :: string where "demo_ref = paddleInvoiceReference demo_codec demo_invoice"

definition demo_outbox :: "string \<Rightarrow> paymentOutboxRow" where
  "demo_outbox state = \<lparr>po_InvoiceRef = demo_ref, po_AccountID = ''acct'', po_PeriodStart = 0, po_PeriodEnd = 2678400000000, po_Currency = ''USD'',
     po_AmountMinor = 2900, po_InvoiceHash = hex ''I'', po_State = state, po_ProviderID = [], po_ProviderCustomerID = demo_customer, po_CheckoutURL = [],
     po_LatestAttempt = 0, po_FirstFailureAtUS = None, po_AttemptStartedAt = zero_time, po_LastProviderEventUS = 0, po_UpdatedAt = seconds 2700000\<rparr>"

definition demo_attempt :: "int \<Rightarrow> string \<Rightarrow> paymentAttemptRow" where
  "demo_attempt n state = new_attempt demo_ref n state (seconds 2700000) (seconds 2700000)"

definition demo_payments :: "string \<Rightarrow> paymentAttemptRow list \<Rightarrow> payment_db" where
  "demo_payments state attempts =
     \<lparr>bd_schedules = bd_schedules demo_billing, bd_assignments = bd_assignments demo_billing, bd_locks = [],
      bd_invoices = [\<lparr>iv_AccountID = ''acct'', iv_PeriodStartUS = 0, iv_PeriodEndUS = 2678400000000, iv_Digest = hex ''I'', iv_Snapshot = ''I'',
        iv_FinalizedAt = seconds 2700000\<rparr>],
      bd_outbox = [demo_outbox state], bd_attempts = attempts, bd_history = [], bd_inbox = [],
      bd_accounts = [\<lparr>pc_AccountID = ''acct'', pc_Enabled = True, pc_CustomerID = demo_customer, pc_ProductID = demo_product, pc_UpdatedAt = 0\<rparr>]\<rparr>"

definition demo_client :: paddle_client where
  "demo_client = \<lparr>cl_CreateTransaction = (\<lambda>request. Inr \<lparr>tn_ID = ''txn_'' @ replicate 26 (CHR ''b''), tn_Status = ''past_due'',
       tn_CustomerID = tq_CustomerID request, tn_CurrencyCode = tq_CurrencyCode request, tn_KarstInvoiceID = tq_KarstInvoiceID request,
       tn_KarstAttemptNumber = tq_KarstAttemptNumber request, tn_CheckoutURL = ''https://pay'', tn_CreatedAt = 0\<rparr>),
     cl_FindTransactionsByAttempt = (\<lambda>_ _ _ _ _. Inr []), cl_HasSavedPaymentMethod = (\<lambda>_. Inr True)\<rparr>"

lemmas demo_payment_defs = demo_payments_def demo_outbox_def demo_attempt_def new_attempt_def

lemma demo_ids: "validPaddleID demo_customer ''ctm_''" "validPaddleID demo_product ''pro_''"
  by (simp_all add: validPaddleID_def demo_customer_def demo_product_def list_all_iff)

lemma demo_customer_ne [simp]: "demo_customer \<noteq> []"
  by (simp add: demo_customer_def)

lemma Invoice_cong:
  assumes "bd_invoices db = bd_invoices db'" and "bd_schedules db = bd_schedules db'"
  shows "Invoice C F acct start stop db = Invoice C F acct start stop db'"
  unfolding Invoice_def verify_invoice_def Schedule_def assms by (rule refl)

lemma demo_invoice_stored:
  assumes "bd_invoices db = bd_invoices (demo_payments s as)" and "bd_schedules db = bd_schedules demo_billing"
  shows "Invoice demo_codec no_faults ''acct'' 0 (seconds 2678400) db = Inr demo_invoice"
proof -
  have "\<forall>i b. enc_invoice demo_codec i = Some b \<longrightarrow> dec_invoice demo_codec b = Some i" "seconds 2700000 \<noteq> zero_time"
    by (simp_all add: demo_codec_def zero_time_def)
  from FinalizeInvoice_reads_back [OF demo_finalize this(2,1)] show ?thesis
    using assms by (subst (asm) Invoice_cong [of _ db]) (simp_all add: demo_payments_def demo_billing_def demo_usage_def)
qed

lemma demo_request:
  assumes "0 \<le> n" and "n \<le> 4"
  obtains request where "BuildPaddleAttemptRequest demo_codec demo_invoice demo_customer demo_product n = Inr request"
proof -
  have "isUTCCalendarMonth (unixMicro 0) (unixMicro (seconds 2678400))" by code_simp
  with assms demo_ids that show thesis
    by (auto simp: BuildPaddleAttemptRequest_def paymentRetryDays_def demo_invoice_def Let_def PilotRateSchedule_def zero_time_def)
qed

definition demo_due :: payment_db where
  "demo_due = demo_payments PaymentPastDue [demo_attempt 0 PaymentPastDue, demo_attempt 1 paymentRetryQueued]"

definition demo_payment :: paymentOutboxRow where
  "demo_payment = (demo_outbox PaymentPastDue)\<lparr>po_State := PaymentSubmitting, po_LatestAttempt := 1, po_AttemptStartedAt := seconds 2800000,
     po_UpdatedAt := seconds 2800000\<rparr>"

definition demo_claimed :: payment_db where
  "demo_claimed = demo_due\<lparr>bd_outbox := [demo_payment],
     bd_attempts := [demo_attempt 0 PaymentPastDue, (demo_attempt 1 paymentRetryQueued)\<lparr>pa_State := PaymentSubmitting,
       pa_AttemptStartedAt := seconds 2800000, pa_UpdatedAt := seconds 2800000\<rparr>],
     bd_history := [\<lparr>ph_InvoiceRef = demo_ref, ph_FromState = PaymentPastDue, ph_ToState = PaymentSubmitting, ph_EventID = [], ph_CreatedAt = seconds 2800000\<rparr>]\<rparr>"

lemmas payment_eval = transaction_def select_outbox_def select_attempt_def outbox_row_def attempt_row_def update_outbox_def update_attempts_def
  add_history_def ensureInitialPaymentAttempt_def update_rows_def affected_def no_faults_def insert_new_def has_key_def payment_states

lemma demo_claim:
  "\<exists>a. claimPaymentRetry no_faults demo_ref 1 (seconds 2800000) demo_due = (demo_claimed, Inr (demo_payment, a, True))"
  by (simp add: claimPaymentRetry_def claim_tx_def payment_eval demo_due_def demo_claimed_def demo_payment_def demo_payment_defs Let_def)

lemma demo_reclaim:
  "\<exists>p a. claimPaymentRetry no_faults demo_ref 1 (seconds 2800000) demo_claimed = (demo_claimed, Inr (p, a, False))"
  by (simp add: claimPaymentRetry_def claim_tx_def payment_eval demo_due_def demo_claimed_def demo_payment_def demo_payment_defs Let_def)

lemma demo_prepare:
  obtains request where "retry_prepare demo_codec no_faults demo_client demo_payment 1 demo_claimed = RetryCreate request"
proof -
  obtain request where r: "BuildPaddleAttemptRequest demo_codec demo_invoice demo_customer demo_product 1 = Inr request" using demo_request [of 1] by auto
  have "Invoice demo_codec no_faults ''acct'' 0 (seconds 2678400) demo_claimed = Inr demo_invoice"
    by (rule demo_invoice_stored) (simp_all add: demo_claimed_def demo_due_def demo_payments_def)
  moreover have "PaddleAccount no_faults ''acct'' demo_claimed = Inr \<lparr>pc_AccountID = ''acct'', pc_Enabled = True, pc_CustomerID = demo_customer,
      pc_ProductID = demo_product, pc_UpdatedAt = 0\<rparr>"
    by (simp add: PaddleAccount_def billingAccountFromContext_def no_faults_def demo_claimed_def demo_due_def demo_payments_def)
  ultimately show thesis using r that
    by (simp add: retry_prepare_def demo_payment_def demo_outbox_def demo_client_def fromMicro_def)
qed

theorem retry_created_once_witness:
  "\<exists>s. retry_system_step\<^sup>*\<^sup>* \<lparr>ry_db = demo_due, ry_workers = [], ry_sent = []\<rparr> s \<and> ry_sent s = [(demo_ref, 1)] \<and> distinct (ry_sent s)
     \<and> (\<forall>ref n. (ref, n) \<in> set (ry_sent s) \<longrightarrow> n \<le> int (length paymentRetryDays))"
proof -
  let ?k = "(demo_ref, 1 :: int)" and ?s = "\<lambda>db ws sent. \<lparr>ry_db = db, ry_workers = ws, ry_sent = sent\<rparr>"
  obtain request where r: "retry_prepare demo_codec no_faults demo_client demo_payment 1 demo_claimed = RetryCreate request" by (rule demo_prepare)
  let ?pt = "snd (snd (retry_step demo_codec no_faults demo_client 0 demo_ref 1 (RetryCreate request) demo_claimed))"
  have "retry_system_step\<^sup>*\<^sup>* (?s demo_due [] []) (?s demo_due [(?k, RetryClaim), (?k, RetryClaim)] [])"
    using start [of 1 "?s demo_due [] []" demo_ref] start [of 1 "?s demo_due [(?k, RetryClaim)] []" demo_ref] by simp
  also have "retry_system_step \<dots> (?s demo_claimed [(?k, RetryPrepare demo_payment), (?k, RetryClaim)] [])"
    using work [of "?s demo_due [(?k, RetryClaim), (?k, RetryClaim)] []" "[]" demo_ref 1 RetryClaim "[(?k, RetryClaim)]" demo_codec no_faults demo_client "seconds 2800000"]
      demo_claim by auto
  also have "retry_system_step \<dots> (?s demo_claimed [(?k, RetryPrepare demo_payment), (?k, RetryReturn (Inr ()))] [])"
    using work [of "?s demo_claimed [(?k, RetryPrepare demo_payment), (?k, RetryClaim)] []" "[(?k, RetryPrepare demo_payment)]" demo_ref 1 RetryClaim "[]"
      demo_codec no_faults demo_client "seconds 2800000"] demo_reclaim by auto
  also have "retry_system_step \<dots> (?s demo_claimed [(?k, RetryCreate request), (?k, RetryReturn (Inr ()))] [])"
    using work [of "?s demo_claimed [(?k, RetryPrepare demo_payment), (?k, RetryReturn (Inr ()))] []" "[]" demo_ref 1 "RetryPrepare demo_payment"
      "[(?k, RetryReturn (Inr ()))]" demo_codec no_faults demo_client 0] r by simp
  also have "retry_system_step \<dots> (?s demo_claimed [(?k, ?pt), (?k, RetryReturn (Inr ()))] [?k])"
    using work [of "?s demo_claimed [(?k, RetryCreate request), (?k, RetryReturn (Inr ()))] []" "[]" demo_ref 1 "RetryCreate request"
      "[(?k, RetryReturn (Inr ()))]" demo_codec no_faults demo_client 0] by simp
  finally have run: "retry_system_step\<^sup>*\<^sup>* (?s demo_due [] []) (?s demo_claimed [(?k, ?pt), (?k, RetryReturn (Inr ()))] [?k])" .
  have "\<forall>a\<in>set (bd_attempts demo_due). pa_Number a \<le> int (length paymentRetryDays)"
    by (simp add: demo_due_def demo_payment_defs paymentRetryDays_def)
  from retry_created_once [OF run this] run show ?thesis by (intro exI [of _ "?s demo_claimed [(?k, ?pt), (?k, RetryReturn (Inr ()))] [?k]"]) simp
qed

end
