(* ===== verification/Payment_Races.thy ===== *)
theory Payment_Races
  imports Payment_Trust
begin

text \<open>Where concurrent payment work goes wrong: two initial submissions of one invoice both pass the transition that
  is meant to exclude them, and a retry that settles after the invoice was paid takes the payment back.\<close>

section \<open>Two submissions of one invoice\<close>

text \<open>Two workers submitting invoices of the same account and period, run in a given order of turns.\<close>

fun submit_turns :: "codec \<Rightarrow> faults \<Rightarrow> paddle_client \<Rightarrow> string \<Rightarrow> instant \<Rightarrow> instant \<Rightarrow> string \<Rightarrow> string \<Rightarrow> instant \<Rightarrow> bool list
    \<Rightarrow> submit_point \<times> submit_point \<Rightarrow> payment_db \<Rightarrow> payment_db \<times> PaddleTransactionRequest list \<times> submit_point \<times> submit_point" where
  "submit_turns C F client acct start stop customerID productID now [] (a, b) db = (db, [], a, b)"
| "submit_turns C F client acct start stop customerID productID now (turn # turns) (a, b) db =
     (if turn
      then (case submit_step C F client acct start stop customerID productID now a db of (db', sent, a') \<Rightarrow>
           (case submit_turns C F client acct start stop customerID productID now turns (a', b) db' of (db'', sent', pts) \<Rightarrow> (db'', sent @ sent', pts)))
      else (case submit_step C F client acct start stop customerID productID now b db of (db', sent, b') \<Rightarrow>
           (case submit_turns C F client acct start stop customerID productID now turns (a, b') db' of (db'', sent', pts) \<Rightarrow> (db'', sent @ sent', pts))))"

lemma outbox_update:
  assumes "outbox_row ref db = Some p" and "\<And>p. po_InvoiceRef (f p) = po_InvoiceRef p"
  shows "outbox_row ref (db\<lparr>bd_outbox := update_rows P f (bd_outbox db)\<rparr>) = Some (if P p then f p else p)"
  using assms find_update_rows [of po_InvoiceRef f ref P "bd_outbox db"] by (simp add: outbox_row_def)

lemma outbox_row_ref: "outbox_row ref db = Some p \<Longrightarrow> po_InvoiceRef p = ref \<and> p \<in> set (bd_outbox db)"
  unfolding outbox_row_def using find_Some_in by fastforce

lemma affected_one:
  assumes "distinct (map po_InvoiceRef (bd_outbox db))" and "outbox_row ref db = Some p" and "Q p"
  shows "affected (\<lambda>p. po_InvoiceRef p = ref \<and> Q p) (bd_outbox db) = 1"
proof -
  have "filter (\<lambda>p. po_InvoiceRef p = ref \<and> Q p) rows = [p]"
    if "distinct (map po_InvoiceRef rows)" "find (\<lambda>p. po_InvoiceRef p = ref) rows = Some p" for rows
    using that assms(3) by (induction rows) (auto simp: filter_empty_conv image_iff split: if_splits)
  then show ?thesis using assms(1,2) by (simp add: affected_def outbox_row_def)
qed

text \<open>A claim by compare-and-set: on a ready invoice it moves the state.\<close>

lemma claim_ready:
  assumes "distinct (map po_InvoiceRef (bd_outbox db))" and "outbox_row ref db = Some p" and "po_State p = PaymentReady"
  obtains db' p' i where "UpdatePaymentState no_faults ref PaymentReady PaymentSubmitting [] [] now db = (db', Inr i)"
    "outbox_row ref db' = Some p'" "po_State p' = PaymentSubmitting" "pi_InvoiceReference i = ref"
proof -
  let ?P = "\<lambda>p. po_InvoiceRef p = ref \<and> po_State p = PaymentReady" and ?f = "move_outbox PaymentSubmitting [] [] now"
  have "affected ?P (bd_outbox db) = 1" using affected_one [OF assms(1,2), of "\<lambda>p. po_State p = PaymentReady"] assms(3) by simp
  moreover have "outbox_row ref (db\<lparr>bd_outbox := update_rows ?P ?f (bd_outbox db)\<rparr>) = Some (?f p)"
    using outbox_update [OF assms(2), of ?f ?P] assms(3) outbox_row_ref [OF assms(2)] by (simp add: move_outbox_def)
  moreover have "validPaymentTransition PaymentReady PaymentSubmitting" "PaymentReady \<noteq> PaymentSubmitting"
    by (simp_all add: validPaymentTransition_def payment_states)
  ultimately obtain db' where "UpdatePaymentState no_faults ref PaymentReady PaymentSubmitting [] [] now db = (db', Inr (paymentIntent (?f p)))"
      "outbox_row ref db' = Some (?f p)"
    using assms(2,3) by (simp add: UpdatePaymentState_def intent_result_def transaction_def update_state_tx_def select_outbox_def no_faults_def
        update_outbox_def add_history_def ensureInitialPaymentAttempt_def update_attempts_def Let_def outbox_row_def)
  moreover have "po_State (?f p) = PaymentSubmitting" "pi_InvoiceReference (paymentIntent (?f p)) = ref"
    using outbox_row_ref [OF assms(2)] by (simp_all add: paymentIntent_def move_outbox_def)
  ultimately show thesis by (rule that)
qed

text \<open>On an invoice that is already being submitted the same call succeeds as well.\<close>

lemma claim_submitting:
  assumes "outbox_row ref db = Some p" and "po_State p = PaymentSubmitting"
  obtains i where "UpdatePaymentState no_faults ref PaymentReady PaymentSubmitting [] [] now db = (db, Inr i)" "pi_InvoiceReference i = ref"
  using assms that outbox_row_ref [OF assms(1)]
  by (auto simp: UpdatePaymentState_def intent_result_def transaction_def update_state_tx_def select_outbox_def no_faults_def
      validPaymentTransition_def payment_states paymentIntent_def)

text \<open>C36. The initial submission is not exclusive. Two replicas that both reach the claim of a ready invoice both pass it: the transition
  to submitting reports success to the second although it changed nothing, and each then sends its create request. The invoice is sent to the
  provider twice.\<close>

theorem submission_sent_twice:
  assumes "distinct (map po_InvoiceRef (bd_outbox db))" and "outbox_row ref db = Some p" and "po_State p = PaymentReady"
  shows "\<exists>db' a b. submit_turns C no_faults client acct start stop customerID productID now [True, False, True, False]
     (SubmitClaim ref request, SubmitClaim ref request) db = (db', [request, request], a, b)"
proof -
  obtain db1 p1 i where one: "UpdatePaymentState no_faults ref PaymentReady PaymentSubmitting [] [] now db = (db1, Inr i)"
    "outbox_row ref db1 = Some p1" "po_State p1 = PaymentSubmitting" "pi_InvoiceReference i = ref" by (rule claim_ready [OF assms])
  obtain j where two: "UpdatePaymentState no_faults ref PaymentReady PaymentSubmitting [] [] now db1 = (db1, Inr j)" "pi_InvoiceReference j = ref"
    by (rule claim_submitting [OF one(2,3)])
  show ?thesis by (simp add: one two)
qed

text \<open>Both workers reach the claim from the start of the submission of one invoice.\<close>

theorem submission_sent_twice_witness:
  "\<exists>db request db' a b. submit_turns demo_codec no_faults demo_client ''acct'' 0 (seconds 2678400) demo_customer demo_product (seconds 2800000)
       [True, False, True, False] (SubmitQueue, SubmitQueue) (demo_payments PaymentReady [demo_attempt 0 PaymentReady])
       = (db, [], SubmitClaim demo_ref request, SubmitClaim demo_ref request)
     \<and> submit_turns demo_codec no_faults demo_client ''acct'' 0 (seconds 2678400) demo_customer demo_product (seconds 2800000)
       [True, False, True, False] (SubmitClaim demo_ref request, SubmitClaim demo_ref request) db = (db', [request, request], a, b)"
proof -
  let ?db = "demo_payments PaymentReady [demo_attempt 0 PaymentReady]"
  obtain request where r: "BuildPaddleAttemptRequest demo_codec demo_invoice demo_customer demo_product 0 = Inr request" using demo_request [of 0] by auto
  have inv: "Invoice demo_codec no_faults ''acct'' 0 (seconds 2678400) ?db = Inr demo_invoice"
    by (rule demo_invoice_stored) (simp_all add: demo_payments_def)
  have "digestJSON demo_codec (enc_invoice demo_codec demo_invoice) = Inr (hex ''I'')" by (simp add: digestJSON_def demo_codec_def)
  with inv have "QueuePayment demo_codec no_faults ''acct'' 0 (seconds 2678400) (seconds 2800000) ?db = (?db, Inr (paymentIntent (demo_outbox PaymentReady)))"
    by (simp add: QueuePayment_def demo_ref_def [symmetric])
      (simp add: intent_result_def queue_tx_def payment_eval demo_payment_defs demo_invoice_def unixMicro_def PilotRateSchedule_def)
  with inv r have q: "submit_queue demo_codec no_faults ''acct'' 0 (seconds 2678400) demo_customer demo_product (seconds 2800000) ?db
      = (?db, SubmitCustomer demo_ref request)"
    by (simp add: submit_queue_def BuildPaddleTransactionRequest_def) (simp add: paymentIntent_def demo_outbox_def)
  have c: "SetPaymentCustomer no_faults demo_ref demo_customer (seconds 2800000) ?db = (?db, Inr (paymentIntent (demo_outbox PaymentReady)))"
    using demo_ids(1) by (simp add: SetPaymentCustomer_def intent_result_def set_customer_tx_def payment_eval demo_payment_defs)
  have "pi_InvoiceReference (paymentIntent (demo_outbox PaymentReady)) = demo_ref" by (simp add: paymentIntent_def demo_outbox_def)
  with q c have reach: "submit_turns demo_codec no_faults demo_client ''acct'' 0 (seconds 2678400) demo_customer demo_product (seconds 2800000)
       [True, False, True, False] (SubmitQueue, SubmitQueue) ?db = (?db, [], SubmitClaim demo_ref request, SubmitClaim demo_ref request)" by simp
  have "distinct (map po_InvoiceRef (bd_outbox ?db))" "outbox_row demo_ref ?db = Some (demo_outbox PaymentReady)" "po_State (demo_outbox PaymentReady) = PaymentReady"
    by (simp_all add: demo_payment_defs outbox_row_def)
  from submission_sent_twice [OF this] reach show ?thesis by blast
qed

section \<open>A settlement after the payment\<close>

text \<open>C37. A paid invoice can be taken back. While the latest retry is being submitted, a payment of an earlier attempt makes the invoice paid;
  the retry's own outcome then overwrites the state of the invoice, whatever that outcome is, and the settlement reports success.\<close>

theorem settlement_undoes_payment:
  assumes "outbox_row ref db = Some p" and "po_State p = PaymentPaid" and "po_LatestAttempt p = n"
    and "attempt_row ref n db = Some a" and "pa_State a = PaymentSubmitting" and "new \<noteq> PaymentSubmitting"
  shows "\<exists>db' p'. finishPaymentRetry no_faults ref n PaymentSubmitting new txn occurredUS now db = (db', Inr ())
     \<and> outbox_row ref db' = Some p' \<and> po_State p' = new"
proof -
  obtain db1 where a: "finish_attempt no_faults ref n PaymentSubmitting new txn occurredUS now db = Inr db1" "bd_outbox db1 = bd_outbox db"
    by (simp add: finish_attempt_def update_attempts_def no_fault)
  obtain db2 p' where i: "finish_invoice no_faults ref n new txn occurredUS p a now db1 = Inr db2" "outbox_row ref db2 = Some p'" "po_State p' = new"
    using assms(1,3) outbox_row_ref [OF assms(1)]
    by (simp add: finish_invoice_def update_outbox_def no_fault outbox_row_def a(2) find_update_rows)
  have "\<exists>db3. finish_history no_faults ref n PaymentSubmitting new p now db2 = Inr db3 \<and> bd_outbox db3 = bd_outbox db2"
    by (simp add: finish_history_def add_history_def no_fault Let_def)
  then obtain db3 where h: "finish_history no_faults ref n PaymentSubmitting new p now db2 = Inr db3" "bd_outbox db3 = bd_outbox db2" by blast
  have "\<exists>db4. (if new \<in> {PaymentCheckout, PaymentOperatorHold, PaymentPaid} then skip_later_retries no_faults ref n now db3 else Inr db3) = Inr db4
      \<and> bd_outbox db4 = bd_outbox db3"
    by (simp add: skip_later_retries_def update_attempts_def no_fault)
  then obtain db4 where s: "(if new \<in> {PaymentCheckout, PaymentOperatorHold, PaymentPaid} then skip_later_retries no_faults ref n now db3 else Inr db3) = Inr db4"
      "bd_outbox db4 = bd_outbox db3" by blast
  have "finish_tx no_faults ref n PaymentSubmitting new txn occurredUS now db = Inr (db4, ())"
    using assms a(1) i(1) h(1) s(1) by (simp add: finish_tx_def select_outbox_def select_attempt_def no_fault)
  moreover have "outbox_row ref db4 = Some p'" using i(2) h(2) s(2) by (simp add: outbox_row_def)
  ultimately show ?thesis using i(3) by (simp add: finishPaymentRetry_def transaction_def no_fault)
qed

text \<open>The retry is claimed and in flight; the payment of the first attempt is reported by a webhook; the retry then comes back past due.\<close>

definition demo_paid_event :: webhookInboxRow where
  "demo_paid_event = \<lparr>wi_EventID = ''evt'', wi_EventType = ''transaction.paid'', wi_OccurredUS = 2810000000000, wi_ReceivedAt = seconds 2810000,
     wi_ProcessedAt = None, wi_Payload = Some \<lparr>ne_EventID = ''evt'', ne_EventType = ''transaction.paid'', ne_OccurredAt = seconds 2810000,
       ne_TransactionID = ''txn_'' @ replicate 26 (CHR ''a''), ne_CustomerID = demo_customer, ne_InvoiceRef = demo_ref, ne_AttemptNumber = 0,
       ne_Status = ''paid''\<rparr>\<rparr>"

definition demo_paid :: payment_db where
  "demo_paid = fst (ProcessWebhook no_faults ''evt'' (seconds 2810001) (demo_claimed\<lparr>bd_inbox := [demo_paid_event]\<rparr>))"

lemma demo_paid_rows:
  "\<exists>p. outbox_row demo_ref demo_paid = Some p \<and> po_State p = PaymentPaid \<and> po_LatestAttempt p = 1"
  "\<exists>a. attempt_row demo_ref 1 demo_paid = Some a \<and> pa_State a = PaymentSubmitting"
proof -
  obtain e where e: "wi_Payload demo_paid_event = Some e" by (simp add: demo_paid_event_def)
  let ?db = "demo_claimed\<lparr>bd_inbox := [demo_paid_event]\<rparr>" and ?now = "seconds 2810001"
  have t: "webhook_target (ne_EventType e) = Some PaymentPaid" using e by (auto simp: webhook_target_def demo_paid_event_def)
  have v: "validPaddleID (ne_TransactionID e) ''txn_''" using e by (auto simp: validPaddleID_def demo_paid_event_def list_all_iff)
  have ne: "ne_InvoiceRef e = demo_ref" "demo_ref \<noteq> []" using e by (auto simp: demo_paid_event_def demo_ref_def paddleInvoiceReference_def)
  obtain db where db: "webhook_event no_faults demo_paid_event e PaymentPaid ?now ?db = Inr (db, True)"
    "\<exists>p. outbox_row demo_ref db = Some p \<and> po_State p = PaymentPaid \<and> po_LatestAttempt p = 1"
    "\<exists>a. attempt_row demo_ref 1 db = Some a \<and> pa_State a = PaymentSubmitting"
    using v ne e by (simp add: webhook_event_def)
      (auto simp: demo_paid_event_def payment_eval demo_claimed_def demo_due_def demo_payment_def demo_payment_defs webhook_news_def webhook_apply_def
        webhook_attempt_def webhook_invoice_def webhook_history_def webhook_retries_def skip_later_retries_def markWebhookProcessed_def paymentRetryDays_def Let_def)
  moreover have "wi_EventID demo_paid_event = ''evt''" "wi_ProcessedAt demo_paid_event = None" 
    by (simp_all add: demo_paid_event_def)
  ultimately have "demo_paid = db"
    using t e by (simp add: demo_paid_def ProcessWebhook_def transaction_def webhook_tx_def no_fault)
  with db show "\<exists>p. outbox_row demo_ref demo_paid = Some p \<and> po_State p = PaymentPaid \<and> po_LatestAttempt p = 1"
    "\<exists>a. attempt_row demo_ref 1 demo_paid = Some a \<and> pa_State a = PaymentSubmitting" by simp_all
qed

theorem settlement_undoes_payment_witness:
  "\<exists>p db' p'. outbox_row demo_ref demo_paid = Some p \<and> po_State p = PaymentPaid
     \<and> finishPaymentRetry no_faults demo_ref 1 PaymentSubmitting PaymentPastDue None 0 (seconds 2820000) demo_paid = (db', Inr ())
     \<and> outbox_row demo_ref db' = Some p' \<and> po_State p' = PaymentPastDue"
proof -
  obtain p a where "outbox_row demo_ref demo_paid = Some p" "po_State p = PaymentPaid" "po_LatestAttempt p = 1"
    "attempt_row demo_ref 1 demo_paid = Some a" "pa_State a = PaymentSubmitting" using demo_paid_rows by blast
  moreover have "PaymentPastDue \<noteq> PaymentSubmitting" by (simp add: payment_states)
  ultimately show ?thesis using settlement_undoes_payment [of demo_ref demo_paid p 1 a PaymentPastDue None 0 "seconds 2820000"] by auto
qed

end
