(* ===== verification/Payment_Progress.thy ===== *)
theory Payment_Progress
  imports Payment_Trust
begin

text \<open>Every payment worker returns: a bound on its turns that holds whatever the database, the provider and the clock are at
  each of them. The interface of a worker that counts down is a locale, which the retry worker and the submission worker satisfy.\<close>

section \<open>Workers that count down\<close>

text \<open>A worker takes a turn at a time. What it finds at each turn, the database included, is given by a list: others may have changed
  anything in between.\<close>

fun worker_turns :: "('e \<Rightarrow> 'p \<Rightarrow> 'd \<Rightarrow> 'd \<times> 'r list \<times> 'p) \<Rightarrow> ('e \<times> 'd) list \<Rightarrow> 'p \<Rightarrow> 'r list \<times> 'p" where
  "worker_turns step [] pt = ([], pt)"
| "worker_turns step ((e, db) # turns) pt =
     (case step e pt db of (_, sent, pt') \<Rightarrow> (case worker_turns step turns pt' of (sent', pt'') \<Rightarrow> (sent @ sent', pt'')))"

locale bounded_worker =
  fixes step :: "'e \<Rightarrow> 'p \<Rightarrow> 'd \<Rightarrow> 'd \<times> 'r list \<times> 'p" and rank :: "'p \<Rightarrow> nat" and credit :: "'p \<Rightarrow> nat"
  assumes rank_falls: "step e pt db = (db', sent, pt') \<Longrightarrow> rank pt' \<le> rank pt - 1"
    and credit_spent: "step e pt db = (db', sent, pt') \<Longrightarrow> length sent + credit pt' \<le> credit pt"
begin

lemma turns_rank: "rank (snd (worker_turns step turns pt)) \<le> rank pt - length turns"
proof (induction turns arbitrary: pt)
  case (Cons t turns)
  obtain e db where t: "t = (e, db)" by (cases t)
  obtain db' sent pt' where s: "step e pt db = (db', sent, pt')" by (cases "step e pt db") auto
  from rank_falls [OF s] Cons.IH [of pt'] show ?case by (auto simp: t s split: prod.splits)
qed simp

lemma turns_credit: "length (fst (worker_turns step turns pt)) \<le> credit pt"
proof (induction turns arbitrary: pt)
  case (Cons t turns)
  obtain e db where t: "t = (e, db)" by (cases t)
  obtain db' sent pt' where s: "step e pt db = (db', sent, pt')" by (cases "step e pt db") auto
  from credit_spent [OF s] Cons.IH [of pt'] show ?case by (auto simp: t s split: prod.splits)
qed simp

lemma turns_end: "rank pt \<le> length turns \<Longrightarrow> rank (snd (worker_turns step turns pt)) = 0"
  using turns_rank [of turns pt] by simp

end

section \<open>The two workers\<close>

text \<open>The turns a worker still needs, and the requests it may still send.\<close>

fun retry_rank :: "retry_point \<Rightarrow> nat" where
  "retry_rank RetryClaim = 4"
| "retry_rank (RetryPrepare _) = 3"
| "retry_rank (RetryCreate _) = 2"
| "retry_rank (RetryRelease _) = 1"
| "retry_rank (RetrySettle _ _ _) = 1"
| "retry_rank (RetryReturn _) = 0"

definition retry_credit :: "retry_point \<Rightarrow> nat" where
  "retry_credit pt = (if retry_rank pt \<ge> 2 then 1 else 0)"

fun submit_rank :: "submit_point \<Rightarrow> nat" where
  "submit_rank SubmitQueue = 5"
| "submit_rank (SubmitCustomer _ _) = 4"
| "submit_rank (SubmitClaim _ _) = 3"
| "submit_rank (SubmitCreate _ _) = 2"
| "submit_rank (SubmitSettle _ _) = 1"
| "submit_rank (SubmitReturn _) = 0"

definition submit_credit :: "submit_point \<Rightarrow> nat" where
  "submit_credit pt = (if submit_rank pt \<ge> 2 then 1 else 0)"

type_synonym payment_env = "codec \<times> faults \<times> paddle_client \<times> instant"

definition retry_turn :: "string \<Rightarrow> int \<Rightarrow> payment_env \<Rightarrow> retry_point \<Rightarrow> payment_db \<Rightarrow> payment_db \<times> PaddleTransactionRequest list \<times> retry_point" where
  "retry_turn ref n = (\<lambda>(C, F, client, now). retry_step C F client now ref n)"

definition submit_turn :: "string \<Rightarrow> instant \<Rightarrow> instant \<Rightarrow> string \<Rightarrow> string \<Rightarrow> payment_env \<Rightarrow> submit_point \<Rightarrow> payment_db
    \<Rightarrow> payment_db \<times> PaddleTransactionRequest list \<times> submit_point" where
  "submit_turn acct start stop customerID productID = (\<lambda>(C, F, client, now). submit_step C F client acct start stop customerID productID now)"

lemma retry_prepare_rank: "retry_rank (retry_prepare C F client payment n db) \<le> 2"
  by (simp add: retry_prepare_def split: sum.splits)

lemma submit_queue_rank: "submit_queue C F acct start stop customerID productID now db = (db', pt) \<Longrightarrow> submit_rank pt \<le> 4"
  by (auto simp: submit_queue_def split: sum.splits prod.splits if_splits)

interpretation retry: bounded_worker "retry_turn ref n" retry_rank retry_credit
proof
  fix e pt db db' sent pt'
  assume s: "retry_turn ref n e pt db = (db', sent, pt')"
  obtain C F client now where e: "e = (C, F, client, now)" by (cases e)
  from s show "retry_rank pt' \<le> retry_rank pt - 1" using retry_prepare_rank
    by (cases pt) (auto simp: e retry_turn_def split: prod.splits sum.splits if_splits)
  from s show "length sent + retry_credit pt' \<le> retry_credit pt"
    by (cases pt) (auto simp: e retry_turn_def retry_credit_def split: prod.splits sum.splits if_splits)
qed

interpretation submit: bounded_worker "submit_turn acct start stop customerID productID" submit_rank submit_credit
proof
  fix e pt db db' sent pt'
  assume s: "submit_turn acct start stop customerID productID e pt db = (db', sent, pt')"
  obtain C F client now where e: "e = (C, F, client, now)" by (cases e)
  from s show "submit_rank pt' \<le> submit_rank pt - 1"
    by (cases pt) (auto simp: e submit_turn_def dest: submit_queue_rank split: prod.splits sum.splits)
  from s show "length sent + submit_credit pt' \<le> submit_credit pt"
    by (cases pt) (auto simp: e submit_turn_def submit_credit_def split: prod.splits sum.splits)
qed

lemma retry_rank_0: "retry_rank pt = 0 \<Longrightarrow> \<exists>r. pt = RetryReturn r"
  by (cases pt) auto

lemma submit_rank_0: "submit_rank pt = 0 \<Longrightarrow> \<exists>r. pt = SubmitReturn r"
  by (cases pt) auto

text \<open>The whole call is its turns on the databases it leaves.\<close>

lemma retry_run_turns:
  "\<exists>turns. length turns = k \<and> worker_turns (retry_turn ref n) turns pt = snd (retry_run k C F client now ref n pt db)"
proof (induction k arbitrary: pt db)
  case (Suc k)
  obtain db' sent pt' where s: "retry_step C F client now ref n pt db = (db', sent, pt')" by (cases "retry_step C F client now ref n pt db") auto
  from Suc.IH [of pt' db'] obtain turns where "length turns = k" "worker_turns (retry_turn ref n) turns pt' = snd (retry_run k C F client now ref n pt' db')" by blast
  with s show ?case by (intro exI [of _ "((C, F, client, now), db) # turns"]) (auto simp: retry_turn_def split: prod.splits)
qed simp

lemma submit_run_turns:
  "\<exists>turns. length turns = k \<and> worker_turns (submit_turn acct start stop customerID productID) turns pt
     = snd (submit_run k C F client acct start stop customerID productID now pt db)"
proof (induction k arbitrary: pt db)
  case (Suc k)
  let ?step = "submit_step C F client acct start stop customerID productID now"
  obtain db' sent pt' where s: "?step pt db = (db', sent, pt')" by (cases "?step pt db") auto
  from Suc.IH [of pt' db'] obtain turns where "length turns = k"
    "worker_turns (submit_turn acct start stop customerID productID) turns pt' = snd (submit_run k C F client acct start stop customerID productID now pt' db')" by blast
  with s show ?case by (intro exI [of _ "((C, F, client, now), db) # turns"]) (auto simp: submit_turn_def split: prod.splits)
qed simp

text \<open>The bounds in the two calls are enough: neither runs out of turns.\<close>

lemma processPaymentRetry_returns:
  "\<exists>db' sent r. processPaymentRetry C F client now ref n db = (db', sent, RetryReturn r) \<and> length sent \<le> 1"
proof -
  obtain turns where t: "length turns = 4" "worker_turns (retry_turn ref n) turns RetryClaim = snd (processPaymentRetry C F client now ref n db)"
    unfolding processPaymentRetry_def using retry_run_turns by blast
  from retry.turns_end [of RetryClaim turns ref n] t retry_rank_0 obtain r where "snd (snd (processPaymentRetry C F client now ref n db)) = RetryReturn r" by auto
  with retry.turns_credit [of ref n turns RetryClaim] t(2) show ?thesis
    by (cases "processPaymentRetry C F client now ref n db") (simp add: retry_credit_def)
qed

lemma SubmitFinalizedInvoice_returns:
  "\<exists>db' sent r. SubmitFinalizedInvoice C F (Some client) acct start stop customerID productID now db = (db', sent, SubmitReturn r) \<and> length sent \<le> 1"
proof -
  let ?call = "SubmitFinalizedInvoice C F (Some client) acct start stop customerID productID now db"
  obtain turns where t: "length turns = 5" "worker_turns (submit_turn acct start stop customerID productID) turns SubmitQueue = snd ?call"
    unfolding SubmitFinalizedInvoice_def option.case using submit_run_turns by blast
  from submit.turns_end [of SubmitQueue turns acct start stop customerID productID] t submit_rank_0 obtain r where "snd (snd ?call) = SubmitReturn r" by auto
  with submit.turns_credit [of acct start stop customerID productID turns SubmitQueue] t(2) show ?thesis
    by (cases ?call) (simp add: submit_credit_def)
qed

end
