(* ===== verification/Version_Store.thy ===== *)
theory Version_Store
  imports Compliance_Gate Karst_Db
begin

text \<open>The versioned stores of policy documents and of compliance drafts (policy/store.go, policy/compliance_store.go). Both keep an
  account's revisions in a table keyed by account and number and write with an expected current number. The JSON decoding of
  policy documents and the JSON form of drafts are parameters.\<close>

record PolicyVersion =
  vs_AccountID :: string
  vs_Version :: uint64
  vs_Document :: string
  vs_Author :: string
  vs_CreatedAt :: instant

record ComplianceDraftVersion =
  cv_AccountID :: string
  cv_Version :: uint64
  cv_DraftJSON :: string
  cv_Author :: string
  cv_CreatedAt :: instant

datatype version_error =
    ErrNoVersion
  | ErrVersionConflict
  | ErrNoAccount
  | ErrParse
  | DocumentInvalid policy_error
  | TenantMismatch string string
  | EncodeDraft
  | DecodeDraft
  | VersionDb stmt

record policy_json =
  js_Document :: "string \<Rightarrow> Document option"
  js_Marshal :: "ComplianceDraft \<Rightarrow> string option"
  js_Unmarshal :: "string \<Rightarrow> ComplianceDraft option"

definition policyAccountFromContext :: "string \<Rightarrow> version_error + string" where
  "policyAccountFromContext accountID = (if accountID = [] then Inl ErrNoAccount else Inr accountID)"

definition ParseDocument :: "policy_json \<Rightarrow> string \<Rightarrow> version_error + Document" where
  "ParseDocument J data =
     (case js_Document J data of None \<Rightarrow> Inl ErrParse
      | Some d \<Rightarrow> (case Validate d of Inl e \<Rightarrow> Inl (DocumentInvalid e) | Inr _ \<Rightarrow> Inr d))"

definition ValidateDocument :: "policy_json \<Rightarrow> string \<Rightarrow> version_error + unit" where
  "ValidateDocument J document = ebind (ParseDocument J document) (\<lambda>_. Inr ())"

section \<open>Queries on a table of revisions\<close>

text \<open>The rows of an account, newest first; the statements both stores issue are these, on their own columns.\<close>

definition newest_first :: "('r \<Rightarrow> string) \<Rightarrow> ('r \<Rightarrow> uint64) \<Rightarrow> string \<Rightarrow> 'r list \<Rightarrow> 'r list" where
  "newest_first acct_of num_of acct rows = order_desc num_of (filter (\<lambda>r. acct_of r = acct) rows)"

definition current_version :: "faults \<Rightarrow> ('r \<Rightarrow> string) \<Rightarrow> ('r \<Rightarrow> uint64) \<Rightarrow> string \<Rightarrow> 'r list \<Rightarrow> version_error + 'r" where
  "current_version F acct_of num_of acct rows =
     (if F (Select ''versions'') then Inl (VersionDb (Select ''versions''))
      else case first_row (newest_first acct_of num_of acct rows) of None \<Rightarrow> Inl ErrNoVersion | Some r \<Rightarrow> Inr r)"

definition get_version :: "faults \<Rightarrow> ('r \<Rightarrow> string) \<Rightarrow> ('r \<Rightarrow> uint64) \<Rightarrow> string \<Rightarrow> uint64 \<Rightarrow> 'r list \<Rightarrow> version_error + 'r" where
  "get_version F acct_of num_of acct number rows =
     (if F (Select ''versions'') then Inl (VersionDb (Select ''versions''))
      else case find (\<lambda>r. acct_of r = acct \<and> num_of r = number) rows of None \<Rightarrow> Inl ErrNoVersion | Some r \<Rightarrow> Inr r)"

definition page_of :: "int \<Rightarrow> int \<Rightarrow> 'r list \<Rightarrow> 'r list" where
  "page_of offset limit rows = (if limit < 0 then drop (nat offset) rows else take (nat limit) (drop (nat offset) rows))"

definition list_versions :: "faults \<Rightarrow> ('r \<Rightarrow> string) \<Rightarrow> ('r \<Rightarrow> uint64) \<Rightarrow> string \<Rightarrow> int \<Rightarrow> int \<Rightarrow> 'r list \<Rightarrow> version_error + 'r list" where
  "list_versions F acct_of num_of acct offset limit rows =
     (if F (Select ''versions'') then Inl (VersionDb (Select ''versions''))
      else Inr (page_of offset limit (newest_first acct_of num_of acct rows)))"

text \<open>A write reads the current number, then inserts the next one; the primary key settles a race between the two.\<close>

definition read_next :: "faults \<Rightarrow> ('r \<Rightarrow> string) \<Rightarrow> ('r \<Rightarrow> uint64) \<Rightarrow> string \<Rightarrow> uint64 \<Rightarrow> 'r list \<Rightarrow> version_error + uint64" where
  "read_next F acct_of num_of acct expected rows =
     (case current_version F acct_of num_of acct rows of
        Inl ErrNoVersion \<Rightarrow> if expected \<noteq> 0 then Inl ErrVersionConflict else Inr (0 + 1)
      | Inl e \<Rightarrow> Inl e
      | Inr current \<Rightarrow> if num_of current \<noteq> expected then Inl ErrVersionConflict else Inr (num_of current + 1))"

definition insert_version :: "faults \<Rightarrow> ('r \<Rightarrow> string) \<Rightarrow> ('r \<Rightarrow> uint64) \<Rightarrow> 'r \<Rightarrow> 'r list \<Rightarrow> version_error + 'r list" where
  "insert_version F acct_of num_of written rows =
     (if F (Insert ''versions'' 0) then Inl (VersionDb (Insert ''versions'' 0))
      else if has_key (\<lambda>r. (acct_of r, num_of r)) (acct_of written, num_of written) rows then Inl ErrVersionConflict
      else Inr (rows @ [written]))"

section \<open>Policy documents\<close>

definition CurrentPolicy :: "faults \<Rightarrow> string \<Rightarrow> PolicyVersion list \<Rightarrow> version_error + PolicyVersion" where
  "CurrentPolicy F ctx rows = ebind (policyAccountFromContext ctx) (\<lambda>acct. current_version F vs_AccountID vs_Version acct rows)"

definition GetPolicy :: "faults \<Rightarrow> string \<Rightarrow> uint64 \<Rightarrow> PolicyVersion list \<Rightarrow> version_error + PolicyVersion" where
  "GetPolicy F ctx number rows = ebind (policyAccountFromContext ctx) (\<lambda>acct. get_version F vs_AccountID vs_Version acct number rows)"

definition ListPolicies :: "faults \<Rightarrow> string \<Rightarrow> int \<Rightarrow> int \<Rightarrow> PolicyVersion list \<Rightarrow> version_error + PolicyVersion list" where
  "ListPolicies F ctx offset limit rows =
     ebind (policyAccountFromContext ctx) (\<lambda>acct. list_versions F vs_AccountID vs_Version acct offset limit rows)"

definition WritePolicy :: "policy_json \<Rightarrow> faults \<Rightarrow> string \<Rightarrow> string \<Rightarrow> string \<Rightarrow> uint64 \<Rightarrow> instant \<Rightarrow> PolicyVersion list
    \<Rightarrow> PolicyVersion list \<times> (version_error + PolicyVersion)" where
  "WritePolicy J F ctx document author expected now rows =
     (case ebind (policyAccountFromContext ctx) (\<lambda>acct. ebind (ValidateDocument J document) (\<lambda>_. Inr acct)) of
        Inl e \<Rightarrow> (rows, Inl e)
      | Inr acct \<Rightarrow> transaction F (VersionDb Commit) rows (\<lambda>rows.
          ebind (read_next F vs_AccountID vs_Version acct expected rows) (\<lambda>n.
          let written = \<lparr>vs_AccountID = acct, vs_Version = n, vs_Document = document, vs_Author = author, vs_CreatedAt = now\<rparr>
          in ebind (insert_version F vs_AccountID vs_Version written rows) (\<lambda>rows. Inr (rows, written)))))"

section \<open>Compliance drafts\<close>

definition Draft :: "policy_json \<Rightarrow> ComplianceDraftVersion \<Rightarrow> version_error + ComplianceDraft" where
  "Draft J v = (case js_Unmarshal J (cv_DraftJSON v) of None \<Rightarrow> Inl DecodeDraft | Some draft \<Rightarrow> Inr draft)"

definition CurrentDraftVersion :: "faults \<Rightarrow> string \<Rightarrow> ComplianceDraftVersion list \<Rightarrow> version_error + ComplianceDraftVersion" where
  "CurrentDraftVersion F ctx rows = ebind (policyAccountFromContext ctx) (\<lambda>acct. current_version F cv_AccountID cv_Version acct rows)"

definition GetDraft :: "faults \<Rightarrow> string \<Rightarrow> uint64 \<Rightarrow> ComplianceDraftVersion list \<Rightarrow> version_error + ComplianceDraftVersion" where
  "GetDraft F ctx number rows = ebind (policyAccountFromContext ctx) (\<lambda>acct. get_version F cv_AccountID cv_Version acct number rows)"

definition ListDrafts :: "faults \<Rightarrow> string \<Rightarrow> int \<Rightarrow> int \<Rightarrow> ComplianceDraftVersion list \<Rightarrow> version_error + ComplianceDraftVersion list" where
  "ListDrafts F ctx offset limit rows =
     ebind (policyAccountFromContext ctx) (\<lambda>acct. list_versions F cv_AccountID cv_Version acct offset limit rows)"

definition encode_draft :: "policy_json \<Rightarrow> string \<Rightarrow> ComplianceDraft \<Rightarrow> version_error + (string \<times> string)" where
  "encode_draft J ctx draft =
     ebind (policyAccountFromContext ctx) (\<lambda>acct.
     if cd_TenantID draft \<noteq> acct then Inl (TenantMismatch (cd_TenantID draft) acct)
     else case js_Marshal J draft of None \<Rightarrow> Inl EncodeDraft | Some data \<Rightarrow> Inr (acct, data))"

definition WriteDraft :: "policy_json \<Rightarrow> faults \<Rightarrow> string \<Rightarrow> ComplianceDraft \<Rightarrow> string \<Rightarrow> uint64 \<Rightarrow> instant \<Rightarrow> ComplianceDraftVersion list
    \<Rightarrow> ComplianceDraftVersion list \<times> (version_error + ComplianceDraftVersion)" where
  "WriteDraft J F ctx draft author expected now rows =
     (case encode_draft J ctx draft of
        Inl e \<Rightarrow> (rows, Inl e)
      | Inr (acct, data) \<Rightarrow> transaction F (VersionDb Commit) rows (\<lambda>rows.
          ebind (read_next F cv_AccountID cv_Version acct expected rows) (\<lambda>n.
          let written = \<lparr>cv_AccountID = acct, cv_Version = n, cv_DraftJSON = data, cv_Author = author, cv_CreatedAt = now\<rparr>
          in ebind (insert_version F cv_AccountID cv_Version written rows) (\<lambda>rows. Inr (rows, written)))))"

definition empty_draft :: ComplianceDraft where
  "empty_draft = \<lparr>cd_TenantID = [], cd_RequirementSets = [], cd_Guardrails = [], cd_Remediation = []\<rparr>"

definition CurrentDraft :: "policy_json \<Rightarrow> faults \<Rightarrow> string \<Rightarrow> ComplianceDraftVersion list \<Rightarrow> version_error + (ComplianceDraft \<times> string)" where
  "CurrentDraft J F tenantID rows =
     (case CurrentDraftVersion F tenantID rows of
        Inl ErrNoVersion \<Rightarrow> Inr (empty_draft, [])
      | Inl e \<Rightarrow> Inl e
      | Inr v \<Rightarrow> ebind (Draft J v) (\<lambda>draft. Inr (draft, itoa (unat (cv_Version v)))))"

end
