(* ===== verification/Version_Trust.thy ===== *)
theory Version_Trust
  imports Version_Store Policy_Trust
begin

text \<open>The versioned stores implement one append-only history per account. Writers of all replicas are interleaved: each reads the
  current number and inserts later, and the tables are changed by others in between. A locale holds the argument; both stores
  satisfy its laws.\<close>

section \<open>Histories\<close>

text \<open>What a store promises: an account has a list of revisions; a write succeeds exactly when it names the length of the list, and
  appends; readers see the list.\<close>

definition spec_write :: "'r list \<Rightarrow> nat \<Rightarrow> 'r \<Rightarrow> 'r list option" where
  "spec_write h expected r = (if expected = length h then Some (h @ [r]) else None)"

definition history :: "('r \<Rightarrow> string) \<Rightarrow> string \<Rightarrow> 'r list \<Rightarrow> 'r list" where
  "history acct_of acct rows = filter (\<lambda>r. acct_of r = acct) rows"

definition numbered :: "('r \<Rightarrow> string) \<Rightarrow> ('r \<Rightarrow> uint64) \<Rightarrow> 'r list \<Rightarrow> bool" where
  "numbered acct_of num_of rows \<longleftrightarrow>
     (\<forall>acct. map num_of (history acct_of acct rows) = map word_of_nat [1..<Suc (length (history acct_of acct rows))])"

text \<open>The tables and the revisions that writers have read a number for and not yet inserted.\<close>

definition version_inv :: "('r \<Rightarrow> string) \<Rightarrow> ('r \<Rightarrow> uint64) \<Rightarrow> 'r list \<times> 'r list \<Rightarrow> bool" where
  "version_inv acct_of num_of s \<longleftrightarrow> numbered acct_of num_of (fst s)
     \<and> (\<forall>v\<in>set (snd s). \<exists>e. e \<le> length (history acct_of (acct_of v) (fst s)) \<and> num_of v = word_of_nat (Suc e))"

lemma history_append: "history acct_of acct (rows @ [r]) = history acct_of acct rows @ (if acct_of r = acct then [r] else [])"
  by (simp add: history_def)

lemma length_history: "length (history acct_of acct rows) \<le> length rows"
  by (simp add: history_def)

lemma numbered_nth:
  assumes "numbered acct_of num_of rows" and "i < length (history acct_of acct rows)"
  shows "num_of (history acct_of acct rows ! i) = word_of_nat (Suc i)"
proof -
  have "map num_of (history acct_of acct rows) ! i = map word_of_nat [1..<Suc (length (history acct_of acct rows))] ! i"
    using assms(1) unfolding numbered_def by simp
  with assms(2) show ?thesis by (simp del: upt_Suc)
qed

lemma unat_word64: "k < 2 ^ 64 \<Longrightarrow> unat (word_of_nat k :: uint64) = k"
  by (simp add: unat_of_nat)

lemma numbered_sorted:
  assumes "numbered acct_of num_of rows" and "length rows < 2 ^ 64"
  shows "sorted (map num_of (history acct_of acct rows))"
proof -
  let ?h = "history acct_of acct rows"
  have "length ?h < 2 ^ 64" using length_history [of acct_of acct rows] assms(2) by simp
  moreover have "unat (num_of (?h ! i)) = Suc i" if "i < length ?h" for i
    using numbered_nth [OF assms(1) that] that calculation by (simp add: unat_word64 del: of_nat_Suc)
  ultimately show ?thesis unfolding sorted_iff_nth_mono by (auto simp: word_le_nat_alt)
qed

lemma newest_first_history:
  assumes "numbered acct_of num_of rows" and "length rows < 2 ^ 64"
  shows "newest_first acct_of num_of acct rows = rev (history acct_of acct rows)"
  using order_desc_sorted [OF numbered_sorted [OF assms, of acct]] by (simp add: newest_first_def history_def)

lemma current_history:
  assumes "numbered acct_of num_of rows" and "length rows < 2 ^ 64" and "\<not> F (Select ''versions'')"
  shows "current_version F acct_of num_of acct rows =
     (if history acct_of acct rows = [] then Inl ErrNoVersion else Inr (last (history acct_of acct rows)))"
  using assms(3) by (simp add: current_version_def newest_first_history [OF assms(1,2)] first_row_rev)

lemma find_filter: "find (\<lambda>r. P r \<and> Q r) rows = find Q (filter P rows)"
  by (induction rows) auto

lemma get_history:
  assumes "numbered acct_of num_of rows" and "length rows < 2 ^ 64" and "\<not> F (Select ''versions'')"
  shows "get_version F acct_of num_of acct n rows =
     (if 1 \<le> unat n \<and> unat n \<le> length (history acct_of acct rows) then Inr (history acct_of acct rows ! (unat n - 1)) else Inl ErrNoVersion)"
proof -
  let ?h = "history acct_of acct rows"
  have num: "unat (num_of (?h ! i)) = Suc i" if "i < length ?h" for i
    using numbered_nth [OF assms(1) that] that length_history [of acct_of acct rows] assms(2) by (simp add: unat_word64 del: of_nat_Suc)
  have "find (\<lambda>r. acct_of r = acct \<and> num_of r = n) rows = find (\<lambda>r. num_of r = n) ?h" by (simp add: find_filter history_def)
  moreover have "find (\<lambda>r. num_of r = n) ?h = (if 1 \<le> unat n \<and> unat n \<le> length ?h then Some (?h ! (unat n - 1)) else None)"
  proof (cases "1 \<le> unat n \<and> unat n \<le> length ?h")
    case True
    then have i: "unat n - 1 < length ?h" by linarith
    with num [OF i] True have "unat (num_of (?h ! (unat n - 1))) = unat n" by simp
    then have "num_of (?h ! (unat n - 1)) = n" by (rule unsigned_word_eqI)
    moreover have "num_of (?h ! j) \<noteq> n" if "j < unat n - 1" for j
    proof -
      have "j < length ?h" using that i by linarith
      from num [OF this] that show ?thesis by auto
    qed
    ultimately show ?thesis using i True by (auto simp: find_Some_iff)
  next
    case False
    then have "num_of r \<noteq> n" if "r \<in> set ?h" for r using that num by (auto simp: in_set_conv_nth)
    with False show ?thesis by (auto simp: find_None_iff)
  qed
  ultimately show ?thesis using assms(3) by (simp add: get_version_def)
qed

lemma read_next_history:
  assumes "numbered acct_of num_of rows" and "length rows < 2 ^ 64" and "\<not> F (Select ''versions'')"
  shows "read_next F acct_of num_of acct expected rows =
     (if unat expected = length (history acct_of acct rows) then Inr (word_of_nat (Suc (length (history acct_of acct rows)))) else Inl ErrVersionConflict)"
proof (cases "history acct_of acct rows" rule: rev_cases)
  case Nil
  then show ?thesis by (simp add: read_next_def current_history [where F = F, OF assms] unat_eq_0)
next
  case (snoc h r)
  have "num_of r = word_of_nat (length (history acct_of acct rows))"
    using numbered_nth [OF assms(1), of "length h" acct] snoc by simp
  moreover have "length (history acct_of acct rows) < 2 ^ 64" using length_history [of acct_of acct rows] assms(2) by simp
  ultimately have "num_of r = expected \<longleftrightarrow> unat expected = length (history acct_of acct rows)"
    using unat_word64 [of "length (history acct_of acct rows)"] by (auto simp: word_unat_eq_iff)
  then show ?thesis using snoc \<open>num_of r = _\<close> by (simp add: read_next_def current_history [where F = F, OF assms] add.commute)
qed

section \<open>Interleaved writers\<close>

text \<open>The laws of a versioned table: a writer enters with the number after the current one, or leaves, or inserts its revision if
  its key is free.\<close>

definition version_move :: "('r \<Rightarrow> string) \<Rightarrow> ('r \<Rightarrow> uint64) \<Rightarrow> 'r list \<times> 'r list \<Rightarrow> 'r list \<times> 'r list \<Rightarrow> bool" where
  "version_move acct_of num_of s s' \<longleftrightarrow>
     (fst s' = fst s \<and> set (snd s') \<subseteq> set (snd s))
     \<or> (\<exists>F v expected. read_next F acct_of num_of (acct_of v) expected (fst s) = Inr (num_of v) \<and> s' = (fst s, v # snd s))
     \<or> (\<exists>v\<in>set (snd s). \<exists>F. insert_version F acct_of num_of v (fst s) = Inr (fst s') \<and> set (snd s') \<subseteq> set (snd s))"

locale version_table =
  fixes acct_of :: "'r \<Rightarrow> string" and num_of :: "'r \<Rightarrow> uint64" and step :: "'r list \<times> 'r list \<Rightarrow> 'r list \<times> 'r list \<Rightarrow> bool"
  assumes moves: "step s s' \<Longrightarrow> version_move acct_of num_of s s'"
begin

lemma insert_fresh:
  assumes "insert_version F acct_of num_of v rows = Inr rows'"
  shows "rows' = rows @ [v]" and "num_of v \<notin> num_of ` set (history acct_of (acct_of v) rows)"
  using assms by (auto simp: insert_version_def has_key_iff history_def image_iff split: if_splits)

lemma fresh_is_next:
  assumes "numbered acct_of num_of rows" and "num_of v \<notin> num_of ` set (history acct_of (acct_of v) rows)"
    and "e \<le> length (history acct_of (acct_of v) rows)" and "num_of v = word_of_nat (Suc e)"
  shows "e = length (history acct_of (acct_of v) rows)"
proof (rule ccontr)
  assume "e \<noteq> length (history acct_of (acct_of v) rows)"
  with assms(3) have "e < length (history acct_of (acct_of v) rows)" by simp
  with numbered_nth [OF assms(1) this] assms(2,4) show False by (metis image_eqI nth_mem)
qed

lemma numbered_snoc:
  assumes "numbered acct_of num_of rows" and "num_of v = word_of_nat (Suc (length (history acct_of (acct_of v) rows)))"
  shows "numbered acct_of num_of (rows @ [v])"
  using assms by (simp add: numbered_def history_append)

lemma move_length: "step s s' \<Longrightarrow> length (fst s) \<le> length (fst s')"
  using moves [of s s'] by (auto simp: version_move_def dest: insert_fresh(1))

lemma inserts_next:
  assumes "version_inv acct_of num_of s" and "v \<in> set (snd s)" and "insert_version F acct_of num_of v (fst s) = Inr rows'"
    and "length rows' < 2 ^ 64"
  shows "rows' = fst s @ [v]" and "num_of v = word_of_nat (Suc (length (history acct_of (acct_of v) (fst s))))"
proof -
  show r: "rows' = fst s @ [v]" by (rule insert_fresh(1) [OF assms(3)])
  obtain e where "e \<le> length (history acct_of (acct_of v) (fst s))" "num_of v = word_of_nat (Suc e)" using assms(1,2) unfolding version_inv_def by blast
  with fresh_is_next [OF _ insert_fresh(2) [OF assms(3)]] assms(1)
  show "num_of v = word_of_nat (Suc (length (history acct_of (acct_of v) (fst s))))" by (auto simp: version_inv_def)
qed

lemma inv_grows:
  assumes "version_inv acct_of num_of s" and "step s s'" and "length (fst s') < 2 ^ 64"
  shows "version_inv acct_of num_of s' \<and> (\<exists>new. fst s' = fst s @ new)"
  using moves [OF assms(2)] unfolding version_move_def
proof (elim disjE exE bexE conjE)
  assume "fst s' = fst s" "set (snd s') \<subseteq> set (snd s)"
  with assms(1) show ?thesis by (auto simp: version_inv_def)
next
  fix F v expected assume r: "read_next F acct_of num_of (acct_of v) expected (fst s) = Inr (num_of v)" and s': "s' = (fst s, v # snd s)"
  have "\<not> F (Select ''versions'')" using r by (auto simp: read_next_def current_version_def split: if_splits)
  with r read_next_history [of acct_of num_of "fst s" F "acct_of v" expected] assms(1,3) s'
  have "num_of v = word_of_nat (Suc (length (history acct_of (acct_of v) (fst s))))" by (auto simp: version_inv_def split: if_splits)
  with assms(1) s' show ?thesis by (auto simp: version_inv_def)
next
  fix v F assume v: "v \<in> set (snd s)" and i: "insert_version F acct_of num_of v (fst s) = Inr (fst s')" and sub: "set (snd s') \<subseteq> set (snd s)"
  note n = inserts_next [OF assms(1) v i assms(3)]
  have "numbered acct_of num_of (fst s')" unfolding n(1) using assms(1) n(2) by (intro numbered_snoc) (auto simp: version_inv_def)
  moreover have "\<exists>e. e \<le> length (history acct_of (acct_of u) (fst s')) \<and> num_of u = word_of_nat (Suc e)" if u: "u \<in> set (snd s')" for u
  proof -
    obtain e where "e \<le> length (history acct_of (acct_of u) (fst s))" "num_of u = word_of_nat (Suc e)"
      using assms(1) u sub unfolding version_inv_def by blast
    moreover have "length (history acct_of (acct_of u) (fst s)) \<le> length (history acct_of (acct_of u) (fst s'))" by (simp add: n(1) history_append)
    ultimately show ?thesis by (intro exI [of _ e]) simp
  qed
  ultimately show ?thesis using n(1) by (auto simp: version_inv_def)
qed

text \<open>A move that changes a table is a successful write of the specification, by a writer whose expected number is still current.\<close>

lemma step_refines:
  assumes "version_inv acct_of num_of s" and "step s s'" and "length (fst s') < 2 ^ 64"
  shows "history acct_of acct (fst s') = history acct_of acct (fst s)
     \<or> (\<exists>v\<in>set (snd s). spec_write (history acct_of acct (fst s)) (unat (num_of v) - 1) v = Some (history acct_of acct (fst s')))"
  using moves [OF assms(2)] unfolding version_move_def
proof (elim disjE exE bexE conjE)
  fix v F assume v: "v \<in> set (snd s)" and i: "insert_version F acct_of num_of v (fst s) = Inr (fst s')"
  note n = inserts_next [OF assms(1) v i assms(3)]
  have "Suc (length (history acct_of (acct_of v) (fst s))) < 2 ^ 64"
    using assms(3) length_history [of acct_of "acct_of v" "fst s"] by (simp add: n(1))
  then have "unat (num_of v) - 1 = length (history acct_of (acct_of v) (fst s))" by (simp add: n(2) unat_word64 del: of_nat_Suc)
  with v show ?thesis by (cases "acct_of v = acct") (auto simp: n(1) history_append spec_write_def)
qed auto

end

sublocale version_table \<subseteq> append_only step fst "version_inv acct_of num_of" "2 ^ 64"
  by unfold_locales (use move_length inv_grows in blast)+

section \<open>The two stores\<close>

inductive policy_step :: "policy_json \<Rightarrow> PolicyVersion list \<times> PolicyVersion list \<Rightarrow> PolicyVersion list \<times> PolicyVersion list \<Rightarrow> bool" for J where
  policy_read: "policyAccountFromContext ctx = Inr acct \<Longrightarrow> ValidateDocument J document = Inr ()
    \<Longrightarrow> read_next F vs_AccountID vs_Version acct expected rows = Inr n
    \<Longrightarrow> policy_step J (rows, pending)
      (rows, \<lparr>vs_AccountID = acct, vs_Version = n, vs_Document = document, vs_Author = author, vs_CreatedAt = now\<rparr> # pending)"
| policy_insert: "v \<in> set pending \<Longrightarrow> insert_version F vs_AccountID vs_Version v rows = Inr rows' \<Longrightarrow> \<not> F Commit
    \<Longrightarrow> policy_step J (rows, pending) (rows', remove1 v pending)"
| policy_abandon: "policy_step J (rows, pending) (rows, remove1 v pending)"

inductive draft_step :: "policy_json \<Rightarrow> ComplianceDraftVersion list \<times> ComplianceDraftVersion list
    \<Rightarrow> ComplianceDraftVersion list \<times> ComplianceDraftVersion list \<Rightarrow> bool" for J where
  draft_read: "encode_draft J ctx draft = Inr (acct, data) \<Longrightarrow> read_next F cv_AccountID cv_Version acct expected rows = Inr n
    \<Longrightarrow> draft_step J (rows, pending)
      (rows, \<lparr>cv_AccountID = acct, cv_Version = n, cv_DraftJSON = data, cv_Author = author, cv_CreatedAt = now\<rparr> # pending)"
| draft_insert: "v \<in> set pending \<Longrightarrow> insert_version F cv_AccountID cv_Version v rows = Inr rows' \<Longrightarrow> \<not> F Commit
    \<Longrightarrow> draft_step J (rows, pending) (rows', remove1 v pending)"
| draft_abandon: "draft_step J (rows, pending) (rows, remove1 v pending)"

interpretation policies: version_table vs_AccountID vs_Version "policy_step J"
proof
  fix s s' assume "policy_step J s s'"
  then show "version_move vs_AccountID vs_Version s s'"
  proof cases
    case (policy_read ctx acct document F expected rows n pending author now)
    then show ?thesis unfolding version_move_def by fastforce
  next
    case (policy_insert v pending F rows rows')
    then show ?thesis unfolding version_move_def using set_remove1_subset by fastforce
  next
    case (policy_abandon rows pending v)
    then show ?thesis unfolding version_move_def using set_remove1_subset by fastforce
  qed
qed

interpretation drafts: version_table cv_AccountID cv_Version "draft_step J"
proof
  fix s s' assume "draft_step J s s'"
  then show "version_move cv_AccountID cv_Version s s'"
  proof cases
    case (draft_read ctx draft acct data F expected rows n pending author now)
    then show ?thesis unfolding version_move_def by fastforce
  next
    case (draft_insert v pending F rows rows')
    then show ?thesis unfolding version_move_def using set_remove1_subset by fastforce
  next
    case (draft_abandon rows pending v)
    then show ?thesis unfolding version_move_def using set_remove1_subset by fastforce
  qed
qed

text \<open>A call of Write that no other writer interrupts is a read and an insertion.\<close>

lemma WritePolicy_steps:
  assumes "WritePolicy J F ctx document author expected now rows = (rows', Inr v)"
  shows "(policy_step J)\<^sup>*\<^sup>* (rows, pending) (rows', pending)"
proof -
  obtain acct n where a: "policyAccountFromContext ctx = Inr acct" "ValidateDocument J document = Inr ()"
      and r: "read_next F vs_AccountID vs_Version acct expected rows = Inr n"
      and v: "v = \<lparr>vs_AccountID = acct, vs_Version = n, vs_Document = document, vs_Author = author, vs_CreatedAt = now\<rparr>"
      and i: "insert_version F vs_AccountID vs_Version v rows = Inr rows'" "\<not> F Commit"
    using assms by (auto simp: WritePolicy_def transaction_ok Let_def split: sum.splits elim!: ebindE)
  have "policy_step J (rows, pending) (rows, v # pending)" unfolding v by (rule policy_read [OF a r])
  moreover have "policy_step J (rows, v # pending) (rows', remove1 v (v # pending))" using i by (intro policy_insert) auto
  ultimately show ?thesis by simp
qed

lemma policies_validated:
  assumes "(policy_step J)\<^sup>*\<^sup>* ([], []) s"
  shows "\<forall>v\<in>set (fst s) \<union> set (snd s). ValidateDocument J (vs_Document v) = Inr ()"
  using assms
proof (induction rule: rtranclp_induct)
  case (step s s')
  from step.hyps(2) show ?case
  proof cases
    case (policy_insert v pending F rows rows')
    with policies.insert_fresh(1) [OF policy_insert(4)] step.IH show ?thesis by (auto dest: set_remove1_subset [THEN subsetD])
  qed (use step.IH in \<open>auto dest: set_remove1_subset [THEN subsetD]\<close>)
qed simp

lemma version_inv_empty: "version_inv acct_of num_of ([], [])"
  by (simp add: version_inv_def numbered_def history_def)

lemma ValidateDocument_ok: "ValidateDocument J x = Inr () \<longleftrightarrow> (\<exists>d. js_Document J x = Some d \<and> Validate d = Inr ())"
proof (cases "js_Document J x")
  case (Some d)
  then show ?thesis by (cases "Validate d") (simp_all add: ValidateDocument_def ParseDocument_def)
qed (simp add: ValidateDocument_def ParseDocument_def)

lemma word64_inj: "(word_of_nat a :: uint64) = word_of_nat b \<Longrightarrow> a < 2 ^ 64 \<Longrightarrow> b < 2 ^ 64 \<Longrightarrow> a = b"
  using unat_word64 by metis

lemma insert_next_free:
  assumes "numbered acct_of num_of rows" and "Suc (length rows) < 2 ^ 64" and "\<not> F (Insert ''versions'' 0)"
    and "num_of v = word_of_nat (Suc (length (history acct_of (acct_of v) rows)))"
  shows "insert_version F acct_of num_of v rows = Inr (rows @ [v])"
proof -
  let ?h = "history acct_of (acct_of v) rows"
  have len: "Suc (length ?h) < 2 ^ 64" using length_history [of acct_of "acct_of v" rows] assms(2) by simp
  have ne: "num_of r \<noteq> num_of v" if r: "r \<in> set ?h" for r
  proof
    assume eq: "num_of r = num_of v"
    from r obtain i where i: "i < length ?h" "?h ! i = r" by (auto simp: in_set_conv_nth)
    from numbered_nth [OF assms(1) i(1)] i(2) eq assms(4) have "(word_of_nat (Suc i) :: uint64) = word_of_nat (Suc (length ?h))" by simp
    from word64_inj [OF this] i(1) len show False by simp
  qed
  have "(acct_of v, num_of v) \<noteq> (acct_of r, num_of r)" if "r \<in> set rows" for r using ne [of r] that by (auto simp: history_def)
  then have "\<not> has_key (\<lambda>r. (acct_of r, num_of r)) (acct_of v, num_of v) rows" by (auto simp: has_key_iff)
  with assms(3) show ?thesis by (simp add: insert_version_def)
qed

text \<open>C11. The policy store implements an append-only history. After any interleaving of writers on any replicas, the current revision is
  the last of the account's history, revision n is its n-th, pages run through it from the end, and a write succeeds exactly when the
  number it expects is the length of the history, appending one revision. Whatever a further step of any writer does to the table is
  a successful write of that specification or nothing, and every revision decodes to a document that passes validation.\<close>

theorem policy_store_refines_history:
  assumes "(policy_step J)\<^sup>*\<^sup>* ([], []) (rows, pending)" and "Suc (length rows) < 2 ^ 64" and "acct \<noteq> []"
    and "ValidateDocument J document = Inr ()"
  shows "let h = history vs_AccountID acct rows;
       entry = \<lparr>vs_AccountID = acct, vs_Version = word_of_nat (Suc (length h)), vs_Document = document, vs_Author = author, vs_CreatedAt = now\<rparr>
     in CurrentPolicy no_faults acct rows = (if h = [] then Inl ErrNoVersion else Inr (last h))
     \<and> (\<forall>n. GetPolicy no_faults acct n rows = (if 1 \<le> unat n \<and> unat n \<le> length h then Inr (h ! (unat n - 1)) else Inl ErrNoVersion))
     \<and> (\<forall>offset limit. ListPolicies no_faults acct offset limit rows = Inr (page_of offset limit (rev h)))
     \<and> WritePolicy J no_faults acct document author expected now rows =
         (if spec_write h (unat expected) entry = None then (rows, Inl ErrVersionConflict) else (rows @ [entry], Inr entry))
     \<and> (\<forall>rows' pending'. policy_step J (rows, pending) (rows', pending') \<longrightarrow>
          history vs_AccountID acct rows' = h
          \<or> (\<exists>v\<in>set pending. spec_write h (unat (vs_Version v) - 1) v = Some (history vs_AccountID acct rows')))
     \<and> (\<forall>v\<in>set h. \<exists>d. js_Document J (vs_Document v) = Some d \<and> Validate d = Inr ())"
proof -
  let ?h = "history vs_AccountID acct rows"
  have len: "length rows < 2 ^ 64" using assms(2) by simp
  have inv: "version_inv vs_AccountID vs_Version (rows, pending)"
    using policies.run_extends [OF assms(1) version_inv_empty] len by simp
  then have num: "numbered vs_AccountID vs_Version rows" by (simp add: version_inv_def)
  have nf: "\<not> no_faults s" for s by (simp add: no_faults_def)
  note facts = current_history [where F = no_faults, OF num len nf] get_history [where F = no_faults, OF num len nf]
    newest_first_history [OF num len] read_next_history [where F = no_faults, OF num len nf]
  have ctx: "policyAccountFromContext acct = Inr acct" using assms(3) by (simp add: policyAccountFromContext_def)
  have w: "WritePolicy J no_faults acct document author expected now rows =
      (let entry = \<lparr>vs_AccountID = acct, vs_Version = word_of_nat (Suc (length ?h)), vs_Document = document, vs_Author = author, vs_CreatedAt = now\<rparr>
       in if spec_write ?h (unat expected) entry = None then (rows, Inl ErrVersionConflict) else (rows @ [entry], Inr entry))"
    using insert_next_free [where F = no_faults and v = "\<lparr>vs_AccountID = acct, vs_Version = word_of_nat (Suc (length ?h)), vs_Document = document,
        vs_Author = author, vs_CreatedAt = now\<rparr>", OF num assms(2) nf]
    by (simp add: WritePolicy_def ctx assms(4) facts transaction_def nf spec_write_def Let_def)
  have step: "history vs_AccountID acct rows' = ?h \<or> (\<exists>v\<in>set pending. spec_write ?h (unat (vs_Version v) - 1) v = Some (history vs_AccountID acct rows'))"
    if st: "policy_step J (rows, pending) (rows', pending')" for rows' pending'
  proof -
    have "length rows' < 2 ^ 64" using st assms(2) by cases (auto dest: policies.insert_fresh(1))
    with policies.step_refines [OF inv st, of acct] show ?thesis by simp
  qed
  have valid: "\<exists>d. js_Document J (vs_Document v) = Some d \<and> Validate d = Inr ()" if "v \<in> set ?h" for v
    using policies_validated [OF assms(1)] that by (simp add: history_def ValidateDocument_ok)
  have reads: "CurrentPolicy no_faults acct rows = (if ?h = [] then Inl ErrNoVersion else Inr (last ?h))"
    "GetPolicy no_faults acct n rows = (if 1 \<le> unat n \<and> unat n \<le> length ?h then Inr (?h ! (unat n - 1)) else Inl ErrNoVersion)"
    "ListPolicies no_faults acct offset limit rows = Inr (page_of offset limit (rev ?h))" for n offset limit
    using nf by (simp_all add: CurrentPolicy_def GetPolicy_def ListPolicies_def ctx list_versions_def facts)
  show ?thesis unfolding Let_def by (intro conjI allI ballI impI) (rule reads w [unfolded Let_def] step valid, assumption?)+
qed

text \<open>Two writers that both read revision 0 of an empty store: one inserts, the other finds its number taken.\<close>

definition demo_json :: policy_json where
  "demo_json = \<lparr>js_Document = (\<lambda>text. if text = ''policy'' then Some demo_doc else None),
     js_Marshal = (\<lambda>_. None), js_Unmarshal = (\<lambda>_. None)\<rparr>"

definition demo_version :: "string \<Rightarrow> PolicyVersion" where
  "demo_version author = \<lparr>vs_AccountID = ''acct'', vs_Version = 1, vs_Document = ''policy'', vs_Author = author, vs_CreatedAt = 0\<rparr>"

lemma demo_document_valid: "ValidateDocument demo_json ''policy'' = Inr ()"
  using demo_valid by (simp add: ValidateDocument_ok demo_json_def)

lemma demo_race: "(policy_step demo_json)\<^sup>*\<^sup>* ([], []) ([demo_version ''ann''], [demo_version ''bob''])"
proof -
  have ctx: "policyAccountFromContext ''acct'' = Inr ''acct''" by (simp add: policyAccountFromContext_def)
  have read: "policy_step demo_json ([], pending) ([], demo_version author # pending)" for author pending
    using policy_read [OF ctx demo_document_valid, of no_faults 0 "[]" 1 pending author 0]
    by (simp add: demo_version_def read_next_def current_version_def newest_first_def order_desc_def no_faults_def)
  have "policy_step demo_json ([], [demo_version ''bob'', demo_version ''ann'']) ([demo_version ''ann''],
      remove1 (demo_version ''ann'') [demo_version ''bob'', demo_version ''ann''])"
    by (rule policy_insert [where F = no_faults]) (simp_all add: insert_version_def no_faults_def has_key_def)
  moreover have "demo_version ''bob'' \<noteq> demo_version ''ann''" by (simp add: demo_version_def)
  ultimately show ?thesis using read [of "[]" "''ann''"] read [of "[demo_version ''ann'']" "''bob''"]
    by (auto intro: rtranclp.rtrancl_into_rtrancl)
qed

theorem policy_store_refines_history_witness:
  "CurrentPolicy no_faults ''acct'' [demo_version ''ann''] = Inr (demo_version ''ann'')
   \<and> GetPolicy no_faults ''acct'' 1 [demo_version ''ann''] = Inr (demo_version ''ann'')
   \<and> WritePolicy demo_json no_faults ''acct'' ''policy'' ''bob'' 0 0 [demo_version ''ann''] = ([demo_version ''ann''], Inl ErrVersionConflict)"
proof -
  have "history vs_AccountID ''acct'' [demo_version ''ann''] = [demo_version ''ann'']" by (simp add: history_def demo_version_def)
  with policy_store_refines_history [OF demo_race, of "''acct''" "''policy''" "''bob''" 0 0] demo_document_valid
  show ?thesis by (auto simp: Let_def spec_write_def demo_version_def)
qed

section \<open>The current draft\<close>

lemma drafts_encoded:
  assumes "(draft_step J)\<^sup>*\<^sup>* ([], []) s"
  shows "\<forall>v\<in>set (fst s) \<union> set (snd s). \<exists>d. js_Marshal J d = Some (cv_DraftJSON v) \<and> cd_TenantID d = cv_AccountID v"
  using assms
proof (induction rule: rtranclp_induct)
  case (step s s')
  from step.hyps(2) show ?case
  proof cases
    case (draft_read ctx draft acct data F expected rows n pending author now)
    then have "js_Marshal J draft = Some data" "cd_TenantID draft = acct"
      by (auto simp: encode_draft_def policyAccountFromContext_def split: if_splits option.splits elim!: ebindE)
    with draft_read step.IH show ?thesis by auto
  next
    case (draft_insert v pending F rows rows')
    with drafts.insert_fresh(1) [OF draft_insert(4)] step.IH show ?thesis by (auto dest: set_remove1_subset [THEN subsetD])
  qed (use step.IH in \<open>auto dest: set_remove1_subset [THEN subsetD]\<close>)
qed simp

text \<open>If decoding undoes encoding, the draft served to a tenant is the last one written for it, with the length of its history as the
  revision; with no history it is the empty draft with no revision.\<close>

lemma CurrentDraft_is_last:
  assumes "(draft_step J)\<^sup>*\<^sup>* ([], []) (rows, pending)" and "length rows < 2 ^ 64" and "acct \<noteq> []"
    and "\<And>d data. js_Marshal J d = Some data \<Longrightarrow> js_Unmarshal J data = Some d"
  shows "if history cv_AccountID acct rows = [] then CurrentDraft J no_faults acct rows = Inr (empty_draft, [])
     else \<exists>d. CurrentDraft J no_faults acct rows = Inr (d, itoa (length (history cv_AccountID acct rows))) \<and> cd_TenantID d = acct
       \<and> js_Marshal J d = Some (cv_DraftJSON (last (history cv_AccountID acct rows)))"
proof -
  let ?h = "history cv_AccountID acct rows"
  have "version_inv cv_AccountID cv_Version (rows, pending)" using drafts.run_extends [OF assms(1) version_inv_empty] assms(2) by simp
  then have num: "numbered cv_AccountID cv_Version rows" by (simp add: version_inv_def)
  have cur: "CurrentDraftVersion no_faults acct rows = (if ?h = [] then Inl ErrNoVersion else Inr (last ?h))"
    using current_history [where F = no_faults, OF num assms(2)] assms(3) by (simp add: CurrentDraftVersion_def policyAccountFromContext_def no_faults_def)
  show ?thesis
  proof (cases "?h = []")
    case False
    then have "last ?h \<in> set ?h" by simp
    then have last: "last ?h \<in> set rows" "cv_AccountID (last ?h) = acct" by (auto simp: history_def)
    then obtain d where d: "js_Marshal J d = Some (cv_DraftJSON (last ?h))" "cd_TenantID d = acct" using drafts_encoded [OF assms(1)] by (metis UnI1 fst_conv)
    have "unat (cv_Version (last ?h)) = length ?h"
      using numbered_nth [OF num, of "length ?h - 1" acct] False length_history [of cv_AccountID acct rows] assms(2)
      by (simp add: last_conv_nth unat_word64)
    with cur False d assms(4) [OF d(1)] show ?thesis by (simp add: CurrentDraft_def Draft_def)
  qed (simp add: cur CurrentDraft_def)
qed

end
