(* ===== verification/Compliance_Store.thy ===== *)
theory Compliance_Store
  imports Compliance Karst_Db "HOL-Library.Product_Lexorder"
begin

text \<open>The evidence store of device compliance (compliance/store.go) and its invalidation worker (compliance/invalidation.go): one row per
  enrollment holds the outstanding challenge, the last accepted evidence and the state of its change notification. SHA-256 and the JSON
  forms of reports and evidence are parameters; random tokens and epochs are arguments. Time columns keep the instant they are given.\<close>

section \<open>Rows\<close>

definition ChallengeLifetime :: int where "ChallengeLifetime = seconds 60"

definition EvidenceRetention :: int where "EvidenceRetention = 24 * 3600 * seconds 1"

definition invalidationBatch :: nat where "invalidationBatch = 100"

record Report =
  rp_CollectorVersion :: string
  rp_Platform :: string
  rp_Distribution :: string
  rp_ClientVersion :: Observation
  rp_OSVersion :: Observation

record evidenceRow =
  er_TenantID :: string
  er_DeviceID :: string
  er_Handle :: string
  er_ChallengeHash :: string
  er_IssuedAt :: instant
  er_ChallengeExpiresAt :: instant
  er_EvidenceJSON :: string
  er_EvidenceRetainUntil :: "instant option"
  er_CollectorVersion :: string
  er_Generation :: nat
  er_EvidenceFingerprint :: string
  er_EvidenceExpiresAt :: "instant option"
  er_ExpiryNotified :: bool
  er_NotificationPending :: bool
  er_NotificationEpoch :: string
  er_NotificationRevision :: nat
  er_NotificationAttempt :: int64
  er_RetainUntil :: instant

text \<open>The columns of the peer table that the store reads.\<close>

record peerRow =
  pr_ID :: string
  pr_AccountID :: string
  pr_Key :: string

record compliance_db =
  cb_rows :: "evidenceRow list"
  cb_peers :: "peerRow list"

record Challenge =
  ch_Token :: bytes
  ch_ExpiresAt :: instant

record AcceptedEvidence =
  ac_Evidence :: Evidence
  ac_CollectorVersion :: string
  ac_Generation :: nat

datatype evidence_error =
    ErrInvalidReport
  | ErrInvalidSubject
  | ErrNotEnrolled
  | ErrChallenge
  | ErrNoEvidence
  | EncodeEvidence
  | DecodeEvidence
  | CallbackRequired
  | NotifyTenant string evidence_error
  | Publish string
  | JoinedErrors "evidence_error list"
  | EvidenceDb stmt

record evidence_codec =
  ec_sha256 :: "bytes \<Rightarrow> bytes"
  ec_report :: "Report \<Rightarrow> bytes"
  ec_evidence :: "Evidence \<Rightarrow> string option"
  ec_decode :: "string \<Rightarrow> Evidence option"

abbreviation row_key :: "evidenceRow \<Rightarrow> Subject \<times> string" where
  "row_key r \<equiv> (\<lparr>su_TenantID = er_TenantID r, su_DeviceID = er_DeviceID r\<rparr>, er_Handle r)"

definition in_scope :: "Subject \<Rightarrow> string \<Rightarrow> evidenceRow \<Rightarrow> bool" where
  "in_scope subject handle r \<longleftrightarrow> er_TenantID r = su_TenantID subject \<and> er_DeviceID r = su_DeviceID subject \<and> er_Handle r = handle"

definition ValidateReport :: "Report \<Rightarrow> evidence_error + unit" where
  "ValidateReport r =
     (if rp_CollectorVersion r = [] \<or> length (rp_CollectorVersion r) > 128 \<or> length (rp_Platform r) > 64 \<or> length (rp_Distribution r) > 64
         \<or> length (ob_Version (rp_ClientVersion r)) > 128 \<or> length (ob_Version (rp_OSVersion r)) > 128
         \<or> length (ob_Status (rp_ClientVersion r)) > 64 \<or> length (ob_Status (rp_OSVersion r)) > 64
      then Inl ErrInvalidReport else Inr ())"

definition validSubject :: "Subject \<Rightarrow> string \<Rightarrow> bool" where
  "validSubject subject handle \<longleftrightarrow> su_TenantID subject \<noteq> [] \<and> length (su_TenantID subject) \<le> 64
     \<and> su_DeviceID subject \<noteq> [] \<and> length (su_DeviceID subject) \<le> 64 \<and> handle \<noteq> [] \<and> length handle \<le> 64"

definition is_peer :: "compliance_db \<Rightarrow> string \<Rightarrow> string \<Rightarrow> string \<Rightarrow> bool" where
  "is_peer db tenant device handle \<longleftrightarrow> list_ex (\<lambda>p. pr_ID p = device \<and> pr_AccountID p = tenant \<and> pr_Key p = handle) (cb_peers db)"

definition enrolled :: "faults \<Rightarrow> Subject \<Rightarrow> string \<Rightarrow> compliance_db \<Rightarrow> evidence_error + unit" where
  "enrolled F subject handle db =
     (if F (Select ''peers'') then Inl (EvidenceDb (Select ''peers''))
      else if is_peer db (su_TenantID subject) (su_DeviceID subject) handle then Inr () else Inl ErrNotEnrolled)"

definition challengeHash :: "evidence_codec \<Rightarrow> bytes \<Rightarrow> string" where
  "challengeHash K token = hex (ec_sha256 K token)"

definition fingerprint :: "evidence_codec \<Rightarrow> Report \<Rightarrow> string" where
  "fingerprint K report = hex (ec_sha256 K (ec_report K report))"

text \<open>A comparison with a null column selects no row.\<close>

definition at_most :: "instant option \<Rightarrow> instant \<Rightarrow> bool" where
  "at_most t now \<longleftrightarrow> (case t of None \<Rightarrow> False | Some t \<Rightarrow> t \<le> now)"

definition update_evidence :: "faults \<Rightarrow> string \<Rightarrow> (evidenceRow \<Rightarrow> bool) \<Rightarrow> (evidenceRow \<Rightarrow> evidenceRow) \<Rightarrow> compliance_db \<Rightarrow> evidence_error + compliance_db" where
  "update_evidence F what P f db =
     (if F (Update what) then Inl (EvidenceDb (Update what)) else Inr (db\<lparr>cb_rows := update_rows P f (cb_rows db)\<rparr>))"

definition cleared :: "evidenceRow \<Rightarrow> evidenceRow" where
  "cleared r = r\<lparr>er_EvidenceJSON := [], er_CollectorVersion := [], er_EvidenceRetainUntil := None, er_EvidenceFingerprint := [],
     er_EvidenceExpiresAt := None, er_ExpiryNotified := False\<rparr>"

definition clearExpiredEvidence :: "faults \<Rightarrow> (evidenceRow \<Rightarrow> bool) \<Rightarrow> instant \<Rightarrow> compliance_db \<Rightarrow> evidence_error + compliance_db" where
  "clearExpiredEvidence F P now db = update_evidence F ''clear'' (\<lambda>r. P r \<and> at_most (er_EvidenceRetainUntil r) now) cleared db"

section \<open>Challenges and reports\<close>

definition new_row :: "Subject \<Rightarrow> string \<Rightarrow> string \<Rightarrow> string \<Rightarrow> instant \<Rightarrow> evidenceRow" where
  "new_row subject handle epoch hash now =
     \<lparr>er_TenantID = su_TenantID subject, er_DeviceID = su_DeviceID subject, er_Handle = handle, er_ChallengeHash = hash, er_IssuedAt = now,
      er_ChallengeExpiresAt = now + ChallengeLifetime, er_EvidenceJSON = [], er_EvidenceRetainUntil = None, er_CollectorVersion = [],
      er_Generation = 0, er_EvidenceFingerprint = [], er_EvidenceExpiresAt = None, er_ExpiryNotified = False, er_NotificationPending = False,
      er_NotificationEpoch = epoch, er_NotificationRevision = 0, er_NotificationAttempt = 0, er_RetainUntil = now + ChallengeLifetime\<rparr>"

definition challenged :: "string \<Rightarrow> instant \<Rightarrow> evidenceRow \<Rightarrow> evidenceRow" where
  "challenged hash now r =
     (let deadline = now + ChallengeLifetime
      in r\<lparr>er_ChallengeHash := hash, er_IssuedAt := now, er_ChallengeExpiresAt := deadline,
           er_RetainUntil := (if er_RetainUntil r > deadline then er_RetainUntil r else deadline)\<rparr>)"

definition issue_tx :: "evidence_codec \<Rightarrow> faults \<Rightarrow> Subject \<Rightarrow> string \<Rightarrow> bytes \<Rightarrow> string \<Rightarrow> instant \<Rightarrow> compliance_db \<Rightarrow> evidence_error + (compliance_db \<times> unit)" where
  "issue_tx K F subject handle token epoch now db =
     ebind (enrolled F subject handle db) (\<lambda>_.
     ebind (clearExpiredEvidence F (in_scope subject handle) now db) (\<lambda>db.
     if F (Insert ''evidence'' 0) then Inl (EvidenceDb (Insert ''evidence'' 0))
     else Inr (db\<lparr>cb_rows := (if list_ex (in_scope subject handle) (cb_rows db)
       then update_rows (in_scope subject handle) (challenged (challengeHash K token) now) (cb_rows db)
       else cb_rows db @ [new_row subject handle epoch (challengeHash K token) now])\<rparr>, ())))"

definition Issue :: "evidence_codec \<Rightarrow> faults \<Rightarrow> Subject \<Rightarrow> string \<Rightarrow> bytes \<Rightarrow> string \<Rightarrow> instant \<Rightarrow> compliance_db
    \<Rightarrow> compliance_db \<times> (evidence_error + Challenge)" where
  "Issue K F subject handle token epoch now db =
     (if \<not> validSubject subject handle \<or> now = zero_time then (db, Inl ErrInvalidSubject)
      else (case transaction F (EvidenceDb Commit) db (issue_tx K F subject handle token epoch now) of
          (db', Inl e) \<Rightarrow> (db', Inl e)
        | (db', Inr _) \<Rightarrow> (db', Inr \<lparr>ch_Token = token, ch_ExpiresAt = now + ChallengeLifetime\<rparr>)))"

definition queue_notice :: "evidenceRow \<Rightarrow> evidenceRow" where
  "queue_notice r = r\<lparr>er_NotificationAttempt := (if er_NotificationPending r then er_NotificationAttempt r else 0),
     er_NotificationPending := True, er_NotificationRevision := er_NotificationRevision r + 1\<rparr>"

definition answers :: "evidence_codec \<Rightarrow> Subject \<Rightarrow> string \<Rightarrow> bytes \<Rightarrow> instant \<Rightarrow> evidenceRow \<Rightarrow> bool" where
  "answers K subject handle token now r \<longleftrightarrow> in_scope subject handle r
     \<and> er_ChallengeHash r = challengeHash K token \<and> er_IssuedAt r \<le> now \<and> er_ChallengeExpiresAt r > now"

definition news :: "string \<Rightarrow> instant \<Rightarrow> evidenceRow \<Rightarrow> bool" where
  "news hash now r \<longleftrightarrow> er_EvidenceFingerprint r \<noteq> hash \<or> er_EvidenceExpiresAt r = None \<or> at_most (er_EvidenceExpiresAt r) now \<or> er_ExpiryNotified r"

definition accepted :: "string \<Rightarrow> string \<Rightarrow> string \<Rightarrow> instant \<Rightarrow> evidenceRow \<Rightarrow> evidenceRow" where
  "accepted hash data collector now r =
     r\<lparr>er_EvidenceFingerprint := hash, er_EvidenceExpiresAt := Some (now + EvidenceLifetime), er_ExpiryNotified := False,
       er_ChallengeHash := [], er_EvidenceJSON := data, er_CollectorVersion := collector, er_Generation := er_Generation r + 1,
       er_RetainUntil := now + (EvidenceLifetime + EvidenceRetention),
       er_EvidenceRetainUntil := Some (now + (EvidenceLifetime + EvidenceRetention))\<rparr>"

definition evidence_of :: "Subject \<Rightarrow> Report \<Rightarrow> instant \<Rightarrow> Evidence" where
  "evidence_of subject report now =
     \<lparr>ev_Subject = subject, ev_ReceivedAt = now, ev_Provenance = SelfReported, ev_Platform = rp_Platform report,
      ev_Distribution = rp_Distribution report, ev_ClientVersion = rp_ClientVersion report, ev_OSVersion = rp_OSVersion report\<rparr>"

definition submit_tx :: "evidence_codec \<Rightarrow> faults \<Rightarrow> Subject \<Rightarrow> string \<Rightarrow> bytes \<Rightarrow> Report \<Rightarrow> string \<Rightarrow> instant \<Rightarrow> compliance_db \<Rightarrow> evidence_error + (compliance_db \<times> unit)" where
  "submit_tx K F subject handle token report data now db =
     ebind (enrolled F subject handle db) (\<lambda>_.
     let hash = fingerprint K report; valid = answers K subject handle token now
     in ebind (update_evidence F ''queue'' (\<lambda>r. valid r \<and> news hash now r) queue_notice db) (\<lambda>db.
        ebind (update_evidence F ''accept'' valid (accepted hash data (rp_CollectorVersion report) now) db) (\<lambda>db'.
        if affected valid (cb_rows db) \<noteq> 1 then Inl ErrChallenge else Inr (db', ()))))"

definition SubmitReport :: "evidence_codec \<Rightarrow> faults \<Rightarrow> Subject \<Rightarrow> string \<Rightarrow> bytes \<Rightarrow> Report \<Rightarrow> instant \<Rightarrow> compliance_db \<Rightarrow> compliance_db \<times> (evidence_error + unit)" where
  "SubmitReport K F subject handle token report now db =
     (if \<not> validSubject subject handle \<or> now = zero_time then (db, Inl ErrInvalidSubject)
      else if length token \<noteq> 32 then (db, Inl ErrChallenge)
      else (case ValidateReport report of Inl e \<Rightarrow> (db, Inl e)
      | Inr _ \<Rightarrow> (case ec_evidence K (evidence_of subject report now) of None \<Rightarrow> (db, Inl EncodeEvidence)
      | Some data \<Rightarrow> transaction F (EvidenceDb Commit) db (submit_tx K F subject handle token report data now))))"

definition latest_tx :: "faults \<Rightarrow> Subject \<Rightarrow> string \<Rightarrow> compliance_db \<Rightarrow> evidence_error + evidenceRow" where
  "latest_tx F subject handle db =
     ebind (enrolled F subject handle db) (\<lambda>_.
     if F (Select ''evidence'') then Inl (EvidenceDb (Select ''evidence''))
     else case find (in_scope subject handle) (cb_rows db) of None \<Rightarrow> Inl ErrNoEvidence
       | Some r \<Rightarrow> if F Commit then Inl (EvidenceDb Commit) else Inr r)"

definition Latest :: "evidence_codec \<Rightarrow> faults \<Rightarrow> Subject \<Rightarrow> string \<Rightarrow> instant \<Rightarrow> compliance_db \<Rightarrow> evidence_error + AcceptedEvidence" where
  "Latest K F subject handle now db =
     (if \<not> validSubject subject handle \<or> now = zero_time then Inl ErrInvalidSubject
      else ebind (latest_tx F subject handle db) (\<lambda>row.
      if er_EvidenceJSON row = [] then Inl ErrNoEvidence
      else (case ec_decode K (er_EvidenceJSON row) of None \<Rightarrow> Inl DecodeEvidence
      | Some e \<Rightarrow>
        if \<not> now < ev_ReceivedAt e + (EvidenceLifetime + EvidenceRetention) then Inl ErrNoEvidence
        else Inr \<lparr>ac_Evidence = e, ac_CollectorVersion = er_CollectorVersion row, ac_Generation = er_Generation row\<rparr>)))"

definition prune_tx :: "faults \<Rightarrow> instant \<Rightarrow> compliance_db \<Rightarrow> evidence_error + (compliance_db \<times> unit)" where
  "prune_tx F now db =
     ebind (clearExpiredEvidence F (\<lambda>_. True) now db) (\<lambda>db.
     if F (Delete ''evidence'') then Inl (EvidenceDb (Delete ''evidence''))
     else Inr (db\<lparr>cb_rows := filter (\<lambda>r. \<not> (er_RetainUntil r \<le> now \<or> \<not> is_peer db (er_TenantID r) (er_DeviceID r) (er_Handle r))) (cb_rows db)\<rparr>, ()))"

definition PruneEvidence :: "faults \<Rightarrow> instant \<Rightarrow> compliance_db \<Rightarrow> compliance_db \<times> (evidence_error + unit)" where
  "PruneEvidence F now db =
     (if now = zero_time then (db, Inl ErrInvalidSubject) else transaction F (EvidenceDb Commit) db (prune_tx F now))"

section \<open>Invalidation\<close>

text \<open>Freshness of rows written before expiry was scheduled.\<close>

definition backfill :: "evidence_codec \<Rightarrow> instant \<Rightarrow> evidenceRow \<Rightarrow> instant \<times> string" where
  "backfill K now row =
     (case ec_decode K (er_EvidenceJSON row) of
        Some e \<Rightarrow> if ev_ReceivedAt e \<noteq> zero_time
          then (ev_ReceivedAt e + EvidenceLifetime, fingerprint K \<lparr>rp_CollectorVersion = er_CollectorVersion row, rp_Platform = ev_Platform e,
                 rp_Distribution = ev_Distribution e, rp_ClientVersion = ev_ClientVersion e, rp_OSVersion = ev_OSVersion e\<rparr>)
          else (now, [])
      | None \<Rightarrow> (now, []))"

fun backfill_rows :: "evidence_codec \<Rightarrow> faults \<Rightarrow> instant \<Rightarrow> nat \<Rightarrow> evidenceRow list \<Rightarrow> compliance_db \<Rightarrow> compliance_db \<times> (evidence_error + unit)" where
  "backfill_rows K F now i [] db = (db, Inr ())"
| "backfill_rows K F now i (row # rows) db =
     (case update_evidence (\<lambda>s. F (At i s)) ''backfill''
        (\<lambda>r. row_key r = row_key row \<and> er_Generation r = er_Generation row \<and> er_EvidenceExpiresAt r = None \<and> er_EvidenceJSON r \<noteq> [])
        (\<lambda>r. (queue_notice r)\<lparr>er_EvidenceExpiresAt := Some (fst (backfill K now row)), er_EvidenceFingerprint := snd (backfill K now row),
           er_ExpiryNotified := False\<rparr>) db of
        Inl e \<Rightarrow> (db, Inl e) | Inr db' \<Rightarrow> backfill_rows K F now (Suc i) rows db')"

definition BackfillFreshness :: "evidence_codec \<Rightarrow> faults \<Rightarrow> instant \<Rightarrow> compliance_db \<Rightarrow> compliance_db \<times> (evidence_error + unit)" where
  "BackfillFreshness K F now db =
     (if now = zero_time then (db, Inl ErrInvalidSubject)
      else if F (Select ''backfill'') then (db, Inl (EvidenceDb (Select ''backfill'')))
      else backfill_rows K F now 0 (take invalidationBatch (filter (\<lambda>r. er_EvidenceExpiresAt r = None \<and> er_EvidenceJSON r \<noteq> []) (cb_rows db))) db)"

definition Expire :: "faults \<Rightarrow> instant \<Rightarrow> compliance_db \<Rightarrow> compliance_db \<times> (evidence_error + unit)" where
  "Expire F now db =
     (if now = zero_time then (db, Inl ErrInvalidSubject)
      else (case update_evidence F ''expire'' (\<lambda>r. at_most (er_EvidenceExpiresAt r) now \<and> \<not> er_ExpiryNotified r)
          (\<lambda>r. (queue_notice r)\<lparr>er_ExpiryNotified := True\<rparr>) db of Inl e \<Rightarrow> (db, Inl e) | Inr db' \<Rightarrow> (db', Inr ())))"

text \<open>A dispatch selects a batch of pending rows, stamps those of one tenant at a time, tells every peer of the tenant, and acknowledges
  what it selected if the row still has the revision it selected.\<close>

definition same_notice :: "evidenceRow \<Rightarrow> evidenceRow \<Rightarrow> bool" where
  "same_notice row r \<longleftrightarrow> row_key r = row_key row \<and> er_NotificationEpoch r = er_NotificationEpoch row
     \<and> er_NotificationRevision r = er_NotificationRevision row"

definition stamp :: "faults \<Rightarrow> instant \<Rightarrow> evidenceRow \<Rightarrow> compliance_db \<Rightarrow> evidence_error + compliance_db" where
  "stamp F now row = update_evidence F ''stamp'' (\<lambda>r. same_notice row r \<and> er_NotificationPending r)
     (\<lambda>r. r\<lparr>er_NotificationAttempt := word_of_int now\<rparr>)"

definition acknowledge :: "faults \<Rightarrow> evidenceRow \<Rightarrow> compliance_db \<Rightarrow> evidence_error + compliance_db" where
  "acknowledge F row = update_evidence F ''ack'' (same_notice row) (\<lambda>r. r\<lparr>er_NotificationPending := False\<rparr>)"

fun stamp_rows :: "faults \<Rightarrow> instant \<Rightarrow> nat \<Rightarrow> evidenceRow list \<Rightarrow> compliance_db \<Rightarrow> compliance_db \<times> (evidence_error + evidenceRow list)" where
  "stamp_rows F now i [] db = (db, Inr [])"
| "stamp_rows F now i (row # rows) db =
     (case stamp (\<lambda>s. F (At i s)) now row db of
        Inl e \<Rightarrow> (db, Inl e)
      | Inr db' \<Rightarrow> (case stamp_rows F now (Suc i) rows db' of
          (db'', Inl e) \<Rightarrow> (db'', Inl e)
        | (db'', Inr selected) \<Rightarrow>
          (db'', Inr (if affected (\<lambda>r. same_notice row r \<and> er_NotificationPending r) (cb_rows db) = 1 then row # selected else selected))))"

fun ack_rows :: "faults \<Rightarrow> nat \<Rightarrow> evidenceRow list \<Rightarrow> compliance_db \<Rightarrow> compliance_db \<times> evidence_error list" where
  "ack_rows F i [] db = (db, [])"
| "ack_rows F i (row # rows) db =
     (case acknowledge (\<lambda>s. F (At i s)) row db of
        Inl e \<Rightarrow> (case ack_rows F (Suc i) rows db of (db', es) \<Rightarrow> (db', e # es))
      | Inr db' \<Rightarrow> ack_rows F (Suc i) rows db')"

fun notify_each :: "(string \<Rightarrow> evidence_error + unit) \<Rightarrow> string list \<Rightarrow> string list \<times> (evidence_error + unit)" where
  "notify_each notify [] = ([], Inr ())"
| "notify_each notify (i # ids) =
     (case notify i of Inl e \<Rightarrow> ([], Inl e) | Inr _ \<Rightarrow> (case notify_each notify ids of (told, r) \<Rightarrow> (i # told, r)))"

definition notify_tenant :: "faults \<Rightarrow> (string \<Rightarrow> evidence_error + unit) \<Rightarrow> string \<Rightarrow> compliance_db \<Rightarrow> string list \<times> (evidence_error + unit)" where
  "notify_tenant F notify tenant db =
     (if F (Select ''peers'') then ([], Inl (EvidenceDb (Select ''peers'')))
      else notify_each notify (map pr_ID (order_asc pr_ID (filter (\<lambda>p. pr_AccountID p = tenant) (cb_peers db)))))"

definition dispatch_tenant :: "faults \<Rightarrow> instant \<Rightarrow> (string \<Rightarrow> evidence_error + unit) \<Rightarrow> string \<Rightarrow> evidenceRow list \<Rightarrow> compliance_db
    \<Rightarrow> compliance_db \<times> string list \<times> (evidence_error + evidence_error list)" where
  "dispatch_tenant F now notify tenant rows db =
     (case stamp_rows F now 0 rows db of
        (db, Inl e) \<Rightarrow> (db, [], Inl e)
      | (db, Inr selected) \<Rightarrow>
        if selected = [] then (db, [], Inr [])
        else (case notify_tenant F notify tenant db of
            (told, Inl e) \<Rightarrow> (db, told, Inr [NotifyTenant tenant e])
          | (told, Inr _) \<Rightarrow> (case ack_rows F 0 selected db of (db, es) \<Rightarrow> (db, told, Inr es))))"

fun dispatch_tenants :: "faults \<Rightarrow> instant \<Rightarrow> (string \<Rightarrow> evidence_error + unit) \<Rightarrow> evidenceRow list \<Rightarrow> nat \<Rightarrow> string list \<Rightarrow> compliance_db
    \<Rightarrow> compliance_db \<times> string list \<times> evidence_error list" where
  "dispatch_tenants F now notify rows i [] db = (db, [], [])"
| "dispatch_tenants F now notify rows i (tenant # tenants) db =
     (case dispatch_tenant (\<lambda>s. F (At i s)) now notify tenant (filter (\<lambda>r. er_TenantID r = tenant) rows) db of
        (db, told, Inl e) \<Rightarrow> (db, told, [e])
      | (db, told, Inr es) \<Rightarrow>
        (case dispatch_tenants F now notify rows (Suc i) tenants db of (db, told', es') \<Rightarrow> (db, told @ told', es @ es')))"

fun tenants_of :: "string list \<Rightarrow> evidenceRow list \<Rightarrow> string list" where
  "tenants_of seen [] = []"
| "tenants_of seen (r # rs) =
     (if er_TenantID r \<in> set seen then tenants_of seen rs else er_TenantID r # tenants_of (er_TenantID r # seen) rs)"

definition DispatchInvalidations :: "faults \<Rightarrow> instant \<Rightarrow> (string \<Rightarrow> evidence_error + unit) option \<Rightarrow> compliance_db
    \<Rightarrow> compliance_db \<times> string list \<times> (evidence_error + unit)" where
  "DispatchInvalidations F now notifyPeer db =
     (if now = zero_time then (db, [], Inl ErrInvalidSubject)
      else (case notifyPeer of None \<Rightarrow> (db, [], Inl CallbackRequired)
      | Some notify \<Rightarrow>
        if F (Select ''pending'') then (db, [], Inl (EvidenceDb (Select ''pending'')))
        else let rows = take invalidationBatch (order_asc (\<lambda>r. (sint (er_NotificationAttempt r), er_TenantID r, er_DeviceID r, er_Handle r))
                   (filter er_NotificationPending (cb_rows db)))
        in (case dispatch_tenants F now notify rows 0 (tenants_of [] rows) db of
              (db', told, es) \<Rightarrow> (db', told, if es = [] then Inr () else Inl (JoinedErrors es)))))"

definition ProcessInvalidations :: "evidence_codec \<Rightarrow> faults \<Rightarrow> instant \<Rightarrow> (string \<Rightarrow> evidence_error + unit) option \<Rightarrow> compliance_db
    \<Rightarrow> compliance_db \<times> string list \<times> (evidence_error + unit)" where
  "ProcessInvalidations K F now notifyPeer db =
     (case BackfillFreshness K F now db of
        (db, Inl e) \<Rightarrow> (db, [], Inl e)
      | (db, Inr _) \<Rightarrow> (case Expire F now db of (db, Inl e) \<Rightarrow> (db, [], Inl e)
      | (db, Inr _) \<Rightarrow> DispatchInvalidations F now notifyPeer db))"

end
