(* ===== verification/Evidence_Trust.thy ===== *)
theory Evidence_Trust
  imports Compliance_Store
begin

text \<open>Where the evidence that the compliance gates use comes from: whatever the store's operations, the invalidation worker and changes of the peer
  table do in whatever order, evidence that the store returns was reported by the device it is about, in answer to a challenge issued to
  that device less than a minute before, and no challenge is answered twice.\<close>

section \<open>The store as a system\<close>

datatype device_event =
    Issued Subject string bytes instant
  | Accepted Subject string bytes Report instant

fun event_key :: "device_event \<Rightarrow> Subject \<times> string" where
  "event_key (Issued subject handle _ _) = (subject, handle)"
| "event_key (Accepted subject handle _ _ _) = (subject, handle)"

fun is_accepted :: "device_event \<Rightarrow> bool" where
  "is_accepted (Issued _ _ _ _) = False"
| "is_accepted (Accepted _ _ _ _ _) = True"

definition last_of :: "(device_event \<Rightarrow> bool) \<Rightarrow> device_event list \<Rightarrow> device_event option" where
  "last_of P log = (case rev (filter P log) of [] \<Rightarrow> None | e # _ \<Rightarrow> Some e)"

text \<open>Every statement of the operations is a step of its own where the code runs it outside a transaction: the worker's conditional updates
  use a row it read at some earlier time.\<close>

inductive evidence_step :: "evidence_codec \<Rightarrow> compliance_db \<times> device_event list \<Rightarrow> compliance_db \<times> device_event list \<Rightarrow> bool" for K where
  issue: "Issue K F subject handle token epoch now db = (db', Inr c) \<Longrightarrow> evidence_step K (db, log) (db', log @ [Issued subject handle token now])"
| issue_failed: "Issue K F subject handle token epoch now db = (db', Inl e) \<Longrightarrow> evidence_step K (db, log) (db', log)"
| submit: "SubmitReport K F subject handle token report now db = (db', Inr ()) \<Longrightarrow> evidence_step K (db, log) (db', log @ [Accepted subject handle token report now])"
| submit_failed: "SubmitReport K F subject handle token report now db = (db', Inl e) \<Longrightarrow> evidence_step K (db, log) (db', log)"
| prune: "PruneEvidence F now db = (db', r) \<Longrightarrow> evidence_step K (db, log) (db', log)"
| backfill: "backfill_rows K F now i [row] db = (db', r) \<Longrightarrow> evidence_step K (db, log) (db', log)"
| expire: "Expire F now db = (db', r) \<Longrightarrow> evidence_step K (db, log) (db', log)"
| stamp: "stamp F now row db = Inr db' \<Longrightarrow> evidence_step K (db, log) (db', log)"
| ack: "acknowledge F row db = Inr db' \<Longrightarrow> evidence_step K (db, log) (db', log)"
| peers: "evidence_step K (db, log) (db\<lparr>cb_peers := ps\<rparr>, log)"

section \<open>Invariant\<close>

definition challenge_ok :: "evidence_codec \<Rightarrow> device_event list \<Rightarrow> evidenceRow \<Rightarrow> bool" where
  "challenge_ok K log r \<longleftrightarrow> er_ChallengeHash r \<noteq> [] \<longrightarrow>
     (\<exists>token. last_of (\<lambda>e. event_key e = row_key r) log = Some (Issued (fst (row_key r)) (snd (row_key r)) token (er_IssuedAt r))
        \<and> er_ChallengeHash r = challengeHash K token \<and> er_ChallengeExpiresAt r = er_IssuedAt r + ChallengeLifetime)"

definition stored_ok :: "evidence_codec \<Rightarrow> device_event list \<Rightarrow> evidenceRow \<Rightarrow> bool" where
  "stored_ok K log r \<longleftrightarrow> er_EvidenceJSON r \<noteq> [] \<longrightarrow>
     (\<exists>token report t. last_of (\<lambda>e. event_key e = row_key r \<and> is_accepted e) log
          = Some (Accepted (fst (row_key r)) (snd (row_key r)) token report t)
        \<and> ec_evidence K (evidence_of (fst (row_key r)) report t) = Some (er_EvidenceJSON r) \<and> er_CollectorVersion r = rp_CollectorVersion report)"

text \<open>An acceptance answers the event before it of the same device, which is the issue of its challenge.\<close>

definition answered :: "evidence_codec \<Rightarrow> device_event list \<Rightarrow> bool" where
  "answered K log \<longleftrightarrow> (\<forall>pre subject handle token report t post. log = pre @ Accepted subject handle token report t # post \<longrightarrow>
     (\<exists>token' t'. last_of (\<lambda>e. event_key e = (subject, handle)) pre = Some (Issued subject handle token' t')
        \<and> challengeHash K token' = challengeHash K token \<and> t' \<le> t \<and> t < t' + ChallengeLifetime))"

definition evidence_inv :: "evidence_codec \<Rightarrow> compliance_db \<times> device_event list \<Rightarrow> bool" where
  "evidence_inv K s \<longleftrightarrow> distinct (map row_key (cb_rows (fst s)))
     \<and> (\<forall>r\<in>set (cb_rows (fst s)). challenge_ok K (snd s) r \<and> stored_ok K (snd s) r) \<and> answered K (snd s)"

lemma last_of_snoc: "last_of P (log @ [e]) = (if P e then Some e else last_of P log)"
  by (simp add: last_of_def)

lemma last_of_split:
  assumes "last_of P log = Some e"
  shows "\<exists>pre post. log = pre @ e # post \<and> P e \<and> (\<forall>x\<in>set post. \<not> P x)"
  using assms
proof (induction log rule: rev_induct)
  case (snoc x log)
  show ?case
  proof (cases "P x")
    case True
    with snoc.prems show ?thesis by (intro exI [of _ log] exI [of _ "[]"]) (simp add: last_of_snoc)
  next
    case False
    with snoc obtain pre post where "log = pre @ e # post" "P e" "\<forall>x\<in>set post. \<not> P x" by (auto simp: last_of_snoc)
    with False show ?thesis by (intro exI [of _ pre] exI [of _ "post @ [x]"]) simp
  qed
qed (simp add: last_of_def)

lemma in_scope_key: "in_scope subject handle r \<longleftrightarrow> row_key r = (subject, handle)"
  by (cases subject) (auto simp: in_scope_def)

lemma other_key:
  assumes "row_key r \<noteq> event_key e"
  shows "challenge_ok K (log @ [e]) r = challenge_ok K log r" and "stored_ok K (log @ [e]) r = stored_ok K log r"
  using assms by (auto simp: challenge_ok_def stored_ok_def last_of_snoc)

lemma answered_snoc:
  assumes "answered K log"
    and "\<And>subject handle token report t. e = Accepted subject handle token report t \<Longrightarrow>
      \<exists>token' t'. last_of (\<lambda>e. event_key e = (subject, handle)) log = Some (Issued subject handle token' t')
        \<and> challengeHash K token' = challengeHash K token \<and> t' \<le> t \<and> t < t' + ChallengeLifetime"
  shows "answered K (log @ [e])"
  unfolding answered_def
proof (intro allI impI)
  fix pre subject handle token report t post
  assume eq: "log @ [e] = pre @ Accepted subject handle token report t # post"
  show "\<exists>token' t'. last_of (\<lambda>e. event_key e = (subject, handle)) pre = Some (Issued subject handle token' t')
        \<and> challengeHash K token' = challengeHash K token \<and> t' \<le> t \<and> t < t' + ChallengeLifetime"
  proof (cases post rule: rev_cases)
    case Nil
    with eq assms(2) show ?thesis by simp
  next
    case (snoc post' x)
    with eq have "log = pre @ Accepted subject handle token report t # post'" by simp
    with assms(1) show ?thesis unfolding answered_def by blast
  qed
qed

text \<open>Updates that leave the challenge and the evidence of a row alone, or clear the evidence.\<close>

definition harmless :: "(evidenceRow \<Rightarrow> evidenceRow) \<Rightarrow> bool" where
  "harmless f \<longleftrightarrow> (\<forall>r. row_key (f r) = row_key r \<and> er_ChallengeHash (f r) = er_ChallengeHash r \<and> er_IssuedAt (f r) = er_IssuedAt r
     \<and> er_ChallengeExpiresAt (f r) = er_ChallengeExpiresAt r
     \<and> (er_EvidenceJSON (f r) = [] \<or> er_EvidenceJSON (f r) = er_EvidenceJSON r \<and> er_CollectorVersion (f r) = er_CollectorVersion r))"

lemma harmless_row:
  assumes "harmless f"
  shows "row_key (f r) = row_key r" and "challenge_ok K log r \<Longrightarrow> challenge_ok K log (f r)" and "stored_ok K log r \<Longrightarrow> stored_ok K log (f r)"
proof -
  have f: "row_key (f r) = row_key r" "er_ChallengeHash (f r) = er_ChallengeHash r" "er_IssuedAt (f r) = er_IssuedAt r"
    "er_ChallengeExpiresAt (f r) = er_ChallengeExpiresAt r"
    "er_EvidenceJSON (f r) = [] \<or> er_EvidenceJSON (f r) = er_EvidenceJSON r \<and> er_CollectorVersion (f r) = er_CollectorVersion r"
    using assms unfolding harmless_def by blast+
  show "row_key (f r) = row_key r" by (rule f(1))
  show "challenge_ok K log r \<Longrightarrow> challenge_ok K log (f r)" unfolding challenge_ok_def f(1,2,3,4) .
  show "stored_ok K log r \<Longrightarrow> stored_ok K log (f r)" using f(5) unfolding stored_ok_def f(1) by auto
qed

lemma harmless_update:
  assumes "evidence_inv K (db, log)" and "harmless f"
  shows "evidence_inv K (db\<lparr>cb_rows := update_rows P f (cb_rows db)\<rparr>, log)"
proof -
  have "map row_key (update_rows P f (cb_rows db)) = map row_key (cb_rows db)" by (rule update_rows_keys) (rule harmless_row(1) [OF assms(2)])
  with assms(1) harmless_row(2,3) [OF assms(2)] show ?thesis unfolding evidence_inv_def by (auto simp: set_update_rows)
qed

lemma harmless_statement:
  assumes "evidence_inv K (db, log)" and "harmless f" and "update_evidence F what P f db = Inr db'"
  shows "evidence_inv K (db', log)"
  using assms harmless_update by (auto simp: update_evidence_def split: if_splits)

lemma harmless_updates [intro!]:
  "harmless cleared" "harmless queue_notice" "harmless (\<lambda>r. r\<lparr>er_NotificationAttempt := a\<rparr>)" "harmless (\<lambda>r. r\<lparr>er_NotificationPending := False\<rparr>)"
  "harmless (\<lambda>r. (queue_notice r)\<lparr>er_ExpiryNotified := True\<rparr>)"
  "harmless (\<lambda>r. (queue_notice r)\<lparr>er_EvidenceExpiresAt := x, er_EvidenceFingerprint := y, er_ExpiryNotified := False\<rparr>)"
  by (simp_all add: harmless_def cleared_def queue_notice_def)

lemma inv_filter:
  assumes "evidence_inv K (db, log)"
  shows "evidence_inv K (db\<lparr>cb_rows := filter P (cb_rows db)\<rparr>, log)"
  using assms by (auto simp: evidence_inv_def distinct_map inj_on_def)

section \<open>Issue and submission\<close>

lemma unscoped:
  assumes "distinct (map row_key rows)" and "r \<in> set rows" and "row_key r = k" and "q \<in> set rows" and "row_key q = k"
  shows "q = r"
  using assms by (auto simp: distinct_map dest: inj_onD)

lemma inv_issue:
  assumes inv: "evidence_inv K (db, log)" and i: "Issue K F subject handle token epoch now db = (db', Inr c)"
  shows "evidence_inv K (db', log @ [Issued subject handle token now])"
proof -
  obtain db1 where c: "clearExpiredEvidence F (in_scope subject handle) now db = Inr db1"
    and db': "db' = db1\<lparr>cb_rows := (if list_ex (in_scope subject handle) (cb_rows db1)
       then update_rows (in_scope subject handle) (challenged (challengeHash K token) now) (cb_rows db1)
       else cb_rows db1 @ [new_row subject handle epoch (challengeHash K token) now])\<rparr>"
    using i by (auto simp: Issue_def issue_tx_def transaction_ok split: if_splits prod.splits sum.splits elim!: ebindE)
  have inv1: "evidence_inv K (db1, log)" by (rule harmless_statement [OF inv harmless_updates(1) c [unfolded clearExpiredEvidence_def]])
  let ?e = "Issued subject handle token now" and ?f = "challenged (challengeHash K token) now"
  have ans: "answered K (log @ [?e])" using inv1 by (intro answered_snoc) (auto simp: evidence_inv_def)
  have key: "row_key (?f r) = row_key r" for r by (simp add: challenged_def Let_def)
  have old: "challenge_ok K (log @ [?e]) r \<and> stored_ok K (log @ [?e]) r" if "r \<in> set (cb_rows db1)" "\<not> in_scope subject handle r" for r
    using inv1 that other_key [of r ?e K log] by (auto simp: evidence_inv_def in_scope_key)
  have new: "challenge_ok K (log @ [?e]) (?f r) \<and> stored_ok K (log @ [?e]) (?f r)" if "r \<in> set (cb_rows db1)" "in_scope subject handle r" for r
  proof
    show "challenge_ok K (log @ [?e]) (?f r)"
      using that(2) unfolding in_scope_key by (auto simp: challenge_ok_def last_of_snoc challenged_def Let_def)
    have "stored_ok K log r" using inv1 that(1) by (simp add: evidence_inv_def)
    then show "stored_ok K (log @ [?e]) (?f r)" by (auto simp: stored_ok_def last_of_snoc challenged_def Let_def)
  qed
  show ?thesis
  proof (cases "list_ex (in_scope subject handle) (cb_rows db1)")
    case True
    have "map row_key (update_rows (in_scope subject handle) ?f (cb_rows db1)) = map row_key (cb_rows db1)" by (rule update_rows_keys) (rule key)
    with inv1 True old new ans show ?thesis by (auto simp: evidence_inv_def db' set_update_rows)
  next
    case False
    let ?r = "new_row subject handle epoch (challengeHash K token) now"
    have "row_key ?r = (subject, handle)" by (simp add: new_row_def)
    with False have "row_key ?r \<notin> row_key ` set (cb_rows db1)" by (auto simp: list_ex_iff in_scope_key)
    moreover have "challenge_ok K (log @ [?e]) ?r \<and> stored_ok K (log @ [?e]) ?r"
      by (simp add: challenge_ok_def stored_ok_def last_of_snoc new_row_def)
    ultimately show ?thesis using inv1 False old ans by (auto simp: evidence_inv_def db' list_ex_iff)
  qed
qed

lemma inv_submit:
  assumes inv: "evidence_inv K (db, log)" and sub: "SubmitReport K F subject handle token report now db = (db', Inr ())"
    and len: "\<And>x. length (ec_sha256 K x) = 32"
  shows "evidence_inv K (db', log @ [Accepted subject handle token report now])"
proof -
  let ?e = "Accepted subject handle token report now" and ?v = "answers K subject handle token now" and ?h = "fingerprint K report"
  obtain data db1 where data: "ec_evidence K (evidence_of subject report now) = Some data"
    and q: "update_evidence F ''queue'' (\<lambda>r. ?v r \<and> news ?h now r) queue_notice db = Inr db1"
    and a: "db' = db1\<lparr>cb_rows := update_rows ?v (accepted ?h data (rp_CollectorVersion report) now) (cb_rows db1)\<rparr>"
    and one: "affected ?v (cb_rows db1) = 1"
    using sub by (auto simp: SubmitReport_def submit_tx_def transaction_ok Let_def update_evidence_def split: if_splits sum.splits option.splits elim!: ebindE)
  have inv1: "evidence_inv K (db1, log)" by (rule harmless_statement [OF inv harmless_updates(2) q])
  from one obtain r0 where r0: "r0 \<in> set (cb_rows db1)" "?v r0" unfolding affected_def by (metis One_nat_def filter_eq_ConsD in_set_conv_decomp length_Suc_conv)
  then have k0: "row_key r0 = (subject, handle)" by (simp add: answers_def in_scope_key)
  have "length (challengeHash K token) = 64" by (simp add: challengeHash_def length_hex len)
  then have hash: "challengeHash K token \<noteq> []" by auto
  have "challenge_ok K log r0" using inv1 r0(1) by (simp add: evidence_inv_def)
  with r0(2) k0 hash obtain token' where "last_of (\<lambda>e. event_key e = (subject, handle)) log = Some (Issued subject handle token' (er_IssuedAt r0))"
      "challengeHash K token = challengeHash K token'" "er_ChallengeExpiresAt r0 = er_IssuedAt r0 + ChallengeLifetime"
    by (auto simp: challenge_ok_def answers_def)
  then have "answered K (log @ [?e])" using inv1 r0(2) by (intro answered_snoc) (auto simp: evidence_inv_def answers_def)
  moreover have "challenge_ok K (log @ [?e]) (accepted ?h data (rp_CollectorVersion report) now r0)
      \<and> stored_ok K (log @ [?e]) (accepted ?h data (rp_CollectorVersion report) now r0)"
    using k0 data by (auto simp: challenge_ok_def stored_ok_def accepted_def last_of_snoc)
  moreover have "challenge_ok K (log @ [?e]) r \<and> stored_ok K (log @ [?e]) r \<and> \<not> ?v r" if "r \<in> set (cb_rows db1)" "r \<noteq> r0" for r
  proof -
    have "row_key r \<noteq> (subject, handle)" using unscoped [of "cb_rows db1" r0 "(subject, handle)" r] inv1 r0(1) k0 that by (auto simp: evidence_inv_def)
    with inv1 that(1) other_key [of r ?e K log] show ?thesis by (auto simp: evidence_inv_def answers_def in_scope_key)
  qed
  moreover have "map row_key (update_rows ?v (accepted ?h data (rp_CollectorVersion report) now) (cb_rows db1)) = map row_key (cb_rows db1)"
    by (rule update_rows_keys) (simp add: accepted_def)
  ultimately show ?thesis using inv1 r0 by (auto simp: evidence_inv_def a set_update_rows)
qed

lemma Issue_failed: "Issue K F subject handle token epoch now db = (db', Inl e) \<Longrightarrow> db' = db"
  by (auto simp: Issue_def transaction_def split: if_splits prod.splits sum.splits)

lemma SubmitReport_failed: "SubmitReport K F subject handle token report now db = (db', Inl e) \<Longrightarrow> db' = db"
  by (auto simp: SubmitReport_def dest: transaction_error split: if_splits sum.splits option.splits)

lemma inv_prune:
  assumes "evidence_inv K (db, log)" and "PruneEvidence F now db = (db', r)"
  shows "evidence_inv K (db', log)"
proof (cases r)
  case (Inl e)
  with assms show ?thesis by (auto simp: PruneEvidence_def dest: transaction_error split: if_splits)
next
  case (Inr u)
  with assms(2) obtain db1 where "clearExpiredEvidence F (\<lambda>_. True) now db = Inr db1" "db' = db1\<lparr>cb_rows := filter (\<lambda>r. \<not> (er_RetainUntil r \<le> now \<or> \<not> is_peer db1 (er_TenantID r) (er_DeviceID r) (er_Handle r))) (cb_rows db1)\<rparr>"
    by (auto simp: PruneEvidence_def prune_tx_def transaction_ok split: if_splits elim!: ebindE)
  with harmless_statement [OF assms(1) harmless_updates(1)] inv_filter show ?thesis unfolding clearExpiredEvidence_def by metis
qed

lemma inv_step:
  assumes "evidence_step K s s'" and "evidence_inv K s" and len: "\<And>x. length (ec_sha256 K x) = 32"
  shows "evidence_inv K s'"
  using assms(1,2)
proof (induction rule: evidence_step.induct)
  case (backfill F now i row db db' r log)
  then show ?case by (auto dest: harmless_statement [OF _ harmless_updates(6)] split: sum.splits)
next
  case (expire F now db db' r log)
  then show ?case by (auto simp: Expire_def dest: harmless_statement [OF _ harmless_updates(5)] split: sum.splits if_splits)
next
  case (stamp F now row db db' log)
  then show ?case unfolding stamp_def by (auto dest: harmless_statement [OF _ harmless_updates(3)])
next
  case (ack F row db db' log)
  then show ?case unfolding acknowledge_def by (auto dest: harmless_statement [OF _ harmless_updates(4)])
next
  case (peers db log ps)
  then show ?case by (simp add: evidence_inv_def)
qed (auto intro: inv_issue inv_submit inv_prune len dest: Issue_failed SubmitReport_failed)

lemma inv_run:
  assumes "(evidence_step K)\<^sup>*\<^sup>* s s'" and "evidence_inv K s" and "\<And>x. length (ec_sha256 K x) = 32"
  shows "evidence_inv K s'"
  using assms(1,2) by (induction rule: rtranclp_induct) (auto intro: inv_step assms(3))

lemma inv_empty: "evidence_inv K (\<lparr>cb_rows = [], cb_peers = ps\<rparr>, [])"
  by (simp add: evidence_inv_def answered_def)

section \<open>Evidence\<close>

lemma Latest_row:
  assumes "Latest K F subject handle now db = Inr a"
  obtains r where "r \<in> set (cb_rows db)" "row_key r = (subject, handle)" "er_EvidenceJSON r \<noteq> []" "ec_decode K (er_EvidenceJSON r) = Some (ac_Evidence a)"
    "ac_CollectorVersion a = er_CollectorVersion r" "is_peer db (su_TenantID subject) (su_DeviceID subject) handle"
proof -
  obtain r where "find (in_scope subject handle) (cb_rows db) = Some r" "er_EvidenceJSON r \<noteq> []" "ec_decode K (er_EvidenceJSON r) = Some (ac_Evidence a)"
    "ac_CollectorVersion a = er_CollectorVersion r" "is_peer db (su_TenantID subject) (su_DeviceID subject) handle"
    using assms by (auto simp: Latest_def latest_tx_def enrolled_def split: if_splits option.splits elim!: ebindE)
  with find_Some_in [of "in_scope subject handle" "cb_rows db" r] that in_scope_key show thesis by blast
qed

text \<open>C6. Evidence answers a fresh challenge. After any run of the store, its workers and the peer table, evidence that Latest returns for a device is what
  the last accepted report of that very device and handle observed, at the time the server received it; the event of that device before that report is the
  issue of the challenge it answers, at most a minute earlier, so no challenge was answered twice; and the device is enrolled now.
  (SHA-256 digests have 32 bytes, and decoding undoes the encoding of evidence.)\<close>

theorem evidence_answers_fresh_challenge:
  assumes "(evidence_step K)\<^sup>*\<^sup>* (\<lparr>cb_rows = [], cb_peers = ps\<rparr>, []) (db, log)" and "\<forall>x. length (ec_sha256 K x) = 32"
    and "\<forall>e data. ec_evidence K e = Some data \<longrightarrow> ec_decode K data = Some e"
    and "Latest K F subject handle now db = Inr a"
  shows "is_peer db (su_TenantID subject) (su_DeviceID subject) handle
     \<and> (\<exists>before token t between token' report t' after.
        log = before @ Issued subject handle token t # between @ Accepted subject handle token' report t' # after
      \<and> (\<forall>e\<in>set between. event_key e \<noteq> (subject, handle)) \<and> (\<forall>e\<in>set after. event_key e = (subject, handle) \<longrightarrow> \<not> is_accepted e)
      \<and> ec_sha256 K token = ec_sha256 K token' \<and> t \<le> t' \<and> t' < t + ChallengeLifetime
      \<and> ac_Evidence a = evidence_of subject report t' \<and> ac_CollectorVersion a = rp_CollectorVersion report)"
proof -
  have inv: "evidence_inv K (db, log)" using inv_run [OF assms(1) inv_empty] assms(2) by blast
  then have ans: "answered K log" by (simp add: evidence_inv_def)
  obtain r where r: "r \<in> set (cb_rows db)" "row_key r = (subject, handle)" "er_EvidenceJSON r \<noteq> []" "ec_decode K (er_EvidenceJSON r) = Some (ac_Evidence a)"
    "ac_CollectorVersion a = er_CollectorVersion r" and peer: "is_peer db (su_TenantID subject) (su_DeviceID subject) handle"
    by (rule Latest_row [OF assms(4)])
  have "stored_ok K log r" using inv r(1) by (simp add: evidence_inv_def)
  with r(2,3) obtain token' report t' where l: "last_of (\<lambda>e. event_key e = (subject, handle) \<and> is_accepted e) log = Some (Accepted subject handle token' report t')"
    and e: "ec_evidence K (evidence_of subject report t') = Some (er_EvidenceJSON r)" "er_CollectorVersion r = rp_CollectorVersion report"
    by (auto simp: stored_ok_def)
  obtain pre after where pre: "log = pre @ Accepted subject handle token' report t' # after" "\<forall>e\<in>set after. \<not> (event_key e = (subject, handle) \<and> is_accepted e)"
    using last_of_split [OF l] by blast
  obtain token t where i: "last_of (\<lambda>e. event_key e = (subject, handle)) pre = Some (Issued subject handle token t)"
    "challengeHash K token = challengeHash K token'" "t \<le> t'" "t' < t + ChallengeLifetime"
    using ans pre(1) unfolding answered_def by blast
  obtain before between where "pre = before @ Issued subject handle token t # between" "\<forall>e\<in>set between. event_key e \<noteq> (subject, handle)"
    using last_of_split [OF i(1)] by blast
  moreover have "ec_sha256 K token = ec_sha256 K token'" using i(2) hex_inj unfolding challengeHash_def by blast
  moreover have "ac_Evidence a = evidence_of subject report t'" using assms(3) e(1) r(4) by auto
  ultimately show ?thesis using peer pre i(3,4) r(5) e(2) by (intro conjI exI [of _ before] exI [of _ token] exI [of _ t] exI [of _ between] exI [of _ token'] exI [of _ report] exI [of _ t'] exI [of _ after]) auto
qed

text \<open>One device is challenged, answers ten seconds later, and is asked for after another ten.\<close>

definition demo_subject :: Subject where "demo_subject = \<lparr>su_TenantID = ''acct'', su_DeviceID = ''dev''\<rparr>"

definition demo_report :: Report where
  "demo_report = \<lparr>rp_CollectorVersion = ''1'', rp_Platform = Linux, rp_Distribution = ''debian'',
     rp_ClientVersion = \<lparr>ob_Status = Collected, ob_Version = ''1.2.0''\<rparr>, rp_OSVersion = \<lparr>ob_Status = Collected, ob_Version = ''12''\<rparr>\<rparr>"

definition demo_stored :: Evidence where "demo_stored = evidence_of demo_subject demo_report (seconds 1010)"

definition demo_evidence_codec :: evidence_codec where
  "demo_evidence_codec = \<lparr>ec_sha256 = (\<lambda>_. replicate 32 (CHR ''x'')), ec_report = (\<lambda>_. ''R''),
     ec_evidence = (\<lambda>e. if e = demo_stored then Some ''E'' else None), ec_decode = (\<lambda>s. if s = ''E'' then Some demo_stored else None)\<rparr>"

definition demo_token :: bytes where "demo_token = replicate 32 (CHR ''t'')"

definition demo_peers :: compliance_db where
  "demo_peers = \<lparr>cb_rows = [], cb_peers = [\<lparr>pr_ID = ''dev'', pr_AccountID = ''acct'', pr_Key = ''key''\<rparr>]\<rparr>"

definition demo_issued :: compliance_db where
  "demo_issued = demo_peers\<lparr>cb_rows := [new_row demo_subject ''key'' ''epoch'' (challengeHash demo_evidence_codec demo_token) (seconds 1000)]\<rparr>"

definition demo_accepted :: compliance_db where
  "demo_accepted = demo_peers\<lparr>cb_rows := [accepted (fingerprint demo_evidence_codec demo_report) ''E'' ''1'' (seconds 1010)
     (queue_notice (new_row demo_subject ''key'' ''epoch'' (challengeHash demo_evidence_codec demo_token) (seconds 1000)))]\<rparr>"

lemma demo_issue:
  "\<exists>c. Issue demo_evidence_codec no_faults demo_subject ''key'' demo_token ''epoch'' (seconds 1000) demo_peers = (demo_issued, Inr c)"
  by (simp add: Issue_def issue_tx_def transaction_def enrolled_def is_peer_def clearExpiredEvidence_def update_evidence_def update_rows_def no_faults_def
      demo_issued_def demo_peers_def validSubject_def demo_subject_def zero_time_def)

lemma demo_submit:
  "SubmitReport demo_evidence_codec no_faults demo_subject ''key'' demo_token demo_report (seconds 1010) demo_issued = (demo_accepted, Inr ())"
proof -
  let ?r = "new_row demo_subject ''key'' ''epoch'' (challengeHash demo_evidence_codec demo_token) (seconds 1000)"
  have "ValidateReport demo_report = Inr ()" by (simp add: ValidateReport_def demo_report_def Linux_def Collected_def)
  moreover have "ec_evidence demo_evidence_codec (evidence_of demo_subject demo_report (seconds 1010)) = Some ''E''"
    by (simp add: demo_evidence_codec_def demo_stored_def)
  moreover have "validSubject demo_subject ''key''" "is_peer demo_issued ''acct'' ''dev'' ''key''" "length demo_token = 32" "rp_CollectorVersion demo_report = ''1''"
    by (simp_all add: validSubject_def demo_subject_def is_peer_def demo_issued_def demo_peers_def demo_token_def demo_report_def)
  moreover have "su_TenantID demo_subject = ''acct''" "su_DeviceID demo_subject = ''dev''" by (simp_all add: demo_subject_def)
  moreover have "answers demo_evidence_codec demo_subject ''key'' demo_token (seconds 1010) ?r"
      "answers demo_evidence_codec demo_subject ''key'' demo_token (seconds 1010) (queue_notice ?r)"
    by (simp_all add: answers_def in_scope_def new_row_def queue_notice_def ChallengeLifetime_def)
  moreover have "news h (seconds 1010) ?r" for h by (simp add: news_def new_row_def)
  ultimately show ?thesis
    by (simp add: SubmitReport_def submit_tx_def transaction_def enrolled_def update_evidence_def update_rows_def affected_def no_faults_def Let_def
        demo_issued_def demo_accepted_def demo_peers_def zero_time_def)
qed

lemma demo_latest:
  "\<exists>a. Latest demo_evidence_codec no_faults demo_subject ''key'' (seconds 1020) demo_accepted = Inr a"
  by (simp add: Latest_def latest_tx_def enrolled_def is_peer_def no_faults_def demo_accepted_def demo_peers_def validSubject_def demo_subject_def zero_time_def
      in_scope_def accepted_def queue_notice_def new_row_def demo_evidence_codec_def demo_stored_def evidence_of_def EvidenceLifetime_def EvidenceRetention_def)

theorem evidence_answers_fresh_challenge_witness:
  "\<exists>a before token t between token' report t' after. Latest demo_evidence_codec no_faults demo_subject ''key'' (seconds 1020) demo_accepted = Inr a
     \<and> [Issued demo_subject ''key'' demo_token (seconds 1000), Accepted demo_subject ''key'' demo_token demo_report (seconds 1010)]
       = before @ Issued demo_subject ''key'' token t # between @ Accepted demo_subject ''key'' token' report t' # after
     \<and> t \<le> t' \<and> t' < t + ChallengeLifetime \<and> ac_Evidence a = evidence_of demo_subject report t'"
proof -
  let ?log = "[Issued demo_subject ''key'' demo_token (seconds 1000), Accepted demo_subject ''key'' demo_token demo_report (seconds 1010)]"
  obtain c where c: "Issue demo_evidence_codec no_faults demo_subject ''key'' demo_token ''epoch'' (seconds 1000) demo_peers = (demo_issued, Inr c)" using demo_issue by blast
  have "evidence_step demo_evidence_codec (demo_peers, []) (demo_issued, [Issued demo_subject ''key'' demo_token (seconds 1000)])"
    using issue [OF c, of "[]"] by simp
  moreover have "evidence_step demo_evidence_codec (demo_issued, [Issued demo_subject ''key'' demo_token (seconds 1000)]) (demo_accepted, ?log)"
    using submit [OF demo_submit, of "[Issued demo_subject ''key'' demo_token (seconds 1000)]"] by simp
  ultimately have run: "(evidence_step demo_evidence_codec)\<^sup>*\<^sup>* (\<lparr>cb_rows = [], cb_peers = cb_peers demo_peers\<rparr>, []) (demo_accepted, ?log)"
    by (simp add: demo_peers_def)
  have len: "\<forall>x. length (ec_sha256 demo_evidence_codec x) = 32" by (simp add: demo_evidence_codec_def)
  have dec: "\<forall>e data. ec_evidence demo_evidence_codec e = Some data \<longrightarrow> ec_decode demo_evidence_codec data = Some e"
    by (simp add: demo_evidence_codec_def)
  obtain a where a: "Latest demo_evidence_codec no_faults demo_subject ''key'' (seconds 1020) demo_accepted = Inr a" using demo_latest by blast
  from evidence_answers_fresh_challenge [OF run len dec a] a show ?thesis by blast
qed

end
