(* ===== verification/Usage_Ledger.thy ===== *)
theory Usage_Ledger
  imports Billing_Store
begin

text \<open>The device lifecycle ledger (usage/lifecycle.go) and its checkpoints (usage/checkpoint.go): every enrollment and revocation of a device of an
  account is an event with the next sequence number; a checkpoint keeps the device count at a boundary so that the events before it can be removed.
  The 64-bit columns are integers here: the code refuses to count past the largest one. SHA-256 is a parameter. Calls are made inside a database transaction,
  as the code requires.\<close>

section \<open>Tables\<close>

definition Enrolled :: string where "Enrolled = ''enrolled''"

definition Revoked :: string where "Revoked = ''revoked''"

lemma kinds_differ [simp]: "Enrolled \<noteq> Revoked" "Revoked \<noteq> Enrolled"
  by (simp_all add: Enrolled_def Revoked_def)

definition MaxInt64 :: int where "MaxInt64 = 2 ^ 63 - 1"

record Change =
  ck_ID :: string
  ck_AccountID :: string
  ck_GenerationID :: string
  ck_Kind :: string
  ck_At :: instant

record usage_stream =
  st_AccountID :: string
  st_Sequence :: int
  st_LastAtUS :: int

record usage_event =
  ue_AccountID :: string
  ue_ID :: string
  ue_Sequence :: int
  ue_GenerationID :: string
  ue_Kind :: string
  ue_AtUS :: int

record deviceCheckpoint =
  dc_AccountID :: string
  dc_Sequence :: int
  dc_BoundaryUS :: int
  dc_DeviceCount :: int
  dc_PreviousSeq :: int
  dc_PreviousDigest :: string
  dc_RangeDigest :: string
  dc_SourceDigest :: string
  dc_CreatedAt :: instant

record checkpointState =
  cs_Sequence :: int
  cs_BoundaryUS :: int
  cs_DeviceCount :: int
  cs_SourceDigest :: string

record ledger =
  lg_streams :: "usage_stream list"
  lg_events :: "usage_event list"
  lg_checkpoints :: "deviceCheckpoint list"

datatype usage_error = ErrInvalid | ErrConflict | ErrCheckpoint | ErrReportLimit | ErrMapping | RetentionWindow | Membership | UsageDb stmt

definition micro :: "instant \<Rightarrow> int" where "micro t = t div 1000"

definition validTime :: "instant \<Rightarrow> bool" where
  "validTime t \<longleftrightarrow> \<not> t < 0 \<and> t < year10000 \<and> t mod 1000 = 0"

definition validID :: "string \<Rightarrow> bool" where
  "validID s \<longleftrightarrow> 0 < length s \<and> length s \<le> 128"

section \<open>Checkpoints\<close>

definition writeInt64 :: "int \<Rightarrow> bytes" where
  "writeInt64 v = putUint64 (word_of_int v)"

definition writeString :: "string \<Rightarrow> bytes" where
  "writeString v = writeInt64 (int (length v)) @ v"

definition digestEvent :: "usage_event \<Rightarrow> bytes" where
  "digestEvent e = writeString (ue_AccountID e) @ writeString (ue_ID e) @ writeInt64 (ue_Sequence e) @ writeString (ue_GenerationID e)
     @ writeString (ue_Kind e) @ writeInt64 (ue_AtUS e)"

definition checkpointDigest :: "(bytes \<Rightarrow> bytes) \<Rightarrow> string \<Rightarrow> int \<Rightarrow> string \<Rightarrow> int \<Rightarrow> int \<Rightarrow> int \<Rightarrow> string \<Rightarrow> string" where
  "checkpointDigest H accountID previousSequence previousDigest sequence boundaryUS deviceCount rangeDigest =
     hex (H (writeString ''karst-device-usage-checkpoint-v1'' @ writeString accountID @ writeInt64 previousSequence @ writeString previousDigest
       @ writeInt64 sequence @ writeInt64 boundaryUS @ writeInt64 deviceCount @ writeString rangeDigest))"

text \<open>A digest column holds 32 bytes in lower-case hexadecimal.\<close>

definition validDigest :: "string \<Rightarrow> bool" where
  "validDigest v \<longleftrightarrow> length v = 64 \<and> list_all (\<lambda>c. digit c \<or> (CHR ''a'' \<le> c \<and> c \<le> CHR ''f'')) v"

definition checkpoint_state :: "deviceCheckpoint \<Rightarrow> checkpointState" where
  "checkpoint_state row = \<lparr>cs_Sequence = dc_Sequence row, cs_BoundaryUS = dc_BoundaryUS row, cs_DeviceCount = dc_DeviceCount row,
     cs_SourceDigest = dc_SourceDigest row\<rparr>"

definition no_checkpoint :: checkpointState where
  "no_checkpoint = \<lparr>cs_Sequence = 0, cs_BoundaryUS = 0, cs_DeviceCount = 0, cs_SourceDigest = []\<rparr>"

fun check_chain :: "(bytes \<Rightarrow> bytes) \<Rightarrow> string \<Rightarrow> checkpointState \<Rightarrow> deviceCheckpoint list \<Rightarrow> bool" where
  "check_chain H accountID previous [] = True"
| "check_chain H accountID previous (row # rows) =
     (if dc_PreviousSeq row \<noteq> cs_Sequence previous \<or> dc_Sequence row \<le> cs_Sequence previous \<or> dc_BoundaryUS row \<le> cs_BoundaryUS previous
         \<or> dc_DeviceCount row < 0 \<or> \<not> validDigest (dc_RangeDigest row) \<or> dc_PreviousDigest row \<noteq> cs_SourceDigest previous
         \<or> \<not> validDigest (dc_SourceDigest row)
         \<or> checkpointDigest H accountID (dc_PreviousSeq row) (dc_PreviousDigest row) (dc_Sequence row) (dc_BoundaryUS row) (dc_DeviceCount row)
             (dc_RangeDigest row) \<noteq> dc_SourceDigest row
      then False else check_chain H accountID (checkpoint_state row) rows)"

definition account_checkpoints :: "string \<Rightarrow> 'a ledger_scheme \<Rightarrow> deviceCheckpoint list" where
  "account_checkpoints accountID db = order_asc dc_Sequence (filter (\<lambda>r. dc_AccountID r = accountID) (lg_checkpoints db))"

definition readCheckpoints :: "(bytes \<Rightarrow> bytes) \<Rightarrow> faults \<Rightarrow> string \<Rightarrow> 'a ledger_scheme \<Rightarrow> usage_error + checkpointState list" where
  "readCheckpoints H F accountID db =
     (if F (Select ''checkpoints'') then Inl (UsageDb (Select ''checkpoints''))
      else if \<not> check_chain H accountID no_checkpoint (account_checkpoints accountID db) then Inl ErrCheckpoint
      else Inr (map checkpoint_state (account_checkpoints accountID db)))"

definition checkpointAt :: "(bytes \<Rightarrow> bytes) \<Rightarrow> faults \<Rightarrow> string \<Rightarrow> int \<Rightarrow> 'a ledger_scheme \<Rightarrow> usage_error + checkpointState" where
  "checkpointAt H F accountID atUS db =
     ebind (readCheckpoints H F accountID db) (\<lambda>rows.
     let selected = (case rev (takeWhile (\<lambda>r. \<not> cs_BoundaryUS r > atUS) rows) of [] \<Rightarrow> no_checkpoint | r # _ \<Rightarrow> r)
     in if cs_Sequence selected = 0 \<and> length rows > 0 then Inl ErrCheckpoint else Inr selected)"

text \<open>The events of an account after a checkpoint, in order.\<close>

definition events_after :: "string \<Rightarrow> int \<Rightarrow> (int \<Rightarrow> bool) \<Rightarrow> 'a ledger_scheme \<Rightarrow> usage_event list" where
  "events_after accountID sequence P db =
     order_asc ue_Sequence (filter (\<lambda>e. ue_AccountID e = accountID \<and> ue_Sequence e > sequence \<and> P (ue_AtUS e)) (lg_events db))"

definition delta_of :: "usage_event \<Rightarrow> int" where
  "delta_of e = (if ue_Kind e = Enrolled then 1 else - 1)"

definition openingCount :: "faults \<Rightarrow> string \<Rightarrow> int \<Rightarrow> checkpointState \<Rightarrow> 'a ledger_scheme \<Rightarrow> usage_error + (int \<times> int)" where
  "openingCount F accountID atUS checkpoint db =
     (if F (Select ''opening'') then Inl (UsageDb (Select ''opening''))
      else let rows = events_after accountID (cs_Sequence checkpoint) (\<lambda>t. t \<le> atUS) db; delta = sum_list (map delta_of rows)
      in if rows \<noteq> [] \<and> int (length rows) \<noteq> Max (ue_Sequence ` set rows) - cs_Sequence checkpoint then Inl ErrCheckpoint
         else if (delta > 0 \<and> cs_DeviceCount checkpoint > MaxInt64 - delta) \<or> (delta < 0 \<and> cs_DeviceCount checkpoint < - delta) then Inl ErrCheckpoint
         else if cs_DeviceCount checkpoint + delta < 0 then Inl ErrCheckpoint
         else Inr (cs_DeviceCount checkpoint + delta, if rows = [] then cs_Sequence checkpoint else Max (ue_Sequence ` set rows)))"

section \<open>Appending\<close>

definition find_stream :: "string \<Rightarrow> 'a ledger_scheme \<Rightarrow> usage_stream option" where
  "find_stream accountID db = find (\<lambda>s. st_AccountID s = accountID) (lg_streams db)"

definition ensure_stream :: "string \<Rightarrow> 'a ledger_scheme \<Rightarrow> 'a ledger_scheme" where
  "ensure_stream accountID db =
     db\<lparr>lg_streams := insert_new st_AccountID \<lparr>st_AccountID = accountID, st_Sequence = 0, st_LastAtUS = 0\<rparr> (lg_streams db)\<rparr>"

definition generation_events :: "string \<Rightarrow> string \<Rightarrow> 'a ledger_scheme \<Rightarrow> usage_event list" where
  "generation_events accountID generation db =
     order_asc ue_Sequence (filter (\<lambda>e. ue_AccountID e = accountID \<and> ue_GenerationID e = generation) (lg_events db))"

definition append_event :: "faults \<Rightarrow> Change \<Rightarrow> usage_stream \<Rightarrow> 'a ledger_scheme \<Rightarrow> usage_error + 'a ledger_scheme" where
  "append_event F c state db =
     (let row = \<lparr>ue_AccountID = ck_AccountID c, ue_ID = ck_ID c, ue_Sequence = st_Sequence state + 1, ue_GenerationID = ck_GenerationID c,
            ue_Kind = ck_Kind c, ue_AtUS = micro (ck_At c)\<rparr>
      in if F (Insert ''events'' 0) then Inl (UsageDb (Insert ''events'' 0))
         else if F (Update ''streams'') then Inl (UsageDb (Update ''streams''))
         else Inr (db\<lparr>lg_events := lg_events db @ [row],
             lg_streams := update_rows (\<lambda>s. st_AccountID s = ck_AccountID c) (\<lambda>s. s\<lparr>st_Sequence := ue_Sequence row, st_LastAtUS := ue_AtUS row\<rparr>) (lg_streams db)\<rparr>))"

definition AppendChange :: "(bytes \<Rightarrow> bytes) \<Rightarrow> faults \<Rightarrow> Change \<Rightarrow> 'a ledger_scheme \<Rightarrow> usage_error + 'a ledger_scheme" where
  "AppendChange H F c db =
     (if \<not> validID (ck_ID c) \<or> \<not> validID (ck_AccountID c) \<or> \<not> validID (ck_GenerationID c)
         \<or> (ck_Kind c \<noteq> Enrolled \<and> ck_Kind c \<noteq> Revoked) \<or> \<not> validTime (ck_At c) then Inl ErrInvalid
      else if F (Insert ''streams'' 0) then Inl (UsageDb (Insert ''streams'' 0))
      else if F (Update ''lock'') then Inl (UsageDb (Update ''lock''))
      else if F (Select ''prior'') then Inl (UsageDb (Select ''prior''))
      else let db = ensure_stream (ck_AccountID c) db
      in (case find (\<lambda>e. ue_AccountID e = ck_AccountID c \<and> ue_ID e = ck_ID c) (lg_events db) of
          Some prior \<Rightarrow>
            if ue_GenerationID prior = ck_GenerationID c \<and> ue_Kind prior = ck_Kind c \<and> ue_AtUS prior = micro (ck_At c) then Inr db else Inl ErrConflict
        | None \<Rightarrow>
          ebind (readCheckpoints H F (ck_AccountID c) db) (\<lambda>checkpoints.
          if checkpoints \<noteq> [] \<and> micro (ck_At c) \<le> cs_BoundaryUS (last checkpoints) then Inl ErrConflict
          else if F (Select ''streams'') then Inl (UsageDb (Select ''streams''))
          else (case find_stream (ck_AccountID c) db of None \<Rightarrow> Inl (UsageDb (Select ''streams''))
          | Some state \<Rightarrow>
            if micro (ck_At c) < st_LastAtUS state \<or> st_Sequence state = MaxInt64 then Inl ErrConflict
            else if F (Select ''history'') then Inl (UsageDb (Select ''history''))
            else let history = generation_events (ck_AccountID c) (ck_GenerationID c) db
            in if (ck_Kind c = Enrolled \<and> history \<noteq> [])
                  \<or> (ck_Kind c = Revoked \<and> (length history \<noteq> 1 \<or> ue_Kind (hd history) \<noteq> Enrolled)) then Inl ErrConflict
               else append_event F c state db))))"

section \<open>Pruning\<close>

definition add_months :: "int \<Rightarrow> instant \<Rightarrow> instant" where
  "add_months n t = (let (y, m, d) = date_of (t div day_length) in days_of (y + (m - 1 + n) div 12) ((m - 1 + n) mod 12 + 1) 1 * day_length)"

definition validCalendarMonth :: "instant \<Rightarrow> instant \<Rightarrow> bool" where
  "validCalendarMonth start stop \<longleftrightarrow> validTime start \<and> validTime stop
     \<and> start mod day_length = 0 \<and> snd (snd (date_of (start div day_length))) = 1 \<and> stop = next_month start"

fun build_rows :: "string \<Rightarrow> int \<Rightarrow> int \<Rightarrow> bytes \<Rightarrow> usage_event list \<Rightarrow> usage_error + (int \<times> int \<times> bytes)" where
  "build_rows accountID devices sequence digested [] = Inr (devices, sequence, digested)"
| "build_rows accountID devices sequence digested (row # rows) =
     (if ue_Sequence row \<noteq> sequence + 1 \<or> ue_AccountID row \<noteq> accountID then Inl ErrCheckpoint
      else if ue_Kind row = Enrolled \<and> devices = MaxInt64 then Inl ErrCheckpoint
      else if ue_Kind row \<noteq> Enrolled \<and> ue_Kind row \<noteq> Revoked then Inl ErrCheckpoint
      else if devices + delta_of row < 0 then Inl ErrCheckpoint
      else build_rows accountID (devices + delta_of row) (ue_Sequence row) (digested @ digestEvent row) rows)"

definition buildCheckpoint :: "(bytes \<Rightarrow> bytes) \<Rightarrow> faults \<Rightarrow> string \<Rightarrow> usage_stream \<Rightarrow> checkpointState \<Rightarrow> int \<Rightarrow> instant \<Rightarrow> 'a ledger_scheme
    \<Rightarrow> usage_error + deviceCheckpoint option" where
  "buildCheckpoint H F accountID state previous boundaryUS created db =
     (if F (Select ''range'') then Inl (UsageDb (Select ''range''))
      else ebind (build_rows accountID (cs_DeviceCount previous) (cs_Sequence previous) []
             (events_after accountID (cs_Sequence previous) (\<lambda>t. t \<le> boundaryUS) db)) (\<lambda>(devices, sequence, digested).
      if sequence > st_Sequence state then Inl ErrCheckpoint
      else if sequence = cs_Sequence previous then Inr None
      else let rangeDigest = hex (H digested)
           in Inr (Some \<lparr>dc_AccountID = accountID, dc_Sequence = sequence, dc_BoundaryUS = boundaryUS, dc_DeviceCount = devices,
                dc_PreviousSeq = cs_Sequence previous, dc_PreviousDigest = cs_SourceDigest previous, dc_RangeDigest = rangeDigest,
                dc_SourceDigest = checkpointDigest H accountID (cs_Sequence previous) (cs_SourceDigest previous) sequence boundaryUS devices rangeDigest,
                dc_CreatedAt = created\<rparr>)))"

definition in_period :: "string \<Rightarrow> int \<Rightarrow> int \<Rightarrow> usage_event \<Rightarrow> bool" where
  "in_period accountID startUS endUS e \<longleftrightarrow> ue_AccountID e = accountID \<and> ue_AtUS e \<ge> startUS \<and> ue_AtUS e < endUS"

definition prune_events :: "faults \<Rightarrow> string \<Rightarrow> int \<Rightarrow> int \<Rightarrow> 'a ledger_scheme \<Rightarrow> usage_error + ('a ledger_scheme \<times> nat)" where
  "prune_events F accountID startUS endUS db =
     (if F (Delete ''events'') then Inl (UsageDb (Delete ''events''))
      else Inr (db\<lparr>lg_events := filter (\<lambda>e. \<not> in_period accountID startUS endUS e) (lg_events db)\<rparr>,
           affected (in_period accountID startUS endUS) (lg_events db)))"

definition prune_period :: "(bytes \<Rightarrow> bytes) \<Rightarrow> faults \<Rightarrow> string \<Rightarrow> int \<Rightarrow> int \<Rightarrow> instant \<Rightarrow> 'a ledger_scheme \<Rightarrow> usage_error + ('a ledger_scheme \<times> nat)" where
  "prune_period H F accountID startUS endUS created db =
     (if F (Select ''streams'') then Inl (UsageDb (Select ''streams''))
      else (case find_stream accountID db of None \<Rightarrow> Inr (db, 0)
      | Some state \<Rightarrow>
        if F (Update ''lock'') then Inl (UsageDb (Update ''lock''))
        else ebind (readCheckpoints H F accountID db) (\<lambda>checkpoints.
        let latest = (if checkpoints = [] then no_checkpoint else last checkpoints)
        in if cs_Sequence latest > st_Sequence state then Inl ErrCheckpoint
           else if F (Select ''count'') then Inl (UsageDb (Select ''count''))
           else if affected (in_period accountID startUS endUS) (lg_events db) = 0 then Inr (db, 0)
           else if endUS - 1 > cs_BoundaryUS latest
           then ebind (buildCheckpoint H F accountID state latest (endUS - 1) created db) (\<lambda>new.
                case new of None \<Rightarrow> prune_events F accountID startUS endUS db
                | Some row \<Rightarrow> if F (Insert ''checkpoints'' 0) then Inl (UsageDb (Insert ''checkpoints'' 0))
                    else prune_events F accountID startUS endUS (db\<lparr>lg_checkpoints := lg_checkpoints db @ [row]\<rparr>))
           else prune_events F accountID startUS endUS db)))"

definition PruneFinalizedPeriod :: "(bytes \<Rightarrow> bytes) \<Rightarrow> faults \<Rightarrow> string \<Rightarrow> instant \<Rightarrow> instant \<Rightarrow> instant \<Rightarrow> instant \<Rightarrow> 'a ledger_scheme
    \<Rightarrow> 'a ledger_scheme \<times> (usage_error + nat)" where
  "PruneFinalizedPeriod H F accountID periodStart periodEnd finalizedAt now db =
     (if \<not> validID accountID \<or> \<not> validCalendarMonth periodStart periodEnd \<or> finalizedAt = zero_time \<or> finalizedAt < periodEnd \<or> now = zero_time
      then (db, Inl ErrInvalid)
      else if now < finalizedAt \<or> now < add_months 13 periodEnd then (db, Inl RetentionWindow)
      else transaction F (UsageDb Commit) db (prune_period H F accountID (micro periodStart) (micro periodEnd) now))"

end
