(* ===== verification/Usage_Collection.thy ===== *)
theory Usage_Collection
  imports Usage_Ledger "HOL-Library.Product_Lexorder"
begin

text \<open>Collection of device usage (usage/collection.go) and its hooks in the account store (management/server/store/karst_usage.go): a change of an
  account's membership and the events that record it are one transaction; coverage periods say when collection was on. New identifiers are given by a function
  from their position. Devices are the rows of the peer table.\<close>

section \<open>Tables\<close>

record usage_collection =
  co_AccountID :: string
  co_Enabled :: bool
  co_PeriodID :: string
  co_LastAtUS :: int

record CollectionStatus =
  ct_AccountID :: string
  ct_Enabled :: bool
  ct_PeriodID :: string
  ct_UpdatedAt :: "instant option"

record Period =
  pd_ID :: string
  pd_AccountID :: string
  pd_StartUS :: int
  pd_EndUS :: "int option"
  pd_Complete :: bool

record enrollment =
  en_AccountID :: string
  en_DeviceID :: string
  en_GenerationID :: string

record Discrepancy =
  dp_ID :: string
  dp_AccountID :: string
  dp_AtUS :: int
  dp_Missing :: int
  dp_Added :: int

record devicePeer =
  dq_AccountID :: string
  dq_ID :: string

record usage_db = ledger +
  ud_collections :: "usage_collection list"
  ud_periods :: "Period list"
  ud_enrollments :: "enrollment list"
  ud_discrepancies :: "Discrepancy list"
  ud_peers :: "devicePeer list"

type_synonym snapshot = "usage_db \<Rightarrow> usage_error + string list"

section \<open>Steps\<close>

definition ReadCollection :: "faults \<Rightarrow> string \<Rightarrow> usage_db \<Rightarrow> usage_error + CollectionStatus" where
  "ReadCollection F accountID db =
     (if \<not> validID accountID then Inl ErrInvalid
      else if F (Select ''collections'') then Inl (UsageDb (Select ''collections''))
      else (case find (\<lambda>c. co_AccountID c = accountID) (ud_collections db) of
          None \<Rightarrow> Inr \<lparr>ct_AccountID = accountID, ct_Enabled = False, ct_PeriodID = [], ct_UpdatedAt = None\<rparr>
        | Some row \<Rightarrow> Inr \<lparr>ct_AccountID = accountID, ct_Enabled = co_Enabled row, ct_PeriodID = co_PeriodID row,
            ct_UpdatedAt = (if co_LastAtUS row \<noteq> 0 then Some (co_LastAtUS row * 1000) else None)\<rparr>))"

definition lockCollection :: "faults \<Rightarrow> string \<Rightarrow> usage_db \<Rightarrow> usage_error + (usage_db \<times> usage_collection)" where
  "lockCollection F accountID db =
     (if \<not> validID accountID then Inl ErrInvalid
      else if F (Insert ''collections'' 0) then Inl (UsageDb (Insert ''collections'' 0))
      else if F (Update ''collection_lock'') then Inl (UsageDb (Update ''collection_lock''))
      else if F (Select ''collections'') then Inl (UsageDb (Select ''collections''))
      else let rows = insert_new co_AccountID \<lparr>co_AccountID = accountID, co_Enabled = False, co_PeriodID = [], co_LastAtUS = 0\<rparr> (ud_collections db)
      in (case find (\<lambda>c. co_AccountID c = accountID) rows of None \<Rightarrow> Inl (UsageDb (Select ''collections''))
          | Some state \<Rightarrow> Inr (db\<lparr>ud_collections := rows\<rparr>, state)))"

definition timestamp :: "instant \<Rightarrow> usage_collection \<Rightarrow> usage_error + instant" where
  "timestamp now state =
     (let at' = (now div 1000) * 1000
      in if \<not> validTime at' \<or> micro at' < co_LastAtUS state then Inl ErrConflict else Inr at')"

definition membership :: "snapshot \<Rightarrow> usage_db \<Rightarrow> usage_error + string list" where
  "membership snapshot db =
     ebind (snapshot db) (\<lambda>ids. if list_all validID ids \<and> distinct ids then Inr ids else Inl ErrInvalid)"

definition activeEnrollments :: "faults \<Rightarrow> string \<Rightarrow> usage_db \<Rightarrow> usage_error + enrollment list" where
  "activeEnrollments F accountID db =
     (if F (Select ''enrollments'') then Inl (UsageDb (Select ''enrollments''))
      else Inr (order_asc en_DeviceID (filter (\<lambda>r. en_AccountID r = accountID) (ud_enrollments db))))"

definition difference :: "enrollment list \<Rightarrow> string list \<Rightarrow> int \<times> int" where
  "difference rows wanted =
     (int (length (filter (\<lambda>r. en_DeviceID r \<notin> set wanted) rows)),
      int (length wanted) - int (length (filter (\<lambda>r. en_DeviceID r \<in> set wanted) rows)))"

text \<open>Devices that are gone are revoked, in the order of the enrollment rows; the remaining new ones are enrolled in the order of their names.\<close>

fun revoke_gone :: "(bytes \<Rightarrow> bytes) \<Rightarrow> faults \<Rightarrow> string \<Rightarrow> instant \<Rightarrow> nat \<Rightarrow> enrollment list \<Rightarrow> string list \<Rightarrow> usage_db \<Rightarrow> usage_error + (usage_db \<times> string list)" where
  "revoke_gone H F accountID t i [] remaining db = Inr (db, remaining)"
| "revoke_gone H F accountID t i (row # rows) remaining db =
     (if en_DeviceID row \<in> set remaining then revoke_gone H F accountID t (Suc i) rows (removeAll (en_DeviceID row) remaining) db
      else ebind (AppendChange H (\<lambda>s. F (At i s)) \<lparr>ck_ID = en_GenerationID row @ '':revoke'', ck_AccountID = accountID,
             ck_GenerationID = en_GenerationID row, ck_Kind = Revoked, ck_At = t\<rparr> db) (\<lambda>db.
           if F (At i (Delete ''enrollments'')) then Inl (UsageDb (At i (Delete ''enrollments'')))
           else revoke_gone H F accountID t (Suc i) rows remaining
             (db\<lparr>ud_enrollments := filter (\<lambda>r. \<not> (en_AccountID r = en_AccountID row \<and> en_DeviceID r = en_DeviceID row)) (ud_enrollments db)\<rparr>)))"

fun enroll_new :: "(bytes \<Rightarrow> bytes) \<Rightarrow> faults \<Rightarrow> string \<Rightarrow> instant \<Rightarrow> (nat \<Rightarrow> string) \<Rightarrow> nat \<Rightarrow> string list \<Rightarrow> usage_db \<Rightarrow> usage_error + usage_db" where
  "enroll_new H F accountID t uuid i [] db = Inr db"
| "enroll_new H F accountID t uuid i (device # devices) db =
     ebind (AppendChange H (\<lambda>s. F (At i s)) \<lparr>ck_ID = uuid i @ '':enroll'', ck_AccountID = accountID, ck_GenerationID = uuid i,
        ck_Kind = Enrolled, ck_At = t\<rparr> db) (\<lambda>db.
     if F (At i (Insert ''enrollments'' 0)) \<or> has_key (\<lambda>r. (en_AccountID r, en_DeviceID r)) (accountID, device) (ud_enrollments db)
     then Inl (UsageDb (At i (Insert ''enrollments'' 0)))
     else enroll_new H F accountID t uuid (Suc i) devices
       (db\<lparr>ud_enrollments := ud_enrollments db @ [\<lparr>en_AccountID = accountID, en_DeviceID = device, en_GenerationID = uuid i\<rparr>]\<rparr>))"

definition synchronize :: "(bytes \<Rightarrow> bytes) \<Rightarrow> faults \<Rightarrow> string \<Rightarrow> instant \<Rightarrow> (nat \<Rightarrow> string) \<Rightarrow> enrollment list \<Rightarrow> string list \<Rightarrow> usage_db \<Rightarrow> usage_error + usage_db" where
  "synchronize H F accountID t uuid rows wanted db =
     ebind (revoke_gone H F accountID t 0 rows wanted db) (\<lambda>(db, remaining).
     enroll_new H F accountID t uuid (length rows) (sort remaining) db)"

definition startPeriod :: "faults \<Rightarrow> string \<Rightarrow> usage_collection \<Rightarrow> instant \<Rightarrow> usage_db \<Rightarrow> usage_error + (usage_db \<times> usage_collection)" where
  "startPeriod F uuid state t db =
     (if F (Insert ''periods'' 0) then Inl (UsageDb (Insert ''periods'' 0))
      else Inr (db\<lparr>ud_periods := ud_periods db @ [\<lparr>pd_ID = uuid, pd_AccountID = co_AccountID state, pd_StartUS = micro t, pd_EndUS = None,
             pd_Complete = True\<rparr>]\<rparr>, state\<lparr>co_PeriodID := uuid, co_Enabled := True\<rparr>))"

definition closePeriod :: "faults \<Rightarrow> usage_collection \<Rightarrow> instant \<Rightarrow> bool \<Rightarrow> usage_db \<Rightarrow> usage_error + usage_db" where
  "closePeriod F state t covered db =
     (if F (Update ''periods'') then Inl (UsageDb (Update ''periods''))
      else Inr (db\<lparr>ud_periods := update_rows (\<lambda>p. pd_ID p = co_PeriodID state \<and> pd_AccountID p = co_AccountID state)
             (\<lambda>p. p\<lparr>pd_EndUS := Some (micro t), pd_Complete := covered\<rparr>) (ud_periods db)\<rparr>))"

definition saveCollection :: "faults \<Rightarrow> usage_collection \<Rightarrow> instant \<Rightarrow> usage_db \<Rightarrow> usage_error + usage_db" where
  "saveCollection F state t db =
     (if F (Update ''collections'') then Inl (UsageDb (Update ''collections''))
      else Inr (db\<lparr>ud_collections := update_rows (\<lambda>c. co_AccountID c = co_AccountID state)
             (\<lambda>c. c\<lparr>co_Enabled := co_Enabled state, co_PeriodID := co_PeriodID state, co_LastAtUS := micro t\<rparr>) (ud_collections db)\<rparr>))"

section \<open>Operations\<close>

definition Configure :: "(bytes \<Rightarrow> bytes) \<Rightarrow> faults \<Rightarrow> string \<Rightarrow> bool \<Rightarrow> snapshot \<Rightarrow> string \<Rightarrow> (nat \<Rightarrow> string) \<Rightarrow> instant \<Rightarrow> usage_db \<Rightarrow> usage_error + usage_db" where
  "Configure H F accountID enabled snapshot period uuid now db =
     ebind (lockCollection F accountID db) (\<lambda>(db, state).
     if co_Enabled state = enabled then Inr db
     else ebind (timestamp now state) (\<lambda>t.
     if enabled
     then ebind (membership snapshot db) (\<lambda>wanted.
          ebind (activeEnrollments F accountID db) (\<lambda>rows.
          ebind (synchronize H F accountID t uuid rows wanted db) (\<lambda>db.
          ebind (startPeriod F period state t db) (\<lambda>(db, state). saveCollection F state t db))))
     else ebind (closePeriod F state t True db) (\<lambda>db. saveCollection F (state\<lparr>co_Enabled := False\<rparr>) t db)))"

definition Track :: "(bytes \<Rightarrow> bytes) \<Rightarrow> faults \<Rightarrow> string \<Rightarrow> snapshot \<Rightarrow> (usage_db \<Rightarrow> usage_error + usage_db) \<Rightarrow> (nat \<Rightarrow> string) \<Rightarrow> instant \<Rightarrow> usage_db
    \<Rightarrow> usage_error + usage_db" where
  "Track H F accountID snapshot mutate uuid now db =
     ebind (lockCollection F accountID db) (\<lambda>(db, state).
     if \<not> co_Enabled state then mutate db
     else ebind (membership snapshot db) (\<lambda>before.
          ebind (activeEnrollments F accountID db) (\<lambda>rows.
          if difference rows before \<noteq> (0, 0) then Inl ErrConflict
          else ebind (mutate db) (\<lambda>db.
          ebind (membership snapshot db) (\<lambda>after.
          ebind (timestamp now state) (\<lambda>t.
          ebind (synchronize H F accountID t uuid rows after db) (\<lambda>db. saveCollection F state t db)))))))"

definition ReconcileUsage :: "(bytes \<Rightarrow> bytes) \<Rightarrow> faults \<Rightarrow> string \<Rightarrow> snapshot \<Rightarrow> string \<Rightarrow> string \<Rightarrow> (nat \<Rightarrow> string) \<Rightarrow> instant \<Rightarrow> usage_db \<Rightarrow> usage_error + usage_db" where
  "ReconcileUsage H F accountID snapshot discrepancy period uuid now db =
     ebind (lockCollection F accountID db) (\<lambda>(db, state).
     if \<not> co_Enabled state then Inr db
     else ebind (membership snapshot db) (\<lambda>wanted.
          ebind (activeEnrollments F accountID db) (\<lambda>rows.
          case difference rows wanted of (missing, added) \<Rightarrow>
          if missing = 0 \<and> added = 0 then Inr db
          else ebind (timestamp now state) (\<lambda>t.
          if F (Insert ''discrepancies'' 0) then Inl (UsageDb (Insert ''discrepancies'' 0))
          else ebind (closePeriod F state t False (db\<lparr>ud_discrepancies := ud_discrepancies db
                 @ [\<lparr>dp_ID = discrepancy, dp_AccountID = accountID, dp_AtUS = micro t, dp_Missing = missing, dp_Added = added\<rparr>]\<rparr>)) (\<lambda>db.
          ebind (synchronize H F accountID t uuid rows wanted db) (\<lambda>db.
          ebind (startPeriod F period state t db) (\<lambda>(db, state). saveCollection F state t db)))))))"

definition Coverage :: "faults \<Rightarrow> string \<Rightarrow> usage_db \<Rightarrow> usage_error + Period list" where
  "Coverage F accountID db =
     (if \<not> validID accountID then Inl ErrInvalid
      else if F (Select ''periods'') then Inl (UsageDb (Select ''periods''))
      else Inr (order_asc (\<lambda>p. (pd_StartUS p, pd_ID p)) (filter (\<lambda>p. pd_AccountID p = accountID) (ud_periods db))))"

section \<open>Hooks of the account store\<close>

definition deviceMembership :: "faults \<Rightarrow> string \<Rightarrow> snapshot" where
  "deviceMembership F accountID db =
     (if F (Select ''devices'') then Inl (UsageDb (Select ''devices''))
      else Inr (map dq_ID (order_asc dq_ID (filter (\<lambda>p. dq_AccountID p = accountID) (ud_peers db)))))"

definition trackMembership :: "(bytes \<Rightarrow> bytes) \<Rightarrow> faults \<Rightarrow> string \<Rightarrow> bool \<Rightarrow> (usage_db \<Rightarrow> usage_error + usage_db) \<Rightarrow> (nat \<Rightarrow> string) \<Rightarrow> instant \<Rightarrow> instant \<Rightarrow> usage_db
    \<Rightarrow> usage_error + usage_db" where
  "trackMembership H F accountID removeAccount mutate uuid now later db =
     ebind (Track H F accountID (deviceMembership F accountID) mutate uuid now db) (\<lambda>db.
     if removeAccount then Configure H F accountID False (deviceMembership F accountID) [] uuid later db else Inr db)"

definition membershipTransaction :: "(bytes \<Rightarrow> bytes) \<Rightarrow> faults \<Rightarrow> string \<Rightarrow> bool \<Rightarrow> (usage_db \<Rightarrow> usage_error + usage_db) \<Rightarrow> (nat \<Rightarrow> string) \<Rightarrow> instant \<Rightarrow> instant \<Rightarrow> usage_db
    \<Rightarrow> usage_db \<times> (usage_error + unit)" where
  "membershipTransaction H F accountID removeAccount mutate uuid now later db =
     transaction F (UsageDb Commit) db (\<lambda>db. ebind (trackMembership H F accountID removeAccount mutate uuid now later db) (\<lambda>db. Inr (db, ())))"

definition SetDeviceUsageCollection :: "(bytes \<Rightarrow> bytes) \<Rightarrow> faults \<Rightarrow> string \<Rightarrow> bool \<Rightarrow> string \<Rightarrow> (nat \<Rightarrow> string) \<Rightarrow> instant \<Rightarrow> usage_db
    \<Rightarrow> usage_db \<times> (usage_error + unit)" where
  "SetDeviceUsageCollection H F accountID enabled period uuid now db =
     transaction F (UsageDb Commit) db (\<lambda>db.
       if F (Select ''accounts'') then Inl (UsageDb (Select ''accounts''))
       else ebind (Configure H F accountID enabled (deviceMembership F accountID) period uuid now db) (\<lambda>db. Inr (db, ())))"

definition ReconcileDeviceUsage :: "(bytes \<Rightarrow> bytes) \<Rightarrow> faults \<Rightarrow> string \<Rightarrow> string \<Rightarrow> string \<Rightarrow> (nat \<Rightarrow> string) \<Rightarrow> instant \<Rightarrow> usage_db
    \<Rightarrow> usage_db \<times> (usage_error + unit)" where
  "ReconcileDeviceUsage H F accountID discrepancy period uuid now db =
     transaction F (UsageDb Commit) db (\<lambda>db.
       ebind (ReconcileUsage H F accountID (deviceMembership F accountID) discrepancy period uuid now db) (\<lambda>db. Inr (db, ())))"

end
