(* ===== verification/Usage_Report.thy ===== *)
theory Usage_Report
  imports Usage_Collection
begin

text \<open>Device usage reports (usage/report.go) and the recorded timeline (usage/lifecycle.go): the ledger's events cut a window into intervals of constant device count,
  and the coverage periods say which of them are reliable.\<close>

definition MaxReportWindow :: int where "MaxReportWindow = 93 * day_length"

definition MaxReportSegments :: nat where "MaxReportSegments = 10000"

section \<open>Composition\<close>

definition known_kind :: "usage_event \<Rightarrow> bool" where
  "known_kind e \<longleftrightarrow> ue_Kind e = Enrolled \<or> ue_Kind e = Revoked"

definition delta_at :: "usage_event list \<Rightarrow> int \<Rightarrow> int" where
  "delta_at events t = sum_list (map delta_of (filter (\<lambda>e. ue_AtUS e = t) events))"

definition period_begin :: "int \<Rightarrow> Period \<Rightarrow> int" where
  "period_begin startUS p = max startUS (pd_StartUS p)"

definition period_finish :: "int \<Rightarrow> Period \<Rightarrow> int" where
  "period_finish endUS p = (case pd_EndUS p of Some e \<Rightarrow> if e < endUS then e else endUS | None \<Rightarrow> endUS)"

fun cover_boundaries :: "int \<Rightarrow> int \<Rightarrow> int \<Rightarrow> Period list \<Rightarrow> usage_error + int list" where
  "cover_boundaries startUS endUS previousEnd [] = Inr []"
| "cover_boundaries startUS endUS previousEnd (p # ps) =
     (if period_finish endUS p < period_begin startUS p then Inl ErrConflict
      else if period_finish endUS p = period_begin startUS p then cover_boundaries startUS endUS previousEnd ps
      else if period_begin startUS p < previousEnd then Inl ErrConflict
      else ebind (cover_boundaries startUS endUS (period_finish endUS p) ps) (\<lambda>bs. Inr (period_begin startUS p # period_finish endUS p # bs)))"

definition ended :: "int \<Rightarrow> Period \<Rightarrow> bool" where
  "ended left p \<longleftrightarrow> (case pd_EndUS p of Some e \<Rightarrow> e \<le> left | None \<Rightarrow> False)"

definition coverage_state :: "int \<Rightarrow> Period list \<Rightarrow> string" where
  "coverage_state left ps =
     (case ps of [] \<Rightarrow> ''uncollected''
      | p # _ \<Rightarrow> if pd_StartUS p \<le> left then (if pd_Complete p then ''complete'' else ''incomplete'') else ''uncollected'')"

definition same_usage :: "DeviceSegment \<Rightarrow> DeviceSegment \<Rightarrow> bool" where
  "same_usage a b \<longleftrightarrow> sg_Coverage a = sg_Coverage b \<and> sg_Devices a = sg_Devices b"

definition append_segment :: "DeviceSegment list \<Rightarrow> DeviceSegment \<Rightarrow> usage_error + DeviceSegment list" where
  "append_segment segs s =
     (if segs \<noteq> [] \<and> same_usage (last segs) s then Inr (butlast segs @ [(last segs)\<lparr>sg_End := sg_End s\<rparr>])
      else if length segs + 1 > MaxReportSegments then Inl ErrReportLimit
      else Inr (segs @ [s]))"

definition new_segment :: "int \<Rightarrow> int \<Rightarrow> string \<Rightarrow> int \<Rightarrow> DeviceSegment" where
  "new_segment left right state devices =
     \<lparr>sg_Start = left * 1000, sg_End = right * 1000, sg_Coverage = state,
      sg_Devices = (if state = ''complete'' then Some (word_of_int devices) else None)\<rparr>"

fun report_loop :: "usage_event list \<Rightarrow> int list \<Rightarrow> int \<Rightarrow> Period list \<Rightarrow> DeviceSegment list \<Rightarrow> int \<Rightarrow> bool
    \<Rightarrow> usage_error + (DeviceSegment list \<times> int \<times> bool)" where
  "report_loop events (left # right # rest) devices ps segs total' covered =
     (if left = right then report_loop events (right # rest) devices ps segs total' covered
      else let delta = delta_at events left
      in if (delta > 0 \<and> devices > MaxInt64 - delta) \<or> (delta < 0 \<and> devices < - delta) then Inl ErrConflict
         else if devices + delta < 0 then Inl ErrConflict
         else let ps = dropWhile (ended left) ps; state = coverage_state left ps
         in ebind (append_segment segs (new_segment left right state (devices + delta))) (\<lambda>segs.
            report_loop events (right # rest) (devices + delta) ps segs
              (if state = ''complete'' then total' + (right - left) * (devices + delta) else total') (covered \<and> state = ''complete'')))"
| "report_loop events _ devices ps segs total' covered = Inr (segs, total', covered)"

definition composeReport :: "instant \<Rightarrow> instant \<Rightarrow> instant \<Rightarrow> int \<Rightarrow> usage_event list \<Rightarrow> Period list \<Rightarrow> usage_error + DeviceReport" where
  "composeReport start stop asOf devices events periods =
     (if \<not> list_all known_kind events then Inl ErrConflict
      else ebind (cover_boundaries (micro start) (micro stop) 0 periods) (\<lambda>bs.
      ebind (report_loop events (sort ([micro start, micro stop] @ map ue_AtUS events @ bs)) devices periods [] 0 True) (\<lambda>(segs, total', covered).
      Inr \<lparr>dr_Start = start, dr_End = stop, dr_AsOf = asOf, dr_Complete = covered, dr_DeviceMicroseconds = int_string total', dr_Segments = segs\<rparr>)))"

section \<open>Reports\<close>

fun sequence_ok :: "int \<Rightarrow> usage_event list \<Rightarrow> bool" where
  "sequence_ok lastSequence [] = True"
| "sequence_ok lastSequence (e # es) = (ue_Sequence e = lastSequence + 1 \<and> sequence_ok (ue_Sequence e) es)"

definition report_periods :: "string \<Rightarrow> int \<Rightarrow> int \<Rightarrow> usage_db \<Rightarrow> Period list" where
  "report_periods accountID startUS endUS db =
     order_asc (\<lambda>p. (pd_StartUS p, pd_ID p)) (filter (\<lambda>p. pd_AccountID p = accountID \<and> pd_StartUS p < endUS
       \<and> (case pd_EndUS p of None \<Rightarrow> True | Some e \<Rightarrow> e > startUS)) (ud_periods db))"

definition window_events :: "string \<Rightarrow> int \<Rightarrow> int \<Rightarrow> int \<Rightarrow> 'a ledger_scheme \<Rightarrow> usage_event list" where
  "window_events accountID sequence startUS endUS db = events_after accountID sequence (\<lambda>t. t > startUS \<and> t < endUS) db"

definition device_report :: "(bytes \<Rightarrow> bytes) \<Rightarrow> faults \<Rightarrow> string \<Rightarrow> instant \<Rightarrow> instant \<Rightarrow> instant \<Rightarrow> usage_db \<Rightarrow> usage_error + DeviceReport" where
  "device_report H F accountID start stop asOf db =
     (if stop > asOf then Inl ErrInvalid
      else if F (Select ''periods'') then Inl (UsageDb (Select ''periods''))
      else let periods = take (MaxReportSegments + 1) (report_periods accountID (micro start) (micro stop) db)
      in if length periods > MaxReportSegments then Inl ErrReportLimit
      else ebind (checkpointAt H F accountID (micro start) db) (\<lambda>checkpoint.
      ebind (openingCount F accountID (micro start) checkpoint db) (\<lambda>(opening, lastSequence).
      if F (Select ''events'') then Inl (UsageDb (Select ''events''))
      else let events = take (MaxReportSegments + 1) (window_events accountID (cs_Sequence checkpoint) (micro start) (micro stop) db)
      in if length events > MaxReportSegments then Inl ErrReportLimit
         else if \<not> sequence_ok lastSequence events then Inl ErrCheckpoint
         else composeReport start stop asOf opening events periods)))"

definition Devices :: "(bytes \<Rightarrow> bytes) \<Rightarrow> faults \<Rightarrow> string \<Rightarrow> instant \<Rightarrow> instant \<Rightarrow> instant \<Rightarrow> usage_db \<Rightarrow> usage_error + DeviceReport" where
  "Devices H F accountID start stop now db =
     (if \<not> validID accountID \<or> \<not> validTime start \<or> \<not> validTime stop \<or> \<not> start < stop \<or> stop - start > MaxReportWindow then Inl ErrInvalid
      else ebind (device_report H F accountID start stop ((now div 1000) * 1000) db) (\<lambda>report.
      if F Commit then Inl (UsageDb Commit) else Inr report))"

section \<open>Timelines\<close>

record Segment =
  sm_Start :: instant
  sm_End :: instant
  sm_Devices :: int

fun timeline_loop :: "instant \<Rightarrow> int \<Rightarrow> int \<Rightarrow> usage_event list \<Rightarrow> usage_error + (Segment list \<times> instant \<times> int)" where
  "timeline_loop cursor lastSequence devices [] = Inr ([], cursor, devices)"
| "timeline_loop cursor lastSequence devices (row # rows) =
     (if ue_Sequence row \<noteq> lastSequence + 1 then Inl ErrCheckpoint
      else let t = ue_AtUS row * 1000; cut = t > cursor
      in if \<not> known_kind row then Inl ErrConflict
         else if ue_Kind row = Enrolled \<and> devices = MaxInt64 then Inl ErrConflict
         else if devices + delta_of row < 0 then Inl ErrConflict
         else ebind (timeline_loop (if cut then t else cursor) (ue_Sequence row) (devices + delta_of row) rows) (\<lambda>(segs, cursor', devices').
           Inr (if cut then \<lparr>sm_Start = cursor, sm_End = t, sm_Devices = devices\<rparr> # segs else segs, cursor', devices')))"

fun merge_segments :: "Segment list \<Rightarrow> Segment list \<Rightarrow> Segment list" where
  "merge_segments merged [] = merged"
| "merge_segments merged (s # ss) =
     (if merged \<noteq> [] \<and> sm_Devices (last merged) = sm_Devices s then merge_segments (butlast merged @ [(last merged)\<lparr>sm_End := sm_End s\<rparr>]) ss
      else merge_segments (merged @ [s]) ss)"

definition Timeline :: "(bytes \<Rightarrow> bytes) \<Rightarrow> faults \<Rightarrow> string \<Rightarrow> instant \<Rightarrow> instant \<Rightarrow> 'a ledger_scheme \<Rightarrow> usage_error + Segment list" where
  "Timeline H F accountID start stop db =
     (if \<not> validID accountID \<or> \<not> validTime start \<or> \<not> validTime stop \<or> \<not> start < stop then Inl ErrInvalid
      else ebind (checkpointAt H F accountID (micro start) db) (\<lambda>checkpoint.
      ebind (openingCount F accountID (micro start) checkpoint db) (\<lambda>(devices, lastSequence).
      if F (Select ''events'') then Inl (UsageDb (Select ''events''))
      else ebind (timeline_loop start lastSequence devices (window_events accountID (cs_Sequence checkpoint) (micro start) (micro stop) db))
        (\<lambda>(segs, cursor, devices).
        if F Commit then Inl (UsageDb Commit)
        else Inr (merge_segments [] (segs @ [\<lparr>sm_Start = cursor, sm_End = stop, sm_Devices = devices\<rparr>]))))))"

end
