(* ===== verification/Usage_History.thy ===== *)
theory Usage_History
  imports Usage_Report
begin

text \<open>What the usage ledger of an account says about its past: while collection is on, every committed change of membership leaves the ledger with one open enrollment for each
  device of the account, so that the events up to an instant count the devices there were at that instant.\<close>

section \<open>The rows of one account\<close>

definition account_events :: "string \<Rightarrow> 'a ledger_scheme \<Rightarrow> usage_event list" where
  "account_events a db = filter (\<lambda>e. ue_AccountID e = a) (lg_events db)"

definition account_enrollments :: "string \<Rightarrow> usage_db \<Rightarrow> enrollment list" where
  "account_enrollments a db = filter (\<lambda>r. en_AccountID r = a) (ud_enrollments db)"

definition account_periods :: "string \<Rightarrow> usage_db \<Rightarrow> Period list" where
  "account_periods a db = filter (\<lambda>p. pd_AccountID p = a) (ud_periods db)"

definition account_peers :: "string \<Rightarrow> usage_db \<Rightarrow> string list" where
  "account_peers a db = map dq_ID (filter (\<lambda>p. dq_AccountID p = a) (ud_peers db))"

definition collection_of :: "string \<Rightarrow> usage_db \<Rightarrow> usage_collection option" where
  "collection_of a db = find (\<lambda>c. co_AccountID c = a) (ud_collections db)"

definition collecting :: "string \<Rightarrow> usage_db \<Rightarrow> bool" where
  "collecting a db \<longleftrightarrow> (case collection_of a db of None \<Rightarrow> False | Some c \<Rightarrow> co_Enabled c)"

definition current_period :: "string \<Rightarrow> usage_db \<Rightarrow> string" where
  "current_period a db = (case collection_of a db of None \<Rightarrow> [] | Some c \<Rightarrow> co_PeriodID c)"

lemmas account_views = account_events_def account_enrollments_def account_periods_def account_peers_def collection_of_def

text \<open>The events at or before an instant, counted.\<close>

definition counted :: "usage_event list \<Rightarrow> int \<Rightarrow> int" where
  "counted es u = sum_list (map delta_of (filter (\<lambda>e. ue_AtUS e \<le> u) es))"

lemma counted_append: "counted (xs @ ys) u = counted xs u + counted ys u"
  by (simp add: counted_def)

lemma counted_none: "\<forall>e\<in>set es. u < ue_AtUS e \<Longrightarrow> counted es u = 0"
  by (induction es) (auto simp: counted_def)

lemma counted_all: "\<forall>e\<in>set es. ue_AtUS e \<le> u \<Longrightarrow> counted es u = sum_list (map delta_of es)"
  by (simp add: counted_def)

definition event_name :: "usage_event \<Rightarrow> string" where
  "event_name e = ue_GenerationID e @ (if ue_Kind e = Enrolled then '':enroll'' else '':revoke'')"

text \<open>A ledger without checkpoints whose events are numbered from 1 and never go back in time, with one open enrollment per row of the enrollment table.\<close>

definition ledger_ok :: "string \<Rightarrow> usage_db \<Rightarrow> bool" where
  "ledger_ok a db \<longleftrightarrow> (let es = account_events a db; rows = account_enrollments a db in
     lg_checkpoints db = [] \<and> map ue_Sequence es = [1..int (length es)] \<and> sorted (map ue_AtUS es)
     \<and> (case find_stream a db of None \<Rightarrow> es = [] | Some s \<Rightarrow> st_Sequence s = int (length es) \<and> (\<forall>e\<in>set es. ue_AtUS e \<le> st_LastAtUS s))
     \<and> (\<forall>e\<in>set es. known_kind e \<and> ue_ID e = event_name e)
     \<and> distinct (map en_DeviceID rows) \<and> distinct (map en_GenerationID rows)
     \<and> (\<forall>r\<in>set rows. \<forall>e\<in>set es. ue_GenerationID e = en_GenerationID r \<longrightarrow> ue_Kind e = Enrolled)
     \<and> sum_list (map delta_of es) = int (length rows))"

text \<open>What a step of an account leaves alone: everything of the other accounts.\<close>

definition others_kept :: "string \<Rightarrow> usage_db \<Rightarrow> usage_db \<Rightarrow> bool" where
  "others_kept a db db' \<longleftrightarrow> (\<forall>b. b \<noteq> a \<longrightarrow> account_events b db' = account_events b db \<and> find_stream b db' = find_stream b db
     \<and> account_enrollments b db' = account_enrollments b db \<and> account_periods b db' = account_periods b db
     \<and> account_peers b db' = account_peers b db \<and> collection_of b db' = collection_of b db) \<and> lg_checkpoints db' = lg_checkpoints db"

lemma others_kept_refl [simp]: "others_kept a db db"
  by (simp add: others_kept_def)

lemma others_kept_trans: "others_kept a x y \<Longrightarrow> others_kept a y z \<Longrightarrow> others_kept a x z"
  by (simp add: others_kept_def)

section \<open>Appending\<close>

definition event_of :: "Change \<Rightarrow> int \<Rightarrow> usage_event" where
  "event_of c n = \<lparr>ue_AccountID = ck_AccountID c, ue_ID = ck_ID c, ue_Sequence = n, ue_GenerationID = ck_GenerationID c, ue_Kind = ck_Kind c,
     ue_AtUS = micro (ck_At c)\<rparr>"

lemma find_stream_ensure:
  "find_stream b (ensure_stream a db) =
     (if b = a \<and> find_stream a db = None then Some \<lparr>st_AccountID = a, st_Sequence = 0, st_LastAtUS = 0\<rparr> else find_stream b db)"
  using find_insert_new [of st_AccountID b _ "lg_streams db"] by (auto simp: find_stream_def ensure_stream_def split: option.splits)

lemma find_stream_update:
  "find (\<lambda>s. st_AccountID s = b) (update_rows (\<lambda>s. st_AccountID s = a) (\<lambda>s. s\<lparr>st_Sequence := n, st_LastAtUS := t\<rparr>) ss) =
     (if b = a then map_option (\<lambda>s. s\<lparr>st_Sequence := n, st_LastAtUS := t\<rparr>) (find (\<lambda>s. st_AccountID s = b) ss) else find (\<lambda>s. st_AccountID s = b) ss)"
  by (induction ss) (auto simp: update_rows_def)

lemma AppendChange_new:
  assumes "AppendChange H F c db = Inr db'" and "\<And>e. e \<in> set (account_events (ck_AccountID c) db) \<Longrightarrow> ue_ID e \<noteq> ck_ID c"
  shows "\<exists>s ss. find_stream (ck_AccountID c) (ensure_stream (ck_AccountID c) db) = Some s \<and> st_LastAtUS s \<le> micro (ck_At c)
     \<and> db' = db\<lparr>lg_events := lg_events db @ [event_of c (st_Sequence s + 1)], lg_streams := ss\<rparr>
     \<and> (\<forall>b. find_stream b db' = (if b = ck_AccountID c then Some (s\<lparr>st_Sequence := st_Sequence s + 1, st_LastAtUS := micro (ck_At c)\<rparr>) else find_stream b db))
     \<and> known_kind (event_of c (st_Sequence s + 1))"
proof -
  let ?db = "ensure_stream (ck_AccountID c) db"
  have ev: "lg_events ?db = lg_events db" by (simp add: ensure_stream_def)
  have none: "find (\<lambda>e. ue_AccountID e = ck_AccountID c \<and> ue_ID e = ck_ID c) (lg_events ?db) = None"
    using assms(2) by (auto simp: find_None_iff ev account_events_def)
  from assms(1) none obtain s where s: "find_stream (ck_AccountID c) ?db = Some s" "st_LastAtUS s \<le> micro (ck_At c)"
    and ap: "append_event F c s ?db = Inr db'" and k: "ck_Kind c = Enrolled \<or> ck_Kind c = Revoked"
    by (auto simp: AppendChange_def Let_def not_less split: if_splits option.splits elim!: ebindE)
  let ?ss = "update_rows (\<lambda>s. st_AccountID s = ck_AccountID c) (\<lambda>r. r\<lparr>st_Sequence := st_Sequence s + 1, st_LastAtUS := micro (ck_At c)\<rparr>) (lg_streams ?db)"
  have db': "db' = db\<lparr>lg_events := lg_events db @ [event_of c (st_Sequence s + 1)], lg_streams := ?ss\<rparr>"
    using ap by (auto simp: append_event_def Let_def event_of_def ensure_stream_def split: if_splits)
  moreover have "find_stream b db' = (if b = ck_AccountID c then Some (s\<lparr>st_Sequence := st_Sequence s + 1, st_LastAtUS := micro (ck_At c)\<rparr>) else find_stream b db)" for b
    using s(1) find_stream_ensure [of b "ck_AccountID c" db] by (simp add: db' find_stream_def find_stream_update)
  ultimately show ?thesis using s k by (auto simp: known_kind_def event_of_def)
qed

text \<open>Before a revocation or an enrollment, nothing in the ledger has its name.\<close>

lemma suffixes_differ [simp]: "g @ '':enroll'' \<noteq> h @ '':revoke''" "g @ '':revoke'' \<noteq> h @ '':enroll''"
  using arg_cong [of "g @ '':enroll''" "h @ '':revoke''" last] arg_cong [of "g @ '':revoke''" "h @ '':enroll''" last] by auto

lemma revoke_name_free:
  assumes "ledger_ok a db" and "r \<in> set (account_enrollments a db)" and "e \<in> set (account_events a db)"
  shows "ue_ID e \<noteq> en_GenerationID r @ '':revoke''"
  using assms by (auto simp: ledger_ok_def Let_def event_name_def split: if_splits)

lemma enroll_name_free:
  assumes "ledger_ok a db" and "\<forall>e\<in>set (account_events a db). ue_GenerationID e \<noteq> g" and "e \<in> set (account_events a db)"
  shows "ue_ID e \<noteq> g @ '':enroll''"
  using assms by (auto simp: ledger_ok_def Let_def event_name_def split: if_splits)

text \<open>Either change adds one well-numbered event to the account's ledger.\<close>

lemma upto_snoc: "map f es = [1..int (length es)] \<Longrightarrow> f e = int (length es) + 1 \<Longrightarrow> map f (es @ [e]) = [1..int (length (es @ [e]))]"
  using upto_rec2 [of 1 "int (length es) + 1"] by (simp add: add.commute)

definition appended :: "string \<Rightarrow> usage_event \<Rightarrow> usage_db \<Rightarrow> usage_db \<Rightarrow> bool" where
  "appended a e db db' \<longleftrightarrow> (\<exists>es ss. db' = db\<lparr>lg_events := es, lg_streams := ss\<rparr>) \<and> account_events a db' = account_events a db @ [e]
     \<and> (\<forall>b. b \<noteq> a \<longrightarrow> account_events b db' = account_events b db \<and> find_stream b db' = find_stream b db)
     \<and> map ue_Sequence (account_events a db') = [1..int (length (account_events a db'))] \<and> sorted (map ue_AtUS (account_events a db'))
     \<and> (\<exists>s. find_stream a db' = Some s \<and> st_Sequence s = int (length (account_events a db')) \<and> (\<forall>e\<in>set (account_events a db'). ue_AtUS e \<le> st_LastAtUS s))
     \<and> (\<forall>e\<in>set (account_events a db'). known_kind e \<and> ue_ID e = event_name e)"

lemma ledger_ok_append:
  assumes ok: "ledger_ok a db" and ap: "AppendChange H F c db = Inr db'" and a: "ck_AccountID c = a"
    and free: "\<And>e. e \<in> set (account_events a db) \<Longrightarrow> ue_ID e \<noteq> ck_ID c"
    and name: "\<And>n. ck_ID c = event_name (event_of c n)"
  shows "\<exists>n. appended a (event_of c n) db db'"
proof -
  from AppendChange_new [OF ap] free a obtain s ss where s: "find_stream a (ensure_stream a db) = Some s" "st_LastAtUS s \<le> micro (ck_At c)"
    and db': "db' = db\<lparr>lg_events := lg_events db @ [event_of c (st_Sequence s + 1)], lg_streams := ss\<rparr>"
    and st: "\<And>b. find_stream b db' = (if b = a then Some (s\<lparr>st_Sequence := st_Sequence s + 1, st_LastAtUS := micro (ck_At c)\<rparr>) else find_stream b db)"
    and k: "known_kind (event_of c (st_Sequence s + 1))" by auto
  have old: "st_Sequence s = int (length (account_events a db))" "\<forall>e\<in>set (account_events a db). ue_AtUS e \<le> st_LastAtUS s"
    using s(1) ok find_stream_ensure [of a a db] by (cases "find_stream a db"; auto simp: ledger_ok_def Let_def)+
  have led: "map ue_Sequence (account_events a db) = [1..int (length (account_events a db))]" "sorted (map ue_AtUS (account_events a db))"
    "\<forall>e\<in>set (account_events a db). known_kind e \<and> ue_ID e = event_name e" using ok by (simp_all add: ledger_ok_def Let_def)
  have ev: "ue_AccountID (event_of c n) = a" "ue_ID (event_of c n) = event_name (event_of c n)" "ue_Sequence (event_of c n) = n"
    "ue_AtUS (event_of c n) = micro (ck_At c)" for n using name [of n] by (simp_all add: event_of_def a)
  let ?e = "event_of c (st_Sequence s + 1)"
  have new: "account_events a db' = account_events a db @ [?e]" by (simp add: account_events_def db' ev)
  have "map ue_Sequence (account_events a db') = [1..int (length (account_events a db'))]"
    unfolding new by (intro upto_snoc led) (simp add: ev old)
  moreover have "sorted (map ue_AtUS (account_events a db'))" using led(2) old(2) s(2) by (force simp: new sorted_append ev)
  moreover have "\<exists>s. find_stream a db' = Some s \<and> st_Sequence s = int (length (account_events a db')) \<and> (\<forall>e\<in>set (account_events a db'). ue_AtUS e \<le> st_LastAtUS s)"
    using old s(2) by (force simp: st new ev)
  moreover have "account_events b db' = account_events b db \<and> find_stream b db' = find_stream b db" if "b \<noteq> a" for b
    using that st by (simp add: account_events_def db' ev)
  moreover have "\<forall>e\<in>set (account_events a db'). known_kind e \<and> ue_ID e = event_name e" using led(3) k by (simp add: new ev)
  ultimately have "appended a ?e db db'" using db' new unfolding appended_def by blast
  then show ?thesis ..
qed

section \<open>Synchronizing\<close>

text \<open>What bringing the ledger of an account up to date at one microsecond keeps and adds.\<close>

definition brought_up :: "string \<Rightarrow> int \<Rightarrow> usage_db \<Rightarrow> usage_db \<Rightarrow> bool" where
  "brought_up a m db db' \<longleftrightarrow> ledger_ok a db' \<and> others_kept a db db' \<and> (\<exists>new. account_events a db' = account_events a db @ new \<and> (\<forall>e\<in>set new. ue_AtUS e = m))
     \<and> ud_collections db' = ud_collections db \<and> ud_periods db' = ud_periods db \<and> ud_peers db' = ud_peers db"

lemma brought_up_refl: "ledger_ok a db \<Longrightarrow> brought_up a m db db"
  by (simp add: brought_up_def)

lemma brought_up_trans:
  assumes "brought_up a m x y" and "brought_up a m y z"
  shows "brought_up a m x z"
proof -
  from assms(1) obtain new where "account_events a y = account_events a x @ new" "\<forall>e\<in>set new. ue_AtUS e = m" by (auto simp: brought_up_def)
  moreover from assms(2) obtain new' where "account_events a z = account_events a y @ new'" "\<forall>e\<in>set new'. ue_AtUS e = m" by (auto simp: brought_up_def)
  ultimately have "\<exists>new. account_events a z = account_events a x @ new \<and> (\<forall>e\<in>set new. ue_AtUS e = m)" by (intro exI [of _ "new @ new'"]) auto
  with assms show ?thesis using others_kept_trans [of a x y z] by (simp add: brought_up_def)
qed

text \<open>An event and the matching change of the enrollment rows.\<close>

lemma appended_rows:
  assumes ok: "ledger_ok a db" and ap: "appended a e db db1" and rows: "\<And>b. b \<noteq> a \<Longrightarrow> account_enrollments b (db1\<lparr>ud_enrollments := rows\<rparr>) = account_enrollments b db"
    and new: "account_enrollments a (db1\<lparr>ud_enrollments := rows\<rparr>) = new" and dist: "distinct (map en_DeviceID new)" "distinct (map en_GenerationID new)"
    and kinds: "\<And>r x. r \<in> set new \<Longrightarrow> x \<in> set (account_events a db) \<or> x = e \<Longrightarrow> ue_GenerationID x = en_GenerationID r \<Longrightarrow> ue_Kind x = Enrolled"
    and cnt: "int (length (account_enrollments a db)) + delta_of e = int (length new)"
  shows "brought_up a (ue_AtUS e) db (db1\<lparr>ud_enrollments := rows\<rparr>)"
proof -
  let ?db = "db1\<lparr>ud_enrollments := rows\<rparr>"
  obtain es ss where db1: "db1 = db\<lparr>lg_events := es, lg_streams := ss\<rparr>" using ap by (auto simp: appended_def)
  have led: "account_events b ?db = account_events b db1" "find_stream b ?db = find_stream b db1" "lg_checkpoints ?db = lg_checkpoints db" for b
    by (simp_all add: account_events_def find_stream_def db1)
  have ev: "account_events a db1 = account_events a db @ [e]" using ap by (simp add: appended_def)
  have "ledger_ok a ?db"
    unfolding ledger_ok_def Let_def led new
  proof (intro conjI ballI impI)
    show "ue_Kind x = Enrolled" if "r \<in> set new" "x \<in> set (account_events a db1)" "ue_GenerationID x = en_GenerationID r" for r x
      using kinds [OF that(1) _ that(3)] that(2) by (auto simp: ev)
    show "sum_list (map delta_of (account_events a db1)) = int (length new)" using ok cnt by (simp add: ev ledger_ok_def Let_def)
  qed (use ok ap dist in \<open>auto simp: appended_def ledger_ok_def Let_def\<close>)
  moreover have "others_kept a db ?db" using ap rows led by (simp add: others_kept_def appended_def) (simp add: db1 account_views)
  ultimately show ?thesis using ev by (simp add: brought_up_def led) (simp add: db1)
qed

definition revocation :: "enrollment \<Rightarrow> string \<Rightarrow> instant \<Rightarrow> Change" where
  "revocation row a t = \<lparr>ck_ID = en_GenerationID row @ '':revoke'', ck_AccountID = a, ck_GenerationID = en_GenerationID row, ck_Kind = Revoked, ck_At = t\<rparr>"

definition admission :: "string \<Rightarrow> string \<Rightarrow> instant \<Rightarrow> Change" where
  "admission g a t = \<lparr>ck_ID = g @ '':enroll'', ck_AccountID = a, ck_GenerationID = g, ck_Kind = Enrolled, ck_At = t\<rparr>"

lemma filter_key:
  assumes "distinct (map f rows)" and "row \<in> set rows"
  shows "length rows = Suc (length (filter (\<lambda>r. f r \<noteq> f row) rows))"
  using assms
proof (induction rows)
  case (Cons r rows)
  show ?case
  proof (cases "r = row")
    case True
    with Cons.prems(1) have "filter (\<lambda>r. f r \<noteq> f row) rows = rows" by (auto simp: filter_id_conv image_iff)
    with True show ?thesis by simp
  qed (use Cons in \<open>auto simp: image_iff\<close>)
qed simp

lemma revoke_step:
  assumes ok: "ledger_ok a db" and row: "row \<in> set (account_enrollments a db)" and ap: "AppendChange H F (revocation row a t) db = Inr db1"
  defines "db2 \<equiv> db1\<lparr>ud_enrollments := filter (\<lambda>r. \<not> (en_AccountID r = en_AccountID row \<and> en_DeviceID r = en_DeviceID row)) (ud_enrollments db1)\<rparr>"
  shows "brought_up a (micro t) db db2"
    and "account_enrollments a db2 = filter (\<lambda>r. en_DeviceID r \<noteq> en_DeviceID row) (account_enrollments a db)"
    and "ue_GenerationID ` set (account_events a db2) \<subseteq> insert (en_GenerationID row) (ue_GenerationID ` set (account_events a db))"
proof -
  have a: "en_AccountID row = a" using row by (simp add: account_enrollments_def)
  obtain n where e: "appended a (event_of (revocation row a t) n) db db1"
    using ledger_ok_append [OF ok ap] revoke_name_free [OF ok row] by (auto simp: revocation_def event_name_def event_of_def)
  have same: "ud_enrollments db1 = ud_enrollments db" using e by (auto simp: appended_def)
  show rows: "account_enrollments a db2 = filter (\<lambda>r. en_DeviceID r \<noteq> en_DeviceID row) (account_enrollments a db)"
    using a same by (auto simp: account_enrollments_def db2_def intro: filter_cong)
  have dist: "distinct (map en_DeviceID (account_enrollments a db))" "distinct (map en_GenerationID (account_enrollments a db))"
    and kinds: "\<forall>r\<in>set (account_enrollments a db). \<forall>e\<in>set (account_events a db). ue_GenerationID e = en_GenerationID r \<longrightarrow> ue_Kind e = Enrolled"
    using ok by (simp_all add: ledger_ok_def Let_def)
  have gens: "en_GenerationID r \<noteq> en_GenerationID row" if "r \<in> set (account_enrollments a db)" "en_DeviceID r \<noteq> en_DeviceID row" for r
    using that row dist(2) by (auto simp: distinct_map inj_on_def)
  have "brought_up a (ue_AtUS (event_of (revocation row a t) n)) db db2"
    unfolding db2_def
  proof (rule appended_rows [OF ok e _ rows [unfolded db2_def]])
    show "int (length (account_enrollments a db)) + delta_of (event_of (revocation row a t) n) =
        int (length (filter (\<lambda>r. en_DeviceID r \<noteq> en_DeviceID row) (account_enrollments a db)))"
      using filter_key [OF dist(1) row] by (simp add: delta_of_def event_of_def revocation_def)
    show "ue_Kind x = Enrolled" if "r \<in> set (filter (\<lambda>r. en_DeviceID r \<noteq> en_DeviceID row) (account_enrollments a db))"
      "x \<in> set (account_events a db) \<or> x = event_of (revocation row a t) n" "ue_GenerationID x = en_GenerationID r" for r x
      using that kinds gens [of r] by (auto simp: event_of_def revocation_def)
    show "account_enrollments b (db1\<lparr>ud_enrollments := filter (\<lambda>r. \<not> (en_AccountID r = en_AccountID row \<and> en_DeviceID r = en_DeviceID row)) (ud_enrollments db1)\<rparr>)
        = account_enrollments b db" if "b \<noteq> a" for b
      using that a same by (auto simp: account_enrollments_def intro: filter_cong)
  qed (simp_all add: dist distinct_map_filter)
  then show "brought_up a (micro t) db db2" by (simp add: event_of_def revocation_def)
  have "account_events a db2 = account_events a db @ [event_of (revocation row a t) n]" using e by (simp add: appended_def account_events_def db2_def)
  then show "ue_GenerationID ` set (account_events a db2) \<subseteq> insert (en_GenerationID row) (ue_GenerationID ` set (account_events a db))"
    by (auto simp: event_of_def revocation_def)
qed

lemma enroll_step:
  assumes ok: "ledger_ok a db" and ap: "AppendChange H F (admission g a t) db = Inr db1"
    and free: "\<forall>e\<in>set (account_events a db). ue_GenerationID e \<noteq> g" "\<forall>r\<in>set (account_enrollments a db). en_GenerationID r \<noteq> g"
    and dev: "d \<notin> en_DeviceID ` set (account_enrollments a db)"
  defines "r \<equiv> \<lparr>en_AccountID = a, en_DeviceID = d, en_GenerationID = g\<rparr>"
  shows "brought_up a (micro t) db (db1\<lparr>ud_enrollments := ud_enrollments db1 @ [r]\<rparr>)"
    and "account_enrollments a (db1\<lparr>ud_enrollments := ud_enrollments db1 @ [r]\<rparr>) = account_enrollments a db @ [r]"
    and "ue_GenerationID ` set (account_events a (db1\<lparr>ud_enrollments := ud_enrollments db1 @ [r]\<rparr>)) \<subseteq> insert g (ue_GenerationID ` set (account_events a db))"
proof -
  obtain n where e: "appended a (event_of (admission g a t) n) db db1"
    using ledger_ok_append [OF ok ap] enroll_name_free [OF ok free(1)] by (auto simp: admission_def event_name_def event_of_def)
  have same: "ud_enrollments db1 = ud_enrollments db" using e by (auto simp: appended_def)
  have e': "account_events a (db1\<lparr>ud_enrollments := ud_enrollments db1 @ [r]\<rparr>) = account_events a db @ [event_of (admission g a t) n]"
    using e by (simp add: appended_def account_events_def)
  show rows: "account_enrollments a (db1\<lparr>ud_enrollments := ud_enrollments db1 @ [r]\<rparr>) = account_enrollments a db @ [r]"
    by (simp add: account_enrollments_def same r_def)
  have "brought_up a (ue_AtUS (event_of (admission g a t) n)) db (db1\<lparr>ud_enrollments := ud_enrollments db1 @ [r]\<rparr>)"
  proof (rule appended_rows [OF ok e _ rows])
    show "ue_Kind x = Enrolled" if "r' \<in> set (account_enrollments a db @ [r])"
      "x \<in> set (account_events a db) \<or> x = event_of (admission g a t) n" "ue_GenerationID x = en_GenerationID r'" for r' x
      using that free ok by (auto simp: event_of_def admission_def r_def ledger_ok_def Let_def)
  qed (use ok free dev same in \<open>auto simp: account_enrollments_def ledger_ok_def Let_def r_def delta_of_def event_of_def admission_def\<close>)
  then show "brought_up a (micro t) db (db1\<lparr>ud_enrollments := ud_enrollments db1 @ [r]\<rparr>)" by (simp add: event_of_def admission_def)
  show "ue_GenerationID ` set (account_events a (db1\<lparr>ud_enrollments := ud_enrollments db1 @ [r]\<rparr>)) \<subseteq> insert g (ue_GenerationID ` set (account_events a db))"
    using e' by (auto simp: event_of_def admission_def)
qed

lemma brought_up_ok: "brought_up a m db db' \<Longrightarrow> ledger_ok a db'"
  by (simp add: brought_up_def)

lemma union_chain: "A \<subseteq> B \<union> C \<Longrightarrow> B \<subseteq> insert x D \<Longrightarrow> C \<subseteq> E \<Longrightarrow> x \<in> E \<Longrightarrow> A \<subseteq> D \<union> E"
  by blast

lemma revoke_gone_ok:
  assumes "ledger_ok a db" and "revoke_gone H F a t i todo remaining db = Inr (db', rest)" and "distinct (map en_DeviceID todo)"
    and "set todo \<subseteq> set (account_enrollments a db)"
  shows "brought_up a (micro t) db db' \<and> set rest = set remaining - en_DeviceID ` set todo \<and> (distinct remaining \<longrightarrow> distinct rest)
     \<and> set (account_enrollments a db') \<subseteq> set (account_enrollments a db)
     \<and> en_DeviceID ` set (account_enrollments a db') = en_DeviceID ` set (account_enrollments a db) - (en_DeviceID ` set todo - set remaining)
     \<and> ue_GenerationID ` set (account_events a db') \<subseteq> ue_GenerationID ` set (account_events a db) \<union> en_GenerationID ` set (account_enrollments a db)"
  using assms
proof (induction todo arbitrary: i remaining db)
  case Nil
  then show ?case by (auto intro: brought_up_refl)
next
  case (Cons row todo)
  let ?d = "en_DeviceID row"
  let ?db2 = "\<lambda>db. db\<lparr>ud_enrollments := filter (\<lambda>r. \<not> (en_AccountID r = en_AccountID row \<and> en_DeviceID r = ?d)) (ud_enrollments db)\<rparr>"
  show ?case
  proof (cases "?d \<in> set remaining")
    case True
    with Cons.prems have "revoke_gone H F a t (Suc i) todo (removeAll ?d remaining) db = Inr (db', rest)" by simp
    from Cons.IH [OF Cons.prems(1) this] Cons.prems(3,4) True show ?thesis by (auto simp: distinct_removeAll)
  next
    case False
    with Cons.prems obtain db1 where ap: "AppendChange H (\<lambda>s. F (At i s)) (revocation row a t) db = Inr db1"
      and rest: "revoke_gone H F a t (Suc i) todo remaining (?db2 db1) = Inr (db', rest)"
      by (auto simp: revocation_def split: if_splits elim!: ebindE)
    have row: "row \<in> set (account_enrollments a db)" using Cons.prems(4) by simp
    note step = revoke_step [OF Cons.prems(1) row ap]
    have "distinct (map en_DeviceID todo)" using Cons.prems(3) by simp
    moreover have "set todo \<subseteq> set (filter (\<lambda>r. en_DeviceID r \<noteq> ?d) (account_enrollments a db))" using Cons.prems(3,4) by (auto simp: image_iff)
    ultimately have ih: "brought_up a (micro t) (?db2 db1) db'" "set rest = set remaining - en_DeviceID ` set todo" "distinct remaining \<longrightarrow> distinct rest"
      "set (account_enrollments a db') \<subseteq> set (filter (\<lambda>r. en_DeviceID r \<noteq> ?d) (account_enrollments a db))"
      "en_DeviceID ` set (account_enrollments a db') = en_DeviceID ` set (filter (\<lambda>r. en_DeviceID r \<noteq> ?d) (account_enrollments a db)) - (en_DeviceID ` set todo - set remaining)"
      "ue_GenerationID ` set (account_events a db') \<subseteq> ue_GenerationID ` set (account_events a (?db2 db1))
        \<union> en_GenerationID ` set (filter (\<lambda>r. en_DeviceID r \<noteq> ?d) (account_enrollments a db))"
      using Cons.IH [OF brought_up_ok [OF step(1)] rest] unfolding step(2) by simp_all
    show ?thesis
    proof (intro conjI)
      show "brought_up a (micro t) db db'" by (rule brought_up_trans [OF step(1) ih(1)])
      show "set rest = set remaining - en_DeviceID ` set (row # todo)" using ih(2) False by auto
      show "en_DeviceID ` set (account_enrollments a db') = en_DeviceID ` set (account_enrollments a db) - (en_DeviceID ` set (row # todo) - set remaining)"
        unfolding ih(5) using False by auto
      show "ue_GenerationID ` set (account_events a db') \<subseteq> ue_GenerationID ` set (account_events a db) \<union> en_GenerationID ` set (account_enrollments a db)"
      proof -
        have "en_GenerationID ` set (filter (\<lambda>r. en_DeviceID r \<noteq> ?d) (account_enrollments a db)) \<subseteq> en_GenerationID ` set (account_enrollments a db)" by auto
        moreover have "en_GenerationID row \<in> en_GenerationID ` set (account_enrollments a db)" using row by simp
        ultimately show ?thesis by (rule union_chain [OF ih(6) step(3)])
      qed
    qed (use ih(3,4) in auto)
  qed
qed

lemma enroll_new_ok:
  assumes "ledger_ok a db" and "enroll_new H F a t uuid i devices db = Inr db'" and "inj uuid"
    and "\<And>j. i \<le> j \<Longrightarrow> uuid j \<notin> ue_GenerationID ` set (account_events a db) \<union> en_GenerationID ` set (account_enrollments a db)"
  shows "brought_up a (micro t) db db' \<and> en_DeviceID ` set (account_enrollments a db') = en_DeviceID ` set (account_enrollments a db) \<union> set devices"
  using assms
proof (induction devices arbitrary: i db)
  case Nil
  then show ?case by (auto intro: brought_up_refl)
next
  case (Cons d devices)
  let ?r = "\<lparr>en_AccountID = a, en_DeviceID = d, en_GenerationID = uuid i\<rparr>"
  from Cons.prems(2) obtain db1 where ap: "AppendChange H (\<lambda>s. F (At i s)) (admission (uuid i) a t) db = Inr db1"
    and free: "\<not> has_key (\<lambda>r. (en_AccountID r, en_DeviceID r)) (a, d) (ud_enrollments db1)"
    and rest: "enroll_new H F a t uuid (Suc i) devices (db1\<lparr>ud_enrollments := ud_enrollments db1 @ [?r]\<rparr>) = Inr db'"
    by (auto simp: admission_def split: if_splits elim!: ebindE)
  have gens: "\<forall>e\<in>set (account_events a db). ue_GenerationID e \<noteq> uuid i" "\<forall>r\<in>set (account_enrollments a db). en_GenerationID r \<noteq> uuid i"
    using Cons.prems(4) [of i] by (auto simp: image_iff)
  have "ud_enrollments db1 = ud_enrollments db"
    using AppendChange_new [OF ap] enroll_name_free [OF Cons.prems(1) gens(1)] by (auto simp: admission_def)
  then have dev: "d \<notin> en_DeviceID ` set (account_enrollments a db)" using free by (auto simp: has_key_iff account_enrollments_def)
  note step = enroll_step [OF Cons.prems(1) ap gens dev]
  have "uuid j \<notin> ue_GenerationID ` set (account_events a (db1\<lparr>ud_enrollments := ud_enrollments db1 @ [?r]\<rparr>))
      \<union> en_GenerationID ` set (account_enrollments a (db1\<lparr>ud_enrollments := ud_enrollments db1 @ [?r]\<rparr>))" if "Suc i \<le> j" for j
  proof -
    have "uuid i \<noteq> uuid j" using that Cons.prems(3) by (auto dest: injD)
    moreover have "en_GenerationID ` set (account_enrollments a db @ [?r]) = insert (uuid i) (en_GenerationID ` set (account_enrollments a db))" by simp
    ultimately show ?thesis using Cons.prems(4) [OF Suc_leD [OF that]] subsetD [OF step(3), of "uuid j"] unfolding step(2) by (simp only: Un_iff insert_iff) metis
  qed
  note ih = Cons.IH [OF brought_up_ok [OF step(1)] rest Cons.prems(3) this, unfolded step(2)]
  show ?case
  proof
    show "brought_up a (micro t) db db'" by (rule brought_up_trans [OF step(1)]) (rule conjunct1 [OF ih])
    show "en_DeviceID ` set (account_enrollments a db') = en_DeviceID ` set (account_enrollments a db) \<union> set (d # devices)"
      using ih by (simp (no_asm_simp))
  qed
qed

text \<open>New identifiers were never used before.\<close>

definition fresh_uuids :: "(nat \<Rightarrow> string) \<Rightarrow> usage_db \<Rightarrow> bool" where
  "fresh_uuids uuid db \<longleftrightarrow> inj uuid \<and> range uuid \<inter> (ue_GenerationID ` set (lg_events db) \<union> en_GenerationID ` set (ud_enrollments db)) = {}"

lemma synchronize_ok:
  assumes "ledger_ok a db" and "synchronize H F a t uuid (order_asc en_DeviceID (account_enrollments a db)) wanted db = Inr db'"
    and "fresh_uuids uuid db" and "distinct wanted"
  shows "brought_up a (micro t) db db'" and "en_DeviceID ` set (account_enrollments a db') = set wanted"
proof -
  let ?rows = "order_asc en_DeviceID (account_enrollments a db)"
  from assms(2) obtain db1 rest where rev: "revoke_gone H F a t 0 ?rows wanted db = Inr (db1, rest)"
    and en: "enroll_new H F a t uuid (length ?rows) (sort rest) db1 = Inr db'"
    by (auto simp: synchronize_def elim!: ebindE)
  have "distinct (map en_DeviceID ?rows)" using assms(1) by (simp add: ledger_ok_def Let_def order_asc_def distinct_map)
  note r = revoke_gone_ok [OF assms(1) rev this, unfolded set_order, OF subset_refl]
  have r1: "brought_up a (micro t) db db1" and r3: "set (account_enrollments a db1) \<subseteq> set (account_enrollments a db)"
    and r5: "ue_GenerationID ` set (account_events a db1) \<subseteq> ue_GenerationID ` set (account_events a db) \<union> en_GenerationID ` set (account_enrollments a db)"
    and r4: "en_DeviceID ` set (account_enrollments a db1) = en_DeviceID ` set (account_enrollments a db) \<inter> set wanted"
    and r2: "set rest = set wanted - en_DeviceID ` set (account_enrollments a db)"
    using conjunct1 [OF r] r by (simp_all only: Diff_Diff_Int set_order simp_thms)
  have "ue_GenerationID ` set (account_events a db) \<union> en_GenerationID ` set (account_enrollments a db)
      \<subseteq> ue_GenerationID ` set (lg_events db) \<union> en_GenerationID ` set (ud_enrollments db)" by (auto simp: account_views)
  then have "ue_GenerationID ` set (account_events a db1) \<union> en_GenerationID ` set (account_enrollments a db1)
      \<subseteq> ue_GenerationID ` set (lg_events db) \<union> en_GenerationID ` set (ud_enrollments db)"
    using image_mono [OF r3, of en_GenerationID] r5 by (simp only: le_sup_iff) (meson le_supI2 order_trans sup.boundedI)
  then have "uuid j \<notin> ue_GenerationID ` set (account_events a db1) \<union> en_GenerationID ` set (account_enrollments a db1)" for j
    using assms(3) disjoint_iff [of "range uuid"] by (metis fresh_uuids_def rangeI subsetD)
  with assms(3) have en': "brought_up a (micro t) db1 db'" "en_DeviceID ` set (account_enrollments a db') = en_DeviceID ` set (account_enrollments a db1) \<union> set rest"
    using enroll_new_ok [OF brought_up_ok [OF r1] en] by (simp_all add: fresh_uuids_def)
  show "brought_up a (micro t) db db'" by (rule brought_up_trans [OF r1 en'(1)])
  show "en_DeviceID ` set (account_enrollments a db') = set wanted" unfolding en'(2) r2 r4 by blast
qed

section \<open>The past\<close>

text \<open>Ghost history: after each committed operation on an account, the microsecond it was committed at and the number of devices the account then had.\<close>

type_synonym past = "(string \<times> int \<times> int) list"

fun members_at :: "past \<Rightarrow> string \<Rightarrow> int \<Rightarrow> int" where
  "members_at [] a u = 0"
| "members_at ((b, t, n) # past) a u = (if b = a \<and> t \<le> u \<and> (\<forall>(c, t', n')\<in>set past. c = a \<longrightarrow> u < t') then n else members_at past a u)"

lemma members_at_snoc: "members_at (past @ [(b, t, n)]) a u = (if b = a \<and> t \<le> u then n else members_at past a u)"
  by (induction past) auto

text \<open>An account between operations: its events, periods and past are not later than the clock, a period without an end is the current one of a collecting account,
  and in every complete period the ledger counts the devices there were.\<close>

definition period_inv :: "string \<Rightarrow> usage_db \<times> int \<times> past \<Rightarrow> Period \<Rightarrow> bool" where
  "period_inv a s p \<longleftrightarrow> (case s of (db, clock, past) \<Rightarrow>
     (pd_EndUS p = None \<longrightarrow> collecting a db \<and> pd_ID p = current_period a db) \<and> (\<forall>e. pd_EndUS p = Some e \<longrightarrow> e \<le> clock)
     \<and> (collecting a db \<and> pd_ID p = current_period a db \<longrightarrow> pd_EndUS p = None \<and> pd_Complete p)
     \<and> (pd_Complete p \<longrightarrow> (\<forall>u. pd_StartUS p \<le> u \<and> \<not> ended u p \<longrightarrow> counted (account_events a db) u = members_at past a u)))"

definition account_inv :: "string \<Rightarrow> usage_db \<times> int \<times> past \<Rightarrow> bool" where
  "account_inv a s \<longleftrightarrow> ledger_ok a (fst s) \<and> (\<forall>e\<in>set (account_events a (fst s)). ue_AtUS e \<le> fst (snd s))
     \<and> (collecting a (fst s) \<longrightarrow> distinct (account_peers a (fst s)) \<and> en_DeviceID ` set (account_enrollments a (fst s)) = set (account_peers a (fst s)))
     \<and> (\<forall>p\<in>set (account_periods a (fst s)). period_inv a s p)"

text \<open>What one operation on an account does to its rows, at one microsecond.\<close>

definition period_step :: "string \<Rightarrow> int \<Rightarrow> usage_db \<Rightarrow> usage_db \<Rightarrow> Period \<Rightarrow> bool" where
  "period_step a m db db' p \<longleftrightarrow> (pd_EndUS p = None \<longrightarrow> collecting a db' \<and> pd_ID p = current_period a db')
     \<and> (collecting a db' \<and> pd_ID p = current_period a db' \<longrightarrow> pd_EndUS p = None \<and> pd_Complete p)
     \<and> (p \<in> set (account_periods a db) \<or> pd_StartUS p = m \<and> pd_EndUS p = None
         \<or> (\<exists>q\<in>set (account_periods a db). pd_EndUS q = None \<and> pd_Complete q \<and> pd_StartUS p = pd_StartUS q \<and> pd_EndUS p = Some m))"

definition account_step :: "string \<Rightarrow> int \<Rightarrow> usage_db \<Rightarrow> usage_db \<Rightarrow> bool" where
  "account_step a m db db' \<longleftrightarrow> ledger_ok a db' \<and> others_kept a db db'
     \<and> (\<exists>new. account_events a db' = account_events a db @ new \<and> (\<forall>e\<in>set new. ue_AtUS e = m))
     \<and> (collecting a db' \<longrightarrow> distinct (account_peers a db') \<and> en_DeviceID ` set (account_enrollments a db') = set (account_peers a db'))
     \<and> (\<forall>p\<in>set (account_periods a db'). period_step a m db db' p)"

lemma account_invD:
  assumes "account_inv a (db, clock, past)"
  shows "ledger_ok a db" and "\<forall>e\<in>set (account_events a db). ue_AtUS e \<le> clock"
    and "collecting a db \<Longrightarrow> distinct (account_peers a db)" and "collecting a db \<Longrightarrow> en_DeviceID ` set (account_enrollments a db) = set (account_peers a db)"
    and "p \<in> set (account_periods a db) \<Longrightarrow> period_inv a (db, clock, past) p"
  using assms by (simp_all add: account_inv_def)

lemma period_invD:
  assumes "period_inv a (db, clock, past) p"
  shows "pd_EndUS p = None \<Longrightarrow> collecting a db \<and> pd_ID p = current_period a db" and "pd_EndUS p = Some e \<Longrightarrow> e \<le> clock"
    and "collecting a db \<Longrightarrow> pd_ID p = current_period a db \<Longrightarrow> pd_EndUS p = None \<and> pd_Complete p"
    and "pd_Complete p \<Longrightarrow> pd_StartUS p \<le> u \<Longrightarrow> \<not> ended u p \<Longrightarrow> counted (account_events a db) u = members_at past a u"
  using assms by (simp_all add: period_inv_def)

lemma account_stepD:
  assumes "account_step a m db db'"
  shows "ledger_ok a db'" and "others_kept a db db'" and "\<exists>new. account_events a db' = account_events a db @ new \<and> (\<forall>e\<in>set new. ue_AtUS e = m)"
    and "collecting a db' \<Longrightarrow> distinct (account_peers a db')" and "collecting a db' \<Longrightarrow> en_DeviceID ` set (account_enrollments a db') = set (account_peers a db')"
    and "p \<in> set (account_periods a db') \<Longrightarrow> period_step a m db db' p"
  using assms by (simp_all only: account_step_def simp_thms)

lemma period_stepD:
  assumes "period_step a m db db' p"
  shows "pd_EndUS p = None \<Longrightarrow> collecting a db' \<and> pd_ID p = current_period a db'"
    and "collecting a db' \<and> pd_ID p = current_period a db' \<longrightarrow> pd_EndUS p = None \<and> pd_Complete p"
    and "p \<in> set (account_periods a db) \<or> pd_StartUS p = m \<and> pd_EndUS p = None
      \<or> (\<exists>q\<in>set (account_periods a db). pd_EndUS q = None \<and> pd_Complete q \<and> pd_StartUS p = pd_StartUS q \<and> pd_EndUS p = Some m)"
  using assms unfolding period_step_def by blast+

lemma enrolled_is_members:
  assumes "ledger_ok a db" and "distinct (account_peers a db)" and "en_DeviceID ` set (account_enrollments a db) = set (account_peers a db)"
  shows "sum_list (map delta_of (account_events a db)) = int (length (account_peers a db))"
proof -
  have "distinct (map en_DeviceID (account_enrollments a db))" and "sum_list (map delta_of (account_events a db)) = int (length (account_enrollments a db))"
    using assms(1) by (simp_all add: ledger_ok_def Let_def)
  with assms(2,3) show ?thesis using distinct_card [of "map en_DeviceID (account_enrollments a db)"] distinct_card [of "account_peers a db"] by simp
qed

lemma counted_at_step:
  assumes inv: "account_inv a (db, clock, past)" and step: "account_step a m db db'" and m: "clock \<le> m"
  shows "\<forall>e\<in>set (account_events a db'). ue_AtUS e \<le> m"
    and "u < m \<Longrightarrow> counted (account_events a db') u = counted (account_events a db) u"
    and "m \<le> u \<Longrightarrow> collecting a db' \<Longrightarrow> counted (account_events a db') u = int (length (account_peers a db'))"
proof -
  from account_stepD(3) [OF step] obtain new where new: "account_events a db' = account_events a db @ new" "\<forall>e\<in>set new. ue_AtUS e = m" by blast
  show le: "\<forall>e\<in>set (account_events a db'). ue_AtUS e \<le> m" using account_invD(2) [OF inv] m new by fastforce
  show "u < m \<Longrightarrow> counted (account_events a db') u = counted (account_events a db) u"
    using new(2) counted_none [of new u] by (simp add: new(1) counted_append)
  assume u: "m \<le> u" "collecting a db'"
  have "\<forall>e\<in>set (account_events a db'). ue_AtUS e \<le> u" using le u(1) by fastforce
  then show "counted (account_events a db') u = int (length (account_peers a db'))"
    using enrolled_is_members [OF account_stepD(1,4,5) [OF step]] u(2) by (simp add: counted_all)
qed

lemma account_inv_step:
  assumes inv: "account_inv a (db, clock, past)" and step: "account_step a m db db'" and m: "clock \<le> m"
  shows "account_inv a (db', m, past @ [(a, m, int (length (account_peers a db')))])"
proof -
  let ?past = "past @ [(a, m, int (length (account_peers a db')))]"
  have "period_inv a (db', m, ?past) p" if p: "p \<in> set (account_periods a db')" for p
  proof -
    note st = period_stepD [OF account_stepD(6) [OF step p]]
    have closed: "e \<le> m" if "pd_EndUS p = Some e" for e
      using st(3) period_invD(2) [OF account_invD(5) [OF inv] that] that m by auto
    have "counted (account_events a db') u = members_at ?past a u" if u: "pd_Complete p" "pd_StartUS p \<le> u" "\<not> ended u p" for u
    proof (cases "u < m")
      case True
      obtain q where q: "q \<in> set (account_periods a db)" "pd_Complete q" "pd_StartUS q \<le> u" "\<not> ended u q"
        using st(3) u True by (auto simp: ended_def)
      have "counted (account_events a db) u = members_at past a u" by (rule period_invD(4) [OF account_invD(5) [OF inv q(1)] q(2-4)])
      with True show ?thesis by (simp add: members_at_snoc counted_at_step(2) [OF inv step m])
    next
      case False
      then have "pd_EndUS p = None" using closed u(3) by (cases "pd_EndUS p") (force simp: ended_def)+
      with st(1) have "collecting a db'" by simp
      with False show ?thesis by (simp add: members_at_snoc counted_at_step(3) [OF inv step m])
    qed
    then show ?thesis unfolding period_inv_def prod.case using closed st(1,2) by (intro conjI impI allI) iprover+
  qed
  with account_stepD(1,4,5) [OF step] counted_at_step(1) [OF inv step m] show ?thesis by (simp add: account_inv_def)
qed

section \<open>Operations\<close>

text \<open>Changes of the tables that a view does not read leave it alone.\<close>

lemma view_frames [simp]:
  "account_events a (db\<lparr>ud_collections := cs\<rparr>) = account_events a db" "account_events a (db\<lparr>ud_periods := ps\<rparr>) = account_events a db"
  "account_events a (db\<lparr>ud_peers := qs\<rparr>) = account_events a db" "account_events a (db\<lparr>ud_discrepancies := ds\<rparr>) = account_events a db"
  "find_stream a (db\<lparr>ud_collections := cs\<rparr>) = find_stream a db" "find_stream a (db\<lparr>ud_periods := ps\<rparr>) = find_stream a db"
  "find_stream a (db\<lparr>ud_peers := qs\<rparr>) = find_stream a db" "find_stream a (db\<lparr>ud_discrepancies := ds\<rparr>) = find_stream a db"
  "account_enrollments a (db\<lparr>ud_collections := cs\<rparr>) = account_enrollments a db" "account_enrollments a (db\<lparr>ud_periods := ps\<rparr>) = account_enrollments a db"
  "account_enrollments a (db\<lparr>ud_peers := qs\<rparr>) = account_enrollments a db" "account_enrollments a (db\<lparr>ud_discrepancies := ds\<rparr>) = account_enrollments a db"
  "account_periods a (db\<lparr>ud_collections := cs\<rparr>) = account_periods a db" "account_periods a (db\<lparr>ud_peers := qs\<rparr>) = account_periods a db"
  "account_periods a (db\<lparr>ud_discrepancies := ds\<rparr>) = account_periods a db"
  "account_peers a (db\<lparr>ud_collections := cs\<rparr>) = account_peers a db" "account_peers a (db\<lparr>ud_periods := ps\<rparr>) = account_peers a db"
  "account_peers a (db\<lparr>ud_discrepancies := ds\<rparr>) = account_peers a db"
  "collection_of a (db\<lparr>ud_periods := ps\<rparr>) = collection_of a db" "collection_of a (db\<lparr>ud_peers := qs\<rparr>) = collection_of a db"
  "collection_of a (db\<lparr>ud_discrepancies := ds\<rparr>) = collection_of a db"
  by (simp_all add: account_views find_stream_def)

lemma ledger_frames [simp]:
  "ledger_ok a (db\<lparr>ud_collections := cs\<rparr>) = ledger_ok a db" "ledger_ok a (db\<lparr>ud_periods := ps\<rparr>) = ledger_ok a db"
  "ledger_ok a (db\<lparr>ud_peers := qs\<rparr>) = ledger_ok a db" "ledger_ok a (db\<lparr>ud_discrepancies := ds\<rparr>) = ledger_ok a db"
  by (simp_all add: ledger_ok_def)

lemma lockCollection_ok:
  assumes "lockCollection F a db = Inr (db1, state)"
  shows "\<exists>cs. db1 = db\<lparr>ud_collections := cs\<rparr>" and "collection_of a db1 = Some state" and "co_AccountID state = a" and "others_kept a db db1"
    and "co_Enabled state = collecting a db" and "collecting a db \<Longrightarrow> co_PeriodID state = current_period a db"
proof -
  let ?new = "\<lparr>co_AccountID = a, co_Enabled = False, co_PeriodID = [], co_LastAtUS = 0\<rparr>"
  from assms have db1: "db1 = db\<lparr>ud_collections := insert_new co_AccountID ?new (ud_collections db)\<rparr>" and st: "collection_of a db1 = Some state"
    by (auto simp: lockCollection_def Let_def collection_of_def split: if_splits option.splits)
  have find: "collection_of b db1 = (case collection_of b db of Some x \<Rightarrow> Some x | None \<Rightarrow> if b = a then Some ?new else None)" for b
    using find_insert_new [of co_AccountID b ?new] by (auto simp: db1 collection_of_def split: option.splits)
  show "\<exists>cs. db1 = db\<lparr>ud_collections := cs\<rparr>" using db1 by blast
  show "collection_of a db1 = Some state" by (fact st)
  show "co_AccountID state = a" using st find_Some_in [of "\<lambda>c. co_AccountID c = a"] by (auto simp: collection_of_def)
  show "others_kept a db db1" using find by (auto simp: others_kept_def db1 split: option.splits)
  show "co_Enabled state = collecting a db" "collecting a db \<Longrightarrow> co_PeriodID state = current_period a db"
    using st find [of a] by (auto simp: collecting_def current_period_def split: option.splits)
qed

lemma saveCollection_ok:
  assumes "saveCollection F state t db = Inr db'" and "co_AccountID state = a" and "collection_of a db = Some c"
  shows "\<exists>cs. db' = db\<lparr>ud_collections := cs\<rparr>" and "collecting a db' = co_Enabled state" and "current_period a db' = co_PeriodID state"
    and "others_kept a db db'"
proof -
  let ?f = "\<lambda>c. c\<lparr>co_Enabled := co_Enabled state, co_PeriodID := co_PeriodID state, co_LastAtUS := micro t\<rparr>"
  from assms have db': "db' = db\<lparr>ud_collections := update_rows (\<lambda>c. co_AccountID c = a) ?f (ud_collections db)\<rparr>"
    by (auto simp: saveCollection_def split: if_splits)
  have fu: "find (\<lambda>c. co_AccountID c = b) (update_rows (\<lambda>c. co_AccountID c = a) ?f cs) =
      (if b = a then map_option ?f (find (\<lambda>c. co_AccountID c = a) cs) else find (\<lambda>c. co_AccountID c = b) cs)" for b cs
    by (induction cs) (auto simp: update_rows_def)
  have find: "collection_of b db' = (if b = a then map_option ?f (collection_of a db) else collection_of b db)" for b
    using fu [of b "ud_collections db"] by (simp add: db' collection_of_def)
  show "\<exists>cs. db' = db\<lparr>ud_collections := cs\<rparr>" using db' by blast
  show "collecting a db' = co_Enabled state" "current_period a db' = co_PeriodID state"
    by (simp_all add: collecting_def current_period_def find assms(3))
  show "others_kept a db db'" by (simp add: others_kept_def find) (simp add: db')
qed

lemma deviceMembership_ok:
  assumes "membership (deviceMembership F a) db = Inr ids"
  shows "set ids = set (account_peers a db)" and "distinct ids" and "distinct (account_peers a db)"
proof -
  from assms have ids: "ids = map dq_ID (order_asc dq_ID (filter (\<lambda>p. dq_AccountID p = a) (ud_peers db)))" and d: "distinct ids"
    by (auto simp: membership_def deviceMembership_def split: if_splits elim!: ebindE)
  show "set ids = set (account_peers a db)" "distinct ids" using ids d by (simp_all add: account_peers_def)
  have "mset ids = mset (account_peers a db)" by (simp add: ids account_peers_def order_asc_def)
  then show "distinct (account_peers a db)" using d by (metis mset_eq_imp_distinct_iff)
qed

lemma account_step_congr:
  assumes "account_step a m db1 db'" and "others_kept a db db1" and "account_events a db1 = account_events a db" and "account_periods a db1 = account_periods a db"
  shows "account_step a m db db'"
  using assms(1,3,4) others_kept_trans [OF assms(2)] by (simp only: account_step_def period_step_def) iprover

text \<open>The common end of an operation that leaves the account collecting: the ledger is brought up to the devices, a period may start, and the collection row is saved.\<close>

definition period_ok :: "string \<Rightarrow> int \<Rightarrow> string \<Rightarrow> usage_db \<Rightarrow> Period \<Rightarrow> bool" where
  "period_ok a m current db p \<longleftrightarrow> pd_AccountID p = a \<and> (pd_EndUS p = None \<longleftrightarrow> pd_ID p = current) \<and> (pd_EndUS p = None \<longrightarrow> pd_Complete p)
     \<and> (p \<in> set (account_periods a db) \<or> pd_StartUS p = m \<and> pd_EndUS p = None
         \<or> (\<exists>q\<in>set (account_periods a db). pd_EndUS q = None \<and> pd_Complete q \<and> pd_StartUS p = pd_StartUS q \<and> pd_EndUS p = Some m))"

lemma period_ok_step:
  "period_ok a m (current_period a db') db p \<Longrightarrow> collecting a db' \<Longrightarrow> period_step a m db db' p"
  unfolding period_ok_def period_step_def by blast

lemma collecting_step:
  assumes kept: "others_kept a db0 db" "account_events a db = account_events a db0" and up: "brought_up a m db db2"
    and dev: "distinct (account_peers a db)" "en_DeviceID ` set (account_enrollments a db2) = set (account_peers a db)"
    and save: "saveCollection F state t (db2\<lparr>ud_periods := ud_periods db2 @ new\<rparr>) = Inr db'" "co_AccountID state = a" "co_Enabled state" "collection_of a db = Some c"
    and periods: "\<And>p. p \<in> set (account_periods a db) \<union> set new \<Longrightarrow> period_ok a m (co_PeriodID state) db0 p"
  shows "account_step a m db0 db'"
proof -
  let ?db3 = "db2\<lparr>ud_periods := ud_periods db2 @ new\<rparr>"
  have same: "collection_of b db2 = collection_of b db" "account_periods b db2 = account_periods b db" "account_peers b db2 = account_peers b db" for b
    using up by (simp_all add: brought_up_def account_views)
  have newp: "\<forall>p\<in>set new. pd_AccountID p = a" using periods by (auto simp: period_ok_def)
  have c: "collection_of a ?db3 = Some c" using same(1) save(4) by simp
  note saved = saveCollection_ok [OF save(1,2) c]
  obtain cs where db': "db' = ?db3\<lparr>ud_collections := cs\<rparr>" using saved(1) by blast
  have col: "collecting a db'" "current_period a db' = co_PeriodID state" using saved(2,3) save(3) by simp_all
  have mine: "filter (\<lambda>p. pd_AccountID p = b) new = (if b = a then new else [])" for b using newp by (auto simp: filter_empty_conv filter_id_conv)
  have per: "account_periods b ?db3 = account_periods b db @ (if b = a then new else [])" for b
    using same(2) [of b] mine [of b] by (simp add: account_periods_def)
  have "others_kept a db2 ?db3" using per same(2) by (simp add: others_kept_def)
  then have "others_kept a db0 db'"
    using kept(1) up saved(4) unfolding brought_up_def by (meson others_kept_trans)
  moreover have "ledger_ok a db'" "account_events a db' = account_events a db2" "account_enrollments a db' = account_enrollments a db2"
    "account_peers a db' = account_peers a db" "account_periods a db' = account_periods a db @ new"
    using up per [of a] same(3) by (simp_all add: db' brought_up_def)
  moreover have "\<exists>new. account_events a db2 = account_events a db0 @ new \<and> (\<forall>e\<in>set new. ue_AtUS e = m)"
    using up kept(2) by (simp add: brought_up_def)
  moreover have "period_step a m db0 db' p" if "p \<in> set (account_periods a db @ new)" for p
    using periods [of p] that col by (intro period_ok_step) simp_all
  ultimately show ?thesis using dev by (simp only: account_step_def) simp
qed

lemma timestamp_micro: "timestamp now state = Inr t \<Longrightarrow> micro t = micro now"
  by (auto simp: timestamp_def Let_def micro_def split: if_splits)

text \<open>An operation that only creates the collection row, or that only changes the devices of an account that is not collecting.\<close>

lemma idle_step:
  assumes inv: "account_inv a (db, clock, past)" and lock: "lockCollection F a db = Inr (db1, state)"
    and peers: "ps = ud_peers db1 \<or> \<not> collecting a db" "\<And>b. b \<noteq> a \<Longrightarrow> filter (\<lambda>p. dq_AccountID p = b) ps = filter (\<lambda>p. dq_AccountID p = b) (ud_peers db1)"
  shows "account_step a m db (db1\<lparr>ud_peers := ps\<rparr>)"
proof -
  note L = lockCollection_ok [OF lock]
  obtain cs where db1: "db1 = db\<lparr>ud_collections := cs\<rparr>" using L(1) by blast
  let ?db = "db1\<lparr>ud_peers := ps\<rparr>"
  have col: "collecting a ?db = collecting a db" "collecting a db \<Longrightarrow> current_period a ?db = current_period a db"
    using L(2,5,6) by (simp_all add: collecting_def current_period_def)
  have "others_kept a db1 ?db" using peers(2) by (simp add: others_kept_def account_peers_def)
  then have "others_kept a db ?db" by (rule others_kept_trans [OF L(4)])
  moreover have "collecting a db \<Longrightarrow> distinct (account_peers a ?db) \<and> en_DeviceID ` set (account_enrollments a ?db) = set (account_peers a ?db)"
    using account_invD(3,4) [OF inv] peers(1) by (simp add: db1 account_peers_def account_enrollments_def)
  moreover have "period_step a m db ?db p" if "p \<in> set (account_periods a db)" for p
    using period_invD(1,3) [OF account_invD(5) [OF inv that]] col that unfolding period_step_def by metis
  moreover have "ledger_ok a ?db" "account_events a ?db = account_events a db" "account_periods a ?db = account_periods a db"
    using account_invD(1) [OF inv] by (simp_all add: db1)
  ultimately show ?thesis using col(1) by (simp only: account_step_def) simp
qed

lemma synchronize_saves:
  assumes ok: "ledger_ok a db" and kept: "others_kept a db0 db" "account_events a db = account_events a db0"
    and mem: "membership (deviceMembership F a) db = Inr wanted"
    and sync: "synchronize H F a t uuid (order_asc en_DeviceID (account_enrollments a db)) wanted db = Inr db2" and fresh: "fresh_uuids uuid db"
    and save: "saveCollection F state t (db2\<lparr>ud_periods := ud_periods db2 @ new\<rparr>) = Inr db'" "co_AccountID state = a" "co_Enabled state" "collection_of a db = Some c"
    and periods: "\<And>p. p \<in> set (account_periods a db) \<union> set new \<Longrightarrow> period_ok a (micro t) (co_PeriodID state) db0 p"
  shows "account_step a (micro t) db0 db'"
proof -
  note D = deviceMembership_ok [OF mem]
  note S = synchronize_ok [OF ok sync fresh D(2), unfolded D(1)]
  show ?thesis by (rule collecting_step [OF kept S(1) D(3) S(2) save periods])
qed

lemma fresh_uuids_frames [simp]:
  "fresh_uuids uuid (db\<lparr>ud_collections := cs\<rparr>) = fresh_uuids uuid db" "fresh_uuids uuid (db\<lparr>ud_periods := ps\<rparr>) = fresh_uuids uuid db"
  "fresh_uuids uuid (db\<lparr>ud_peers := qs\<rparr>) = fresh_uuids uuid db" "fresh_uuids uuid (db\<lparr>ud_discrepancies := ds\<rparr>) = fresh_uuids uuid db"
  by (simp_all add: fresh_uuids_def)

lemma activeEnrollments_ok: "activeEnrollments F a db = Inr rows \<Longrightarrow> rows = order_asc en_DeviceID (account_enrollments a db)"
  by (auto simp: activeEnrollments_def account_enrollments_def split: if_splits)

text \<open>A change of membership touches the devices of its own account only.\<close>

definition mutates_devices :: "string \<Rightarrow> (usage_db \<Rightarrow> usage_error + usage_db) \<Rightarrow> bool" where
  "mutates_devices a mutate \<longleftrightarrow> (\<forall>db db'. mutate db = Inr db' \<longrightarrow> (\<exists>ps. db' = db\<lparr>ud_peers := ps\<rparr>
     \<and> (\<forall>b. b \<noteq> a \<longrightarrow> filter (\<lambda>p. dq_AccountID p = b) ps = filter (\<lambda>p. dq_AccountID p = b) (ud_peers db))))"

lemma Track_step:
  assumes inv: "account_inv a (db, clock, past)" and tr: "Track H F a (deviceMembership F a) mutate uuid now db = Inr db'"
    and mut: "mutates_devices a mutate" and fresh: "fresh_uuids uuid db"
  shows "account_step a (micro now) db db'"
proof -
  from tr obtain db1 state where lock: "lockCollection F a db = Inr (db1, state)" by (auto simp: Track_def elim!: ebindE)
  note L = lockCollection_ok [OF lock]
  obtain cs where db1: "db1 = db\<lparr>ud_collections := cs\<rparr>" using L(1) by blast
  show ?thesis
  proof (cases "co_Enabled state")
    case False
    with tr lock have "mutate db1 = Inr db'" by (simp add: Track_def)
    with mut obtain ps where "db' = db1\<lparr>ud_peers := ps\<rparr>" "\<forall>b. b \<noteq> a \<longrightarrow> filter (\<lambda>p. dq_AccountID p = b) ps = filter (\<lambda>p. dq_AccountID p = b) (ud_peers db1)"
      unfolding mutates_devices_def by blast
    with idle_step [OF inv lock, of ps] L(5) False show ?thesis by simp
  next
    case True
    with tr lock obtain rows db2 after t db3 where rows: "activeEnrollments F a db1 = Inr rows" and m: "mutate db1 = Inr db2"
      and mem: "membership (deviceMembership F a) db2 = Inr after" and t: "timestamp now state = Inr t"
      and sync: "synchronize H F a t uuid rows after db2 = Inr db3" and save: "saveCollection F state t db3 = Inr db'"
      by (auto simp: Track_def split: if_splits elim!: ebindE)
    from mut m obtain ps where db2: "db2 = db1\<lparr>ud_peers := ps\<rparr>"
      and ps: "\<forall>b. b \<noteq> a \<longrightarrow> filter (\<lambda>p. dq_AccountID p = b) ps = filter (\<lambda>p. dq_AccountID p = b) (ud_peers db1)"
      unfolding mutates_devices_def by blast
    have "others_kept a db1 db2" using ps by (simp add: others_kept_def db2 account_peers_def)
    with L(4) have kept: "others_kept a db db2" by (rule others_kept_trans)
    have cur: "collecting a db" "co_PeriodID state = current_period a db" using L(5,6) True by simp_all
    have "period_ok a (micro t) (co_PeriodID state) db p" if "p \<in> set (account_periods a db2) \<union> set []" for p
      using that period_invD(1,3) [OF account_invD(5) [OF inv]] cur by (auto simp: db2 db1 period_ok_def) (simp add: account_periods_def)
    then have "account_step a (micro t) db db'"
      using account_invD(1) [OF inv] kept mem sync activeEnrollments_ok [OF rows] fresh save L(2,3) True
      by (intro synchronize_saves [where db = db2 and new = "[]" and state = state]) (simp_all add: db2 db1)
    then show ?thesis by (simp add: timestamp_micro [OF t])
  qed
qed

lemma startPeriod_ok:
  assumes "startPeriod F period state t db = Inr (db', state')"
  shows "\<exists>p. db' = db\<lparr>ud_periods := ud_periods db @ [p]\<rparr> \<and> pd_AccountID p = co_AccountID state \<and> pd_ID p = period \<and> pd_StartUS p = micro t
     \<and> pd_EndUS p = None \<and> pd_Complete p" and "co_AccountID state' = co_AccountID state" and "co_Enabled state'" and "co_PeriodID state' = period"
  using assms by (auto simp: startPeriod_def split: if_splits)

lemma closePeriod_ok:
  assumes "closePeriod F state t covered db = Inr db'" and "co_AccountID state = a"
  shows "\<exists>ps. db' = db\<lparr>ud_periods := ps\<rparr>" and "b \<noteq> a \<Longrightarrow> account_periods b db' = account_periods b db"
    and "set (account_periods a db') = (\<lambda>p. if pd_ID p = co_PeriodID state then p\<lparr>pd_EndUS := Some (micro t), pd_Complete := covered\<rparr> else p) ` set (account_periods a db)"
proof -
  let ?P = "\<lambda>p. pd_ID p = co_PeriodID state \<and> pd_AccountID p = a" and ?f = "\<lambda>p. p\<lparr>pd_EndUS := Some (micro t), pd_Complete := covered\<rparr>"
  from assms have db': "db' = db\<lparr>ud_periods := update_rows ?P ?f (ud_periods db)\<rparr>" by (auto simp: closePeriod_def split: if_splits)
  then show "\<exists>ps. db' = db\<lparr>ud_periods := ps\<rparr>" by blast
  have "filter (\<lambda>p. pd_AccountID p = b) (update_rows ?P ?f ps) = filter (\<lambda>p. pd_AccountID p = b) ps" if "b \<noteq> a" for b ps
    using that by (induction ps) (auto simp: update_rows_def)
  then show "b \<noteq> a \<Longrightarrow> account_periods b db' = account_periods b db" by (simp add: db' account_periods_def)
  show "set (account_periods a db') = (\<lambda>p. if pd_ID p = co_PeriodID state then ?f p else p) ` set (account_periods a db)"
    by (auto simp: db' account_periods_def set_update_rows image_iff)
qed

text \<open>A period identifier that no period has yet.\<close>

definition fresh_period :: "string \<Rightarrow> usage_db \<Rightarrow> bool" where
  "fresh_period period db \<longleftrightarrow> period \<notin> pd_ID ` set (ud_periods db)"

lemma enable_step:
  assumes inv: "account_inv a (db, clock, past)" and lock: "lockCollection F a db = Inr (db1, state)" and off: "\<not> co_Enabled state"
    and mem: "membership (deviceMembership F a) db1 = Inr wanted" and rows: "activeEnrollments F a db1 = Inr rows"
    and sync: "synchronize H F a t uuid rows wanted db1 = Inr db2" and start: "startPeriod F period state t db2 = Inr (db3, state')"
    and save: "saveCollection F state' t db3 = Inr db'" and fresh: "fresh_uuids uuid db" "fresh_period period db"
  shows "account_step a (micro t) db db'"
proof -
  note L = lockCollection_ok [OF lock] and S = startPeriod_ok [OF start]
  obtain cs where db1: "db1 = db\<lparr>ud_collections := cs\<rparr>" using L(1) by blast
  obtain p where p: "db3 = db2\<lparr>ud_periods := ud_periods db2 @ [p]\<rparr>" "pd_AccountID p = a" "pd_ID p = period" "pd_StartUS p = micro t" "pd_EndUS p = None" "pd_Complete p"
    using S(1) L(3) by auto
  have old: "pd_EndUS q \<noteq> None \<and> pd_ID q \<noteq> period \<and> pd_AccountID q = a" if "q \<in> set (account_periods a db)" for q
    using period_invD(1) [OF account_invD(5) [OF inv that]] L(5) off that fresh(2) by (auto simp: fresh_period_def account_periods_def)
  have "period_ok a (micro t) (co_PeriodID state') db q" if "q \<in> set (account_periods a db1) \<union> set [p]" for q
    using that p old [of q] S(4) by (auto simp: period_ok_def db1)
  then show ?thesis
    using account_invD(1) [OF inv] L(2-4) mem sync activeEnrollments_ok [OF rows] fresh(1) save S(2,3) p(1)
    by (intro synchronize_saves [where db = db1 and new = "[p]" and state = state']) (simp_all add: db1)
qed

lemma disable_step:
  assumes inv: "account_inv a (db, clock, past)" and lock: "lockCollection F a db = Inr (db1, state)" and on: "co_Enabled state"
    and cl: "closePeriod F state t True db1 = Inr db2" and save: "saveCollection F (state\<lparr>co_Enabled := False\<rparr>) t db2 = Inr db'"
  shows "account_step a (micro t) db db'"
proof -
  note L = lockCollection_ok [OF lock] and C = closePeriod_ok [OF cl lockCollection_ok(3) [OF lock]]
  obtain cs where db1: "db1 = db\<lparr>ud_collections := cs\<rparr>" using L(1) by blast
  obtain ps where db2: "db2 = db1\<lparr>ud_periods := ps\<rparr>" using C(1) by blast
  have "collection_of a db2 = Some state" using L(2) by (simp add: db2)
  with saveCollection_ok [OF save] L(3) have S: "\<exists>cs. db' = db2\<lparr>ud_collections := cs\<rparr>" "\<not> collecting a db'" "others_kept a db2 db'" by simp_all
  obtain cs' where db': "db' = db2\<lparr>ud_collections := cs'\<rparr>" using S(1) by blast
  have cur: "collecting a db" "co_PeriodID state = current_period a db" using L(5,6) on by simp_all
  have "others_kept a db1 db2" using C(2) by (simp add: others_kept_def db2)
  then have "others_kept a db db'" using L(4) S(3) by (meson others_kept_trans)
  moreover have "period_step a (micro t) db db' p" if "p \<in> set (account_periods a db2)" for p
  proof -
    from that C(3) obtain q where q: "q \<in> set (account_periods a db)"
      and p: "p = (if pd_ID q = co_PeriodID state then q\<lparr>pd_EndUS := Some (micro t), pd_Complete := True\<rparr> else q)" by (auto simp: db1)
    show ?thesis
      using p q period_invD(1,3) [OF account_invD(5) [OF inv q]] cur S(2) by (auto simp: period_step_def split: if_splits)
  qed
  moreover have "account_periods a db' = account_periods a db2" by (simp add: db')
  moreover have "ledger_ok a db'" "account_events a db' = account_events a db" using account_invD(1) [OF inv] by (simp_all add: db' db2 db1)
  ultimately show ?thesis using S(2) by (simp only: account_step_def) simp
qed

lemma Configure_step:
  assumes inv: "account_inv a (db, clock, past)" and conf: "Configure H F a enabled (deviceMembership F a) period uuid now db = Inr db'"
    and fresh: "enabled \<Longrightarrow> fresh_uuids uuid db \<and> fresh_period period db"
  shows "account_step a (micro now) db db'"
proof -
  from conf obtain db1 state where lock: "lockCollection F a db = Inr (db1, state)" by (auto simp: Configure_def elim!: ebindE)
  consider "co_Enabled state = enabled" | (on) "enabled" "\<not> co_Enabled state" | (off) "\<not> enabled" "co_Enabled state" by blast
  then show ?thesis
  proof cases
    case 1
    with conf lock have "db' = db1\<lparr>ud_peers := ud_peers db1\<rparr>" by (simp add: Configure_def)
    then show ?thesis using idle_step [OF inv lock, of "ud_peers db1"] by simp
  next
    case on
    with conf lock obtain t wanted rows db2 db3 state' where "timestamp now state = Inr t" "membership (deviceMembership F a) db1 = Inr wanted"
      "activeEnrollments F a db1 = Inr rows" "synchronize H F a t uuid rows wanted db1 = Inr db2" "startPeriod F period state t db2 = Inr (db3, state')"
      "saveCollection F state' t db3 = Inr db'" by (auto simp: Configure_def elim!: ebindE)
    with enable_step [OF inv lock on(2)] fresh on(1) show ?thesis by (metis timestamp_micro)
  next
    case off
    with conf lock obtain t db2 where "timestamp now state = Inr t" "closePeriod F state t True db1 = Inr db2"
      "saveCollection F (state\<lparr>co_Enabled := False\<rparr>) t db2 = Inr db'" by (auto simp: Configure_def elim!: ebindE)
    with disable_step [OF inv lock off(2)] show ?thesis by (metis timestamp_micro)
  qed
qed

lemma ReconcileUsage_step:
  assumes inv: "account_inv a (db, clock, past)" and rec: "ReconcileUsage H F a (deviceMembership F a) discrepancy period uuid now db = Inr db'"
    and fresh: "fresh_uuids uuid db" "fresh_period period db"
  shows "account_step a (micro now) db db'"
proof -
  from rec obtain db1 state where lock: "lockCollection F a db = Inr (db1, state)" by (auto simp: ReconcileUsage_def elim!: ebindE)
  note L = lockCollection_ok [OF lock]
  obtain cs where db1: "db1 = db\<lparr>ud_collections := cs\<rparr>" using L(1) by blast
  from rec lock consider "db' = db1" | wanted rows ds t db2 db3 db4 state' where "co_Enabled state" "membership (deviceMembership F a) db1 = Inr wanted"
      "activeEnrollments F a db1 = Inr rows" "timestamp now state = Inr t" "closePeriod F state t False (db1\<lparr>ud_discrepancies := ds\<rparr>) = Inr db2"
      "synchronize H F a t uuid rows wanted db2 = Inr db3" "startPeriod F period state t db3 = Inr (db4, state')" "saveCollection F state' t db4 = Inr db'"
    by (auto simp: ReconcileUsage_def split: if_splits prod.splits elim!: ebindE)
  then show ?thesis
  proof cases
    case 1
    then show ?thesis using idle_step [OF inv lock, of "ud_peers db1"] by simp
  next
    case 2
    note C = closePeriod_ok [OF 2(5) L(3)] and S = startPeriod_ok [OF 2(7)]
    obtain ps where db2: "db2 = db1\<lparr>ud_discrepancies := ds, ud_periods := ps\<rparr>" using C(1) by auto
    obtain p where p: "db4 = db3\<lparr>ud_periods := ud_periods db3 @ [p]\<rparr>" "pd_AccountID p = a" "pd_ID p = period" "pd_StartUS p = micro t" "pd_EndUS p = None" "pd_Complete p"
      using S(1) L(3) by auto
    have cur: "collecting a db" "co_PeriodID state = current_period a db" using L(5,6) 2(1) by simp_all
    have kept: "others_kept a db db2" using L(4) C(2) by (auto simp: others_kept_def db2)
    have "period_ok a (micro t) (co_PeriodID state') db q" if "q \<in> set (account_periods a db2) \<union> set [p]" for q
    proof (cases "q = p")
      case False
      with that C(3) obtain r where r: "r \<in> set (account_periods a db)"
        and q: "q = (if pd_ID r = co_PeriodID state then r\<lparr>pd_EndUS := Some (micro t), pd_Complete := False\<rparr> else r)" by (auto simp: db1)
      have "pd_ID r \<noteq> period" "pd_AccountID r = a" using r fresh(2) by (auto simp: fresh_period_def account_periods_def)
      then show ?thesis using q r period_invD(1,3) [OF account_invD(5) [OF inv r]] cur S(4) by (auto simp: period_ok_def split: if_splits)
    qed (use p S(4) in \<open>simp add: period_ok_def\<close>)
    moreover have "deviceMembership F a db2 = deviceMembership F a db1" by (simp add: deviceMembership_def db2)
    then have "membership (deviceMembership F a) db2 = Inr wanted" using 2(2) by (simp add: membership_def)
    ultimately have "account_step a (micro t) db db'"
      using account_invD(1) [OF inv] kept 2(6,8) activeEnrollments_ok [OF 2(3)] fresh(1) L(2,3) S(2,3) p(1)
      by (intro synchronize_saves [where db = db2 and new = "[p]" and state = state']) (simp_all add: db2 db1)
    then show ?thesis by (simp add: timestamp_micro [OF 2(4)])
  qed
qed

section \<open>Histories\<close>

text \<open>The committed operations on the usage tables, at a clock that does not run backwards; an operation that fails is rolled back and is no step.
  New identifiers are unused, as those of the UUID library are.\<close>

inductive usage_step :: "(bytes \<Rightarrow> bytes) \<Rightarrow> usage_db \<times> int \<times> past \<Rightarrow> usage_db \<times> int \<times> past \<Rightarrow> bool" for H where
  tracked: "Track H F a (deviceMembership F a) mutate uuid now db = Inr db' \<Longrightarrow> mutates_devices a mutate \<Longrightarrow> fresh_uuids uuid db \<Longrightarrow> clock \<le> micro now
    \<Longrightarrow> usage_step H (db, clock, past) (db', micro now, past @ [(a, micro now, int (length (account_peers a db')))])"
| configured: "Configure H F a enabled (deviceMembership F a) period uuid now db = Inr db' \<Longrightarrow> (enabled \<Longrightarrow> fresh_uuids uuid db \<and> fresh_period period db) \<Longrightarrow> clock \<le> micro now
    \<Longrightarrow> usage_step H (db, clock, past) (db', micro now, past @ [(a, micro now, int (length (account_peers a db')))])"
| reconciled: "ReconcileUsage H F a (deviceMembership F a) discrepancy period uuid now db = Inr db' \<Longrightarrow> fresh_uuids uuid db \<Longrightarrow> fresh_period period db \<Longrightarrow> clock \<le> micro now
    \<Longrightarrow> usage_step H (db, clock, past) (db', micro now, past @ [(a, micro now, int (length (account_peers a db')))])"

definition new_usage :: usage_db where
  "new_usage = \<lparr>lg_streams = [], lg_events = [], lg_checkpoints = [], ud_collections = [], ud_periods = [], ud_enrollments = [], ud_discrepancies = [], ud_peers = []\<rparr>"

lemma account_inv_new: "account_inv a (new_usage, 0, [])"
  by (simp add: account_inv_def new_usage_def ledger_ok_def account_views find_stream_def collecting_def)

lemma account_inv_other:
  assumes "account_inv b (db, clock, past)" and "others_kept a db db'" and "b \<noteq> a" and "clock \<le> m"
  shows "account_inv b (db', m, past @ [(a, m, n)])"
proof -
  have same: "account_events b db' = account_events b db" "find_stream b db' = find_stream b db" "account_enrollments b db' = account_enrollments b db"
    "account_periods b db' = account_periods b db" "account_peers b db' = account_peers b db" "collection_of b db' = collection_of b db"
    "lg_checkpoints db' = lg_checkpoints db" using assms(2,3) by (simp_all add: others_kept_def)
  then have col: "ledger_ok b db' = ledger_ok b db" "collecting b db' = collecting b db" "current_period b db' = current_period b db"
    by (simp_all add: ledger_ok_def collecting_def current_period_def)
  have "period_inv b (db', m, past @ [(a, m, n)]) p" if "p \<in> set (account_periods b db)" for p
  proof -
    note P = period_invD [OF account_invD(5) [OF assms(1) that]]
    have "members_at (past @ [(a, m, n)]) b u = members_at past b u" for u using assms(3) by (simp add: members_at_snoc)
    moreover have "e \<le> m" if "pd_EndUS p = Some e" for e using P(2) [OF that] assms(4) by simp
    ultimately show ?thesis unfolding period_inv_def prod.case same col using P(1,3,4) by (intro conjI impI allI) (simp_all, iprover?)
  qed
  moreover have "\<forall>e\<in>set (account_events b db). ue_AtUS e \<le> m" using account_invD(2) [OF assms(1)] assms(4) by fastforce
  ultimately show ?thesis using account_invD(1,3,4) [OF assms(1)] by (simp only: account_inv_def fst_conv snd_conv same col) simp
qed

lemma usage_step_account:
  assumes "usage_step H (db, clock, past) (db', clock', past')" and "\<And>a. account_inv a (db, clock, past)"
  shows "\<exists>a. account_step a clock' db db' \<and> clock \<le> clock' \<and> past' = past @ [(a, clock', int (length (account_peers a db')))]"
  using assms(1) by cases (auto dest: Track_step [OF assms(2)] Configure_step [OF assms(2)] ReconcileUsage_step [OF assms(2)])

theorem usage_inv:
  assumes "(usage_step H)\<^sup>*\<^sup>* (new_usage, 0, []) s"
  shows "account_inv a s"
  using assms
proof (induction arbitrary: a rule: rtranclp_induct)
  case base
  show ?case by (rule account_inv_new)
next
  case (step s s')
  obtain db clock past db' clock' past' where s: "s = (db, clock, past)" "s' = (db', clock', past')" by (cases s; cases s')
  from usage_step_account [of H db clock past db' clock' past'] step.hyps(2) step.IH
  obtain b where b: "account_step b clock' db db'" "clock \<le> clock'" "past' = past @ [(b, clock', int (length (account_peers b db')))]"
    unfolding s by blast
  show ?case
    using account_inv_step [OF _ b(1,2), of past] account_inv_other [OF _ account_stepD(2) [OF b(1)] _ b(2), of a past] step.IH [of a]
    unfolding s b(3) by (cases "a = b") simp_all
qed

text \<open>The hooks of the account store are such steps: a membership transaction is a tracked change, and, when the account is removed, one that ends collection.\<close>

lemma membershipTransaction_steps:
  assumes "membershipTransaction H F a removeAccount mutate uuid now later db = (db', Inr ())" and "mutates_devices a mutate" and "fresh_uuids uuid db"
    and "clock \<le> micro now" and "micro now \<le> micro later"
  shows "\<exists>clock' past'. (usage_step H)\<^sup>*\<^sup>* (db, clock, past) (db', clock', past')"
proof -
  from assms(1) obtain db1 where tr: "Track H F a (deviceMembership F a) mutate uuid now db = Inr db1"
    and rest: "if removeAccount then Configure H F a False (deviceMembership F a) [] uuid later db1 = Inr db' else db' = db1"
    by (auto simp: membershipTransaction_def transaction_ok trackMembership_def split: if_splits elim!: ebindE)
  note one = tracked [OF tr assms(2-4), of past]
  show ?thesis
  proof (cases removeAccount)
    case True
    with configured [OF _ _ assms(5), of H F a False "[]" uuid db1 db'] rest one show ?thesis by (meson converse_rtranclp_into_rtranclp r_into_rtranclp)
  next
    case False
    with rest one show ?thesis by auto
  qed
qed

end
