(* ===== verification/Usage_Trust.thy ===== *)
theory Usage_Trust
  imports Usage_History Billing_Trust
begin

text \<open>What device usage reports mean: a complete report counts, at every microsecond of its window, the devices the account had at that microsecond, so that the bill
  computed from it charges every device for the time it was enrolled; and what pruning old events does to the ledger.\<close>

section \<open>Composed reports\<close>

definition covered_at :: "Period list \<Rightarrow> int \<Rightarrow> bool" where
  "covered_at ps u \<longleftrightarrow> (\<exists>p\<in>set ps. pd_Complete p \<and> pd_StartUS p \<le> u \<and> \<not> ended u p)"

text \<open>Segments that follow one another from one microsecond to another.\<close>

fun tiles :: "int \<Rightarrow> DeviceSegment list \<Rightarrow> int \<Rightarrow> bool" where
  "tiles l [] r \<longleftrightarrow> l = r"
| "tiles l (s # ss) r \<longleftrightarrow> sg_Start s = l * 1000 \<and> l * 1000 < sg_End s \<and> sg_End s mod 1000 = 0 \<and> tiles (sg_End s div 1000) ss r"

lemma tiles_snoc: "tiles l (ss @ [s]) r \<longleftrightarrow> (\<exists>m. tiles l ss m \<and> sg_Start s = m * 1000 \<and> sg_End s = r * 1000 \<and> m < r)"
  by (induction ss arbitrary: l) (auto simp: mod_eq_0_iff_dvd)

text \<open>A segment that is right about every microsecond it spans.\<close>

definition right_about :: "(int \<Rightarrow> int) \<Rightarrow> Period list \<Rightarrow> DeviceSegment \<Rightarrow> bool" where
  "right_about n ps s \<longleftrightarrow> (sg_Coverage s = ''complete'' \<longrightarrow> (\<forall>u. sg_Start s \<le> u * 1000 \<and> u * 1000 < sg_End s \<longrightarrow>
     0 \<le> n u \<and> n u \<le> MaxInt64 \<and> sg_Devices s = Some (word_of_int (n u)) \<and> covered_at ps u))"

lemma append_segment_right:
  assumes "append_segment segs s = Inr segs'" and "tiles l segs m" and "sg_Start s = m * 1000" and "sg_End s = r * 1000" and "m < r"
    and "\<forall>g\<in>set segs. right_about n ps g" and "right_about n ps s"
  shows "tiles l segs' r" and "\<forall>g\<in>set segs'. right_about n ps g" and "\<forall>g\<in>set segs'. sg_Coverage g \<in> sg_Coverage ` set (s # segs)"
proof -
  consider (new) "segs' = segs @ [s]" | (merged) front g where "segs = front @ [g]" "same_usage g s" "segs' = front @ [g\<lparr>sg_End := sg_End s\<rparr>]"
    using assms(1) by (cases segs rule: rev_cases) (auto simp: append_segment_def split: if_splits)
  then have "tiles l segs' r \<and> (\<forall>g\<in>set segs'. right_about n ps g) \<and> (\<forall>g\<in>set segs'. sg_Coverage g \<in> sg_Coverage ` set (s # segs))"
  proof cases
    case new
    with assms show ?thesis by (auto simp: tiles_snoc)
  next
    case merged
    have t: "\<exists>k. tiles l front k \<and> sg_Start g = k * 1000 \<and> sg_End g = m * 1000 \<and> k < m" using assms(2) merged(1) by (simp add: tiles_snoc)
    then have "tiles l segs' r" using assms(4,5) by (auto simp: merged(3) tiles_snoc)
    moreover have "right_about n ps (g\<lparr>sg_End := sg_End s\<rparr>)"
      unfolding right_about_def
    proof (intro impI allI)
      fix u
      assume "sg_Coverage (g\<lparr>sg_End := sg_End s\<rparr>) = ''complete''" and "sg_Start (g\<lparr>sg_End := sg_End s\<rparr>) \<le> u * 1000 \<and> u * 1000 < sg_End (g\<lparr>sg_End := sg_End s\<rparr>)"
      then show "0 \<le> n u \<and> n u \<le> MaxInt64 \<and> sg_Devices (g\<lparr>sg_End := sg_End s\<rparr>) = Some (word_of_int (n u)) \<and> covered_at ps u"
        using assms(3,6,7) merged(1,2) t by (cases "u * 1000 < sg_End g") (auto simp: right_about_def same_usage_def)
    qed
    ultimately show ?thesis using assms(6) merged by auto
  qed
  then show "tiles l segs' r" "\<forall>g\<in>set segs'. right_about n ps g" "\<forall>g\<in>set segs'. sg_Coverage g \<in> sg_Coverage ` set (s # segs)" by blast+
qed

text \<open>Between two neighbouring cut points nothing changes.\<close>

definition counted_before :: "usage_event list \<Rightarrow> int \<Rightarrow> int" where
  "counted_before es t = sum_list (map delta_of (filter (\<lambda>e. ue_AtUS e < t) es))"

lemma before_delta: "counted_before es t + delta_at es t = counted es t"
  by (induction es) (auto simp: counted_before_def delta_at_def counted_def)

lemma counted_stretch: "\<forall>e\<in>set es. ue_AtUS e \<le> l \<or> r \<le> ue_AtUS e \<Longrightarrow> l \<le> u \<Longrightarrow> u < r \<Longrightarrow> counted es u = counted es l"
  by (induction es) (auto simp: counted_def)

lemma before_stretch: "\<forall>e\<in>set es. ue_AtUS e \<le> l \<or> r \<le> ue_AtUS e \<Longrightarrow> l < r \<Longrightarrow> counted_before es r = counted es l"
  by (induction es) (auto simp: counted_def counted_before_def)

lemma ended_mono: "ended l p \<Longrightarrow> l \<le> l' \<Longrightarrow> ended l' p"
  by (auto simp: ended_def split: option.splits)

lemma dropWhile_ended: "l \<le> l' \<Longrightarrow> dropWhile (ended l') (dropWhile (ended l) ps) = dropWhile (ended l') ps"
  by (induction ps) (auto dest: ended_mono)

text \<open>The cut points of a window \<^verbatim>\<open>S .. E\<close>: the times of the events, and the ends of the periods that lie in it.\<close>

definition cuts :: "usage_event list \<Rightarrow> Period list \<Rightarrow> int \<Rightarrow> int \<Rightarrow> int \<Rightarrow> int list \<Rightarrow> bool" where
  "cuts es ps S E l L \<longleftrightarrow> (\<forall>e\<in>set es. ue_AtUS e < l \<or> ue_AtUS e \<in> set L)
     \<and> (\<forall>p\<in>set ps. \<forall>e. pd_EndUS p = Some e \<and> S < e \<and> e < E \<and> pd_StartUS p < e \<longrightarrow> e < l \<or> e \<in> set L) \<and> (\<forall>x\<in>set L. x \<le> E)"

lemma cuts_between:
  assumes "cuts es ps S E l (l # r # rest)" and "sorted (l # r # rest)"
  shows "e \<in> set es \<Longrightarrow> ue_AtUS e \<le> l \<or> r \<le> ue_AtUS e" and "cuts es ps S E r (r # rest)"
    and "p \<in> set ps \<Longrightarrow> pd_StartUS p \<le> l \<Longrightarrow> \<not> ended l p \<Longrightarrow> S \<le> l \<Longrightarrow> u < r \<Longrightarrow> \<not> ended u p"
proof -
  have ge: "x = l \<or> r \<le> x" if "x \<in> set (l # r # rest)" for x using that assms(2) by auto
  have E: "r \<le> E" using assms(1) by (simp add: cuts_def)
  show "e \<in> set es \<Longrightarrow> ue_AtUS e \<le> l \<or> r \<le> ue_AtUS e" using assms(1) ge [of "ue_AtUS e"] by (auto simp: cuts_def)
  show "cuts es ps S E r (r # rest)" using assms unfolding cuts_def by (auto 4 3)
  assume p: "p \<in> set ps" "pd_StartUS p \<le> l" "\<not> ended l p" "S \<le> l" "u < r"
  show "\<not> ended u p"
  proof (cases "pd_EndUS p")
    case (Some e)
    then have "l < e" using p(3) by (simp add: ended_def)
    then have "E \<le> e \<or> e \<in> set (l # r # rest)" using assms(1) p Some unfolding cuts_def by force
    then show ?thesis using ge [of e] \<open>l < e\<close> E p(5) Some by (auto simp: ended_def)
  qed (simp add: ended_def)
qed

lemma coverage_complete:
  assumes "coverage_state l (dropWhile (ended l) ps) = ''complete''"
  obtains p where "p \<in> set ps" and "pd_Complete p" and "pd_StartUS p \<le> l" and "\<not> ended l p"
proof -
  from assms obtain p qs where q: "dropWhile (ended l) ps = p # qs" "pd_StartUS p \<le> l" "pd_Complete p"
    by (auto simp: coverage_state_def split: list.splits if_splits)
  have "p \<in> set ps" using set_dropWhileD [of p "ended l" ps] q(1) by simp
  moreover have "\<not> ended l p" using hd_dropWhile [of "ended l" ps] q(1) by simp
  ultimately show thesis using that q by blast
qed

lemma stretch_sum:
  fixes f :: "int \<Rightarrow> int"
  assumes "S \<le> l" and "l \<le> r" and "\<And>u. l \<le> u \<Longrightarrow> u < r \<Longrightarrow> f u = c"
  shows "(\<Sum>u\<in>{S..<r}. f u) = (\<Sum>u\<in>{S..<l}. f u) + (r - l) * c"
proof -
  have "{S..<r} = {S..<l} \<union> {l..<r}" using assms(1,2) by auto
  moreover have "(\<Sum>u\<in>{l..<r}. f u) = (\<Sum>u\<in>{l..<r}. c)" using assms(3) by (intro sum.cong) auto
  ultimately show ?thesis using assms(2) by (simp add: sum.union_disjoint ivl_disj_int)
qed

text \<open>The loop of the report: the segments so far are right and reach the current cut point; the running count is that before it.\<close>

definition loop_inv :: "usage_event list \<Rightarrow> Period list \<Rightarrow> int \<Rightarrow> int \<Rightarrow> int \<Rightarrow> DeviceSegment list \<Rightarrow> int \<Rightarrow> bool \<Rightarrow> bool" where
  "loop_inv es ps c S l segs total' covered \<longleftrightarrow> S \<le> l \<and> tiles S segs l \<and> (\<forall>g\<in>set segs. right_about (\<lambda>u. c + counted es u) ps g)
     \<and> (covered \<longrightarrow> (\<forall>g\<in>set segs. sg_Coverage g = ''complete'') \<and> total' = (\<Sum>u\<in>{S..<l}. c + counted es u))"

lemma new_segment_right:
  assumes "cuts es ps S E l (l # r # rest)" and "sorted (l # r # rest)" and "S \<le> l" and "0 \<le> d" and "d \<le> MaxInt64" and "\<And>u. l \<le> u \<Longrightarrow> u < r \<Longrightarrow> n u = d"
  shows "right_about n ps (new_segment l r (coverage_state l (dropWhile (ended l) ps)) d)"
  unfolding right_about_def
proof (intro impI allI)
  let ?s = "new_segment l r (coverage_state l (dropWhile (ended l) ps)) d"
  fix u
  assume c: "sg_Coverage ?s = ''complete''" and u: "sg_Start ?s \<le> u * 1000 \<and> u * 1000 < sg_End ?s"
  then have st: "coverage_state l (dropWhile (ended l) ps) = ''complete''" and u: "l \<le> u" "u < r" by (simp_all add: new_segment_def)
  from st obtain p where p: "p \<in> set ps" "pd_Complete p" "pd_StartUS p \<le> l" "\<not> ended l p" by (rule coverage_complete)
  have "\<not> ended u p" by (rule cuts_between(3) [OF assms(1,2) p(1,3,4) assms(3) u(2)])
  with p u have "covered_at ps u" by (auto simp: covered_at_def)
  with assms(4-6) u st show "0 \<le> n u \<and> n u \<le> MaxInt64 \<and> sg_Devices ?s = Some (word_of_int (n u)) \<and> covered_at ps u" by (simp add: new_segment_def)
qed

lemma loop_inv_step:
  assumes inv: "loop_inv es ps c S l segs total' covered" and lt: "l < r" and ap: "append_segment segs (new_segment l r st d) = Inr segs'"
    and right: "right_about (\<lambda>u. c + counted es u) ps (new_segment l r st d)" and stretch: "\<And>u. l \<le> u \<Longrightarrow> u < r \<Longrightarrow> c + counted es u = d"
  shows "loop_inv es ps c S r segs' (if st = ''complete'' then total' + (r - l) * d else total') (covered \<and> st = ''complete'')"
proof -
  have I: "S \<le> l" "tiles S segs l" "\<forall>g\<in>set segs. right_about (\<lambda>u. c + counted es u) ps g"
    "covered \<Longrightarrow> (\<forall>g\<in>set segs. sg_Coverage g = ''complete'') \<and> total' = (\<Sum>u\<in>{S..<l}. c + counted es u)"
    using inv unfolding loop_inv_def by iprover+
  note seg = append_segment_right [OF ap I(2) _ _ lt I(3) right]
  have "(\<Sum>u\<in>{S..<r}. c + counted es u) = (\<Sum>u\<in>{S..<l}. c + counted es u) + (r - l) * d"
    using I(1) lt stretch by (intro stretch_sum) simp_all
  moreover have "\<forall>g\<in>set segs'. sg_Coverage g = ''complete''" if "covered" "st = ''complete''"
    using seg(3) I(4) that by (auto simp: new_segment_def)
  ultimately show ?thesis using seg(1,2) I(1,4) lt unfolding loop_inv_def by (auto simp: new_segment_def)
qed

lemma report_loop_right:
  assumes "report_loop es L devices qs segs total' covered = Inr (segs', total'', covered')" and "L = l # L'" and "sorted L" and "cuts es ps S E l L"
    and "devices = c + counted_before es l" and "devices \<le> MaxInt64" and "\<And>k. l \<le> k \<Longrightarrow> dropWhile (ended k) qs = dropWhile (ended k) ps"
    and "loop_inv es ps c S l segs total' covered"
  shows "loop_inv es ps c S (last L) segs' total'' covered'"
  using assms
proof (induction es L devices qs segs total' covered arbitrary: l L' rule: report_loop.induct)
  case (1 es left right rest devices qs segs total' covered)
  note less = "1.IH"(1) and loop = "1.IH"(2)
  have l: "l = left" using "1.prems"(2) by simp
  note cut = cuts_between [OF "1.prems"(4) [unfolded l] "1.prems"(3)]
  show ?case
  proof (cases "left = right")
    case True
    have "loop_inv es ps c S (last (right # rest)) segs' total'' covered'"
      using "1.prems" cut(2) True by (intro less [OF True _ refl]) (simp_all add: l)
    then show ?thesis by simp
  next
    case False
    then have lt: "left < right" using "1.prems"(3) by simp
    let ?d = "devices + delta_at es left" and ?qs = "dropWhile (ended left) qs"
    let ?state = "coverage_state left ?qs"
    have d: "?d = c + counted es left" using before_delta [of es left] "1.prems"(5) l by simp
    have stretch: "c + counted es u = ?d" if "left \<le> u" "u < right" for u using counted_stretch [of es left right u] cut(1) that d by simp
    from "1.prems"(1) False obtain segs1 where guards: "\<not> ((delta_at es left > 0 \<and> devices > MaxInt64 - delta_at es left) \<or> (delta_at es left < 0 \<and> devices < - delta_at es left))"
        "\<not> ?d < 0" and ap: "append_segment segs (new_segment left right ?state ?d) = Inr segs1"
      and rest: "report_loop es (right # rest) ?d ?qs segs1 (if ?state = ''complete'' then total' + (right - left) * ?d else total') (covered \<and> ?state = ''complete'') = Inr (segs', total'', covered')"
      by (simp only: report_loop.simps Let_def if_False) (elim if_InrE ebindE; blast)
    have max: "?d \<le> MaxInt64" using guards "1.prems"(6) by linarith
    have qs: "?qs = dropWhile (ended left) ps" using "1.prems"(7) [of left] l by simp
    have S: "S \<le> left" using "1.prems"(8) by (simp add: loop_inv_def l)
    have "right_about (\<lambda>u. c + counted es u) ps (new_segment left right ?state ?d)"
      unfolding qs using new_segment_right [OF "1.prems"(4) [unfolded l] "1.prems"(3) S _ max stretch] guards(2) by simp
    note inv = loop_inv_step [OF "1.prems"(8) [unfolded l] lt ap this stretch]
    have "dropWhile (ended k) ?qs = dropWhile (ended k) ps" if "right \<le> k" for k
      using "1.prems"(7) [of k] dropWhile_ended [of left k] that lt l by simp
    moreover have "?d = c + counted_before es right" using before_stretch [of es left right] cut(1) lt d by simp
    ultimately show ?thesis using loop [OF False refl guards refl refl rest refl _ cut(2) _ max _ inv] "1.prems"(3) by simp
  qed
qed auto

lemma period_finish_le: "period_finish E p \<le> E"
  by (simp add: period_finish_def split: option.splits)

lemma cover_boundaries_ends:
  assumes "cover_boundaries S E prev ps = Inr bs"
  shows "(\<forall>b\<in>set bs. S \<le> b \<and> b \<le> E) \<and> (\<forall>p\<in>set ps. period_begin S p < period_finish E p \<longrightarrow> period_finish E p \<in> set bs)"
  using assms
proof (induction ps arbitrary: prev bs)
  case (Cons q ps)
  have q: "S \<le> period_begin S q" by (simp add: period_begin_def)
  from Cons.prems consider "period_finish E q = period_begin S q" "cover_boundaries S E prev ps = Inr bs"
    | bs' where "period_begin S q < period_finish E q" "cover_boundaries S E (period_finish E q) ps = Inr bs'" "bs = period_begin S q # period_finish E q # bs'"
    by (simp only: cover_boundaries.simps) (elim if_InrE ebindE; force)
  then show ?case
  proof cases
    case 1
    then show ?thesis using Cons.IH [OF 1(2)] by auto
  next
    case 2
    then show ?thesis using Cons.IH [OF 2(2)] q period_finish_le [of E q] by auto
  qed
qed simp

lemma sort_ends:
  fixes xs :: "int list"
  assumes "\<forall>x\<in>set xs. S \<le> x \<and> x \<le> E" and "S \<in> set xs" and "E \<in> set xs"
  shows "\<exists>ys. sort xs = S # ys" and "last (sort xs) = E"
proof -
  have ne: "sort xs \<noteq> []" using assms(2) by (metis empty_iff list.set(1) set_sort)
  then obtain y ys where ys: "sort xs = y # ys" by (cases "sort xs") simp_all
  have "set (y # ys) = set xs" "sorted (y # ys)" by (metis ys set_sort, metis ys sorted_sort)
  then have "y \<in> set xs" "y \<le> S" using assms(2) by auto
  then show "\<exists>ys. sort xs = S # ys" using ys assms(1) by force
  obtain zs z where zs: "sort xs = zs @ [z]" using ne by (cases "sort xs" rule: rev_cases) simp_all
  have "set (zs @ [z]) = set xs" "sorted (zs @ [z])" by (metis zs set_sort, metis zs sorted_sort)
  then have "z \<in> set xs" "E \<le> z" using assms(3) by (auto simp: sorted_append)
  then show "last (sort xs) = E" using zs assms(1) by force
qed

lemma composeReport_right:
  assumes "composeReport start stop asOf c es ps = Inr report" and "micro start < micro stop" and "\<forall>e\<in>set es. micro start < ue_AtUS e \<and> ue_AtUS e < micro stop"
    and "c \<le> MaxInt64"
  shows "dr_Start report = start \<and> dr_End report = stop \<and> dr_AsOf report = asOf"
    and "\<exists>total'. dr_DeviceMicroseconds report = int_string total' \<and> loop_inv es ps c (micro start) (micro stop) (dr_Segments report) total' (dr_Complete report)"
proof -
  let ?S = "micro start" and ?E = "micro stop"
  from assms(1) obtain bs segs total' covered where bs: "cover_boundaries ?S ?E 0 ps = Inr bs"
    and loop: "report_loop es (sort ([?S, ?E] @ map ue_AtUS es @ bs)) c ps [] 0 True = Inr (segs, total', covered)"
    and report: "report = \<lparr>dr_Start = start, dr_End = stop, dr_AsOf = asOf, dr_Complete = covered, dr_DeviceMicroseconds = int_string total', dr_Segments = segs\<rparr>"
    by (auto simp: composeReport_def split: if_splits elim!: ebindE)
  define xs where "xs = [?S, ?E] @ map ue_AtUS es @ bs"
  have range: "\<forall>x\<in>set xs. ?S \<le> x \<and> x \<le> ?E" using assms(2,3) cover_boundaries_ends [OF bs] by (auto simp: xs_def)
  have set_xs: "set xs = {?S, ?E} \<union> ue_AtUS ` set es \<union> set bs" by (auto simp: xs_def)
  note ends = sort_ends [OF range] and loop = loop [folded xs_def]
  obtain L' where L': "sort xs = ?S # L'" using ends(1) set_xs by auto
  have "e \<in> set bs" if "p \<in> set ps" "pd_EndUS p = Some e" "?S < e" "e < ?E" "pd_StartUS p < e" for p e
    using bspec [OF conjunct2 [OF cover_boundaries_ends [OF bs]] that(1)] that(2-5) by (simp add: period_begin_def period_finish_def)
  then have cut: "cuts es ps ?S ?E ?S (sort xs)" using range by (auto simp: cuts_def set_xs)
  have "counted_before es ?S = 0" using assms(3) by (induction es) (auto simp: counted_before_def)
  then have "loop_inv es ps c ?S (last (sort xs)) segs total' covered"
    using assms(4) by (intro report_loop_right [OF loop L' _ cut]) (simp_all add: loop_inv_def)
  with ends(2) set_xs report show "\<exists>total'. dr_DeviceMicroseconds report = int_string total' \<and> loop_inv es ps c ?S ?E (dr_Segments report) total' (dr_Complete report)" by auto
  show "dr_Start report = start \<and> dr_End report = stop \<and> dr_AsOf report = asOf" by (simp add: report)
qed

section \<open>Complete reports\<close>

lemma fleet_right:
  assumes "right_about n ps g" and "sg_Coverage g = ''complete''" and "sg_Start g \<le> u * 1000" and "u * 1000 < sg_End g"
  shows "fleet g = n u" and "0 \<le> n u" and "covered_at ps u" and "sg_Devices g = Some (word_of_int (n u))"
proof -
  from assms have n: "0 \<le> n u" "n u \<le> MaxInt64" and dev: "sg_Devices g = Some (word_of_int (n u))" and cov: "covered_at ps u"
    by (auto simp: right_about_def)
  show "fleet g = n u" using n by (auto simp: fleet_def dev MaxInt64_def sint_sbintrunc' intro!: signed_take_bit_int_eq_self)
  show "0 \<le> n u" "covered_at ps u" "sg_Devices g = Some (word_of_int (n u))" using n dev cov by blast+
qed

lemma tiles_sums:
  fixes f :: "int \<Rightarrow> int"
  assumes "tiles l segs r" and "\<forall>g\<in>set segs. right_about n ps g \<and> sg_Coverage g = ''complete''"
  shows "l \<le> r \<and> (\<Sum>g\<leftarrow>segs. f (fleet g) * micros g) = (\<Sum>u\<in>{l..<r}. f (n u)) \<and> (\<Sum>g\<leftarrow>segs. micros g) = r - l"
  using assms
proof (induction segs arbitrary: l)
  case (Cons g segs)
  let ?m = "sg_End g div 1000"
  have g: "sg_Start g = l * 1000" "l < ?m" "sg_End g = ?m * 1000" "tiles ?m segs r" and R: "right_about n ps g" "sg_Coverage g = ''complete''"
    and rest: "\<forall>g\<in>set segs. right_about n ps g \<and> sg_Coverage g = ''complete''" using Cons.prems by auto
  note ih = Cons.IH [OF g(4) rest]
  have "f (n u) = f (fleet g)" if "l \<le> u" "u < ?m" for u using fleet_right(1) [OF R, of u] g(1,3) that by simp
  then have "(\<Sum>u\<in>{l..<?m}. f (n u)) = (?m - l) * f (fleet g)" using stretch_sum [of l l ?m "\<lambda>u. f (n u)" "f (fleet g)"] g(2) by simp
  moreover have "(\<Sum>u\<in>{l..<r}. f (n u)) = (\<Sum>u\<in>{l..<?m}. f (n u)) + (\<Sum>u\<in>{?m..<r}. f (n u))"
    using g(2) ih by (subst sum.union_disjoint [symmetric]) (auto intro: sum.cong)
  moreover have "micros g = ?m - l" using g(1) by (simp add: micros_def)
  ultimately show ?case using ih g(2) by (simp add: mult.commute)
qed simp

lemma tiles_valid:
  assumes "tiles l segs r" and "\<forall>g\<in>set segs. right_about n ps g \<and> sg_Coverage g = ''complete''" and "0 \<le> l" and "r * 1000 < year10000"
  shows "validSegments (unixMicro (r * 1000)) (unixMicro (l * 1000)) segs = Some (unixMicro (r * 1000))"
  using assms
proof (induction segs arbitrary: l)
  case (Cons g segs)
  obtain m where g: "sg_Start g = l * 1000" "l < m" "sg_End g = m * 1000" "tiles m segs r"
    using Cons.prems(1) by (auto simp: mod_eq_0_iff_dvd elim!: dvdE)
  have R: "right_about n ps g" "sg_Coverage g = ''complete''"
    and rest: "\<forall>g\<in>set segs. right_about n ps g \<and> sg_Coverage g = ''complete''" using Cons.prems(2) by auto
  have m: "m \<le> r" by (rule conjunct1 [OF tiles_sums [OF g(4) rest]])
  have v: "validBillingTime (l * 1000)" "validBillingTime (m * 1000)" "validBillingTime (r * 1000)"
    using g(2) m Cons.prems(3,4) by (simp_all add: validBillingTime_def)
  have "fleet g = n l" "0 \<le> n l" "sg_Devices g = Some (word_of_int (n l))" using fleet_right [OF R, of l] g(1-3) by simp_all
  then have dev: "\<exists>d. sg_Devices g = Some d \<and> 0 \<le> sint d" by (simp add: fleet_def)
  have s: "sint (unixMicro (l * 1000)) = l" "sint (unixMicro (m * 1000)) = m" "sint (unixMicro (r * 1000)) = r" using v by (simp_all add: sint_unixMicro)
  have "validSegments (unixMicro (r * 1000)) (unixMicro (m * 1000)) segs = Some (unixMicro (r * 1000))"
    using Cons.IH [OF g(4) rest] g(2) Cons.prems(3,4) by simp
  then show ?case using v s g(1,2) m dev R(2) by (auto simp: Let_def g(3))
qed simp

section \<open>Reports on a ledger\<close>

lemma ledger_order:
  assumes "ledger_ok a db"
  shows "events_after a 0 P db = filter (\<lambda>e. P (ue_AtUS e)) (account_events a db)"
proof -
  let ?es = "account_events a db"
  have seq: "map ue_Sequence ?es = [1..int (length ?es)]" using assms by (simp add: ledger_ok_def Let_def)
  then have "sorted (map ue_Sequence ?es)" by simp
  then have "sorted (map ue_Sequence (filter (\<lambda>e. P (ue_AtUS e)) ?es))" by (rule sorted_filter)
  moreover have "0 < ue_Sequence e" if "e \<in> set ?es" for e using arg_cong [OF seq, of set] imageI [OF that, of ue_Sequence] by simp
  then have "filter (\<lambda>e. ue_AccountID e = a \<and> ue_Sequence e > 0 \<and> P (ue_AtUS e)) (lg_events db) = filter (\<lambda>e. P (ue_AtUS e)) ?es"
    by (auto simp: account_events_def intro: filter_cong)
  ultimately show ?thesis by (simp add: events_after_def order_asc_sorted)
qed

lemma checkpointAt_none:
  assumes "lg_checkpoints db = []" and "checkpointAt H F a t db = Inr cp"
  shows "cp = no_checkpoint"
  using assms by (auto simp: checkpointAt_def readCheckpoints_def account_checkpoints_def order_asc_def Let_def split: if_splits elim!: ebindE)

lemma openingCount_none:
  assumes "ledger_ok a db" and "openingCount F a t no_checkpoint db = Inr (c, n)"
  shows "c = counted (account_events a db) t" and "c \<le> MaxInt64"
  using assms(2) by (auto simp: openingCount_def Let_def no_checkpoint_def ledger_order [OF assms(1)] counted_def MaxInt64_def split: if_splits)

lemma counted_window:
  assumes "S \<le> u" and "u < E"
  shows "counted es S + counted (filter (\<lambda>e. S < ue_AtUS e \<and> ue_AtUS e < E) es) u = counted es u"
  using assms by (induction es) (auto simp: counted_def)

lemma Devices_loop:
  assumes "account_inv a (db, clock, past)" and "Devices H F a start stop now db = Inr report"
  shows "\<exists>es c ps total'. dr_Start report = start \<and> dr_End report = stop \<and> dr_AsOf report = now div 1000 * 1000 \<and> stop \<le> now div 1000 * 1000
     \<and> (\<forall>u. micro start \<le> u \<longrightarrow> u < micro stop \<longrightarrow> c + counted es u = counted (account_events a db) u)
     \<and> set ps \<subseteq> set (account_periods a db) \<and> dr_DeviceMicroseconds report = int_string total'
     \<and> loop_inv es ps c (micro start) (micro stop) (dr_Segments report) total' (dr_Complete report)"
proof -
  have ok: "ledger_ok a db" and cp: "lg_checkpoints db = []" using account_invD(1) [OF assms(1)] by (simp_all add: ledger_ok_def Let_def)
  let ?ps = "report_periods a (micro start) (micro stop) db" and ?es = "window_events a 0 (micro start) (micro stop) db"
  have es: "?es = filter (\<lambda>e. micro start < ue_AtUS e \<and> ue_AtUS e < micro stop) (account_events a db)"
    using ledger_order [OF ok, of "\<lambda>t. t > micro start \<and> t < micro stop"] by (simp add: window_events_def)
  have times: "micro start < micro stop" if "validTime start" "validTime stop" "start < stop"
    using that by (auto simp: validTime_def micro_def mod_eq_0_iff_dvd elim!: dvdE)
  from assms(2) obtain c n where v: "validTime start" "validTime stop" "start < stop" "stop \<le> now div 1000 * 1000"
    and op: "openingCount F a (micro start) no_checkpoint db = Inr (c, n)"
    and rep: "composeReport start stop (now div 1000 * 1000) c ?es ?ps = Inr report"
    by (auto simp: Devices_def device_report_def Let_def no_checkpoint_def dest!: checkpointAt_none [OF cp] split: if_splits elim!: ebindE)
  have "set ?ps \<subseteq> set (account_periods a db)" by (auto simp: report_periods_def account_periods_def)
  moreover have "c + counted ?es u = counted (account_events a db) u" if "micro start \<le> u" "u < micro stop" for u
    using counted_window [OF that] openingCount_none(1) [OF ok op] by (simp add: es)
  moreover have "\<forall>e\<in>set ?es. micro start < ue_AtUS e \<and> ue_AtUS e < micro stop" by (simp add: es)
  ultimately show ?thesis
    using composeReport_right [OF rep times [OF v(1-3)] _ openingCount_none(2) [OF ok op]] v(4) by blast
qed

lemma tiles_point:
  assumes "tiles l segs r" and "l \<le> u" and "u < r"
  shows "\<exists>g\<in>set segs. sg_Start g \<le> u * 1000 \<and> u * 1000 < sg_End g"
  using assms
proof (induction segs arbitrary: l)
  case (Cons g segs)
  obtain m where m: "sg_End g = m * 1000" using Cons.prems(1) by (auto simp: mod_eq_0_iff_dvd elim!: dvdE)
  with Cons show ?case by (cases "u < m") auto
qed simp

lemma tiles_le: "tiles l segs r \<Longrightarrow> l \<le> r"
proof (induction segs arbitrary: l)
  case (Cons g segs)
  obtain m where m: "sg_End g = m * 1000" using Cons.prems by (auto simp: mod_eq_0_iff_dvd elim!: dvdE)
  with Cons show ?case by fastforce
qed simp

lemma tiles_inside:
  assumes "tiles l segs r" and "g \<in> set segs" and "sg_Start g \<le> u * 1000" and "u * 1000 < sg_End g"
  shows "l \<le> u" and "u < r"
proof -
  have "l \<le> u \<and> u < r" using assms
  proof (induction segs arbitrary: l)
    case (Cons s segs)
    obtain m where m: "sg_Start s = l * 1000" "sg_End s = m * 1000" "l < m" "tiles m segs r" using Cons.prems(1) by (auto simp: mod_eq_0_iff_dvd elim!: dvdE)
    with tiles_le [OF m(4)] Cons.IH [OF m(4)] Cons.prems(2-4) show ?case by auto
  qed simp
  then show "l \<le> u" "u < r" by blast+
qed

lemma report_accepted:
  assumes "Devices H F a start stop now db = Inr report" and "dr_Complete report" and "now < year10000" and "tiles (micro start) (dr_Segments report) (micro stop)"
    and "\<forall>g\<in>set (dr_Segments report). right_about n ps g \<and> sg_Coverage g = ''complete''" and "account_inv a (db, clock, past)"
  shows "validDeviceReport report"
proof -
  from Devices_loop [OF assms(6,1)] have r: "dr_Start report = start" "dr_End report = stop" "dr_AsOf report = now div 1000 * 1000" "stop \<le> now div 1000 * 1000" by blast+
  have v: "validTime start" "validTime stop" "start < stop" using assms(1) by (auto simp: Devices_def split: if_splits)
  have t: "start = micro start * 1000" "stop = micro stop * 1000" using v by (auto simp: validTime_def micro_def)
  have "validBillingTime (now div 1000 * 1000)" using v(2) r(4) assms(3) by (auto simp: validBillingTime_def validTime_def year10000_def)
  moreover have "validSegments (unixMicro stop) (unixMicro start) (dr_Segments report) = Some (unixMicro stop)"
    using tiles_valid [OF assms(4,5)] v t by (simp add: validTime_def)
  moreover have "dr_Segments report \<noteq> []" using assms(4) v(3) t by auto
  ultimately show ?thesis using assms(2) r v by (simp add: validDeviceReport_def validBillingTime_def validTime_def)
qed

lemma complete_report:
  assumes "(usage_step H)\<^sup>*\<^sup>* (new_usage, 0, []) (db, clock, past)" and "Devices H F a start stop now db = Inr report" and "dr_Complete report"
  shows "\<exists>n ps. tiles (micro start) (dr_Segments report) (micro stop) \<and> (\<forall>g\<in>set (dr_Segments report). right_about n ps g \<and> sg_Coverage g = ''complete'')
     \<and> (\<forall>u. micro start \<le> u \<longrightarrow> u < micro stop \<longrightarrow> n u = members_at past a u)
     \<and> dr_DeviceMicroseconds report = int_string (\<Sum>u\<in>{micro start..<micro stop}. members_at past a u)"
proof -
  let ?S = "micro start" and ?E = "micro stop"
  have inv: "account_inv a (db, clock, past)" by (rule usage_inv [OF assms(1)])
  from Devices_loop [OF inv assms(2)] obtain es c ps total' where n: "\<And>u. ?S \<le> u \<Longrightarrow> u < ?E \<Longrightarrow> c + counted es u = counted (account_events a db) u"
    and ps: "set ps \<subseteq> set (account_periods a db)" and str: "dr_DeviceMicroseconds report = int_string total'"
    and loop: "loop_inv es ps c ?S ?E (dr_Segments report) total' (dr_Complete report)" by blast
  from loop assms(3) have t: "tiles ?S (dr_Segments report) ?E" and tot: "total' = (\<Sum>u\<in>{?S..<?E}. c + counted es u)"
    and r: "\<forall>g\<in>set (dr_Segments report). right_about (\<lambda>u. c + counted es u) ps g \<and> sg_Coverage g = ''complete''" by (auto simp: loop_inv_def)
  have mem: "c + counted es u = members_at past a u" if u: "?S \<le> u" "u < ?E" for u
  proof -
    obtain g where g: "g \<in> set (dr_Segments report)" "sg_Start g \<le> u * 1000" "u * 1000 < sg_End g" using tiles_point [OF t u] by blast
    have "covered_at ps u" using fleet_right(3) [OF _ _ g(2,3)] r g(1) by blast
    then obtain p where p: "p \<in> set (account_periods a db)" "pd_Complete p" "pd_StartUS p \<le> u" "\<not> ended u p" using ps by (auto simp: covered_at_def)
    from period_invD(4) [OF account_invD(5) [OF inv p(1)] p(2-4)] n [OF u] show ?thesis by simp
  qed
  moreover have "total' = (\<Sum>u\<in>{?S..<?E}. members_at past a u)" unfolding tot using mem by (intro sum.cong) simp_all
  ultimately show ?thesis using t r str by blast
qed

text \<open>C7. A complete device report tells the truth: whatever sequence of membership changes, configurations and reconciliations led to the ledger, the segments of the report
  follow one another over the window, each names the number of devices the account had at every microsecond it spans, the reported device time is the sum over
  the microseconds of the window, and the report is one that billing accepts.\<close>

theorem complete_report_exact:
  assumes "(usage_step H)\<^sup>*\<^sup>* (new_usage, 0, []) (db, clock, past)" and "Devices H F a start stop now db = Inr report" and "dr_Complete report"
    and "now < year10000"
  shows "validDeviceReport report
     \<and> (\<forall>g\<in>set (dr_Segments report). \<forall>u. sg_Start g \<le> u * 1000 \<and> u * 1000 < sg_End g \<longrightarrow> fleet g = members_at past a u)
     \<and> dr_DeviceMicroseconds report = int_string (\<Sum>u\<in>{micro start..<micro stop}. members_at past a u)"
proof -
  obtain n ps where t: "tiles (micro start) (dr_Segments report) (micro stop)"
    and r: "\<forall>g\<in>set (dr_Segments report). right_about n ps g \<and> sg_Coverage g = ''complete''"
    and n: "\<And>u. micro start \<le> u \<Longrightarrow> u < micro stop \<Longrightarrow> n u = members_at past a u"
    and total: "dr_DeviceMicroseconds report = int_string (\<Sum>u\<in>{micro start..<micro stop}. members_at past a u)"
    using complete_report [OF assms(1-3)] by blast
  have "fleet g = members_at past a u" if "g \<in> set (dr_Segments report)" "sg_Start g \<le> u * 1000" "u * 1000 < sg_End g" for g u
    using fleet_right(1) [OF _ _ that(2,3)] r that n tiles_inside [OF t that] by metis
  with report_accepted [OF assms(2-4) t r usage_inv [OF assms(1)]] total show ?thesis by blast
qed

definition demo_hash :: "bytes \<Rightarrow> bytes" where
  "demo_hash b = replicate 32 CHR ''0''"

definition demo_uuid :: "nat \<Rightarrow> string" where
  "demo_uuid i = replicate i CHR ''0'' @ ''g''"

definition demo_joins :: "usage_db \<Rightarrow> usage_error + usage_db" where
  "demo_joins db = Inr (db\<lparr>ud_peers := ud_peers db @ [\<lparr>dq_AccountID = ''acct'', dq_ID = ''laptop''\<rparr>]\<rparr>)"

definition demo_on :: usage_db where
  "demo_on = new_usage\<lparr>ud_collections := [\<lparr>co_AccountID = ''acct'', co_Enabled = True, co_PeriodID = ''p'', co_LastAtUS = 0\<rparr>],
     ud_periods := [\<lparr>pd_ID = ''p'', pd_AccountID = ''acct'', pd_StartUS = 0, pd_EndUS = None, pd_Complete = True\<rparr>]\<rparr>"

definition demo_joined :: usage_db where
  "demo_joined = demo_on\<lparr>lg_streams := [\<lparr>st_AccountID = ''acct'', st_Sequence = 1, st_LastAtUS = 10000000\<rparr>],
     lg_events := [\<lparr>ue_AccountID = ''acct'', ue_ID = ''g:enroll'', ue_Sequence = 1, ue_GenerationID = ''g'', ue_Kind = Enrolled, ue_AtUS = 10000000\<rparr>],
     ud_collections := [\<lparr>co_AccountID = ''acct'', co_Enabled = True, co_PeriodID = ''p'', co_LastAtUS = 10000000\<rparr>],
     ud_enrollments := [\<lparr>en_AccountID = ''acct'', en_DeviceID = ''laptop'', en_GenerationID = ''g''\<rparr>],
     ud_peers := [\<lparr>dq_AccountID = ''acct'', dq_ID = ''laptop''\<rparr>]\<rparr>"

definition demo_device_report :: DeviceReport where
  "demo_device_report = \<lparr>dr_Start = 0, dr_End = seconds 60, dr_AsOf = seconds 60, dr_Complete = True, dr_DeviceMicroseconds = int_string 50000000,
     dr_Segments = [\<lparr>sg_Start = 0, sg_End = seconds 10, sg_Coverage = ''complete'', sg_Devices = Some 0\<rparr>,
       \<lparr>sg_Start = seconds 10, sg_End = seconds 60, sg_Coverage = ''complete'', sg_Devices = Some 1\<rparr>]\<rparr>"

lemma demo_configured: "Configure demo_hash no_faults ''acct'' True (deviceMembership no_faults ''acct'') ''p'' demo_uuid 0 new_usage = Inr demo_on"
  by code_simp

lemma demo_tracked: "Track demo_hash no_faults ''acct'' (deviceMembership no_faults ''acct'') demo_joins demo_uuid (seconds 10) demo_on = Inr demo_joined"
  by code_simp

lemma demo_reads:
  "report_periods ''acct'' 0 60000000 demo_joined = [\<lparr>pd_ID = ''p'', pd_AccountID = ''acct'', pd_StartUS = 0, pd_EndUS = None, pd_Complete = True\<rparr>]"
  "checkpointAt demo_hash no_faults ''acct'' 0 demo_joined = Inr no_checkpoint"
  "openingCount no_faults ''acct'' 0 no_checkpoint demo_joined = Inr (0, 0)"
  "window_events ''acct'' 0 0 60000000 demo_joined = lg_events demo_joined"
  by code_simp+

lemma demo_composed: "composeReport 0 (seconds 60) (seconds 60) 0 (lg_events demo_joined)
    [\<lparr>pd_ID = ''p'', pd_AccountID = ''acct'', pd_StartUS = 0, pd_EndUS = None, pd_Complete = True\<rparr>] = Inr demo_device_report"
  by (simp add: composeReport_def demo_joined_def demo_device_report_def known_kind_def micro_def period_begin_def period_finish_def delta_at_def
      delta_of_def MaxInt64_def ended_def coverage_state_def new_segment_def append_segment_def same_usage_def MaxReportSegments_def Let_def)

lemma demo_reported: "Devices demo_hash no_faults ''acct'' 0 (seconds 60) (seconds 60) demo_joined = Inr demo_device_report"
proof -
  have "length (lg_events demo_joined) = 1" "sequence_ok 0 (lg_events demo_joined)" by (simp_all add: demo_joined_def)
  with demo_composed show ?thesis
    by (simp add: Devices_def device_report_def demo_reads [unfolded no_checkpoint_def] micro_def validID_def validTime_def year10000_def
        MaxReportWindow_def no_fault MaxReportSegments_def)
qed

lemma demo_fresh:
  "fresh_uuids demo_uuid new_usage" "fresh_uuids demo_uuid demo_on" "fresh_period ''p'' new_usage" "mutates_devices ''acct'' demo_joins"
proof -
  have "inj demo_uuid" by (rule injI) (simp add: demo_uuid_def replicate_eq_replicate)
  then show "fresh_uuids demo_uuid new_usage" "fresh_uuids demo_uuid demo_on" by (simp_all add: fresh_uuids_def new_usage_def demo_on_def)
  show "fresh_period ''p'' new_usage" by (simp add: fresh_period_def new_usage_def)
  show "mutates_devices ''acct'' demo_joins" by (auto simp: mutates_devices_def demo_joins_def)
qed

lemma demo_history:
  "(usage_step demo_hash)\<^sup>*\<^sup>* (new_usage, 0, []) (demo_joined, 10000000, [(''acct'', 0, 0), (''acct'', 10000000, 1)])"
proof -
  have "usage_step demo_hash (new_usage, 0, []) (demo_on, 0, [(''acct'', 0, 0)])"
    using usage_step.configured [OF demo_configured, of 0 "[]"] demo_fresh by (simp add: micro_def account_peers_def demo_on_def new_usage_def)
  moreover have "usage_step demo_hash (demo_on, 0, [(''acct'', 0, 0)]) (demo_joined, 10000000, [(''acct'', 0, 0), (''acct'', 10000000, 1)])"
    using usage_step.tracked [OF demo_tracked, of 0 "[(''acct'', 0, 0)]"] demo_fresh by (simp add: micro_def account_peers_def demo_joined_def)
  ultimately show ?thesis by auto
qed

theorem complete_report_exact_witness:
  "\<exists>report. Devices demo_hash no_faults ''acct'' 0 (seconds 60) (seconds 60) demo_joined = Inr report \<and> validDeviceReport report
     \<and> map fleet (dr_Segments report) = [members_at [(''acct'', 0, 0), (''acct'', 10000000, 1)] ''acct'' 0,
          members_at [(''acct'', 0, 0), (''acct'', 10000000, 1)] ''acct'' 10000000]"
proof -
  have c: "dr_Complete demo_device_report" "seconds 60 < year10000" by (simp_all add: demo_device_report_def year10000_def)
  note E = complete_report_exact [OF demo_history demo_reported c]
  then have fleets: "fleet g = members_at [(''acct'', 0, 0), (''acct'', 10000000, 1)] ''acct'' u"
    if "g \<in> set (dr_Segments demo_device_report)" "sg_Start g \<le> u * 1000" "u * 1000 < sg_End g" for g u
    using that by blast
  have "map fleet (dr_Segments demo_device_report) = [members_at [(''acct'', 0, 0), (''acct'', 10000000, 1)] ''acct'' 0,
          members_at [(''acct'', 0, 0), (''acct'', 10000000, 1)] ''acct'' 10000000]"
    using fleets [of "dr_Segments demo_device_report ! 0" 0] fleets [of "dr_Segments demo_device_report ! 1" 10000000]
    by (simp add: demo_device_report_def)
  with conjunct1 [OF E] demo_reported show ?thesis by (intro exI [of _ demo_device_report] conjI)
qed

text \<open>C17. The device line of a bill computed from a complete report is the tariff of the number of devices the account had, averaged over every microsecond of the period:
  nobody is charged for a device it did not have, and no enrolled time goes uncharged.\<close>

theorem bill_charges_enrolled_time:
  assumes "(usage_step H)\<^sup>*\<^sup>* (new_usage, 0, []) (db, clock, past)" and "Devices H F a start stop now db = Inr report" and "dr_Complete report"
    and "now < year10000" and "validateRateSchedule s = Inr ()"
  shows "deviceCharge report (rs_DeviceTiers s) = Inr (rat_of_int (\<Sum>u\<in>{micro start..<micro stop}. tariff (rs_DeviceTiers s) (members_at past a u))
     / rat_of_int (micro stop - micro start))"
proof -
  obtain n ps where t: "tiles (micro start) (dr_Segments report) (micro stop)"
    and r: "\<forall>g\<in>set (dr_Segments report). right_about n ps g \<and> sg_Coverage g = ''complete''"
    and n: "\<And>u. micro start \<le> u \<Longrightarrow> u < micro stop \<Longrightarrow> n u = members_at past a u"
    using complete_report [OF assms(1-3)] by blast
  have "validDeviceReport report" by (rule report_accepted [OF assms(2-4) t r usage_inv [OF assms(1)]])
  moreover have "(\<Sum>u\<in>{micro start..<micro stop}. tariff (rs_DeviceTiers s) (n u)) = (\<Sum>u\<in>{micro start..<micro stop}. tariff (rs_DeviceTiers s) (members_at past a u))"
    using n by (intro sum.cong) simp_all
  ultimately show ?thesis
    using tiles_sums [OF t r, of "tariff (rs_DeviceTiers s)"] by (simp add: deviceCharge_line [OF assms(5)] device_line_def)
qed

theorem bill_charges_enrolled_time_witness:
  "deviceCharge demo_device_report (rs_DeviceTiers PilotRateSchedule) =
     Inr (rat_of_int (\<Sum>u\<in>{0..<60000000}. tariff (rs_DeviceTiers PilotRateSchedule) (members_at [(''acct'', 0, 0), (''acct'', 10000000, 1)] ''acct'' u)) / 60000000)"
proof -
  have c: "dr_Complete demo_device_report" "seconds 60 < year10000" by (simp_all add: demo_device_report_def year10000_def)
  from bill_charges_enrolled_time [OF demo_history demo_reported c demo_schedule_valid] show ?thesis by (simp add: micro_def)
qed

end
