(* ===== verification/Usage_Retention.thy ===== *)
theory Usage_Retention
  imports Usage_Trust
begin

text \<open>What pruning finalized months does to a usage ledger: reports that start after the pruned month are unchanged, but a device that was enrolled in it can no
  longer be removed.\<close>

section \<open>Removal after pruning\<close>

lemma AppendChange_cases:
  assumes "AppendChange H F c db = Inr db'"
  obtains "db' = ensure_stream (ck_AccountID c) db" | s where "append_event F c s (ensure_stream (ck_AccountID c) db) = Inr db'"
proof (cases "find (\<lambda>e. ue_AccountID e = ck_AccountID c \<and> ue_ID e = ck_ID c) (lg_events (ensure_stream (ck_AccountID c) db))")
  case (Some prior)
  with assms have "Inr (ensure_stream (ck_AccountID c) db) = (Inr db' :: usage_error + _)"
    unfolding AppendChange_def Let_def Some option.case by (elim if_InrE) simp_all
  then show thesis using that(1) by simp
next
  case None
  show thesis
  proof (cases "find_stream (ck_AccountID c) (ensure_stream (ck_AccountID c) db)")
    case Nil: None
    from assms show thesis unfolding AppendChange_def Let_def None Nil option.case by (elim if_InrE ebindE) (simp_all only: sum.distinct)
  next
    case (Some s)
    with assms have "append_event F c s (ensure_stream (ck_AccountID c) db) = Inr db'"
      unfolding AppendChange_def Let_def None Some option.case by (elim if_InrE ebindE) (simp_all only: sum.distinct)
    then show thesis by (rule that(2))
  qed
qed

lemma AppendChange_events:
  assumes "AppendChange H F c db = Inr db'"
  shows "set (lg_events db') \<subseteq> set (lg_events db) \<union> range (event_of c)"
  using assms
proof (cases rule: AppendChange_cases)
  case 1
  then show ?thesis by (simp add: ensure_stream_def)
next
  case (2 s)
  then have "\<exists>n. lg_events db' = lg_events db @ [event_of c n]"
    by (auto simp: append_event_def Let_def ensure_stream_def event_of_def split: if_splits)
  then show ?thesis by auto
qed

text \<open>A generation the ledger knows nothing of.\<close>

definition forgotten :: "string \<Rightarrow> string \<Rightarrow> usage_db \<Rightarrow> bool" where
  "forgotten a g db \<longleftrightarrow> (\<forall>e\<in>set (lg_events db). ue_AccountID e = a \<longrightarrow> ue_GenerationID e \<noteq> g \<and> ue_ID e \<noteq> g @ '':revoke'')"

lemma forgotten_not_revoked:
  assumes "forgotten a g db" and "en_GenerationID row = g"
  shows "AppendChange H F (revocation row a t) db \<noteq> Inr db'"
proof
  assume ap: "AppendChange H F (revocation row a t) db = Inr db'"
  let ?db = "ensure_stream a db"
  have "generation_events a g ?db = []" and "find (\<lambda>e. ue_AccountID e = a \<and> ue_ID e = g @ '':revoke'') (lg_events ?db) = None"
    using assms(1) by (auto simp: forgotten_def generation_events_def order_asc_def ensure_stream_def find_None_iff filter_empty_conv)
  with ap assms(2) show False
    by (auto simp: AppendChange_def revocation_def Let_def split: if_splits option.splits elim!: ebindE)
qed

lemma forgotten_stays:
  assumes "forgotten a g db" and "AppendChange H F (revocation row a t) db = Inr db'" and "en_GenerationID row \<noteq> g"
  shows "forgotten a g (db'\<lparr>ud_enrollments := rows\<rparr>)"
  unfolding forgotten_def
proof (intro ballI impI)
  fix e
  assume "e \<in> set (lg_events (db'\<lparr>ud_enrollments := rows\<rparr>))" and a: "ue_AccountID e = a"
  then consider "e \<in> set (lg_events db)" | n where "e = event_of (revocation row a t) n" using AppendChange_events [OF assms(2)] by auto
  then show "ue_GenerationID e \<noteq> g \<and> ue_ID e \<noteq> g @ '':revoke''"
    using assms(1,3) a by cases (simp_all add: forgotten_def event_of_def revocation_def)
qed

lemma revoke_gone_Cons:
  assumes "revoke_gone H F a t i (row # todo) remaining db = Inr x"
  obtains "en_DeviceID row \<in> set remaining" and "revoke_gone H F a t (Suc i) todo (removeAll (en_DeviceID row) remaining) db = Inr x"
    | db' rows where "en_DeviceID row \<notin> set remaining" and "AppendChange H (\<lambda>s. F (At i s)) (revocation row a t) db = Inr db'"
        and "revoke_gone H F a t (Suc i) todo remaining (db'\<lparr>ud_enrollments := rows\<rparr>) = Inr x"
proof (cases "en_DeviceID row \<in> set remaining")
  case True
  then show thesis using assms that(1) by simp
next
  case False
  with assms obtain db' rows where "AppendChange H (\<lambda>s. F (At i s)) (revocation row a t) db = Inr db'"
    and "revoke_gone H F a t (Suc i) todo remaining (db'\<lparr>ud_enrollments := rows\<rparr>) = Inr x"
    unfolding revocation_def revoke_gone.simps if_not_P [OF False] by (elim ebindE if_InrE) (simp, blast)
  then show thesis using that(2) False by blast
qed

lemma revoke_gone_blocked:
  assumes "forgotten a g db" and "r \<in> set todo" and "en_GenerationID r = g" and "en_DeviceID r \<notin> set remaining" and "distinct (map en_GenerationID todo)"
  shows "revoke_gone H F a t i todo remaining db \<noteq> Inr x"
  using assms
proof (induction todo arbitrary: i remaining db)
  case (Cons row todo)
  show ?case
  proof (cases "row = r")
    case True
    show ?thesis
    proof
      assume "revoke_gone H F a t i (row # todo) remaining db = Inr x"
      then show False
        by (cases rule: revoke_gone_Cons) (use True Cons.prems(3,4) forgotten_not_revoked [OF Cons.prems(1)] in blast)+
    qed
  next
    case False
    with Cons.prems(2) have r: "r \<in> set todo" by simp
    then have "en_GenerationID r \<in> set (map en_GenerationID todo)" by simp
    then have "en_GenerationID row \<noteq> g" using Cons.prems(3,5) by (metis distinct.simps(2) list.simps(9))
    then have stays: "forgotten a g (db'\<lparr>ud_enrollments := rows\<rparr>)"
      if "AppendChange H (\<lambda>s. F (At i s)) (revocation row a t) db = Inr db'" for db' rows
      using forgotten_stays [OF Cons.prems(1) that] by blast
    have IH: "revoke_gone H F a t (Suc i) todo rest db' \<noteq> Inr x" if "forgotten a g db'" "set rest \<subseteq> set remaining" for rest db'
    proof (rule Cons.IH [OF that(1) r Cons.prems(3)])
      show "en_DeviceID r \<notin> set rest" using that(2) Cons.prems(4) by blast
      show "distinct (map en_GenerationID todo)" using Cons.prems(5) by simp
    qed
    show ?thesis
    proof
      assume "revoke_gone H F a t i (row # todo) remaining db = Inr x"
      then show False
      proof (cases rule: revoke_gone_Cons)
        case 1
        show False using IH [OF Cons.prems(1), of "removeAll (en_DeviceID row) remaining"] 1(2) by auto
      next
        case (2 db' rows)
        show False using IH [OF stays [OF 2(2)], of remaining] 2(3) by blast
      qed
    qed
  qed
qed simp

text \<open>A prune that succeeds removes the events of its month, after it has summed up the ledger to the end of the month in a checkpoint.\<close>

lemma build_rows_ok:
  assumes "build_rows a d n g rows = Inr (d', n', g')"
  shows "d' = d + sum_list (map delta_of rows) \<and> n' = n + int (length rows) \<and> (0 \<le> d \<and> d \<le> MaxInt64 \<longrightarrow> 0 \<le> d' \<and> d' \<le> MaxInt64)"
  using assms
proof (induction rows arbitrary: d n g)
  case (Cons row rows)
  then have "ue_Sequence row = n + 1" and rest: "build_rows a (d + delta_of row) (ue_Sequence row) (g @ digestEvent row) rows = Inr (d', n', g')"
    and d: "0 \<le> d + delta_of row" "ue_Kind row = Enrolled \<longrightarrow> d \<noteq> MaxInt64" by (auto split: if_splits)
  then show ?case using Cons.IH [OF rest] by (auto simp: delta_of_def split: if_splits)
qed simp

lemma readCheckpoints_none: "lg_checkpoints db = [] \<Longrightarrow> readCheckpoints H F a db = Inr cs \<Longrightarrow> cs = []"
  by (auto simp: readCheckpoints_def account_checkpoints_def order_asc_def split: if_splits)

lemma month_end:
  assumes "validCalendarMonth start stop" and "in_period a (micro start) (micro stop) e"
  shows "0 < micro stop - 1"
proof -
  have "micro start < micro stop" using assms(2) by (simp add: in_period_def)
  then have "start < stop" by (auto simp: micro_def dest: zdiv_mono1)
  moreover have "0 \<le> start" and "\<exists>d. stop = d * day_length" using assms(1) by (auto simp: validCalendarMonth_def validTime_def next_month_def split: prod.splits)
  ultimately obtain d where d: "stop = d * day_length" "0 < d * day_length" by auto
  then have "0 < d" by simp
  then show ?thesis by (simp add: d(1) micro_def)
qed

lemma prune_ok:
  assumes "PruneFinalizedPeriod H F a start stop finalized now db = (db1, Inr k)" and "ledger_ok a db"
  obtains "db1 = db" and "\<forall>e\<in>set (lg_events db). \<not> in_period a (micro start) (micro stop) e"
    | state row where "buildCheckpoint H F a state no_checkpoint (micro stop - 1) now db = Inr (Some row)"
        "db1 = db\<lparr>lg_checkpoints := [row], lg_events := filter (\<lambda>e. \<not> in_period a (micro start) (micro stop) e) (lg_events db)\<rparr>"
        and "0 < micro stop - 1"
proof -
  let ?del = "in_period a (micro start) (micro stop)" and ?B = "micro stop - 1"
  have cp: "lg_checkpoints db = []" using assms(2) by (simp add: ledger_ok_def Let_def)
  from assms(1) have pr: "prune_period H F a (micro start) (micro stop) now db = Inr (db1, k)" and month: "validCalendarMonth start stop"
    by (auto simp: PruneFinalizedPeriod_def transaction_ok split: if_splits)
  have gone: "\<forall>e\<in>set (lg_events db). \<not> ?del e" if "affected ?del (lg_events db) = 0" using that by (simp add: affected_def filter_empty_conv)
  show thesis
  proof (cases "find_stream a db")
    case None
    then have "account_events a db = []" using assms(2) by (simp add: ledger_ok_def Let_def)
    then have "\<forall>e\<in>set (lg_events db). \<not> ?del e" by (auto simp: in_period_def account_events_def filter_empty_conv)
    with None pr that(1) show thesis by (auto simp: prune_period_def split: if_splits)
  next
    case (Some state)
    show thesis
    proof (cases "affected ?del (lg_events db) = 0")
      case True
      with Some pr have "db1 = db" unfolding prune_period_def Some option.case Let_def by (elim if_InrE ebindE) simp_all
      with gone [OF True] that(1) show thesis by blast
    next
      case False
      then obtain e where e: "e \<in> set (lg_events db)" "?del e" by (auto simp: affected_def filter_empty_conv)
      from pr False obtain new where new: "buildCheckpoint H F a state no_checkpoint ?B now db = Inr new"
        and out: "(case new of None \<Rightarrow> prune_events F a (micro start) (micro stop) db
           | Some row \<Rightarrow> if F (Insert ''checkpoints'' 0) then Inl (UsageDb (Insert ''checkpoints'' 0))
               else prune_events F a (micro start) (micro stop) (db\<lparr>lg_checkpoints := lg_checkpoints db @ [row]\<rparr>)) = Inr (db1, k)"
        using month_end [OF month e(2)]
        by (auto simp: prune_period_def Some Let_def no_checkpoint_def dest!: readCheckpoints_none [OF cp] split: if_splits elim!: ebindE)
      obtain row where row: "new = Some row"
      proof (cases new)
        case None
        have "e \<in> set (events_after a 0 (\<lambda>t. t \<le> ?B) db)" using e by (auto simp: ledger_order [OF assms(2)] in_period_def account_events_def)
        then have "events_after a 0 (\<lambda>t. t \<le> ?B) db \<noteq> []" by auto
        with new None show thesis by (auto simp: buildCheckpoint_def no_checkpoint_def Let_def dest!: build_rows_ok split: if_splits elim!: ebindE)
      qed
      with out have "db1 = db\<lparr>lg_checkpoints := [row], lg_events := filter (\<lambda>e. \<not> ?del e) (lg_events db)\<rparr>"
        by (auto simp: prune_events_def cp split: if_splits)
      with that(2) new row month_end [OF month e(2)] show thesis by blast
    qed
  qed
qed

lemma prune_removes:
  assumes "PruneFinalizedPeriod H F a start stop finalized now db = (db1, Inr k)" and "ledger_ok a db"
  shows "\<exists>cs. db1 = db\<lparr>lg_checkpoints := cs, lg_events := filter (\<lambda>e. \<not> in_period a (micro start) (micro stop) e) (lg_events db)\<rparr>"
  using assms
proof (cases rule: prune_ok)
  case 1
  then have "db1 = db\<lparr>lg_checkpoints := lg_checkpoints db, lg_events := filter (\<lambda>e. \<not> in_period a (micro start) (micro stop) e) (lg_events db)\<rparr>"
    by (simp add: filter_id_conv)
  then show ?thesis by blast
qed blast

text \<open>C38. A month of the ledger that is pruned while a device enrolled in it is still there traps the device: with collection on, every later transaction that removes the
  device fails and is rolled back, whatever else it changes.\<close>

theorem pruned_device_cannot_leave:
  assumes "(usage_step H)\<^sup>*\<^sup>* (new_usage, 0, []) (db, clock, past)" and "collecting a db"
    and "PruneFinalizedPeriod H F a start stop finalized now db = (db1, Inr k)"
    and "r \<in> set (account_enrollments a db)"
    and "\<And>e. e \<in> set (account_events a db) \<Longrightarrow> ue_GenerationID e = en_GenerationID r \<Longrightarrow> in_period a (micro start) (micro stop) e"
    and "mutates_devices a mutate" and "\<And>db db'. mutate db = Inr db' \<Longrightarrow> en_DeviceID r \<notin> set (account_peers a db')"
  shows "\<exists>e. membershipTransaction H G a removeAccount mutate uuid now' later db1 = (db1, Inl e)"
proof -
  have ok: "ledger_ok a db" by (rule account_invD(1) [OF usage_inv [OF assms(1)]])
  from prune_removes [OF assms(3) ok] obtain cs where db1: "db1 = db\<lparr>lg_checkpoints := cs, lg_events := filter (\<lambda>e. \<not> in_period a (micro start) (micro stop) e) (lg_events db)\<rparr>" by blast
  have names: "\<And>e. e \<in> set (account_events a db) \<Longrightarrow> ue_ID e = event_name e" and d: "distinct (map en_GenerationID (account_enrollments a db))"
    using ok by (simp_all add: ledger_ok_def Let_def)
  have forgot: "forgotten a (en_GenerationID r) db1"
    using names assms(5) by (auto simp: forgotten_def db1 account_events_def event_name_def)
  have "Track H G a (deviceMembership G a) mutate uuid now' db1 \<noteq> Inr db'" for db'
  proof
    assume tr: "Track H G a (deviceMembership G a) mutate uuid now' db1 = Inr db'"
    then obtain db2 state where lock: "lockCollection G a db1 = Inr (db2, state)" by (auto simp: Track_def elim!: ebindE)
    note L = lockCollection_ok [OF lock]
    have "collecting a db1 = collecting a db" by (simp add: db1 collecting_def collection_of_def)
    with L(5) assms(2) have on: "co_Enabled state" by simp
    from tr lock on obtain rows db3 after t db4 where rows: "activeEnrollments G a db2 = Inr rows" and m: "mutate db2 = Inr db3"
      and mem: "membership (deviceMembership G a) db3 = Inr after" and sync: "synchronize H G a t uuid rows after db3 = Inr db4"
      by (auto simp: Track_def split: if_splits elim!: ebindE)
    from sync obtain x where gone: "revoke_gone H G a t 0 rows after db3 = Inr x" by (auto simp: synchronize_def elim!: ebindE)
    obtain cols where db2: "db2 = db1\<lparr>ud_collections := cols\<rparr>" using L(1) by blast
    obtain peers where db3: "db3 = db2\<lparr>ud_peers := peers\<rparr>" using assms(6) m unfolding mutates_devices_def by blast
    have "rows = order_asc en_DeviceID (account_enrollments a db)"
      using activeEnrollments_ok [OF rows] by (simp add: db2 db1 account_enrollments_def)
    then have "mset rows = mset (account_enrollments a db)" by (simp add: order_asc_def)
    then have "distinct (map en_GenerationID rows)" "r \<in> set rows"
      using d assms(4) by (metis mset_eq_imp_distinct_iff mset_map, metis set_mset_mset)
    moreover have "en_DeviceID r \<notin> set after" using assms(7) [OF m] deviceMembership_ok(1) [OF mem] by simp
    moreover have "forgotten a (en_GenerationID r) db3" using forgot by (simp add: db3 db2 forgotten_def)
    ultimately show False using revoke_gone_blocked gone by blast
  qed
  then show ?thesis
    by (auto simp: membershipTransaction_def transaction_def trackMembership_def split: sum.splits if_splits elim!: ebindE)
qed

definition demo_leaves :: "usage_db \<Rightarrow> usage_error + usage_db" where
  "demo_leaves db = Inr (db\<lparr>ud_peers := filter (\<lambda>p. dq_AccountID p \<noteq> ''acct'') (ud_peers db)\<rparr>)"

lemma demo_prune:
  "\<exists>db1. PruneFinalizedPeriod demo_hash no_faults ''acct'' 0 (seconds 2678400) (seconds 2678400) (seconds 36633600) demo_joined = (db1, Inr 1)"
proof -
  have "validCalendarMonth 0 (seconds 2678400)" "add_months 13 (seconds 2678400) = seconds 36633600" "seconds 36633600 \<noteq> zero_time" "seconds 2678400 \<noteq> zero_time"
    by code_simp+
  moreover have "\<exists>db1. prune_period demo_hash no_faults ''acct'' 0 2678400000000 (seconds 36633600) demo_joined = Inr (db1, 1)"
    by (simp add: prune_period_def find_stream_def readCheckpoints_def account_checkpoints_def order_asc_def no_fault no_checkpoint_def affected_def
        in_period_def buildCheckpoint_def prune_events_def delta_of_def MaxInt64_def events_after_def Let_def demo_joined_def demo_on_def new_usage_def)
  ultimately show ?thesis
    by (auto simp: PruneFinalizedPeriod_def transaction_def no_fault validID_def micro_def)
qed

theorem pruned_device_cannot_leave_witness:
  "\<exists>db1 e. PruneFinalizedPeriod demo_hash no_faults ''acct'' 0 (seconds 2678400) (seconds 2678400) (seconds 36633600) demo_joined = (db1, Inr 1)
     \<and> membershipTransaction demo_hash no_faults ''acct'' False demo_leaves demo_uuid (seconds 36633601) (seconds 36633602) db1 = (db1, Inl e)"
proof -
  obtain db1 where pr: "PruneFinalizedPeriod demo_hash no_faults ''acct'' 0 (seconds 2678400) (seconds 2678400) (seconds 36633600) demo_joined = (db1, Inr 1)"
    using demo_prune by blast
  let ?row = "\<lparr>en_AccountID = ''acct'', en_DeviceID = ''laptop'', en_GenerationID = ''g''\<rparr>"
  have "collecting ''acct'' demo_joined" "?row \<in> set (account_enrollments ''acct'' demo_joined)"
    by (simp_all add: collecting_def account_views demo_joined_def)
  moreover have "in_period ''acct'' (micro 0) (micro (seconds 2678400)) e" if "e \<in> set (account_events ''acct'' demo_joined)" for e
    using that by (simp add: account_events_def demo_joined_def in_period_def micro_def)
  moreover have "filter (\<lambda>p. dq_AccountID p = b) (filter (\<lambda>p. dq_AccountID p \<noteq> ''acct'') ps) = filter (\<lambda>p. dq_AccountID p = b) ps" if "b \<noteq> ''acct''" for b ps
    using that by (induction ps) auto
  then have "mutates_devices ''acct'' demo_leaves" unfolding mutates_devices_def demo_leaves_def by blast
  moreover have "en_DeviceID ?row \<notin> set (account_peers ''acct'' db')" if "demo_leaves db = Inr db'" for db db'
    using that by (auto simp: demo_leaves_def account_peers_def)
  ultimately have "\<exists>e. membershipTransaction demo_hash no_faults ''acct'' False demo_leaves demo_uuid (seconds 36633601) (seconds 36633602) db1 = (db1, Inl e)"
    by (intro pruned_device_cannot_leave [OF demo_history _ pr, of ?row])
  with pr show ?thesis by blast
qed

section \<open>Reports after pruning\<close>

lemma hex_digest: "length b = 32 \<Longrightarrow> validDigest (hex b)"
proof -
  have "\<forall>c\<in>set ''0123456789abcdef''. digit c \<or> (CHR ''a'' \<le> c \<and> c \<le> CHR ''f'')" by code_simp
  moreover have "hexdigit n \<in> set ''0123456789abcdef''" for n unfolding hexdigit_def by (rule nth_mem) simp
  ultimately have "digit (hexdigit n) \<or> (CHR ''a'' \<le> hexdigit n \<and> hexdigit n \<le> CHR ''f'')" for n by blast
  then have "list_all (\<lambda>c. digit c \<or> (CHR ''a'' \<le> c \<and> c \<le> CHR ''f'')) (hex b)"
    by (induction b) (simp_all add: hex_def)
  then show "length b = 32 \<Longrightarrow> validDigest (hex b)" by (simp add: validDigest_def)
qed

lemma numbered_parts:
  assumes "map f (p @ q) = [k..k + int (length (p @ q)) - 1]"
  shows "map f p = [k..k + int (length p) - 1] \<and> map f q = [k + int (length p)..k + int (length p) + int (length q) - 1]"
  using assms
proof (induction p arbitrary: k)
  case (Cons x p)
  have up: "[k..k + int (length (x # p)) + n - 1] = k # [k + 1..(k + 1) + int (length p) + n - 1]" if "0 \<le> n" for n
    using upto_rec1 [of k "k + int (length (x # p)) + n - 1"] that by (simp add: add_ac)
  from Cons.prems up [of "int (length q)"] have x: "f x = k" and rest: "map f (p @ q) = [k + 1..(k + 1) + int (length (p @ q)) - 1]"
    by (simp_all add: add_ac)
  from Cons.IH [OF rest] x up [of 0] show ?case by (simp add: add_ac)
qed simp

lemma numbered_prefix:
  assumes "map f es = [1..int (length es)]" and "es = p @ r"
  shows "map f p = [1..int (length p)]"
  using numbered_parts [of f p r 1] assms by simp

lemma sorted_parts:
  fixes f :: "'a \<Rightarrow> int"
  assumes "sorted (map f es)" and "B \<le> t"
  shows "es = filter (\<lambda>e. f e \<le> B) es @ filter (\<lambda>e. B < f e \<and> f e \<le> t) es @ filter (\<lambda>e. t < f e) es"
  using assms
proof (induction es)
  case (Cons e es)
  have "filter (\<lambda>e. f e \<le> B) es = []" if "B < f e" using Cons.prems(1) that by (auto simp: filter_empty_conv)
  moreover have "filter (\<lambda>e. B < f e \<and> f e \<le> t) es = []" if "t < f e" using Cons.prems(1) that by (auto simp: filter_empty_conv)
  ultimately show ?case using Cons.IH Cons.prems by (cases "f e \<le> B"; cases "f e \<le> t") auto
qed simp

text \<open>The opening count of a window depends only on the events before it, however many of them a checkpoint stands for.\<close>

lemma openingCount_parts:
  assumes "map ue_Sequence (p @ q) = [1..int (length (p @ q))]" and "events_after a (int (length p)) (\<lambda>u. u \<le> t) db = q"
    and "cs_Sequence cp = int (length p)" and "cs_DeviceCount cp = sum_list (map delta_of p)" and "0 \<le> cs_DeviceCount cp" and "cs_DeviceCount cp \<le> MaxInt64"
  shows "openingCount F a t cp db =
     (if F (Select ''opening'') then Inl (UsageDb (Select ''opening''))
      else if sum_list (map delta_of (p @ q)) < 0 \<or> MaxInt64 < sum_list (map delta_of (p @ q)) then Inl ErrCheckpoint
      else Inr (sum_list (map delta_of (p @ q)), int (length (p @ q))))"
proof -
  have "map ue_Sequence q = [1 + int (length p)..int (length p) + int (length q)]"
    using numbered_parts [of ue_Sequence p q 1] assms(1) by simp
  then have "ue_Sequence ` set q = {1 + int (length p)..int (length p) + int (length q)}" by (metis list.set_map set_upto)
  then have m: "Max (ue_Sequence ` set q) = int (length p) + int (length q)" if "q \<noteq> []"
    using that by (cases q) (auto intro!: Max_eqI)
  define c d where "c = sum_list (map delta_of p)" and "d = sum_list (map delta_of q)"
  have "0 \<le> c" "c \<le> MaxInt64" using assms(4-6) by (simp_all add: c_def)
  then have guards: "(0 < d \<and> MaxInt64 - d < c \<or> d < 0 \<and> c < - d) \<or> c + d < 0 \<longleftrightarrow> c + d < 0 \<or> MaxInt64 < c + d" by linarith
  have nested: "(if A then e else if B then e else x) = (if A \<or> B then e else x)" for A B and e x :: "usage_error + int \<times> int" by simp
  show ?thesis
    unfolding openingCount_def assms(2-4) Let_def nested map_append sum_list_append c_def [symmetric] d_def [symmetric] guards
    using m by (cases "q = []") simp_all
qed

lemma numbered_cut:
  assumes "map ue_Sequence es = [1..int (length es)]" and "sorted (map ue_AtUS es)" and "e \<in> set es"
  shows "int (length (filter (\<lambda>e. ue_AtUS e \<le> B) es)) < ue_Sequence e \<longleftrightarrow> B < ue_AtUS e"
proof -
  let ?p = "filter (\<lambda>e. ue_AtUS e \<le> B) es" and ?r = "filter (\<lambda>e. B < ue_AtUS e) es"
  have es: "es = ?p @ ?r" using sorted_parts [OF assms(2), of B B] by simp
  then have "map ue_Sequence (?p @ ?r) = [1..1 + int (length (?p @ ?r)) - 1]" using assms(1) by simp
  from numbered_parts [OF this]
  have "ue_Sequence ` set ?p = {1..int (length ?p)}" "ue_Sequence ` set ?r = {1 + int (length ?p)..int (length ?p) + int (length ?r)}"
    by (simp_all add: list.set_map [symmetric] del: list.set_map set_filter)
  then have p: "e \<in> set ?p \<Longrightarrow> ue_Sequence e \<le> int (length ?p)" and r: "e \<in> set ?r \<Longrightarrow> int (length ?p) < ue_Sequence e"
    using imageI [of e "set ?p" ue_Sequence] imageI [of e "set ?r" ue_Sequence] by simp_all
  show ?thesis
  proof (cases "ue_AtUS e \<le> B")
    case True
    with p assms(3) show ?thesis by simp
  next
    case False
    with r assms(3) show ?thesis by simp
  qed
qed

lemma pruned_events:
  assumes "ledger_ok a db" and "db1 = db\<lparr>lg_checkpoints := cs, lg_events := filter (\<lambda>e. \<not> in_period a startUS endUS e) (lg_events db)\<rparr>"
    and "n = int (length (filter (\<lambda>e. ue_AtUS e \<le> endUS - 1) (account_events a db)))"
  shows "events_after a n P db1 = filter (\<lambda>e. endUS - 1 < ue_AtUS e \<and> P (ue_AtUS e)) (account_events a db)"
proof -
  let ?es = "account_events a db"
  have seq: "map ue_Sequence ?es = [1..int (length ?es)]" and times: "sorted (map ue_AtUS ?es)" using assms(1) by (simp_all add: ledger_ok_def Let_def)
  have "filter (\<lambda>e. ue_AccountID e = a \<and> n < ue_Sequence e \<and> P (ue_AtUS e)) (lg_events db1)
      = filter (\<lambda>e. n < ue_Sequence e \<and> P (ue_AtUS e) \<and> \<not> in_period a startUS endUS e) ?es"
    by (auto simp: assms(2) account_events_def intro!: filter_cong)
  also have "\<dots> = filter (\<lambda>e. endUS - 1 < ue_AtUS e \<and> P (ue_AtUS e)) ?es"
    using numbered_cut [OF seq times, of _ "endUS - 1"] by (auto simp: assms(3) in_period_def intro!: filter_cong)
  finally have "events_after a n P db1 = order_asc ue_Sequence (filter (\<lambda>e. endUS - 1 < ue_AtUS e \<and> P (ue_AtUS e)) ?es)" by (simp add: events_after_def)
  moreover have "sorted (map ue_Sequence ?es)" by (simp add: seq)
  then have "sorted (map ue_Sequence (filter (\<lambda>e. endUS - 1 < ue_AtUS e \<and> P (ue_AtUS e)) ?es))" by (rule sorted_filter)
  ultimately show ?thesis by (simp add: order_asc_sorted)
qed

lemma built_checkpoint:
  assumes "buildCheckpoint H F a state no_checkpoint B now db = Inr (Some row)" and "ledger_ok a db" and "0 < B" and "\<And>x. length (H x) = 32"
  shows "check_chain H a no_checkpoint [row]" and "dc_AccountID row = a" and "dc_BoundaryUS row = B" and "0 < dc_Sequence row"
    and "dc_Sequence row = int (length (filter (\<lambda>e. ue_AtUS e \<le> B) (account_events a db)))"
    and "dc_DeviceCount row = sum_list (map delta_of (filter (\<lambda>e. ue_AtUS e \<le> B) (account_events a db)))"
    and "0 \<le> dc_DeviceCount row" and "dc_DeviceCount row \<le> MaxInt64"
proof -
  let ?p = "filter (\<lambda>e. ue_AtUS e \<le> B) (account_events a db)"
  from assms(1) obtain d n g where rows: "build_rows a 0 0 [] ?p = Inr (d, n, g)" and n: "n \<noteq> 0"
    and row: "row = \<lparr>dc_AccountID = a, dc_Sequence = n, dc_BoundaryUS = B, dc_DeviceCount = d, dc_PreviousSeq = 0, dc_PreviousDigest = [],
       dc_RangeDigest = hex (H g), dc_SourceDigest = checkpointDigest H a 0 [] n B d (hex (H g)), dc_CreatedAt = now\<rparr>"
    by (auto simp: buildCheckpoint_def no_checkpoint_def ledger_order [OF assms(2)] Let_def split: if_splits elim!: ebindE)
  have B: "d = sum_list (map delta_of ?p)" "n = int (length ?p)" "0 \<le> d" "d \<le> MaxInt64" using build_rows_ok [OF rows] by (auto simp: MaxInt64_def)
  have n0: "0 < n" using n unfolding B(2) by simp
  have "validDigest (hex (H g))" "validDigest (checkpointDigest H a 0 [] n B d (hex (H g)))" unfolding checkpointDigest_def using assms(4) by (simp_all add: hex_digest)
  then show "check_chain H a no_checkpoint [row]" using n0 assms(3) B(3) by (simp add: row no_checkpoint_def checkpoint_state_def)
  show "dc_AccountID row = a" "dc_BoundaryUS row = B" "0 < dc_Sequence row" "0 \<le> dc_DeviceCount row" "dc_DeviceCount row \<le> MaxInt64"
    using n0 B(3,4) by (simp_all add: row)
  show "dc_Sequence row = int (length ?p)" "dc_DeviceCount row = sum_list (map delta_of ?p)" unfolding row using B(1,2) by simp_all
qed

lemma reports_from_reads:
  assumes "report_periods a (micro start) (micro stop) db1 = report_periods a (micro start) (micro stop) db"
    and "checkpointAt H F a (micro start) db1 = (if F (Select ''checkpoints'') then Inl (UsageDb (Select ''checkpoints'')) else Inr cp1)"
    and "checkpointAt H F a (micro start) db = (if F (Select ''checkpoints'') then Inl (UsageDb (Select ''checkpoints'')) else Inr cp)"
    and "openingCount F a (micro start) cp1 db1 = openingCount F a (micro start) cp db"
    and "window_events a (cs_Sequence cp1) (micro start) (micro stop) db1 = window_events a (cs_Sequence cp) (micro start) (micro stop) db"
  shows "Devices H F a start stop now db1 = Devices H F a start stop now db \<and> Timeline H F a start stop db1 = Timeline H F a start stop db"
proof (cases "F (Select ''checkpoints'')")
  case True
  then show ?thesis unfolding Devices_def device_report_def Timeline_def Let_def assms(1-3) by simp
next
  case False
  then show ?thesis unfolding Devices_def device_report_def Timeline_def Let_def assms(1-3) if_not_P [OF False] ebind.simps assms(4,5) by blast
qed

lemma pruned_reports:
  assumes ok: "ledger_ok a db" and built: "buildCheckpoint H F a state no_checkpoint (micro stop - 1) now db = Inr (Some row)" and len: "\<And>x. length (H x) = 32"
    and db1: "db1 = db\<lparr>lg_checkpoints := [row], lg_events := filter (\<lambda>e. \<not> in_period a (micro start) (micro stop) e) (lg_events db)\<rparr>"
    and pos: "0 < micro stop - 1" and after: "micro stop \<le> micro from"
  shows "Devices H G a from to now' db1 = Devices H G a from to now' db \<and> Timeline H G a from to db1 = Timeline H G a from to db"
proof (rule reports_from_reads)
  let ?es = "account_events a db" and ?B = "micro stop - 1" and ?t = "micro from"
  let ?p = "filter (\<lambda>e. ue_AtUS e \<le> ?B) ?es" and ?q = "filter (\<lambda>e. ?B < ue_AtUS e \<and> ue_AtUS e \<le> ?t) ?es"
  note row = built_checkpoint [OF built ok pos len] and events = pruned_events [OF ok db1 refl]
  have seq: "map ue_Sequence ?es = [1..int (length ?es)]" and times: "sorted (map ue_AtUS ?es)" and cp: "lg_checkpoints db = []"
    using ok by (simp_all add: ledger_ok_def Let_def)
  show "report_periods a ?t (micro to) db1 = report_periods a ?t (micro to) db" by (simp add: report_periods_def db1)
  have "account_checkpoints a db1 = [row]" using row(2) by (simp add: account_checkpoints_def order_asc_def db1)
  then show "checkpointAt H G a ?t db1 = (if G (Select ''checkpoints'') then Inl (UsageDb (Select ''checkpoints'')) else Inr (checkpoint_state row))"
    using row(1,3,4) after by (simp add: checkpointAt_def readCheckpoints_def checkpoint_state_def del: check_chain.simps)
  show "checkpointAt H G a ?t db = (if G (Select ''checkpoints'') then Inl (UsageDb (Select ''checkpoints'')) else Inr no_checkpoint)"
    by (simp add: checkpointAt_def readCheckpoints_def account_checkpoints_def order_asc_def cp no_checkpoint_def)
  have parts: "?es = ?p @ ?q @ filter (\<lambda>e. ?t < ue_AtUS e) ?es" using sorted_parts [OF times, of ?B ?t] after by simp
  have early: "filter (\<lambda>e. ue_AtUS e \<le> ?t) ?es = ?p @ ?q"
    using sorted_parts [OF sorted_filter [OF times], of ?B ?t "\<lambda>e. ue_AtUS e \<le> ?t"] after by (simp add: conj_commute) (rule filter_cong; auto)
  have num: "map ue_Sequence (?p @ ?q) = [1..int (length (?p @ ?q))]"
    by (rule numbered_prefix [OF seq]) (use parts in \<open>simp only: append_assoc\<close>)
  have state: "cs_Sequence (checkpoint_state row) = int (length ?p)" "cs_DeviceCount (checkpoint_state row) = sum_list (map delta_of ?p)"
    using row(5,6) by (simp_all add: checkpoint_state_def)
  have "openingCount G a ?t (checkpoint_state row) db1 =
     (if G (Select ''opening'') then Inl (UsageDb (Select ''opening''))
      else if sum_list (map delta_of (?p @ ?q)) < 0 \<or> MaxInt64 < sum_list (map delta_of (?p @ ?q)) then Inl ErrCheckpoint
      else Inr (sum_list (map delta_of (?p @ ?q)), int (length (?p @ ?q))))"
    using row(7,8) by (intro openingCount_parts [OF num events state]) (simp_all add: checkpoint_state_def)
  also have "\<dots> = openingCount G a ?t no_checkpoint db"
    using openingCount_parts [of "[]" "?p @ ?q" a ?t db no_checkpoint G] num ledger_order [OF ok, of "\<lambda>u. u \<le> ?t"] early
    by (simp add: no_checkpoint_def MaxInt64_def)
  finally show "openingCount G a ?t (checkpoint_state row) db1 = openingCount G a ?t no_checkpoint db" .
  show "window_events a (cs_Sequence (checkpoint_state row)) ?t (micro to) db1 = window_events a (cs_Sequence no_checkpoint) ?t (micro to) db"
    unfolding window_events_def state(1) events using ledger_order [OF ok, of "\<lambda>u. u > ?t \<and> u < micro to"] after
    by (auto simp: no_checkpoint_def intro!: filter_cong)
qed

text \<open>C18. Pruning loses nothing that is still asked for: after a month of a ledger is pruned, every device report and every timeline that starts at or after the end of the
  month is the one the whole ledger gave, errors included.\<close>

theorem pruning_keeps_reports:
  assumes "(usage_step H)\<^sup>*\<^sup>* (new_usage, 0, []) (db, clock, past)" and "PruneFinalizedPeriod H F a start stop finalized now db = (db1, Inr k)"
    and "\<And>x. length (H x) = 32" and "stop \<le> from"
  shows "Devices H G a from to now' db1 = Devices H G a from to now' db \<and> Timeline H G a from to db1 = Timeline H G a from to db"
proof -
  have ok: "ledger_ok a db" by (rule account_invD(1) [OF usage_inv [OF assms(1)]])
  have after: "micro stop \<le> micro from" using assms(4) by (simp add: micro_def zdiv_mono1)
  from assms(2) ok show ?thesis
  proof (cases rule: prune_ok)
    case (2 state row)
    show ?thesis by (rule pruned_reports [OF ok 2(1) assms(3) 2(2,3) after])
  qed simp
qed

theorem pruning_keeps_reports_witness:
  "\<exists>db1. PruneFinalizedPeriod demo_hash no_faults ''acct'' 0 (seconds 2678400) (seconds 2678400) (seconds 36633600) demo_joined = (db1, Inr 1)
     \<and> Devices demo_hash no_faults ''acct'' (seconds 2678400) (seconds 2678460) (seconds 36633600) db1
       = Devices demo_hash no_faults ''acct'' (seconds 2678400) (seconds 2678460) (seconds 36633600) demo_joined"
proof -
  obtain db1 where pr: "PruneFinalizedPeriod demo_hash no_faults ''acct'' 0 (seconds 2678400) (seconds 2678400) (seconds 36633600) demo_joined = (db1, Inr 1)"
    using demo_prune by blast
  have "length (demo_hash x) = 32" for x by (simp add: demo_hash_def)
  from pr pruning_keeps_reports [OF demo_history pr this order_refl, of no_faults "seconds 2678460" "seconds 36633600"] show ?thesis by blast
qed

end
