(* ===== verification/Relay_Caps.thy ===== *)
theory Relay_Caps
  imports Billing_Store
begin

text \<open>Spending caps on managed relays (billing/caps.go): an account sets a cap for a calendar month, relays reserve byte credits under it and give back what they did not
  use, and short leases let relays forward while no cap exists. Each operation is one serializable transaction, retried while the database reports contention.\<close>

section \<open>Rows and errors\<close>

record relayCapRow =
  cp_AccountID :: string
  cp_PeriodStartUS :: int64
  cp_PeriodEndUS :: int64
  cp_ScheduleVersion :: string
  cp_OverageMinor :: int64
  cp_Revision :: uint64
  cp_Acknowledged :: bool
  cp_EffectiveAtUS :: int64
  cp_UpdatedBy :: string
  cp_UpdatedAt :: instant

record relayCapRevisionRow =
  rv_AccountID :: string
  rv_PeriodStartUS :: int64
  rv_Revision :: uint64
  rv_PeriodEndUS :: int64
  rv_ScheduleVersion :: string
  rv_OverageMinor :: int64
  rv_Acknowledged :: bool
  rv_EffectiveAtUS :: int64
  rv_Actor :: string
  rv_CreatedAt :: instant

record relayCreditGrantRow =
  cg_GrantID :: string
  cg_AccountID :: string
  cg_PeriodStartUS :: int64
  cg_RelayID :: string
  cg_Generation :: string
  cg_RequestID :: string
  cg_MappingVersion :: string
  cg_ScheduleVersion :: string
  cg_CapRevision :: uint64
  cg_RequestedBytes :: string
  cg_GrantedBytes :: string
  cg_ConsumedBytes :: string
  cg_State :: string
  cg_SurrenderDigest :: string
  cg_CreatedAt :: instant
  cg_UpdatedAt :: instant

record relayUncappedLeaseRow =
  ul_AccountID :: string
  ul_PeriodStartUS :: int64
  ul_RelayID :: string
  ul_Generation :: string
  ul_MappingVersion :: string
  ul_ExpiresAtUS :: int64

record RelaySpendingCap =
  rc_AccountID :: string
  rc_PeriodStart :: instant
  rc_PeriodEnd :: instant
  rc_ScheduleVersion :: string
  rc_Currency :: string
  rc_OverageMinor :: int64
  rc_Revision :: uint64
  rc_Acknowledged :: bool
  rc_UpdatedBy :: string
  rc_UpdatedAt :: instant
  rc_EffectiveAt :: instant

record RelayCreditGrant =
  gr_GrantID :: string
  gr_AccountID :: string
  gr_PeriodStart :: instant
  gr_PeriodEnd :: instant
  gr_RelayID :: string
  gr_Generation :: string
  gr_MappingVersion :: string
  gr_ScheduleVersion :: string
  gr_CapRevision :: uint64
  gr_RequestedBytes :: string
  gr_GrantedBytes :: string
  gr_CreatedAt :: instant

record caps_db = billing_db +
  cd_caps :: "relayCapRow list"
  cd_revisions :: "relayCapRevisionRow list"
  cd_grants :: "relayCreditGrantRow list"
  cd_leases :: "relayUncappedLeaseRow list"

datatype cap_error =
    ErrRelayCapNotConfigured | ErrRelayCapConflict | ErrRelayCapDecrease | ErrRelayCapExhausted | ErrCreditRequestConflict
  | ErrCreditGrantNotFound | ErrCreditGrantConflict | ErrRelayCapPending | ErrRelayCapAlreadyActive
  | InvalidAmount | UnknownGrantState | NoRandomness | ContextDone | CapBilling billing_error | CapDb stmt | CapRelay string

definition RelayUncappedLeaseMillis :: int where "RelayUncappedLeaseMillis = 15000"

definition relayUncappedLeaseDuration :: int where "relayUncappedLeaseDuration = RelayUncappedLeaseMillis * 1000000"

section \<open>Transactions\<close>

text \<open>What an operation meets in each of its attempts: the statements the database refuses, which of these refusals are contention, the clock at its two readings, the
  random bytes, and whether the caller gave up while waiting for the next attempt. Reads before the transaction have faults of their own.\<close>

record cap_env =
  ce_read :: faults
  ce_faults :: "nat \<Rightarrow> faults"
  ce_busy :: "nat \<Rightarrow> stmt \<Rightarrow> bool"
  ce_done :: "nat \<Rightarrow> bool"
  ce_now :: "nat \<Rightarrow> instant"
  ce_later :: "nat \<Rightarrow> instant"
  ce_random :: "nat \<Rightarrow> bytes option"

definition retryableBillingTransaction :: "(stmt \<Rightarrow> bool) \<Rightarrow> cap_error \<Rightarrow> bool" where
  "retryableBillingTransaction busy e = (case e of CapDb s \<Rightarrow> busy s | CapBilling (DbFault s) \<Rightarrow> busy s | _ \<Rightarrow> False)"

function runBillingTransaction :: "cap_env \<Rightarrow> (nat \<Rightarrow> 's \<Rightarrow> cap_error + ('s \<times> 'a)) \<Rightarrow> nat \<Rightarrow> 's \<Rightarrow> 's \<times> (cap_error + 'a)" where
  "runBillingTransaction E body attempt db =
     (case transaction (ce_faults E attempt) (CapDb Commit) db (body attempt) of
        (db', Inr x) \<Rightarrow> (db', Inr x)
      | (db', Inl e) \<Rightarrow>
          if \<not> retryableBillingTransaction (ce_busy E attempt) e \<or> attempt \<ge> 6 then (db', Inl e)
          else if ce_done E attempt then (db', Inl ContextDone)
          else runBillingTransaction E body (attempt + 1) db')"
  by pat_completeness auto
termination by (relation "measure (\<lambda>(E, body, attempt, db). 6 - attempt)") auto

declare runBillingTransaction.simps [simp del]

definition lockBillingAccount :: "faults \<Rightarrow> string \<Rightarrow> 'a caps_db_scheme \<Rightarrow> cap_error + 'a caps_db_scheme" where
  "lockBillingAccount F accountID db =
     (if F (Insert ''locks'' 0) then Inl (CapDb (Insert ''locks'' 0))
      else if F (Select ''locks'') then Inl (CapDb (Select ''locks''))
      else Inr (db\<lparr>bd_locks := insert_new (\<lambda>x. x) accountID (bd_locks db)\<rparr>))"

section \<open>Amounts and documents\<close>

definition isRelayCapMonth :: "int64 \<Rightarrow> int64 \<Rightarrow> bool" where
  "isRelayCapMonth startUS endUS \<longleftrightarrow>
     (let start = fromMicro startUS; stop = fromMicro endUS; (y, m, d) = date_of (start div day_length)
      in d = 1 \<and> start mod day_length = 0 \<and> stop = next_month start)"

definition maxRelayBytesForOverage :: "RateSchedule \<Rightarrow> int64 \<Rightarrow> cap_error + int" where
  "maxRelayBytesForOverage schedule overageMinor =
     (if validateRateSchedule schedule \<noteq> Inr () \<or> sint overageMinor < 0 \<or> rs_RelayMinorPerUnit schedule = 0
      then Inl (CapBilling (Pricing ErrInvalidRateSchedule))
      else let overageBytes = (sint overageMinor * uint (rs_RelayUnitBytes schedule)) div sint (rs_RelayMinorPerUnit schedule)
           in Inr (uint (rs_RelayIncludedBytes schedule) + overageBytes))"

definition addCanonicalBig :: "int \<Rightarrow> string \<Rightarrow> cap_error + int" where
  "addCanonicalBig total' decimal =
     (case big_SetString decimal of None \<Rightarrow> Inl InvalidAmount
      | Some v \<Rightarrow> if v < 0 \<or> int_string v \<noteq> decimal then Inl InvalidAmount else Inr (total' + v))"

text \<open>The bytes of the digits pair up to a byte string, all of them lower case: the strings \<^verbatim>\<open>hex.EncodeToString\<close> gives on that many bytes.\<close>

definition validLowerHex :: "string \<Rightarrow> nat \<Rightarrow> bool" where
  "validLowerHex v n \<longleftrightarrow> length v = 2 * n \<and> list_all (\<lambda>c. digit c \<or> (CHR ''a'' \<le> c \<and> c \<le> CHR ''f'')) v"

definition relayCapDTO :: "relayCapRow \<Rightarrow> RelaySpendingCap" where
  "relayCapDTO row =
     \<lparr>rc_AccountID = cp_AccountID row, rc_PeriodStart = fromMicro (cp_PeriodStartUS row), rc_PeriodEnd = fromMicro (cp_PeriodEndUS row),
      rc_ScheduleVersion = cp_ScheduleVersion row, rc_Currency = ''USD'', rc_OverageMinor = cp_OverageMinor row, rc_Revision = cp_Revision row,
      rc_Acknowledged = cp_Acknowledged row, rc_UpdatedBy = cp_UpdatedBy row, rc_UpdatedAt = cp_UpdatedAt row,
      rc_EffectiveAt = fromMicro (cp_EffectiveAtUS row)\<rparr>"

definition relayGrantDTO :: "relayCreditGrantRow \<Rightarrow> int64 \<Rightarrow> RelayCreditGrant" where
  "relayGrantDTO row endUS =
     \<lparr>gr_GrantID = cg_GrantID row, gr_AccountID = cg_AccountID row, gr_PeriodStart = fromMicro (cg_PeriodStartUS row), gr_PeriodEnd = fromMicro endUS,
      gr_RelayID = cg_RelayID row, gr_Generation = cg_Generation row, gr_MappingVersion = cg_MappingVersion row,
      gr_ScheduleVersion = cg_ScheduleVersion row, gr_CapRevision = cg_CapRevision row, gr_RequestedBytes = cg_RequestedBytes row,
      gr_GrantedBytes = cg_GrantedBytes row, gr_CreatedAt = cg_CreatedAt row\<rparr>"

definition addRelayCapRevision :: "faults \<Rightarrow> relayCapRow \<Rightarrow> string \<Rightarrow> instant \<Rightarrow> 'a caps_db_scheme \<Rightarrow> cap_error + 'a caps_db_scheme" where
  "addRelayCapRevision F row actor now db =
     (if F (Insert ''revisions'' 0)
         \<or> has_key (\<lambda>r. (rv_AccountID r, rv_PeriodStartUS r, rv_Revision r)) (cp_AccountID row, cp_PeriodStartUS row, cp_Revision row) (cd_revisions db)
      then Inl (CapDb (Insert ''revisions'' 0))
      else Inr (db\<lparr>cd_revisions := cd_revisions db @ [\<lparr>rv_AccountID = cp_AccountID row, rv_PeriodStartUS = cp_PeriodStartUS row,
        rv_Revision = cp_Revision row, rv_PeriodEndUS = cp_PeriodEndUS row, rv_ScheduleVersion = cp_ScheduleVersion row,
        rv_OverageMinor = cp_OverageMinor row, rv_Acknowledged = cp_Acknowledged row, rv_EffectiveAtUS = cp_EffectiveAtUS row,
        rv_Actor = actor, rv_CreatedAt = now\<rparr>]\<rparr>))"

section \<open>Operations\<close>

definition find_cap :: "string \<Rightarrow> int64 \<Rightarrow> 'a caps_db_scheme \<Rightarrow> relayCapRow option" where
  "find_cap accountID startUS db = find (\<lambda>r. (cp_AccountID r, cp_PeriodStartUS r) = (accountID, startUS)) (cd_caps db)"

definition period_grants :: "string \<Rightarrow> int64 \<Rightarrow> 'a caps_db_scheme \<Rightarrow> relayCreditGrantRow list" where
  "period_grants accountID startUS db = filter (\<lambda>g. (cg_AccountID g, cg_PeriodStartUS g) = (accountID, startUS)) (cd_grants db)"

definition period_leases :: "string \<Rightarrow> int64 \<Rightarrow> 'a caps_db_scheme \<Rightarrow> relayUncappedLeaseRow list" where
  "period_leases accountID startUS db = filter (\<lambda>l. (ul_AccountID l, ul_PeriodStartUS l) = (accountID, startUS)) (cd_leases db)"

definition surrendered_bytes :: "int \<Rightarrow> relayCreditGrantRow \<Rightarrow> cap_error + int" where
  "surrendered_bytes committed g =
     (if cg_State g \<noteq> ''surrendered'' then Inl ErrRelayCapDecrease else addCanonicalBig committed (cg_ConsumedBytes g))"

definition create_cap :: "faults \<Rightarrow> string \<Rightarrow> int64 \<Rightarrow> int64 \<Rightarrow> string \<Rightarrow> int64 \<Rightarrow> string \<Rightarrow> instant \<Rightarrow> 'a caps_db_scheme
    \<Rightarrow> cap_error + ('a caps_db_scheme \<times> RelaySpendingCap)" where
  "create_cap F accountID startUS endUS version overageMinor actor now db =
     (if F (Select ''leases'') then Inl (CapDb (Select ''leases''))
      else let effective = (case first_row (order_desc (\<lambda>l. sint (ul_ExpiresAtUS l)) (period_leases accountID startUS db)) of
                 Some latest \<Rightarrow> if sint (ul_ExpiresAtUS latest) > sint (unixMicro now) then ul_ExpiresAtUS latest else unixMicro now
               | None \<Rightarrow> unixMicro now);
             row = \<lparr>cp_AccountID = accountID, cp_PeriodStartUS = startUS, cp_PeriodEndUS = endUS, cp_ScheduleVersion = version,
               cp_OverageMinor = overageMinor, cp_Revision = 1, cp_Acknowledged = True, cp_EffectiveAtUS = effective, cp_UpdatedBy = actor,
               cp_UpdatedAt = now\<rparr>
      in if F (Insert ''caps'' 0) then Inl (CapDb (Insert ''caps'' 0))
         else ebind (addRelayCapRevision F row actor now (db\<lparr>cd_caps := cd_caps db @ [row]\<rparr>)) (\<lambda>db. Inr (db, relayCapDTO row)))"

definition check_decrease :: "faults \<Rightarrow> RateSchedule \<Rightarrow> relayCapRow \<Rightarrow> int64 \<Rightarrow> 'a caps_db_scheme \<Rightarrow> cap_error + unit" where
  "check_decrease F schedule row overageMinor db =
     (if \<not> sint overageMinor < sint (cp_OverageMinor row) then Inr ()
      else ebind (maxRelayBytesForOverage schedule overageMinor) (\<lambda>budget.
      if F (Select ''grants'') then Inl (CapDb (Select ''grants''))
      else ebind (eforeach surrendered_bytes 0 (period_grants (cp_AccountID row) (cp_PeriodStartUS row) db)) (\<lambda>committed.
      if committed > budget then Inl ErrRelayCapDecrease else Inr ())))"

definition change_cap :: "faults \<Rightarrow> RateSchedule \<Rightarrow> relayCapRow \<Rightarrow> int64 \<Rightarrow> int64 \<Rightarrow> string \<Rightarrow> instant \<Rightarrow> 'a caps_db_scheme
    \<Rightarrow> cap_error + ('a caps_db_scheme \<times> RelaySpendingCap)" where
  "change_cap F schedule row endUS overageMinor actor now db =
     (if cp_PeriodEndUS row \<noteq> endUS \<or> cp_ScheduleVersion row \<noteq> rs_Version schedule \<or> \<not> cp_Acknowledged row then Inl ErrRelayCapConflict
      else ebind (check_decrease F schedule row overageMinor db) (\<lambda>_.
      if overageMinor = cp_OverageMinor row then Inr (db, relayCapDTO row)
      else let row = row\<lparr>cp_OverageMinor := overageMinor, cp_Revision := cp_Revision row + 1, cp_UpdatedBy := actor, cp_UpdatedAt := now\<rparr>
      in if F (Update ''caps'') then Inl (CapDb (Update ''caps''))
         else ebind (addRelayCapRevision F row actor now
                (db\<lparr>cd_caps := update_rows (\<lambda>r. (cp_AccountID r, cp_PeriodStartUS r) = (cp_AccountID row, cp_PeriodStartUS row)) (\<lambda>_. row) (cd_caps db)\<rparr>))
              (\<lambda>db. Inr (db, relayCapDTO row))))"

definition set_cap_tx :: "cap_env \<Rightarrow> string \<Rightarrow> int64 \<Rightarrow> int64 \<Rightarrow> RateSchedule \<Rightarrow> int64 \<Rightarrow> string \<Rightarrow> nat \<Rightarrow> 'a caps_db_scheme
    \<Rightarrow> cap_error + ('a caps_db_scheme \<times> RelaySpendingCap)" where
  "set_cap_tx E accountID startUS endUS schedule overageMinor actor k db =
     ebind (lockBillingAccount (ce_faults E k) accountID db) (\<lambda>db.
     if ce_faults E k (Select ''caps'') then Inl (CapDb (Select ''caps''))
     else (case find_cap accountID startUS db of
         None \<Rightarrow> create_cap (ce_faults E k) accountID startUS endUS (rs_Version schedule) overageMinor actor (ce_now E k) db
       | Some row \<Rightarrow> change_cap (ce_faults E k) schedule row endUS overageMinor actor (ce_now E k) db))"

definition set_cap_checks :: "codec \<Rightarrow> faults \<Rightarrow> string \<Rightarrow> instant \<Rightarrow> instant \<Rightarrow> int64 \<Rightarrow> bool \<Rightarrow> string \<Rightarrow> 'a caps_db_scheme
    \<Rightarrow> cap_error + (string \<times> int64 \<times> int64 \<times> RateSchedule)" where
  "set_cap_checks C F acct start stop overageMinor acknowledged actor db =
     ebind (wrap_err CapBilling (billingAccountFromContext acct)) (\<lambda>accountID.
     case billingPeriodMicros start stop of Inl _ \<Rightarrow> Inl (CapBilling ErrInvalidPeriod)
     | Inr (startUS, endUS) \<Rightarrow>
       if \<not> isRelayCapMonth startUS endUS \<or> sint overageMinor < 0 \<or> \<not> acknowledged \<or> \<not> validToken actor then Inl (CapBilling ErrInvalidPeriod)
       else ebind (wrap_err CapBilling (AssignmentOf F accountID start stop db)) (\<lambda>assignment.
            ebind (wrap_err CapBilling (Schedule C F (as_ScheduleVersion assignment) db)) (\<lambda>schedule.
            if rs_Currency schedule \<noteq> ''USD'' \<or> sint (rs_RelayMinorPerUnit schedule) \<le> 0
            then Inl (CapBilling (Pricing ErrInvalidRateSchedule)) else Inr (accountID, startUS, endUS, schedule))))"

definition SetRelaySpendingCap :: "codec \<Rightarrow> cap_env \<Rightarrow> string \<Rightarrow> instant \<Rightarrow> instant \<Rightarrow> int64 \<Rightarrow> bool \<Rightarrow> string \<Rightarrow> 'a caps_db_scheme
    \<Rightarrow> 'a caps_db_scheme \<times> (cap_error + RelaySpendingCap)" where
  "SetRelaySpendingCap C E acct start stop overageMinor acknowledged actor db =
     (case set_cap_checks C (ce_read E) acct start stop overageMinor acknowledged actor db of
        Inl e \<Rightarrow> (db, Inl e)
      | Inr (accountID, startUS, endUS, schedule) \<Rightarrow>
          runBillingTransaction E (set_cap_tx E accountID startUS endUS schedule overageMinor actor) 0 db)"

definition ReadRelaySpendingCap :: "faults \<Rightarrow> string \<Rightarrow> instant \<Rightarrow> instant \<Rightarrow> 'a caps_db_scheme \<Rightarrow> cap_error + RelaySpendingCap" where
  "ReadRelaySpendingCap F acct start stop db =
     ebind (wrap_err CapBilling (billingAccountFromContext acct)) (\<lambda>accountID.
     case billingPeriodMicros start stop of Inl _ \<Rightarrow> Inl (CapBilling ErrInvalidPeriod)
     | Inr (startUS, endUS) \<Rightarrow>
       if \<not> isRelayCapMonth startUS endUS then Inl (CapBilling ErrInvalidPeriod)
       else if F (Select ''caps'') then Inl (CapDb (Select ''caps''))
       else (case find_cap accountID startUS db of None \<Rightarrow> Inl ErrRelayCapNotConfigured
         | Some row \<Rightarrow> if cp_PeriodEndUS row \<noteq> endUS then Inl ErrRelayCapNotConfigured else Inr (relayCapDTO row)))"

definition committed_bytes :: "int \<Rightarrow> relayCreditGrantRow \<Rightarrow> cap_error + int" where
  "committed_bytes committed g =
     (if cg_State g = ''issued'' then addCanonicalBig committed (cg_GrantedBytes g)
      else if cg_State g = ''surrendered'' then addCanonicalBig committed (cg_ConsumedBytes g)
      else Inl UnknownGrantState)"

definition new_grant :: "relayCapRow \<Rightarrow> string \<Rightarrow> string \<Rightarrow> string \<Rightarrow> string \<Rightarrow> string \<Rightarrow> uint64 \<Rightarrow> int \<Rightarrow> string \<Rightarrow> instant \<Rightarrow> relayCreditGrantRow" where
  "new_grant cap version relayID generation mappingVersion requestID requestedBytes grantBytes grantID now =
     \<lparr>cg_GrantID = grantID, cg_AccountID = cp_AccountID cap, cg_PeriodStartUS = cp_PeriodStartUS cap, cg_RelayID = relayID, cg_Generation = generation,
      cg_RequestID = requestID, cg_MappingVersion = mappingVersion, cg_ScheduleVersion = version, cg_CapRevision = cp_Revision cap,
      cg_RequestedBytes = int_string (uint requestedBytes), cg_GrantedBytes = int_string grantBytes, cg_ConsumedBytes = ''0'', cg_State = ''issued'',
      cg_SurrenderDigest = [], cg_CreatedAt = now, cg_UpdatedAt = now\<rparr>"

definition issue_grant :: "codec \<Rightarrow> cap_env \<Rightarrow> nat \<Rightarrow> relayCapRow \<Rightarrow> instant \<Rightarrow> instant \<Rightarrow> string \<Rightarrow> string \<Rightarrow> string \<Rightarrow> string \<Rightarrow> uint64 \<Rightarrow> 'a caps_db_scheme
    \<Rightarrow> cap_error + ('a caps_db_scheme \<times> RelayCreditGrant)" where
  "issue_grant C E k cap start stop relayID generation mappingVersion requestID requestedBytes db =
     (let F = ce_faults E k; accountID = cp_AccountID cap; startUS = cp_PeriodStartUS cap
      in case AssignmentOf F accountID start stop db of Inl _ \<Rightarrow> Inl (CapBilling ErrScheduleUnassigned)
      | Inr assignment \<Rightarrow>
        if as_ScheduleVersion assignment \<noteq> cp_ScheduleVersion cap then Inl (CapBilling ErrScheduleUnassigned)
        else ebind (wrap_err CapBilling (Schedule C F (cp_ScheduleVersion cap) db)) (\<lambda>schedule.
        ebind (maxRelayBytesForOverage schedule (cp_OverageMinor cap)) (\<lambda>budget.
        if F (Select ''grants'') then Inl (CapDb (Select ''grants''))
        else ebind (eforeach committed_bytes 0 (period_grants accountID startUS db)) (\<lambda>committed.
        if budget - committed \<le> 0 then Inl ErrRelayCapExhausted
        else let grantBytes = min (uint requestedBytes) (budget - committed)
        in case ce_random E k of None \<Rightarrow> Inl NoRandomness
        | Some idBytes \<Rightarrow>
          let row = new_grant cap (rs_Version schedule) relayID generation mappingVersion requestID requestedBytes grantBytes (hex idBytes) (ce_later E k)
          in if F (Insert ''grants'' 0) \<or> has_key cg_GrantID (hex idBytes) (cd_grants db) then Inl (CapDb (Insert ''grants'' 0))
             else Inr (db\<lparr>cd_grants := cd_grants db @ [row]\<rparr>, relayGrantDTO row (cp_PeriodEndUS cap))))))"

definition reserve_tx :: "codec \<Rightarrow> cap_env \<Rightarrow> string \<Rightarrow> instant \<Rightarrow> instant \<Rightarrow> int64 \<Rightarrow> int64 \<Rightarrow> string \<Rightarrow> string \<Rightarrow> string \<Rightarrow> string \<Rightarrow> uint64 \<Rightarrow> nat \<Rightarrow> 'a caps_db_scheme
    \<Rightarrow> cap_error + ('a caps_db_scheme \<times> RelayCreditGrant)" where
  "reserve_tx C E accountID start stop startUS endUS relayID generation mappingVersion requestID requestedBytes k db =
     ebind (lockBillingAccount (ce_faults E k) accountID db) (\<lambda>db.
     if ce_faults E k (Select ''caps'') then Inl (CapDb (Select ''caps''))
     else (case find_cap accountID startUS db of None \<Rightarrow> Inl ErrRelayCapNotConfigured
     | Some cap \<Rightarrow>
       if cp_PeriodEndUS cap \<noteq> endUS \<or> \<not> cp_Acknowledged cap then Inl ErrRelayCapConflict
       else if sint (cp_EffectiveAtUS cap) > sint (unixMicro (ce_now E k)) then Inl ErrRelayCapPending
       else if ce_faults E k (Select ''request'') then Inl (CapDb (Select ''request''))
       else (case find (\<lambda>g. (cg_AccountID g, cg_PeriodStartUS g, cg_RelayID g, cg_Generation g, cg_RequestID g)
                = (accountID, startUS, relayID, generation, requestID)) (cd_grants db) of
           Some existing \<Rightarrow>
             if cg_MappingVersion existing \<noteq> mappingVersion \<or> cg_RequestedBytes existing \<noteq> int_string (uint requestedBytes)
                \<or> cg_ScheduleVersion existing \<noteq> cp_ScheduleVersion cap then Inl ErrCreditRequestConflict
             else Inr (db, relayGrantDTO existing endUS)
         | None \<Rightarrow> issue_grant C E k cap start stop relayID generation mappingVersion requestID requestedBytes db)))"

definition reserve_checks :: "string \<Rightarrow> instant \<Rightarrow> instant \<Rightarrow> string \<Rightarrow> string \<Rightarrow> string \<Rightarrow> string \<Rightarrow> uint64 \<Rightarrow> cap_error + (string \<times> int64 \<times> int64)" where
  "reserve_checks acct start stop relayID generation mappingVersion requestID requestedBytes =
     ebind (wrap_err CapBilling (billingAccountFromContext acct)) (\<lambda>accountID.
     case billingPeriodMicros start stop of Inl _ \<Rightarrow> Inl (CapBilling ErrInvalidPeriod)
     | Inr (startUS, endUS) \<Rightarrow>
       if \<not> isRelayCapMonth startUS endUS \<or> \<not> validToken relayID \<or> \<not> validToken generation \<or> \<not> validToken mappingVersion \<or> \<not> validToken requestID
          \<or> requestedBytes = 0 then Inl (CapBilling ErrInvalidPeriod) else Inr (accountID, startUS, endUS))"

definition ReserveRelayCredits :: "codec \<Rightarrow> cap_env \<Rightarrow> string \<Rightarrow> instant \<Rightarrow> instant \<Rightarrow> string \<Rightarrow> string \<Rightarrow> string \<Rightarrow> string \<Rightarrow> uint64 \<Rightarrow> 'a caps_db_scheme
    \<Rightarrow> 'a caps_db_scheme \<times> (cap_error + RelayCreditGrant)" where
  "ReserveRelayCredits C E acct start stop relayID generation mappingVersion requestID requestedBytes db =
     (case reserve_checks acct start stop relayID generation mappingVersion requestID requestedBytes of
        Inl e \<Rightarrow> (db, Inl e)
      | Inr (accountID, startUS, endUS) \<Rightarrow>
          runBillingTransaction E (reserve_tx C E accountID start stop startUS endUS relayID generation mappingVersion requestID requestedBytes) 0 db)"

definition surrender_tx :: "cap_env \<Rightarrow> string \<Rightarrow> string \<Rightarrow> string \<Rightarrow> string \<Rightarrow> string \<Rightarrow> int \<Rightarrow> string \<Rightarrow> string \<Rightarrow> nat \<Rightarrow> 'a caps_db_scheme
    \<Rightarrow> cap_error + ('a caps_db_scheme \<times> RelayCreditGrant)" where
  "surrender_tx E accountID grantID relayID generation mappingVersion consumed consumedBytes surrenderDigest k db =
     (let F = ce_faults E k in
      ebind (lockBillingAccount F accountID db) (\<lambda>db.
      if F (Select ''grant'') then Inl (CapDb (Select ''grant''))
      else (case find (\<lambda>g. cg_GrantID g = grantID \<and> cg_AccountID g = accountID) (cd_grants db) of None \<Rightarrow> Inl ErrCreditGrantNotFound
      | Some row \<Rightarrow>
        if cg_RelayID row \<noteq> relayID \<or> cg_Generation row \<noteq> generation \<or> cg_MappingVersion row \<noteq> mappingVersion then Inl ErrCreditGrantNotFound
        else (case big_SetString (cg_GrantedBytes row) of None \<Rightarrow> Inl ErrCreditGrantConflict
        | Some granted \<Rightarrow>
          if consumed > granted then Inl ErrCreditGrantConflict
          else if cg_State row = ''surrendered''
          then if cg_ConsumedBytes row \<noteq> consumedBytes \<or> cg_SurrenderDigest row \<noteq> surrenderDigest then Inl ErrCreditGrantConflict
               else if F (Select ''caps'') then Inl (CapDb (Select ''caps''))
               else (case find_cap accountID (cg_PeriodStartUS row) db of None \<Rightarrow> Inl (CapBilling RecordNotFound)
                 | Some cap \<Rightarrow> Inr (db, relayGrantDTO row (cp_PeriodEndUS cap)))
          else if cg_State row \<noteq> ''issued'' then Inl ErrCreditGrantConflict
          else let row = row\<lparr>cg_State := ''surrendered'', cg_ConsumedBytes := consumedBytes, cg_SurrenderDigest := surrenderDigest,
                 cg_UpdatedAt := ce_now E k\<rparr>;
                 db = db\<lparr>cd_grants := update_rows (\<lambda>g. cg_GrantID g = grantID) (\<lambda>_. row) (cd_grants db)\<rparr>
          in if F (Update ''grants'') then Inl (CapDb (Update ''grants''))
             else if F (Select ''caps'') then Inl (CapDb (Select ''caps''))
             else (case find_cap accountID (cg_PeriodStartUS row) db of None \<Rightarrow> Inl (CapBilling RecordNotFound)
               | Some cap \<Rightarrow> Inr (db, relayGrantDTO row (cp_PeriodEndUS cap)))))))"

definition surrender_checks :: "string \<Rightarrow> string \<Rightarrow> string \<Rightarrow> string \<Rightarrow> string \<Rightarrow> string \<Rightarrow> string \<Rightarrow> cap_error + (string \<times> int)" where
  "surrender_checks acct grantID relayID generation mappingVersion consumedBytes surrenderDigest =
     ebind (wrap_err CapBilling (billingAccountFromContext acct)) (\<lambda>accountID.
     if \<not> validLowerHex grantID 16 \<or> \<not> validToken relayID \<or> \<not> validToken generation \<or> \<not> validToken mappingVersion \<or> \<not> validLowerHex surrenderDigest 32
     then Inl ErrCreditGrantConflict
     else (case big_SetString consumedBytes of None \<Rightarrow> Inl ErrCreditGrantConflict
       | Some consumed \<Rightarrow> if consumed < 0 \<or> int_string consumed \<noteq> consumedBytes then Inl ErrCreditGrantConflict else Inr (accountID, consumed)))"

definition SurrenderRelayCredits :: "cap_env \<Rightarrow> string \<Rightarrow> string \<Rightarrow> string \<Rightarrow> string \<Rightarrow> string \<Rightarrow> string \<Rightarrow> string \<Rightarrow> 'a caps_db_scheme
    \<Rightarrow> 'a caps_db_scheme \<times> (cap_error + RelayCreditGrant)" where
  "SurrenderRelayCredits E acct grantID relayID generation mappingVersion consumedBytes surrenderDigest db =
     (case surrender_checks acct grantID relayID generation mappingVersion consumedBytes surrenderDigest of
        Inl e \<Rightarrow> (db, Inl e)
      | Inr (accountID, consumed) \<Rightarrow>
          runBillingTransaction E (surrender_tx E accountID grantID relayID generation mappingVersion consumed consumedBytes surrenderDigest) 0 db)"

text \<open>An uncapped lease, once the relay's request has been authorized for the account: the part of the transaction that is serialized with changes of the cap.\<close>

definition lease_tx :: "cap_env \<Rightarrow> string \<Rightarrow> int64 \<Rightarrow> string \<Rightarrow> string \<Rightarrow> string \<Rightarrow> nat \<Rightarrow> 'a caps_db_scheme \<Rightarrow> cap_error + ('a caps_db_scheme \<times> instant)" where
  "lease_tx E accountID startUS relayID generation mappingVersion k db =
     (let F = ce_faults E k in
      ebind (lockBillingAccount F accountID db) (\<lambda>db.
      if F (Select ''caps'') then Inl (CapDb (Select ''caps''))
      else (case find_cap accountID startUS db of
          Some cap \<Rightarrow> if sint (cp_EffectiveAtUS cap) > sint (unixMicro (ce_now E k)) then Inl ErrRelayCapPending else Inl ErrRelayCapAlreadyActive
        | None \<Rightarrow>
          let expiresAt = (ce_later E k + relayUncappedLeaseDuration) div 1000 * 1000;
              lease = \<lparr>ul_AccountID = accountID, ul_PeriodStartUS = startUS, ul_RelayID = relayID, ul_Generation = generation,
                ul_MappingVersion = mappingVersion, ul_ExpiresAtUS = unixMicro expiresAt\<rparr>;
              key = (\<lambda>l. (ul_AccountID l, ul_PeriodStartUS l, ul_RelayID l, ul_Generation l, ul_MappingVersion l))
          in if F (Insert ''leases'' 0) then Inl (CapDb (Insert ''leases'' 0))
             else Inr (db\<lparr>cd_leases := (if has_key key (key lease) (cd_leases db)
                then update_rows (\<lambda>l. key l = key lease) (\<lambda>l. l\<lparr>ul_ExpiresAtUS := ul_ExpiresAtUS lease\<rparr>) (cd_leases db)
                else cd_leases db @ [lease])\<rparr>, expiresAt))))"

end
