(* ===== verification/Cap_Trust.thy ===== *)
theory Cap_Trust
  imports Relay_Caps Billing_Trust
begin

text \<open>What the relay spending caps guarantee: the bytes relays may still use or have used under a cap never cost more than the cap allows, and no uncapped lease outlives the
  moment a cap becomes effective.\<close>

section \<open>Transactions\<close>

lemma run_result:
  assumes "runBillingTransaction E body k db = (db', r)"
  shows "case r of Inl _ \<Rightarrow> db' = db | Inr x \<Rightarrow> \<exists>j. body j db = Inr (db', x)"
  using assms
proof (induction E body k db rule: runBillingTransaction.induct)
  case (1 E body k db)
  obtain db1 r1 where t: "transaction (ce_faults E k) (CapDb Commit) db (body k) = (db1, r1)" by (cases "transaction (ce_faults E k) (CapDb Commit) db (body k)")
  show ?case
  proof (cases r1)
    case (Inl e)
    then have db1: "db1 = db" using transaction_error t by metis
    show ?thesis
    proof (cases "\<not> retryableBillingTransaction (ce_busy E k) e \<or> 6 \<le> k \<or> ce_done E k")
      case True
      with 1(2) t Inl db1 show ?thesis by (auto simp: runBillingTransaction.simps [of E body k db] split: if_splits)
    next
      case False
      with 1(2) t Inl have "runBillingTransaction E body (k + 1) db1 = (db', r)" by (simp add: runBillingTransaction.simps [of E body k db])
      with 1(1) [OF t [symmetric] Inl] False db1 show ?thesis by auto
    qed
  next
    case (Inr x)
    with t have "body k db = Inr (db1, x)" by (simp add: transaction_ok)
    moreover have "db' = db1" "r = Inr x" using 1(2) t Inr by (simp_all add: runBillingTransaction.simps [of E body k db])
    ultimately show ?thesis by auto
  qed
qed

lemma run_keeps:
  assumes "P db" and "\<And>j db' x. body j db = Inr (db', x) \<Longrightarrow> P db'"
  shows "P (fst (runBillingTransaction E body k db))"
  using run_result [of E body k db] assms by (cases "runBillingTransaction E body k db"; cases "snd (runBillingTransaction E body k db)") auto

lemma lock_frame: "lockBillingAccount F a db = Inr db' \<Longrightarrow> \<exists>l. db' = db\<lparr>bd_locks := l\<rparr>"
  by (auto simp: lockBillingAccount_def split: if_splits)

section \<open>Invariant\<close>

definition amount :: "string \<Rightarrow> int" where
  "amount decimal = (case big_SetString decimal of None \<Rightarrow> 0 | Some v \<Rightarrow> v)"

lemma amount_int_string [simp]: "amount (int_string i) = i"
  by (simp add: amount_def)

text \<open>A grant commits all its bytes until it is surrendered, then the bytes consumed.\<close>

definition committed :: "relayCreditGrantRow \<Rightarrow> int" where
  "committed g = amount (if cg_State g = ''issued'' then cg_GrantedBytes g else cg_ConsumedBytes g)"

definition grant_ok :: "relayCreditGrantRow \<Rightarrow> bool" where
  "grant_ok g \<longleftrightarrow> (\<exists>v c. cg_GrantedBytes g = int_string v \<and> cg_ConsumedBytes g = int_string c \<and> 0 \<le> c \<and> c \<le> v)
     \<and> (cg_State g = ''issued'' \<or> cg_State g = ''surrendered'')"

definition budget :: "RateSchedule \<Rightarrow> int64 \<Rightarrow> int" where
  "budget s overage = uint (rs_RelayIncludedBytes s) + (sint overage * uint (rs_RelayUnitBytes s)) div sint (rs_RelayMinorPerUnit s)"

definition on_file :: "codec \<Rightarrow> 'a caps_db_scheme \<Rightarrow> string \<Rightarrow> RateSchedule \<Rightarrow> bool" where
  "on_file C db version s \<longleftrightarrow> Schedule C no_faults version db = Inr s"

definition cap_ok :: "codec \<Rightarrow> 'a caps_db_scheme \<Rightarrow> relayCapRow \<Rightarrow> bool" where
  "cap_ok C db cap \<longleftrightarrow>
     (\<exists>s. on_file C db (cp_ScheduleVersion cap) s \<and> 0 < sint (rs_RelayMinorPerUnit s)
        \<and> sum_list (map committed (period_grants (cp_AccountID cap) (cp_PeriodStartUS cap) db)) \<le> budget s (cp_OverageMinor cap))
     \<and> 0 \<le> sint (cp_OverageMinor cap)
     \<and> (\<forall>l\<in>set (period_leases (cp_AccountID cap) (cp_PeriodStartUS cap) db). sint (ul_ExpiresAtUS l) \<le> sint (cp_EffectiveAtUS cap))
     \<and> (\<forall>g\<in>set (period_grants (cp_AccountID cap) (cp_PeriodStartUS cap) db). sint (cp_EffectiveAtUS cap) \<le> sint (unixMicro (cg_CreatedAt g)))"

definition caps_inv :: "codec \<Rightarrow> 'a caps_db_scheme \<Rightarrow> bool" where
  "caps_inv C db \<longleftrightarrow> distinct (map (\<lambda>r. (cp_AccountID r, cp_PeriodStartUS r)) (cd_caps db)) \<and> (\<forall>cap\<in>set (cd_caps db). cap_ok C db cap)
     \<and> distinct (map cg_GrantID (cd_grants db))
     \<and> (\<forall>g\<in>set (cd_grants db). grant_ok g \<and> find_cap (cg_AccountID g) (cg_PeriodStartUS g) db \<noteq> None)"

lemma caps_invD:
  assumes "caps_inv C db"
  shows "distinct (map (\<lambda>r. (cp_AccountID r, cp_PeriodStartUS r)) (cd_caps db))" and "cap \<in> set (cd_caps db) \<Longrightarrow> cap_ok C db cap"
    and "distinct (map cg_GrantID (cd_grants db))" and "g \<in> set (cd_grants db) \<Longrightarrow> grant_ok g"
    and "g \<in> set (cd_grants db) \<Longrightarrow> find_cap (cg_AccountID g) (cg_PeriodStartUS g) db \<noteq> None"
  using assms by (simp_all add: caps_inv_def)

lemma cap_okD:
  assumes "cap_ok C db cap"
  shows "\<exists>s. on_file C db (cp_ScheduleVersion cap) s \<and> 0 < sint (rs_RelayMinorPerUnit s)
        \<and> sum_list (map committed (period_grants (cp_AccountID cap) (cp_PeriodStartUS cap) db)) \<le> budget s (cp_OverageMinor cap)"
    and "0 \<le> sint (cp_OverageMinor cap)"
    and "l \<in> set (period_leases (cp_AccountID cap) (cp_PeriodStartUS cap) db) \<Longrightarrow> sint (ul_ExpiresAtUS l) \<le> sint (cp_EffectiveAtUS cap)"
    and "g \<in> set (period_grants (cp_AccountID cap) (cp_PeriodStartUS cap) db) \<Longrightarrow> sint (cp_EffectiveAtUS cap) \<le> sint (unixMicro (cg_CreatedAt g))"
  using assms by (simp_all add: cap_ok_def)

lemma cap_okI:
  assumes "on_file C db (cp_ScheduleVersion cap) s" and "0 < sint (rs_RelayMinorPerUnit s)"
    and "sum_list (map committed (period_grants (cp_AccountID cap) (cp_PeriodStartUS cap) db)) \<le> budget s (cp_OverageMinor cap)"
    and "0 \<le> sint (cp_OverageMinor cap)"
    and "\<And>l. l \<in> set (period_leases (cp_AccountID cap) (cp_PeriodStartUS cap) db) \<Longrightarrow> sint (ul_ExpiresAtUS l) \<le> sint (cp_EffectiveAtUS cap)"
    and "\<And>g. g \<in> set (period_grants (cp_AccountID cap) (cp_PeriodStartUS cap) db) \<Longrightarrow> sint (cp_EffectiveAtUS cap) \<le> sint (unixMicro (cg_CreatedAt g))"
  shows "cap_ok C db cap"
  using assms unfolding cap_ok_def by blast

lemma cap_ok_smaller:
  assumes ok: "cap_ok C db cap" and "\<And>v s. on_file C db v s \<Longrightarrow> on_file C db' v s"
    and "period_leases (cp_AccountID cap) (cp_PeriodStartUS cap) db' = period_leases (cp_AccountID cap) (cp_PeriodStartUS cap) db"
    and "sum_list (map committed (period_grants (cp_AccountID cap) (cp_PeriodStartUS cap) db'))
      \<le> sum_list (map committed (period_grants (cp_AccountID cap) (cp_PeriodStartUS cap) db))"
    and "\<And>g. g \<in> set (period_grants (cp_AccountID cap) (cp_PeriodStartUS cap) db')
      \<Longrightarrow> cg_CreatedAt g \<in> cg_CreatedAt ` set (period_grants (cp_AccountID cap) (cp_PeriodStartUS cap) db)"
  shows "cap_ok C db' cap"
proof -
  obtain s where s: "on_file C db (cp_ScheduleVersion cap) s" "0 < sint (rs_RelayMinorPerUnit s)"
    "sum_list (map committed (period_grants (cp_AccountID cap) (cp_PeriodStartUS cap) db)) \<le> budget s (cp_OverageMinor cap)" using cap_okD(1) [OF ok] by blast
  show ?thesis
  proof (rule cap_okI)
    show "on_file C db' (cp_ScheduleVersion cap) s" by (rule assms(2) [OF s(1)])
    show "0 < sint (rs_RelayMinorPerUnit s)" by (fact s(2))
    show "sum_list (map committed (period_grants (cp_AccountID cap) (cp_PeriodStartUS cap) db')) \<le> budget s (cp_OverageMinor cap)"
      by (rule order_trans [OF assms(4) s(3)])
    show "0 \<le> sint (cp_OverageMinor cap)" by (rule cap_okD(2) [OF ok])
    show "sint (ul_ExpiresAtUS l) \<le> sint (cp_EffectiveAtUS cap)" if "l \<in> set (period_leases (cp_AccountID cap) (cp_PeriodStartUS cap) db')" for l
      using cap_okD(3) [OF ok, of l] that unfolding assms(3) by blast
    show "sint (cp_EffectiveAtUS cap) \<le> sint (unixMicro (cg_CreatedAt g))" if "g \<in> set (period_grants (cp_AccountID cap) (cp_PeriodStartUS cap) db')" for g
      using assms(5) [OF that] cap_okD(4) [OF ok] by auto
  qed
qed

lemma Schedule_frames [simp]:
  "Schedule C F v (db\<lparr>bd_locks := l\<rparr>) = Schedule C F v db" "Schedule C F v (db\<lparr>cd_caps := caps\<rparr>) = Schedule C F v db"
  "Schedule C F v (db\<lparr>cd_revisions := revs\<rparr>) = Schedule C F v db" "Schedule C F v (db\<lparr>cd_grants := grants\<rparr>) = Schedule C F v db"
  "Schedule C F v (db\<lparr>cd_leases := leases\<rparr>) = Schedule C F v db"
  by (simp_all add: Schedule_def)

lemma on_file_unique: "on_file C db v s \<Longrightarrow> on_file C db v s' \<Longrightarrow> s' = s"
  by (simp add: on_file_def)

lemma Schedule_on_file: "Schedule C F v db = Inr s \<Longrightarrow> on_file C db v s \<and> validateRateSchedule s = Inr () \<and> rs_Version s = v"
  by (auto simp: on_file_def Schedule_def no_fault split: if_splits option.splits dest!: find_Some_in)

lemma eforeach_committed:
  assumes "\<forall>g\<in>set gs. grant_ok g"
  shows "eforeach committed_bytes t gs = Inr (t + sum_list (map committed gs))"
  using assms
proof (induction gs arbitrary: t)
  case (Cons g gs)
  then have "committed_bytes t g = Inr (t + committed g)" by (auto simp: grant_ok_def committed_bytes_def committed_def addCanonicalBig_def)
  with Cons show ?case by simp
qed simp

lemma eforeach_surrendered:
  assumes "eforeach surrendered_bytes t gs = Inr t'" and "\<forall>g\<in>set gs. grant_ok g"
  shows "t' = t + sum_list (map committed gs)"
  using assms
proof (induction gs arbitrary: t)
  case (Cons g gs)
  then have "surrendered_bytes t g = Inr (t + committed g)" by (auto simp: grant_ok_def surrendered_bytes_def committed_def addCanonicalBig_def split: if_splits elim!: ebindE)
  with Cons.IH [of "t + committed g"] Cons.prems show ?case by auto
qed simp

lemma caps_inv_congr:
  assumes "caps_inv C db" and "cd_caps db' = cd_caps db" and "cd_grants db' = cd_grants db" and "cd_leases db' = cd_leases db"
    and "\<And>v s. on_file C db v s \<Longrightarrow> on_file C db' v s"
  shows "caps_inv C db'"
proof -
  have same: "period_grants a t db' = period_grants a t db" "period_leases a t db' = period_leases a t db" "find_cap a t db' = find_cap a t db" for a t
    by (simp_all add: period_grants_def period_leases_def find_cap_def assms(2-4))
  have "cap_ok C db' cap" if "cap_ok C db cap" for cap using that assms(5) unfolding cap_ok_def same by blast
  with assms(1) show ?thesis unfolding caps_inv_def assms(2,3) same by blast
qed

lemma lock_inv: "caps_inv C db \<Longrightarrow> lockBillingAccount F a db = Inr db' \<Longrightarrow> caps_inv C db'"
  by (auto dest!: lock_frame intro: caps_inv_congr simp: on_file_def)

lemma find_cap_in: "find_cap a t db = Some cap \<Longrightarrow> cap \<in> set (cd_caps db) \<and> cp_AccountID cap = a \<and> cp_PeriodStartUS cap = t"
  by (auto simp: find_cap_def dest!: find_Some_in)

lemma no_cap_no_grants: "caps_inv C db \<Longrightarrow> find_cap a t db = None \<Longrightarrow> period_grants a t db = []"
  by (auto simp: caps_inv_def period_grants_def filter_empty_conv)

lemma revision_frame: "addRelayCapRevision F row actor now db = Inr db' \<Longrightarrow> \<exists>revs. db' = db\<lparr>cd_revisions := revs\<rparr>"
  by (auto simp: addRelayCapRevision_def split: if_splits)

lemma create_cap_inv:
  assumes inv: "caps_inv C db" and none: "find_cap a t db = None" and s: "on_file C db version s" "0 < sint (rs_RelayMinorPerUnit s)"
    and over: "0 \<le> sint overage" and cr: "create_cap F a t e version overage actor now db = Inr (db', x)"
  shows "caps_inv C db'"
proof -
  let ?last = "first_row (order_desc (\<lambda>l. sint (ul_ExpiresAtUS l)) (period_leases a t db))"
  let ?effective = "case ?last of Some l \<Rightarrow> if sint (ul_ExpiresAtUS l) > sint (unixMicro now) then ul_ExpiresAtUS l else unixMicro now | None \<Rightarrow> unixMicro now"
  define row where "row = \<lparr>cp_AccountID = a, cp_PeriodStartUS = t, cp_PeriodEndUS = e, cp_ScheduleVersion = version, cp_OverageMinor = overage,
    cp_Revision = 1, cp_Acknowledged = True, cp_EffectiveAtUS = ?effective, cp_UpdatedBy = actor, cp_UpdatedAt = now\<rparr>"
  have row: "cp_AccountID row = a" "cp_PeriodStartUS row = t" "cp_ScheduleVersion row = version" "cp_OverageMinor row = overage" "cp_EffectiveAtUS row = ?effective"
    by (simp_all add: row_def)
  from cr obtain db1 where rev: "addRelayCapRevision F row actor now (db\<lparr>cd_caps := cd_caps db @ [row]\<rparr>) = Inr db1" and "db' = db1"
    unfolding create_cap_def Let_def row_def [symmetric] by (elim if_InrE ebindE) simp_all
  with revision_frame obtain revs where db': "db' = db\<lparr>cd_caps := cd_caps db @ [row], cd_revisions := revs\<rparr>" by blast
  have same: "period_grants b u db' = period_grants b u db" "period_leases b u db' = period_leases b u db" "on_file C db' v z = on_file C db v z" for b u v z
    by (simp_all add: db' period_grants_def period_leases_def on_file_def)
  have "sint (ul_ExpiresAtUS l) \<le> sint (cp_EffectiveAtUS row)" if "l \<in> set (period_leases a t db)" for l
  proof (cases ?last)
    case None
    with that show ?thesis by (metis first_row_None length_0_conv length_order(2) list.set(1) empty_iff)
  next
    case (Some last)
    with first_row_desc_max(2) [OF Some that] row(5) show ?thesis by (auto split: if_splits)
  qed
  moreover have "0 \<le> budget s overage"
    using over s(2) by (simp add: budget_def pos_imp_zdiv_nonneg_iff)
  ultimately have new: "cap_ok C db' row"
    using s over no_cap_no_grants [OF inv none] unfolding cap_ok_def row(1-4) same by auto
  have "cap_ok C db' cap" if "cap_ok C db cap" for cap using that unfolding cap_ok_def same .
  moreover have "find_cap b u db' \<noteq> None" if "find_cap b u db \<noteq> None" for b u
    using that by (auto simp: find_cap_def db' find_append split: option.splits)
  moreover have "(a, t) \<notin> (\<lambda>r. (cp_AccountID r, cp_PeriodStartUS r)) ` set (cd_caps db)"
    using none by (auto simp: find_cap_def find_None_iff)
  ultimately show ?thesis using inv new row(1,2) by (auto simp: caps_inv_def db')
qed

lemma maxRelayBytes_budget:
  "maxRelayBytesForOverage s overage = Inr b \<Longrightarrow> b = budget s overage \<and> 0 \<le> sint overage"
  by (auto simp: maxRelayBytesForOverage_def budget_def Let_def split: if_splits)

lemma budget_mono: "sint o1 \<le> sint o2 \<Longrightarrow> 0 < sint (rs_RelayMinorPerUnit s) \<Longrightarrow> budget s o1 \<le> budget s o2"
  by (simp add: budget_def zdiv_mono1 mult_right_mono)

lemma replace_keys: "key r' = k \<Longrightarrow> map key (update_rows (\<lambda>r. key r = k) (\<lambda>_. r') rows) = map key rows"
  by (simp add: update_rows_def)

lemma find_cap_keys:
  assumes "map (\<lambda>r. (cp_AccountID r, cp_PeriodStartUS r)) (cd_caps db') = map (\<lambda>r. (cp_AccountID r, cp_PeriodStartUS r)) (cd_caps db)"
  shows "find_cap a t db' = None \<longleftrightarrow> find_cap a t db = None"
proof -
  have eq: "find_cap a t x = None \<longleftrightarrow> (a, t) \<notin> set (map (\<lambda>r. (cp_AccountID r, cp_PeriodStartUS r)) (cd_caps x))" for x :: "'c caps_db_scheme"
    by (auto simp: find_cap_def find_None_iff)
  show ?thesis unfolding eq assms ..
qed

lemma replaced_row: "r \<in> set (update_rows P (\<lambda>_. r') rows) \<Longrightarrow> r = r' \<or> r \<in> set rows"
  by (auto simp: update_rows_def)

lemma change_cap_inv:
  assumes inv: "caps_inv C db" and cap: "find_cap a t db = Some row" and s: "on_file C db (rs_Version s) s" "0 < sint (rs_RelayMinorPerUnit s)"
    and over: "0 \<le> sint overage" and ch: "change_cap F s row e overage actor now db = Inr (db', x)"
  shows "caps_inv C db'"
proof (cases "overage = cp_OverageMinor row")
  case True
  then show ?thesis using ch inv by (auto simp: change_cap_def split: if_splits elim!: ebindE)
next
  case False
  let ?key = "\<lambda>r. (cp_AccountID r, cp_PeriodStartUS r)"
  define row' where "row' = row\<lparr>cp_OverageMinor := overage, cp_Revision := cp_Revision row + 1, cp_UpdatedBy := actor, cp_UpdatedAt := now\<rparr>"
  let ?caps = "update_rows (\<lambda>r. ?key r = (cp_AccountID row', cp_PeriodStartUS row')) (\<lambda>_. row') (cd_caps db)"
  from ch False have v: "cp_ScheduleVersion row = rs_Version s" and dec: "check_decrease F s row overage db = Inr ()"
    and rev: "\<exists>db1. addRelayCapRevision F row' actor now (db\<lparr>cd_caps := ?caps\<rparr>) = Inr db1 \<and> db' = db1"
    unfolding change_cap_def Let_def row'_def [symmetric] by (auto split: if_splits elim!: ebindE)
  from rev revision_frame obtain revs where db': "db' = db\<lparr>cd_caps := ?caps, cd_revisions := revs\<rparr>" by blast
  have row: "row \<in> set (cd_caps db)" "cp_AccountID row = a" "cp_PeriodStartUS row = t" using find_cap_in [OF cap] by simp_all
  note ok = caps_invD(2) [OF inv row(1)]
  have same: "period_grants b u db' = period_grants b u db" "period_leases b u db' = period_leases b u db" "on_file C db' v z = on_file C db v z" for b u v z
    by (simp_all add: db' period_grants_def period_leases_def on_file_def)
  let ?sum = "sum_list (map committed (period_grants a t db))"
  have "?sum \<le> budget s (cp_OverageMinor row)" using ok on_file_unique s(1) v unfolding cap_ok_def row(2,3) by metis
  moreover have "\<forall>g\<in>set (period_grants a t db). grant_ok g" using caps_invD(4) [OF inv] by (auto simp: period_grants_def)
  then have "?sum \<le> budget s overage" if "sint overage < sint (cp_OverageMinor row)"
    using dec that row by (auto simp: check_decrease_def dest!: maxRelayBytes_budget eforeach_surrendered split: if_splits elim!: ebindE)
  ultimately have "?sum \<le> budget s overage" using budget_mono [OF _ s(2), of "cp_OverageMinor row" overage] by force
  with ok s over have new: "cap_ok C db' row'" unfolding cap_ok_def same by (auto simp: row'_def v row)
  have keys: "map ?key ?caps = map ?key (cd_caps db)" by (rule replace_keys) simp
  have "cap_ok C db' c" if "c \<in> set ?caps" for c
    using replaced_row [OF that] new caps_invD(2) [OF inv, of c] unfolding cap_ok_def same by blast
  moreover have "find_cap b u db' \<noteq> None" if "find_cap b u db \<noteq> None" for b u
    using that find_cap_keys [of db' db b u] keys by (simp add: db')
  ultimately show ?thesis using inv keys by (simp add: caps_inv_def db')
qed

lemma issue_grant_inv:
  assumes inv: "caps_inv C db" and cap: "find_cap a t db = Some cap" and late: "sint (cp_EffectiveAtUS cap) \<le> sint (unixMicro (ce_later E k))"
    and iss: "issue_grant C E k cap start stop r g m q n db = Inr (db', x)"
  shows "caps_inv C db'"
proof -
  have c: "cap \<in> set (cd_caps db)" "cp_AccountID cap = a" "cp_PeriodStartUS cap = t" using find_cap_in [OF cap] by simp_all
  let ?gs = "period_grants a t db"
  have gs: "\<forall>g\<in>set ?gs. grant_ok g" using caps_invD(4) [OF inv] by (auto simp: period_grants_def)
  let ?sum = "sum_list (map committed ?gs)"
  let ?free = "\<lambda>s. budget s (cp_OverageMinor cap) - ?sum"
  from iss obtain s bytes where s: "on_file C db (cp_ScheduleVersion cap) s" and room: "0 < ?free s" and new: "hex bytes \<notin> cg_GrantID ` set (cd_grants db)"
    and grants': "db' = db\<lparr>cd_grants := cd_grants db @ [new_grant cap (rs_Version s) r g m q n (min (uint n) (?free s)) (hex bytes) (ce_later E k)]\<rparr>"
    by (auto simp: issue_grant_def Let_def c eforeach_committed [OF gs] has_key_iff wrap_err_Inr split: sum.splits if_splits option.splits
        elim!: ebindE dest!: Schedule_on_file maxRelayBytes_budget)
  define row where "row = new_grant cap (rs_Version s) r g m q n (min (uint n) (?free s)) (hex bytes) (ce_later E k)"
  have row: "cg_AccountID row = a" "cg_PeriodStartUS row = t" "cg_State row = ''issued''" "cg_ConsumedBytes row = ''0''" "cg_CreatedAt row = ce_later E k"
      "cg_GrantedBytes row = int_string (min (uint n) (?free s))" "cg_GrantID row = hex bytes"
    by (simp_all add: row_def new_grant_def c)
  note db' = grants' [folded row_def]
  have zero: "''0'' = int_string 0" by code_simp
  have "0 \<le> min (uint n) (?free s)" using room by simp
  then have ok: "grant_ok row" unfolding grant_ok_def row zero by blast
  have less: "committed row \<le> ?free s" by (simp add: committed_def [of row] row)
  have same: "period_leases b u db' = period_leases b u db" "on_file C db' v z = on_file C db v z" "find_cap b u db' = find_cap b u db" for b u v z
    by (simp_all add: db' period_leases_def on_file_def find_cap_def)
  have grants: "period_grants b u db' = period_grants b u db @ (if (b, u) = (a, t) then [row] else [])" for b u
    by (auto simp: db' period_grants_def row)
  have "cap_ok C db' d" if d: "d \<in> set (cd_caps db)" for d
  proof (cases "(cp_AccountID d, cp_PeriodStartUS d) = (a, t)")
    case True
    then have "d = cap" using find_unique [OF caps_invD(1) [OF inv] d True] cap by (simp add: find_cap_def)
    note ok = caps_invD(2) [OF inv d] and d = this
    have rate: "0 < sint (rs_RelayMinorPerUnit s)" using cap_okD(1) [OF ok] on_file_unique [OF s] d by blast
    have eff: "sint (cp_EffectiveAtUS d) \<le> sint (unixMicro (cg_CreatedAt x))" if "x \<in> set (?gs @ [row])" for x
      using that cap_okD(4) [OF ok, of x] late row(5) d c by auto
    have "sum_list (map committed (?gs @ [row])) \<le> budget s (cp_OverageMinor d)" using less d by simp
    then show ?thesis
      using s rate cap_okD(2,3) [OF ok] eff d c by (intro cap_okI [where s = s]) (simp_all add: same grants)
  next
    case False
    then show ?thesis by (intro cap_ok_smaller [OF caps_invD(2) [OF inv d]]) (auto simp: same grants)
  qed
  then show ?thesis using inv ok new cap row(1,2,7) unfolding caps_inv_def same by (auto simp: db')
qed

lemma updated_sum:
  assumes "\<And>g. g \<in> set gs \<Longrightarrow> P (f g) = P g \<and> (h (f g) :: int) \<le> h g"
  shows "sum_list (map h (filter P (map f gs))) \<le> sum_list (map h (filter P gs))"
  using assms
proof (induction gs)
  case (Cons g gs)
  then have "sum_list (map h (filter P (map f gs))) \<le> sum_list (map h (filter P gs))" by simp
  then show ?case using Cons.prems [of g] by (simp add: add_mono)
qed simp

lemma surrender_inv:
  assumes inv: "caps_inv C db" and consumed: "consumedBytes = int_string consumed" "0 \<le> consumed"
    and sur: "surrender_tx E a i r g m consumed consumedBytes digest k db = Inr (db', x)"
  shows "caps_inv C db'"
proof -
  from sur obtain db1 where lock: "lockBillingAccount (ce_faults E k) a db = Inr db1" by (auto simp: surrender_tx_def Let_def elim!: ebindE)
  note inv1 = lock_inv [OF inv lock]
  let ?set = "\<lambda>row. row\<lparr>cg_State := ''surrendered'', cg_ConsumedBytes := consumedBytes, cg_SurrenderDigest := digest, cg_UpdatedAt := ce_now E k\<rparr>"
  from sur lock consider "db' = db1"
    | row granted where "find (\<lambda>g. cg_GrantID g = i \<and> cg_AccountID g = a) (cd_grants db1) = Some row" "big_SetString (cg_GrantedBytes row) = Some granted"
        "consumed \<le> granted" "cg_State row = ''issued''" "db' = db1\<lparr>cd_grants := update_rows (\<lambda>g. cg_GrantID g = i) (\<lambda>_. ?set row) (cd_grants db1)\<rparr>"
    by (auto simp: surrender_tx_def Let_def split: if_splits option.splits)
  then show ?thesis
  proof cases
    case 1
    then show ?thesis using inv1 by simp
  next
    case (2 row granted)
    let ?f = "\<lambda>g. if cg_GrantID g = i then ?set row else g"
    have row: "row \<in> set (cd_grants db1)" "cg_GrantID row = i" using find_Some_in [OF 2(1)] by simp_all
    have f: "?f g = (if cg_GrantID g = i then ?set g else g)" if "g \<in> set (cd_grants db1)" for g
      using caps_invD(3) [OF inv1] row that by (auto simp: distinct_map dest!: inj_onD)
    have db': "cd_grants db' = map ?f (cd_grants db1)" by (simp add: 2(5) update_rows_def)
    have same: "period_leases b u db' = period_leases b u db1" "on_file C db' v z = on_file C db1 v z" "find_cap b u db' = find_cap b u db1"
      "cd_caps db' = cd_caps db1" for b u v z by (simp_all add: 2(5) period_leases_def on_file_def find_cap_def)
    have g: "grant_ok (?f g) \<and> committed (?f g) \<le> committed g \<and> cg_AccountID (?f g) = cg_AccountID g \<and> cg_PeriodStartUS (?f g) = cg_PeriodStartUS g
        \<and> cg_CreatedAt (?f g) = cg_CreatedAt g \<and> cg_GrantID (?f g) = cg_GrantID g" if "g \<in> set (cd_grants db1)" for g
    proof (cases "cg_GrantID g = i")
      case True
      then have "g = row" using caps_invD(3) [OF inv1] row that by (auto simp: distinct_map dest!: inj_onD)
      with 2(2-4) caps_invD(4) [OF inv1 row(1)] consumed True show ?thesis by (auto simp: grant_ok_def committed_def)
    qed (use caps_invD(4) [OF inv1 that] in simp)
    have sums: "sum_list (map committed (period_grants b u db')) \<le> sum_list (map committed (period_grants b u db1))" for b u
      unfolding period_grants_def db' by (rule updated_sum) (use g in simp)
    have created: "cg_CreatedAt g' \<in> cg_CreatedAt ` set (period_grants b u db1)" if "g' \<in> set (period_grants b u db')" for b u g'
    proof -
      from that obtain h where h: "h \<in> set (cd_grants db1)" "g' = ?f h" "cg_AccountID g' = b" "cg_PeriodStartUS g' = u" unfolding period_grants_def db' by auto
      with g [OF h(1)] have "h \<in> set (period_grants b u db1)" "cg_CreatedAt g' = cg_CreatedAt h" by (simp_all add: period_grants_def)
      then show ?thesis by simp
    qed
    have "cap_ok C db' d" if "d \<in> set (cd_caps db1)" for d
      by (rule cap_ok_smaller [OF caps_invD(2) [OF inv1 that] _ same(1) sums created]) (simp_all only: same)
    moreover have "map cg_GrantID (cd_grants db') = map cg_GrantID (cd_grants db1)" unfolding db' map_map comp_def by (intro map_cong refl) (use g in blast)
    moreover have "\<forall>g'\<in>set (cd_grants db'). grant_ok g' \<and> find_cap (cg_AccountID g') (cg_PeriodStartUS g') db1 \<noteq> None"
    proof
      fix g'
      assume "g' \<in> set (cd_grants db')"
      then obtain h where h: "h \<in> set (cd_grants db1)" "g' = ?f h" unfolding db' by auto
      with g [OF h(1)] caps_invD(5) [OF inv1 h(1)] show "grant_ok g' \<and> find_cap (cg_AccountID g') (cg_PeriodStartUS g') db1 \<noteq> None" by simp
    qed
    ultimately show ?thesis using inv1 unfolding caps_inv_def same by simp
  qed
qed

lemma lease_inv:
  assumes inv: "caps_inv C db" and ls: "lease_tx E a t r g m k db = Inr (db', x)"
  shows "caps_inv C db'"
proof -
  from ls obtain db1 where lock: "lockBillingAccount (ce_faults E k) a db = Inr db1" by (auto simp: lease_tx_def Let_def elim!: ebindE)
  note inv1 = lock_inv [OF inv lock]
  let ?key = "\<lambda>l. (ul_AccountID l, ul_PeriodStartUS l, ul_RelayID l, ul_Generation l, ul_MappingVersion l)"
  have none: "find_cap a t db1 = None"
    and "\<exists>ls. db' = db1\<lparr>cd_leases := ls\<rparr> \<and> (ls = update_rows (\<lambda>l. ?key l = (a, t, r, g, m)) (\<lambda>l. l\<lparr>ul_ExpiresAtUS := unixMicro x\<rparr>) (cd_leases db1)
      \<or> (\<exists>l. ls = cd_leases db1 @ [l] \<and> ul_AccountID l = a \<and> ul_PeriodStartUS l = t))"
    using ls lock by (auto simp: lease_tx_def Let_def split: if_splits option.splits)
  then obtain ls where db': "db' = db1\<lparr>cd_leases := ls\<rparr>"
    and ls: "ls = update_rows (\<lambda>l. ?key l = (a, t, r, g, m)) (\<lambda>l. l\<lparr>ul_ExpiresAtUS := unixMicro x\<rparr>) (cd_leases db1)
      \<or> (\<exists>l. ls = cd_leases db1 @ [l] \<and> ul_AccountID l = a \<and> ul_PeriodStartUS l = t)" by blast
  have upd: "filter (\<lambda>l. (ul_AccountID l, ul_PeriodStartUS l) = (b, u)) (update_rows (\<lambda>l. ?key l = (a, t, r, g, m)) (\<lambda>l. l\<lparr>ul_ExpiresAtUS := y\<rparr>) xs)
      = filter (\<lambda>l. (ul_AccountID l, ul_PeriodStartUS l) = (b, u)) xs" if "(b, u) \<noteq> (a, t)" for b u y xs
    using that by (induction xs) (auto simp: update_rows_def)
  have other: "period_leases b u db' = period_leases b u db1" if "(b, u) \<noteq> (a, t)" for b u
    using ls upd [OF that] that unfolding period_leases_def db' by auto
  have same: "period_grants b u db' = period_grants b u db1" "on_file C db' v z = on_file C db1 v z" "find_cap b u db' = find_cap b u db1"
    for b u v z by (simp_all add: db' period_grants_def on_file_def find_cap_def)
  have "cap_ok C db' d" if d: "d \<in> set (cd_caps db1)" for d
  proof -
    have "(cp_AccountID d, cp_PeriodStartUS d) \<noteq> (a, t)" using none d by (auto simp: find_cap_def find_None_iff)
    then show ?thesis using caps_invD(2) [OF inv1 d] unfolding cap_ok_def same using other by simp
  qed
  then show ?thesis using inv1 unfolding caps_inv_def same by (simp add: db')
qed

section \<open>Operations keep the invariant\<close>

text \<open>Clocks that do not run backwards within an operation.\<close>

definition clock_ok :: "cap_env \<Rightarrow> bool" where
  "clock_ok E \<longleftrightarrow> (\<forall>k. 0 \<le> ce_now E k \<and> ce_now E k \<le> ce_later E k \<and> ce_later E k < year10000)"

lemma sint_unixMicro_mono:
  assumes "0 \<le> t" and "t \<le> u" and "u < year10000"
  shows "sint (unixMicro t) \<le> sint (unixMicro u)"
proof -
  have "sint (unixMicro v) = v div 1000" if "0 \<le> v" "v < year10000" for v
    using that by (auto simp: unixMicro_def year10000_def sint_sbintrunc' intro!: signed_take_bit_int_eq_self)
  then show ?thesis using assms by (simp add: zdiv_mono1)
qed

lemma set_cap_inv:
  assumes "caps_inv C db" and s: "Schedule C F v db = Inr s" and rate: "0 < sint (rs_RelayMinorPerUnit s)" and over: "0 \<le> sint overage"
    and tx: "set_cap_tx E a t e s overage actor k db = Inr (db', x)"
  shows "caps_inv C db'"
proof -
  from tx obtain db1 where lock: "lockBillingAccount (ce_faults E k) a db = Inr db1" by (auto simp: set_cap_tx_def elim!: ebindE)
  note inv = lock_inv [OF assms(1) lock]
  have st: "on_file C db1 (rs_Version s) s" using lock_frame [OF lock] Schedule_on_file [OF s] by (auto simp: on_file_def)
  from tx lock consider "find_cap a t db1 = None" "create_cap (ce_faults E k) a t e (rs_Version s) overage actor (ce_now E k) db1 = Inr (db', x)"
    | row where "find_cap a t db1 = Some row" "change_cap (ce_faults E k) s row e overage actor (ce_now E k) db1 = Inr (db', x)"
    by (auto simp: set_cap_tx_def split: if_splits option.splits)
  then show ?thesis by cases (auto intro: create_cap_inv [OF inv _ st rate over] change_cap_inv [OF inv _ st rate over])
qed

lemma set_cap_checks_ok:
  assumes "set_cap_checks C F acct start stop overage ack actor db = Inr (a, t, e, s)"
  shows "\<exists>v. Schedule C F v db = Inr s" and "0 < sint (rs_RelayMinorPerUnit s)" and "0 \<le> sint overage" and "a = acct"
  using assms by (auto simp: set_cap_checks_def wrap_err_Inr billingAccountFromContext_def split: sum.splits if_splits elim!: ebindE) blast

lemma SetRelaySpendingCap_inv:
  assumes "caps_inv C db"
  shows "caps_inv C (fst (SetRelaySpendingCap C E acct start stop overage ack actor db))"
proof (cases "set_cap_checks C (ce_read E) acct start stop overage ack actor db")
  case (Inl e)
  then show ?thesis using assms by (simp add: SetRelaySpendingCap_def)
next
  case (Inr r)
  then obtain a t e s where r: "set_cap_checks C (ce_read E) acct start stop overage ack actor db = Inr (a, t, e, s)" by (cases r) auto
  obtain v where v: "Schedule C (ce_read E) v db = Inr s" using set_cap_checks_ok(1) [OF r] by blast
  have "caps_inv C (fst (runBillingTransaction E (set_cap_tx E a t e s overage actor) 0 db))"
    by (rule run_keeps [where P = "caps_inv C", OF assms]) (rule set_cap_inv [OF assms v set_cap_checks_ok(2,3) [OF r]])
  then show ?thesis by (simp add: SetRelaySpendingCap_def r)
qed

lemma reserve_inv:
  assumes "caps_inv C db" and clock: "clock_ok E" and tx: "reserve_tx C E b start stop t e r g m q n k db = Inr (db', x)"
  shows "caps_inv C db'"
proof -
  from tx obtain db1 where lock: "lockBillingAccount (ce_faults E k) b db = Inr db1" by (auto simp: reserve_tx_def elim!: ebindE)
  note inv = lock_inv [OF assms(1) lock]
  from tx lock obtain cap where cap: "find_cap b t db1 = Some cap" and eff: "sint (cp_EffectiveAtUS cap) \<le> sint (unixMicro (ce_now E k))"
    and res: "db' = db1 \<or> issue_grant C E k cap start stop r g m q n db1 = Inr (db', x)"
    by (auto simp: reserve_tx_def not_less split: if_splits option.splits)
  have "sint (unixMicro (ce_now E k)) \<le> sint (unixMicro (ce_later E k))" using clock by (intro sint_unixMicro_mono) (simp_all add: clock_ok_def)
  then have late: "sint (cp_EffectiveAtUS cap) \<le> sint (unixMicro (ce_later E k))" using eff by (rule order_trans [rotated])
  from res show ?thesis
  proof
    assume "db' = db1"
    then show ?thesis using inv by simp
  next
    assume "issue_grant C E k cap start stop r g m q n db1 = Inr (db', x)"
    then show ?thesis by (rule issue_grant_inv [OF inv cap late])
  qed
qed

lemma ReserveRelayCredits_inv:
  assumes "caps_inv C db" and "clock_ok E"
  shows "caps_inv C (fst (ReserveRelayCredits C E acct start stop r g m q n db))"
proof -
  have "caps_inv C (fst (runBillingTransaction E (reserve_tx C E a start stop t e r g m q n) 0 db))" for a t e
    by (rule run_keeps [where P = "caps_inv C", OF assms(1)]) (rule reserve_inv [OF assms])
  then show ?thesis using assms(1) unfolding ReserveRelayCredits_def by (cases "reserve_checks acct start stop r g m q n") auto
qed

lemma surrender_checks_ok:
  "surrender_checks acct i r g m consumed digest = Inr (a, c) \<Longrightarrow> consumed = int_string c \<and> 0 \<le> c"
  by (auto simp: surrender_checks_def split: if_splits option.splits elim!: ebindE)

lemma SurrenderRelayCredits_inv:
  assumes "caps_inv C db"
  shows "caps_inv C (fst (SurrenderRelayCredits E acct i r g m consumed digest db))"
proof (cases "surrender_checks acct i r g m consumed digest")
  case (Inl e)
  then show ?thesis using assms by (simp add: SurrenderRelayCredits_def)
next
  case (Inr x)
  then obtain a c where x: "surrender_checks acct i r g m consumed digest = Inr (a, c)" by (cases x) auto
  have c: "consumed = int_string c" "0 \<le> c" using surrender_checks_ok [OF x] by simp_all
  have "caps_inv C (fst (runBillingTransaction E (surrender_tx E a i r g m c consumed digest) 0 db))"
    by (rule run_keeps [where P = "caps_inv C", OF assms]) (rule surrender_inv [OF assms c])
  then show ?thesis by (simp add: SurrenderRelayCredits_def x)
qed

lemma billing_frames [simp]:
  "Schedule C F v (db\<lparr>bd_assignments := as\<rparr>) = Schedule C F v db" "Schedule C F v (db\<lparr>bd_invoices := is\<rparr>) = Schedule C F v db"
  by (simp_all add: Schedule_def)

lemma on_file_put: "on_file C db v s \<Longrightarrow> on_file C (db\<lparr>bd_schedules := bd_schedules db @ [row]\<rparr>) v s"
  by (auto simp: on_file_def Schedule_def find_append no_fault split: option.splits)

lemma PutSchedule_inv:
  assumes "caps_inv C db"
  shows "caps_inv C (fst (PutSchedule C F s now db))"
proof -
  have "fst (PutSchedule C F s now db) = db \<or> (\<exists>row. fst (PutSchedule C F s now db) = db\<lparr>bd_schedules := bd_schedules db @ [row]\<rparr>)"
    by (auto simp: PutSchedule_def Let_def split: sum.splits option.splits)
  then show ?thesis using assms by (auto intro!: caps_inv_congr [OF assms] on_file_put)
qed

lemma assign_frame: "assign_tx F a t e version now db = Inr (db', x) \<Longrightarrow> cd_caps db' = cd_caps db \<and> cd_grants db' = cd_grants db \<and> cd_leases db' = cd_leases db
    \<and> (\<forall>v. Schedule C G v db' = Schedule C G v db)"
  by (auto simp: assign_tx_def Let_def split: if_splits)

lemma AssignSchedule_inv:
  assumes "caps_inv C db"
  shows "caps_inv C (fst (AssignSchedule C F a start stop version now db))"
proof -
  have tx: "caps_inv C (fst (transaction F (DbFault Commit) db (assign_tx F b t e version now)))" for b t e
  proof (cases "assign_tx F b t e version now db")
    case (Inr r)
    then obtain db' x where r: "assign_tx F b t e version now db = Inr (db', x)" by (cases r) auto
    note frame = assign_frame [OF r, of C no_faults]
    have "caps_inv C db'" using frame by (intro caps_inv_congr [OF assms]) (simp_all add: on_file_def)
    then show ?thesis using assms by (simp add: transaction_def r)
  qed (use assms in \<open>simp add: transaction_def\<close>)
  show ?thesis unfolding AssignSchedule_def using tx assms by (auto split: sum.split)
qed

lemma FinalizeInvoice_inv:
  assumes "caps_inv C db"
  shows "caps_inv C (fst (FinalizeInvoice C F a device relay now db))"
proof -
  have "fst (FinalizeInvoice C F a device relay now db) = db \<or> (\<exists>is. fst (FinalizeInvoice C F a device relay now db) = db\<lparr>bd_invoices := is\<rparr>)"
    by (auto simp: FinalizeInvoice_def split: sum.splits option.splits)
  then show ?thesis using assms by (auto intro!: caps_inv_congr [OF assms] simp: on_file_def)
qed

section \<open>Histories\<close>

text \<open>The operations on the billing tables, in any order, with any faults and retries; a clock may not run backwards within a reservation.\<close>

inductive cap_step :: "codec \<Rightarrow> 'a caps_db_scheme \<Rightarrow> 'a caps_db_scheme \<Rightarrow> bool" for C where
  put: "cap_step C db (fst (PutSchedule C F s now db))"
| assign: "cap_step C db (fst (AssignSchedule C F acct start stop version now db))"
| finalize: "cap_step C db (fst (FinalizeInvoice C F acct device relay now db))"
| set_cap: "cap_step C db (fst (SetRelaySpendingCap C E acct start stop overage ack actor db))"
| reserve: "clock_ok E \<Longrightarrow> cap_step C db (fst (ReserveRelayCredits C E acct start stop relay generation mapping request bytes db))"
| surrender: "cap_step C db (fst (SurrenderRelayCredits E acct grant relay generation mapping consumed digest db))"
| lease: "cap_step C db (fst (runBillingTransaction E (lease_tx E acct startUS relay generation mapping) 0 db))"

definition new_caps :: caps_db where
  "new_caps = \<lparr>bd_schedules = [], bd_assignments = [], bd_locks = [], bd_invoices = [], cd_caps = [], cd_revisions = [], cd_grants = [], cd_leases = []\<rparr>"

theorem caps_inv_reachable:
  assumes "(cap_step C)\<^sup>*\<^sup>* new_caps db"
  shows "caps_inv C db"
  using assms
proof (induction rule: rtranclp_induct)
  case base
  show ?case by (simp add: caps_inv_def new_caps_def)
next
  case (step db db')
  have lease: "caps_inv C (fst (runBillingTransaction E (lease_tx E a t r g m) 0 db))" for E a t r g m
    by (rule run_keeps [where P = "caps_inv C", OF step.IH]) (rule lease_inv [OF step.IH])
  from step.hyps(2) show ?case
    by cases (auto simp: PutSchedule_inv AssignSchedule_inv FinalizeInvoice_inv SetRelaySpendingCap_inv ReserveRelayCredits_inv SurrenderRelayCredits_inv
        lease step.IH)
qed

section \<open>Caps hold\<close>

lemma charge_mono:
  fixes b c i r u :: int
  assumes "b \<le> c" and "0 \<le> r" and "0 \<le> u"
  shows "rat_of_int ((if b - i < 0 then 0 else b - i) * r) / rat_of_int u \<le> rat_of_int ((if c - i < 0 then 0 else c - i) * r) / rat_of_int u"
proof (rule divide_right_mono)
  have "(if b - i < 0 then 0 else b - i) * r \<le> (if c - i < 0 then 0 else c - i) * r" using assms(1,2) by (intro mult_right_mono) auto
  then show "rat_of_int ((if b - i < 0 then 0 else b - i) * r) \<le> rat_of_int ((if c - i < 0 then 0 else c - i) * r)" by (rule of_int_le_iff [THEN iffD2])
  show "0 \<le> rat_of_int u" using assms(3) by simp
qed

lemma charge_budget:
  fixes i overage r u :: int
  assumes "0 \<le> overage" and "0 < r" and "0 < u"
  shows "rat_of_int ((if i + (overage * u) div r - i < 0 then 0 else i + (overage * u) div r - i) * r) / rat_of_int u \<le> rat_of_int overage"
proof -
  have "(overage * u) div r * r \<le> overage * u" using assms(2) pos_mod_sign [of r "overage * u"] div_mult_mod_eq [of "overage * u" r] by linarith
  then have "rat_of_int ((overage * u) div r * r) \<le> rat_of_int (overage * u)" by (rule of_int_le_iff [THEN iffD2])
  then have "rat_of_int ((overage * u) div r * r) / rat_of_int u \<le> rat_of_int overage" using assms(3) by (simp add: pos_divide_le_eq)
  moreover have "0 \<le> (overage * u) div r" using assms by (simp add: pos_imp_zdiv_nonneg_iff)
  ultimately show ?thesis by simp
qed

lemma unit_positive: "validateRateSchedule s = Inr () \<Longrightarrow> 0 < uint (rs_RelayUnitBytes s)"
  by (auto simp: validateRateSchedule_def uint_0_iff order_less_le split: if_splits)

text \<open>The bytes a cap allows cost no more than the cap, and neither do fewer.\<close>

lemma within_cap:
  assumes "validateRateSchedule s = Inr ()" and "0 < sint (rs_RelayMinorPerUnit s)" and "0 \<le> sint overage" and "b \<le> budget s overage"
  shows "0 \<le> relayCharge b s" and "relayCharge b s \<le> rat_of_int (sint overage)"
proof -
  note u = unit_positive [OF assms(1)]
  have "relayCharge b s \<le> relayCharge (budget s overage) s" unfolding relayCharge_def Let_def using assms(2,4) u by (intro charge_mono) simp_all
  also have "\<dots> \<le> rat_of_int (sint overage)" unfolding relayCharge_def Let_def budget_def by (rule charge_budget [OF assms(3,2) u])
  finally show "relayCharge b s \<le> rat_of_int (sint overage)" .
  let ?i = "uint (rs_RelayIncludedBytes s)"
  have "(if min b ?i - ?i < 0 then 0 else min b ?i - ?i) = 0" by simp
  then have "relayCharge (min b ?i) s = 0" unfolding relayCharge_def Let_def by simp
  moreover have "relayCharge (min b ?i) s \<le> relayCharge b s" unfolding relayCharge_def Let_def using assms(2) u by (intro charge_mono) simp_all
  ultimately show "0 \<le> relayCharge b s" by simp
qed

lemma truncated_within:
  assumes "0 \<le> r" and "r \<le> rat_of_int (sint (m :: int64))"
  shows "\<exists>n. truncateMinor (Some r) = Inr n \<and> sint n \<le> sint m"
proof -
  obtain n d where q: "quotient_of r = (n, d)" by (cases "quotient_of r")
  have "\<lfloor>r\<rfloor> = n div d" unfolding quotient_of_div [OF q] by (rule floor_divide_of_int_eq)
  moreover have "0 \<le> \<lfloor>r\<rfloor>" "\<lfloor>r\<rfloor> \<le> sint m" using assms floor_mono [OF assms(2), unfolded floor_of_int] by simp_all
  ultimately have nd: "0 \<le> n div d" "n div d \<le> sint m" by simp_all
  have "sint m < 2 ^ 63" using sint_lt [of m] by simp
  with nd have "n div d < 2 ^ 63" "sint (word_of_int (n div d) :: int64) = n div d"
    by (simp, auto simp: sint_sbintrunc' intro!: signed_take_bit_int_eq_self)
  with nd(2) q assms(1) show ?thesis by (auto simp: truncateMinor_def Let_def)
qed

text \<open>C8. Relays never spend more than the account allowed: whatever operations led to the database, as long as each relay uses at most the bytes of the credits it was
  granted, or reported for the credits it gave back, the relay overage of these bytes is within the spending cap, exactly and in the minor units that are invoiced.\<close>

theorem relay_cap_holds:
  assumes "(cap_step C)\<^sup>*\<^sup>* new_caps db" and "cap \<in> set (cd_caps db)" and "Schedule C F (cp_ScheduleVersion cap) db = Inr s"
    and "\<And>g. g \<in> set (period_grants (cp_AccountID cap) (cp_PeriodStartUS cap) db) \<Longrightarrow> used g \<le> committed g"
  shows "relayCharge (\<Sum>g\<leftarrow>period_grants (cp_AccountID cap) (cp_PeriodStartUS cap) db. used g) s \<le> rat_of_int (sint (cp_OverageMinor cap))
     \<and> (\<exists>m. truncateMinor (Some (relayCharge (\<Sum>g\<leftarrow>period_grants (cp_AccountID cap) (cp_PeriodStartUS cap) db. used g) s)) = Inr m
       \<and> sint m \<le> sint (cp_OverageMinor cap))"
proof -
  have s: "on_file C db (cp_ScheduleVersion cap) s" "validateRateSchedule s = Inr ()" using Schedule_on_file [OF assms(3)] by simp_all
  note ok = caps_invD(2) [OF caps_inv_reachable [OF assms(1)] assms(2)]
  let ?gs = "period_grants (cp_AccountID cap) (cp_PeriodStartUS cap) db"
  have rate: "0 < sint (rs_RelayMinorPerUnit s)" and room: "sum_list (map committed ?gs) \<le> budget s (cp_OverageMinor cap)"
    using cap_okD(1) [OF ok] on_file_unique [OF s(1)] by blast+
  have "(\<Sum>g\<leftarrow>?gs. used g) \<le> sum_list (map committed ?gs)" by (rule sum_list_mono) (rule assms(4))
  then have "(\<Sum>g\<leftarrow>?gs. used g) \<le> budget s (cp_OverageMinor cap)" using room by simp
  note W = within_cap [OF s(2) rate cap_okD(2) [OF ok] this]
  show ?thesis by (intro conjI W(2) truncated_within [OF W])
qed

text \<open>C19. Uncapped forwarding ends before credits start: whatever operations led to the database, every lease issued while the account had no cap for the month has expired
  by the time the first credits of that month are granted.\<close>

theorem leases_end_before_grants:
  assumes "(cap_step C)\<^sup>*\<^sup>* new_caps db" and "l \<in> set (cd_leases db)" and "g \<in> set (cd_grants db)"
    and "ul_AccountID l = cg_AccountID g" and "ul_PeriodStartUS l = cg_PeriodStartUS g"
  shows "sint (ul_ExpiresAtUS l) \<le> sint (unixMicro (cg_CreatedAt g))"
proof -
  note inv = caps_inv_reachable [OF assms(1)]
  obtain cap where cap: "find_cap (cg_AccountID g) (cg_PeriodStartUS g) db = Some cap" using caps_invD(5) [OF inv assms(3)] by auto
  note c = find_cap_in [OF cap]
  then have ok: "cap_ok C db cap" using caps_invD(2) [OF inv] by blast
  have "sint (ul_ExpiresAtUS l) \<le> sint (cp_EffectiveAtUS cap)" using assms(2,4,5) c by (intro cap_okD(3) [OF ok]) (simp add: period_leases_def)
  also have "\<dots> \<le> sint (unixMicro (cg_CreatedAt g))" using assms(3) c by (intro cap_okD(4) [OF ok]) (simp add: period_grants_def)
  finally show ?thesis .
qed

section \<open>Retried requests\<close>

definition request_of :: "relayCreditGrantRow \<Rightarrow> string \<times> int64 \<times> string \<times> string \<times> string" where
  "request_of g = (cg_AccountID g, cg_PeriodStartUS g, cg_RelayID g, cg_Generation g, cg_RequestID g)"

lemma reserve_result:
  assumes "reserve_tx C E a start stop t e r g m q n k db = Inr (db', grant)"
  shows "\<exists>cap row. find_cap a t db' = Some cap \<and> cp_PeriodEndUS cap = e \<and> cp_Acknowledged cap \<and> sint (cp_EffectiveAtUS cap) \<le> sint (unixMicro (ce_now E k))
     \<and> find (\<lambda>x. request_of x = (a, t, r, g, q)) (cd_grants db') = Some row \<and> cg_MappingVersion row = m \<and> cg_RequestedBytes row = int_string (uint n)
     \<and> cg_ScheduleVersion row = cp_ScheduleVersion cap \<and> grant = relayGrantDTO row e \<and> a \<in> set (bd_locks db')"
proof -
  from assms obtain db1 where lock: "lockBillingAccount (ce_faults E k) a db = Inr db1" by (auto simp: reserve_tx_def elim!: ebindE)
  have l: "a \<in> set (bd_locks db1)" using lock by (auto simp: lockBillingAccount_def insert_new_def has_key_iff split: if_splits)
  let ?find = "\<lambda>gs. find (\<lambda>x. request_of x = (a, t, r, g, q)) gs"
  from assms lock obtain cap where cap: "find_cap a t db1 = Some cap" "cp_PeriodEndUS cap = e" "cp_Acknowledged cap"
      "sint (cp_EffectiveAtUS cap) \<le> sint (unixMicro (ce_now E k))"
    and res: "(\<exists>row. ?find (cd_grants db1) = Some row \<and> cg_MappingVersion row = m \<and> cg_RequestedBytes row = int_string (uint n)
        \<and> cg_ScheduleVersion row = cp_ScheduleVersion cap \<and> grant = relayGrantDTO row e \<and> db' = db1)
      \<or> (?find (cd_grants db1) = None \<and> issue_grant C E k cap start stop r g m q n db1 = Inr (db', grant))"
    by (auto simp: reserve_tx_def request_of_def not_less split: if_splits option.splits)
  from res show ?thesis
  proof (elim disjE conjE exE)
    fix row
    assume "?find (cd_grants db1) = Some row" "cg_MappingVersion row = m" "cg_RequestedBytes row = int_string (uint n)"
      "cg_ScheduleVersion row = cp_ScheduleVersion cap" "grant = relayGrantDTO row e" "db' = db1"
    then show ?thesis using cap l by blast
  next
    assume none: "?find (cd_grants db1) = None" and iss: "issue_grant C E k cap start stop r g m q n db1 = Inr (db', grant)"
    from iss obtain s b i where s: "Schedule C (ce_faults E k) (cp_ScheduleVersion cap) db1 = Inr s"
      and out: "db' = db1\<lparr>cd_grants := cd_grants db1 @ [new_grant cap (rs_Version s) r g m q n b i (ce_later E k)]\<rparr>"
        "grant = relayGrantDTO (new_grant cap (rs_Version s) r g m q n b i (ce_later E k)) (cp_PeriodEndUS cap)"
      by (auto simp: issue_grant_def Let_def wrap_err_Inr split: sum.splits if_splits option.splits elim!: ebindE)
    define row where "row = new_grant cap (rs_Version s) r g m q n b i (ce_later E k)"
    have row: "request_of row = (a, t, r, g, q)" "cg_MappingVersion row = m" "cg_RequestedBytes row = int_string (uint n)" "cg_ScheduleVersion row = cp_ScheduleVersion cap"
      using find_cap_in [OF cap(1)] Schedule_on_file [OF s] by (simp_all add: row_def new_grant_def request_of_def)
    have "?find (cd_grants db') = Some row" using none row(1) by (simp add: out(1) row_def [symmetric] find_append)
    moreover have "find_cap a t db' = Some cap" "a \<in> set (bd_locks db')" using cap(1) l by (simp_all add: out(1) find_cap_def)
    ultimately show ?thesis using cap(2-4) row(2-4) out(2) unfolding row_def [symmetric] by blast
  qed
qed

text \<open>C39. Asking again for the same credits is safe: once a reservation has succeeded, in whatever attempt, the same request repeated later gives the same grant and changes
  nothing, so a relay that lost the answer does not reserve twice.\<close>

theorem reserve_idempotent:
  assumes "ReserveRelayCredits C E acct start stop r g m q n db = (db', Inr grant)" and "clock_ok E" and "clock_ok E'"
    and "\<And>k. ce_now E k \<le> ce_now E' 0" and "ce_faults E' 0 = no_faults"
  shows "ReserveRelayCredits C E' acct start stop r g m q n db' = (db', Inr grant)"
proof -
  from assms(1) obtain a t e where ch: "reserve_checks acct start stop r g m q n = Inr (a, t, e)"
    and run: "runBillingTransaction E (reserve_tx C E a start stop t e r g m q n) 0 db = (db', Inr grant)"
    by (auto simp: ReserveRelayCredits_def split: sum.splits)
  from run_result [OF run] obtain j where "reserve_tx C E a start stop t e r g m q n j db = Inr (db', grant)" by auto
  from reserve_result [OF this] obtain cap row where cap: "find_cap a t db' = Some cap" "cp_PeriodEndUS cap = e" "cp_Acknowledged cap"
      "sint (cp_EffectiveAtUS cap) \<le> sint (unixMicro (ce_now E j))"
    and row: "find (\<lambda>x. request_of x = (a, t, r, g, q)) (cd_grants db') = Some row" "cg_MappingVersion row = m" "cg_RequestedBytes row = int_string (uint n)"
      "cg_ScheduleVersion row = cp_ScheduleVersion cap" "grant = relayGrantDTO row e" and l: "a \<in> set (bd_locks db')" by blast
  have "sint (unixMicro (ce_now E j)) \<le> sint (unixMicro (ce_now E' 0))"
    using assms(2-4) unfolding clock_ok_def by (intro sint_unixMicro_mono) (auto intro: order_le_less_trans)
  then have eff: "\<not> sint (unixMicro (ce_now E' 0)) < sint (cp_EffectiveAtUS cap)" using cap(4) by simp
  have "lockBillingAccount no_faults a db' = Inr db'" using l by (simp add: lockBillingAccount_def no_fault insert_new_def has_key_iff)
  then have "reserve_tx C E' a start stop t e r g m q n 0 db' = Inr (db', grant)"
    using cap(1-3) row eff assms(5) by (simp add: reserve_tx_def no_fault request_of_def)
  then have "transaction (ce_faults E' 0) (CapDb Commit) db' (reserve_tx C E' a start stop t e r g m q n 0) = (db', Inr grant)"
    by (simp add: transaction_ok assms(5) no_fault)
  then show ?thesis by (simp add: ReserveRelayCredits_def ch runBillingTransaction.simps)
qed

section \<open>A month with a cap\<close>

definition demo_env :: "instant \<Rightarrow> cap_env" where
  "demo_env t = \<lparr>ce_read = no_faults, ce_faults = (\<lambda>_. no_faults), ce_busy = (\<lambda>_ _. False), ce_done = (\<lambda>_. False), ce_now = (\<lambda>_. t), ce_later = (\<lambda>_. t),
     ce_random = (\<lambda>_. Some (replicate 16 CHR ''0''))\<rparr>"

definition pilot_codec :: codec where
  "pilot_codec = \<lparr>enc_schedule = (\<lambda>s. Some ''P''), dec_schedule = (\<lambda>b. Some PilotRateSchedule), enc_invoice = (\<lambda>_. None), dec_invoice = (\<lambda>_. None),
     enc_device = (\<lambda>_. None), enc_relay = (\<lambda>_. None), sha256 = (\<lambda>b. b)\<rparr>"

definition demo_assigned :: caps_db where
  "demo_assigned = new_caps\<lparr>bd_schedules := [\<lparr>sr_Version = rs_Version PilotRateSchedule, sr_Digest = hex ''P'', sr_Snapshot = ''P'', sr_CreatedAt = 0\<rparr>],
     bd_assignments := [\<lparr>ra_AccountID = ''acct'', ra_PeriodStartUS = 0, ra_PeriodEndUS = 2678400000000,
       ra_ScheduleVersion = rs_Version PilotRateSchedule, ra_CreatedAt = 0\<rparr>], bd_locks := [''acct'']\<rparr>"

definition demo_leased :: caps_db where
  "demo_leased = demo_assigned\<lparr>cd_leases := [\<lparr>ul_AccountID = ''acct'', ul_PeriodStartUS = 0, ul_RelayID = ''relay'', ul_Generation = ''gen'',
     ul_MappingVersion = ''map'', ul_ExpiresAtUS = 25000000\<rparr>]\<rparr>"

definition demo_cap :: relayCapRow where
  "demo_cap = \<lparr>cp_AccountID = ''acct'', cp_PeriodStartUS = 0, cp_PeriodEndUS = 2678400000000, cp_ScheduleVersion = rs_Version PilotRateSchedule,
     cp_OverageMinor = 100, cp_Revision = 1, cp_Acknowledged = True, cp_EffectiveAtUS = 25000000, cp_UpdatedBy = ''admin'', cp_UpdatedAt = seconds 20\<rparr>"

lemma demo_lease_step: "runBillingTransaction (demo_env (seconds 10)) (lease_tx (demo_env (seconds 10)) ''acct'' 0 ''relay'' ''gen'' ''map'') 0 demo_assigned
    = (demo_leased, Inr (seconds 25))"
  by code_simp

definition demo_scheduled :: caps_db where
  "demo_scheduled = new_caps\<lparr>bd_schedules := bd_schedules demo_assigned\<rparr>"

definition demo_capped :: caps_db where
  "demo_capped = demo_leased\<lparr>cd_caps := [demo_cap], cd_revisions := [\<lparr>rv_AccountID = ''acct'', rv_PeriodStartUS = 0, rv_Revision = 1, rv_PeriodEndUS = 2678400000000,
     rv_ScheduleVersion = rs_Version PilotRateSchedule, rv_OverageMinor = 100, rv_Acknowledged = True, rv_EffectiveAtUS = 25000000, rv_Actor = ''admin'',
     rv_CreatedAt = seconds 20\<rparr>]\<rparr>"

definition demo_grant :: relayCreditGrantRow where
  "demo_grant = new_grant demo_cap (rs_Version PilotRateSchedule) ''relay'' ''gen'' ''map'' ''req'' 1000 1000 (hex (replicate 16 CHR ''0'')) (seconds 30)"

definition demo_granted :: caps_db where
  "demo_granted = demo_capped\<lparr>cd_grants := [demo_grant]\<rparr>"

lemma demo_put_step: "PutSchedule pilot_codec no_faults PilotRateSchedule 0 new_caps = (demo_scheduled, Inr ())"
  by code_simp

lemma demo_assign_step:
  "AssignSchedule pilot_codec no_faults ''acct'' 0 (seconds 2678400) (rs_Version PilotRateSchedule) 0 demo_scheduled = (demo_assigned, Inr ())"
  by code_simp

lemma demo_cap_step:
  "SetRelaySpendingCap pilot_codec (demo_env (seconds 20)) ''acct'' 0 (seconds 2678400) 100 True ''admin'' demo_leased = (demo_capped, Inr (relayCapDTO demo_cap))"
  by code_simp

lemma demo_reserve_step:
  "ReserveRelayCredits pilot_codec (demo_env (seconds 30)) ''acct'' 0 (seconds 2678400) ''relay'' ''gen'' ''map'' ''req'' 1000 demo_capped
     = (demo_granted, Inr (relayGrantDTO demo_grant 2678400000000))"
  by code_simp

lemma demo_clock: "0 \<le> t \<Longrightarrow> t < year10000 \<Longrightarrow> clock_ok (demo_env t)"
  by (simp add: clock_ok_def demo_env_def)

lemma demo_clocks: "clock_ok (demo_env (seconds 30))" "clock_ok (demo_env (seconds 40))"
  by (simp_all add: demo_clock year10000_def)

lemma demo_cap_history: "(cap_step pilot_codec)\<^sup>*\<^sup>* new_caps demo_granted"
proof -
  have "cap_step pilot_codec new_caps demo_scheduled" using cap_step.put [of pilot_codec new_caps no_faults PilotRateSchedule 0] by (simp only: demo_put_step fst_conv)
  moreover have "cap_step pilot_codec demo_scheduled demo_assigned"
    using cap_step.assign [of pilot_codec demo_scheduled no_faults "''acct''" 0 "seconds 2678400" "rs_Version PilotRateSchedule" 0] by (simp only: demo_assign_step fst_conv)
  moreover have "cap_step pilot_codec demo_assigned demo_leased"
    using cap_step.lease [of pilot_codec demo_assigned "demo_env (seconds 10)" "''acct''" 0 "''relay''" "''gen''" "''map''"] by (simp only: demo_lease_step fst_conv)
  moreover have "cap_step pilot_codec demo_leased demo_capped"
    using cap_step.set_cap [of pilot_codec demo_leased "demo_env (seconds 20)" "''acct''" 0 "seconds 2678400" 100 True "''admin''"] by (simp only: demo_cap_step fst_conv)
  moreover have "cap_step pilot_codec demo_capped demo_granted"
    using cap_step.reserve [OF demo_clocks(1), of pilot_codec demo_capped "''acct''" 0 "seconds 2678400" "''relay''" "''gen''" "''map''" "''req''" 1000]
    by (simp only: demo_reserve_step fst_conv)
  ultimately show ?thesis by (meson converse_rtranclp_into_rtranclp rtranclp.rtrancl_refl)
qed

lemma demo_cap_reads:
  "cd_caps demo_granted = [demo_cap]" "cd_grants demo_granted = [demo_grant]" "period_grants ''acct'' 0 demo_granted = [demo_grant]"
  "cp_AccountID demo_cap = ''acct''" "cp_PeriodStartUS demo_cap = 0" "committed demo_grant = 1000"
  "Schedule pilot_codec no_faults (cp_ScheduleVersion demo_cap) demo_granted = Inr PilotRateSchedule"
  by code_simp+

theorem relay_cap_holds_witness:
  "relayCharge 1000 PilotRateSchedule \<le> 100 \<and> (\<exists>m. truncateMinor (Some (relayCharge 1000 PilotRateSchedule)) = Inr m \<and> sint m \<le> 100)"
proof -
  have over: "sint (cp_OverageMinor demo_cap) = 100" by (simp add: demo_cap_def)
  have "demo_cap \<in> set (cd_caps demo_granted)" by (simp add: demo_cap_reads)
  from relay_cap_holds [OF demo_cap_history this demo_cap_reads(7), of committed] show ?thesis unfolding over by (simp add: demo_cap_reads)
qed

theorem leases_end_before_grants_witness: "sint (ul_ExpiresAtUS (hd (cd_leases demo_granted))) \<le> sint (unixMicro (cg_CreatedAt demo_grant))"
proof (rule leases_end_before_grants [OF demo_cap_history])
  show "hd (cd_leases demo_granted) \<in> set (cd_leases demo_granted)" by (simp add: demo_granted_def demo_capped_def demo_leased_def)
  show "demo_grant \<in> set (cd_grants demo_granted)" by (simp add: demo_cap_reads)
  show "ul_AccountID (hd (cd_leases demo_granted)) = cg_AccountID demo_grant" "ul_PeriodStartUS (hd (cd_leases demo_granted)) = cg_PeriodStartUS demo_grant"
    by code_simp+
qed

theorem reserve_idempotent_witness:
  "ReserveRelayCredits pilot_codec (demo_env (seconds 40)) ''acct'' 0 (seconds 2678400) ''relay'' ''gen'' ''map'' ''req'' 1000 demo_granted
     = (demo_granted, Inr (relayGrantDTO demo_grant 2678400000000))"
  by (rule reserve_idempotent [OF demo_reserve_step demo_clocks]) (simp_all add: demo_env_def)

end
