(* ===== verification/Spec2Isabelle.thy ===== *)
theory Spec2Isabelle
  imports Bedrock_Trust Audit_Trust Bedrock_Store_Trust Bedrock_Ops_Trust Policy_Trust Compliance_Trust Payment_Races Payment_Progress Version_Trust Evidence_Trust Usage_Retention Cap_Trust
begin

text \<open>
  Karst is a mesh network whose management server keeps several ledgers that everyone else has to trust. This development models the
  server packages under \<^verbatim>\<open>src/server/management/internals/karst\<close> that decide who may talk to whom and who pays what, and proves
  what they promise. Paths below are relative to that directory.

  \<^bold>\<open>Parts and theories.\<close>

  \<^item> \<^verbatim>\<open>Karst_Prelude\<close>, \<^verbatim>\<open>Hash_Chain\<close>, \<^verbatim>\<open>Karst_Db\<close>, \<^verbatim>\<open>Go_Text\<close>, \<^verbatim>\<open>Net_Ip\<close>: what the packages use of the Go
    standard library (big-endian integers, hex, base64, strings, \<^verbatim>\<open>net/netip\<close>), results with errors, hash chains, and the database: tables
    as lists of rows, transactions, and a predicate that says which statements fail.
  \<^item> \<^verbatim>\<open>Bedrock_Log\<close>, \<^verbatim>\<open>Bedrock_Bodies\<close>, \<^verbatim>\<open>Bedrock_Verify\<close> (\<^verbatim>\<open>bedrock/log.go\<close>, \<^verbatim>\<open>sign.go\<close>, \<^verbatim>\<open>verify.go\<close>): the signed
    log of node keys, its codecs, and the verifier with its key tiers, thresholds and coverage query. \<^verbatim>\<open>Bedrock_Semantics\<close> and \<^verbatim>\<open>Bedrock_Trust\<close> show what a
    verified log means: coverage is the log's history and is quorum-signed, root operations are root-signed, anchor keys sign anchors only, the head commits to every
    signed field, encodings are canonical. \<^verbatim>\<open>Bedrock_Demo\<close> is the log the witnesses run on.
  \<^item> \<^verbatim>\<open>Bedrock_Store\<close> (\<^verbatim>\<open>bedrock/logstore.go\<close>, \<^verbatim>\<open>store.go\<close>, \<^verbatim>\<open>builder.go\<close>, \<^verbatim>\<open>anchor.go\<close>, \<^verbatim>\<open>scheduler.go\<close>,
    \<^verbatim>\<open>fleet.go\<close>): import, signing ceremonies, modes, anchoring. \<^verbatim>\<open>Bedrock_Store_Trust\<close> and \<^verbatim>\<open>Bedrock_Ops_Trust\<close>: stored logs verify and only grow,
    interrupted commits can be retried, enforcement needs an exact acknowledgment, schedulers follow the modes.
  \<^item> \<^verbatim>\<open>Audit_Log\<close> (\<^verbatim>\<open>audit/audit.go\<close>, \<^verbatim>\<open>delivery.go\<close>): the hash-chained audit log and its delivery queue. \<^verbatim>\<open>Audit_Trust\<close>: the log is
    append-only after any sequence of operations and failures; it verifies, and keeps verifying from every anchor, when the timestamp column keeps instants exactly, and a rounding column
    breaks it; an anchor pins everything before it; a delivery pass settles its batch.
    The theorem of this theory ties the two logs together: the scheduler's anchor in the bedrock log guards the audit log.
  \<^item> \<^verbatim>\<open>Policy\<close> (\<^verbatim>\<open>policy/policy.go\<close>, \<^verbatim>\<open>grants.go\<close>): access policy documents, their validation and the ingress, egress and SSH compilers.
    \<^verbatim>\<open>Policy_Trust\<close>: compiled filters decide exactly what the rules say, the filters of two active nodes agree, validated documents compile.
  \<^item> \<^verbatim>\<open>Version_Store\<close> (\<^verbatim>\<open>policy/store.go\<close>, \<^verbatim>\<open>compliance_store.go\<close>): the versioned stores of documents and drafts. \<^verbatim>\<open>Version_Trust\<close>: under any
    interleaving of writers both refine one append-only history per account; every stored document passes validation.
  \<^item> \<^verbatim>\<open>Compliance\<close>, \<^verbatim>\<open>Compliance_Gate\<close> (\<^verbatim>\<open>compliance/compliance.go\<close>, \<^verbatim>\<open>version.go\<close>, \<^verbatim>\<open>policy/compliance.go\<close>,
    \<^verbatim>\<open>compliance_compile.go\<close>): device requirements, guardrails and the gates compiled from them. \<^verbatim>\<open>Compliance_Trust\<close>: guarded traffic comes from a device whose
    own fresh evidence meets every requirement.
  \<^item> \<^verbatim>\<open>Compliance_Store\<close> (\<^verbatim>\<open>compliance/store.go\<close>, \<^verbatim>\<open>invalidation.go\<close>): challenges, reports, retention and the invalidation worker.
    \<^verbatim>\<open>Evidence_Trust\<close>: evidence answers a fresh challenge of the device it is about, and no challenge is answered twice.
  \<^item> \<^verbatim>\<open>Billing_Pricing\<close>, \<^verbatim>\<open>Billing_Store\<close> (\<^verbatim>\<open>billing/pricing.go\<close>, \<^verbatim>\<open>rates.go\<close>, \<^verbatim>\<open>invoice.go\<close>, \<^verbatim>\<open>store.go\<close>): exact estimates and
    finalized invoices. \<^verbatim>\<open>Billing_Trust\<close>: an estimate is the graduated tariff of every device-microsecond plus relay overage; a finalized invoice reads back unchanged whatever is stored, assigned or finalized later.
  \<^item> \<^verbatim>\<open>Billing_Payments\<close>, \<^verbatim>\<open>Billing_Workers\<close> (\<^verbatim>\<open>billing/payment_state.go\<close>, \<^verbatim>\<open>webhook_process.go\<close>, \<^verbatim>\<open>paddle.go\<close>, \<^verbatim>\<open>paddle_account.go\<close>,
    \<^verbatim>\<open>payment_retry.go\<close>, \<^verbatim>\<open>paddle_process.go\<close>): the payment outbox, provider webhooks, and the retry, reconciliation and submission workers.
    \<^verbatim>\<open>Payment_Trust\<close>: no retry is sent twice under any interleaving and any crash; \<^verbatim>\<open>Payment_Progress\<close>: the bound on a worker's turns is enough;
    \<^verbatim>\<open>Payment_Races\<close>: two defects, a double initial submission and a late settlement that undoes a payment.
  \<^item> \<^verbatim>\<open>Usage_Ledger\<close>, \<^verbatim>\<open>Usage_Collection\<close>, \<^verbatim>\<open>Usage_Report\<close> (\<^verbatim>\<open>usage/lifecycle.go\<close>, \<^verbatim>\<open>checkpoint.go\<close>, \<^verbatim>\<open>collection.go\<close>, \<^verbatim>\<open>report.go\<close>, and the hooks in
    \<^verbatim>\<open>src/server/management/server/store/karst_usage.go\<close>): the ledger of device enrollments, its checkpoints and pruning, the tracking of membership changes, and device
    reports. \<^verbatim>\<open>Usage_History\<close> follows the operations along a recorded past of device counts; \<^verbatim>\<open>Usage_Trust\<close>: a complete report gives the real device count at every
    microsecond, and a bill computed from it charges exactly that; \<^verbatim>\<open>Usage_Retention\<close>: pruning a month leaves later reports as they were, and one defect, that a device
    enrolled in a pruned month cannot be removed.
  \<^item> \<^verbatim>\<open>Relay_Caps\<close> (\<^verbatim>\<open>billing/caps.go\<close>): monthly spending caps on managed relays, byte credits reserved and surrendered under them, uncapped leases, and retried transactions.
    \<^verbatim>\<open>Cap_Trust\<close>: credits never cost more than the cap, leases have expired before credits are granted, and repeated requests reserve once.

  \<^bold>\<open>How the code is modelled.\<close> A Go struct is a record, an enumeration a datatype or the string constants of the source, a fixed-width integer a word, \<^verbatim>\<open>big.Int\<close> and
  \<^verbatim>\<open>big.Rat\<close> are \<^verbatim>\<open>int\<close> and \<^verbatim>\<open>rat\<close>, a time is an integer number of nanoseconds. A store is a record of its tables; an operation maps it to the store afterwards
  and an error or a result, and takes the clock, random values and the failing statements as arguments. An operation that runs outside one
  transaction is split at its statements where theorems speak of interleaving. Cryptographic primitives, JSON encodings, semantic-version comparison and the payment
  provider are parameters; a theorem that relies on them says what it needs (a digest length, that decoding undoes encoding, or a collision in its conclusion).

  \<^bold>\<open>Interfaces.\<close> Locales hold the shared arguments and are interpreted on the model's own definitions: self-delimiting encodings and readers, body codecs,
  hash chains, append-only stores, versioned tables, and workers that count down.

  \<^bold>\<open>Bounds.\<close> The two payment workers are run for four and five steps; \<^verbatim>\<open>Payment_Progress\<close> shows that these always end them. The retried transaction ends after the
  source's seven attempts. All other loops are recursions on lists. The usage history takes clocks that do not run backwards and identifiers that are fresh, and starts from a ledger that
  was never pruned; the theorems on pruning are about the first prune of such a ledger. The history of caps takes a clock that does not run backwards within one reservation. Sequence and version numbers are 64-bit; theorems about them assume that a table has fewer rows than that.

  \<^bold>\<open>Simplifications.\<close> The generation and notification counters of the compliance evidence are natural numbers, where the source has 64-bit ones; no theorem speaks of their
  overflow. A time has no zone, so the check that billing times are in UTC is not there. A scheduler tick is one step. The verifier returns the hashes of a log only
  when it accepts it; the source fills them in as it goes. A webhook is recorded by its normalized event, not by its payload text. Retention of invoices and payments, which deletes them after
  seven years, is left out; of a month's retention only the pruning of the usage ledger is modelled. The usage history has tracked changes only.

  \<^bold>\<open>Not modelled.\<close> The HTTP and gRPC handlers, process wiring and tickers (they call the operations modelled here); relay usage ingestion, relay
  alerts, and the authorization of a relay's signed credit requests; the provider client; the
  control channel's cryptographic sessions; permit snapshots, which compare printed network prefixes; relay allocation; the forked upstream server and generated code; the
  Rust clients, relays and tools; the web console. Time columns are taken to keep the instant they are given, except in the audit log, where that is a parameter
  because the chain depends on it.
\<close>

section \<open>The anchor ties the two logs together\<close>

lemma AccountHead_entry:
  assumes "AccountHead F acct db = Inr (seq, hash)" and "audit_inv H db" and "\<And>x. length (H x) = 32"
  obtains e where "e \<in> set (au_log db)" "seq = ae_Seq e" "hash = ae_Hash e" "ae_AccountID e = acct" "length hash = 44"
proof -
  from assms(1) obtain e where e: "first_row (order_desc ae_Seq (filter (\<lambda>e. ae_AccountID e = acct) (au_log db))) = Some e"
    "seq = ae_Seq e" "hash = ae_Hash e" by (auto simp: AccountHead_def split: if_splits option.splits)
  from first_row_Some [OF e(1)] have mem: "e \<in> set (au_log db)" "ae_AccountID e = acct" by auto
  then obtain i where i: "i < length (au_log db)" "e = au_log db ! i" by (auto simp: in_set_conv_nth)
  have "verifyRows H [] 1 (au_log db) = Inr ()" using assms(2) by (simp add: audit_inv_def)
  from verifyRows_nth(2) [OF this i(1)] obtain x where "ae_Hash e = base64 (H x)"
    using i by (auto simp: take_Suc_conv_app_nth)
  with that [OF mem(1) e(2,3) mem(2)] assms(3) [of x] show thesis by (simp add: e(3) length_base64)
qed

text \<open>C26. Scheduled anchors guard the audit log. Let a scheduler tick change the store of a system whose
  bedrock logs and audit log verify. Then it appended exactly one entry to the account's bedrock log, and the state of
  that log is anchored to the account's audit head of that moment. From then on verification of the audit log against
  the anchored bedrock state succeeds after any further operations of the audit log, as long as its timestamp column keeps every
  instant exactly and its sequence numbers do not wrap. And, whatever the column, any other audit log that passes it has the same
  entries up to the anchored one, unless two hash inputs collide under SHA-256.\<close>

theorem scheduled_anchor_guards_audit:
  assumes "log_inv C db" and "audit_inv H adb" and "\<And>x. length (H x) = 32" and "list_all audit_fits (au_log adb)"
    and "Tick C F (\<lambda>acct. AccountHead F' acct adb) t now s db = (db', s', r)" and "db' \<noteq> db"
    and "length (bd_log db') < 2 ^ 64" and "length (au_log adb) < 2 ^ 64"
  shows "\<exists>entries e st n. LogAll no_faults (sc_AccountID s) db = Inr entries
     \<and> LogAll no_faults (sc_AccountID s) db' = Inr (entries @ [e]) \<and> LogState C no_faults (sc_AccountID s) db' = Inr st
     \<and> map_option (\<lambda>a. (an_AuditSeq a, an_AuditHead a)) (st_Anchor st) = (case AccountHead F' (sc_AccountID s) adb of Inr h \<Rightarrow> Some h | Inl _ \<Rightarrow> None)
     \<and> (\<forall>col adb'. (\<forall>t. col t = t) \<and> (audit_step H col)\<^sup>*\<^sup>* adb adb' \<and> length (au_log adb') < 2 ^ 64 \<longrightarrow>
          VerifyAnchored (Some st) (\<lambda>seq hash. VerifyFrom no_faults H seq hash adb') = Inr ())
     \<and> (\<forall>F'' adb'. VerifyAnchored (Some st) (\<lambda>seq hash. VerifyFrom F'' H seq hash adb') = Inr ()
          \<and> list_all audit_fits (au_log adb') \<and> length (au_log adb') < 2 ^ 64 \<longrightarrow>
          (let es = order_asc ae_Seq (au_log adb); es' = order_asc ae_Seq (au_log adb');
               x = link_at audit_link (\<lambda>x. base64 (H x)) [] es; y = link_at audit_link (\<lambda>x. base64 (H x)) [] es'
           in 0 < n \<and> n \<le> length es \<and> n \<le> length es' \<and> (map audit_core (take n es') = map audit_core (take n es)
              \<or> (\<exists>i<length es. \<exists>j<length es'. x i \<noteq> y j \<and> H (x i) = H (y j)))))"
proof -
  let ?acct = "sc_AccountID s" and ?audit = "\<lambda>acct. AccountHead F' acct adb"
  have short: "length hash \<le> 4096" if "?audit ?acct = Inr (seq, hash)" for seq hash
    by (rule AccountHead_entry [OF that assms(2,3)]) simp
  obtain entries e st seq hash where log: "LogAll no_faults ?acct db = Inr entries" "?audit ?acct = Inr (seq, hash)"
    "LogAll no_faults ?acct db' = Inr (entries @ [e])" "LogState C no_faults ?acct db' = Inr st"
    and anchor: "st_Anchor st = Some \<lparr>an_AuditHead = hash, an_AuditSeq = seq\<rparr>"
    by (rule Tick_anchors [OF assms(5,6,1,7) short])
  obtain a where a: "a \<in> set (au_log adb)" "seq = ae_Seq a" "hash = ae_Hash a" by (rule AccountHead_entry [OF log(2) assms(2,3)])
  have check: "VerifyAnchored (Some st) f = Inr () \<longleftrightarrow> f (ae_Seq a) (ae_Hash a) = Inr ()" for f
    by (auto simp: VerifyAnchored_def anchor a split: sum.splits)
  have ver: "Verify no_faults H adb = Inr ()" using Verify_iff [OF assms(2,8)] .
  have "verifyRows H [] 1 (au_log adb) = Inr ()" using assms(2) by (simp add: audit_inv_def)
  obtain i where "i < length (au_log adb)" "a = au_log adb ! i" using a(1) by (auto simp: in_set_conv_nth)
  with unat_seq [OF \<open>verifyRows H [] 1 (au_log adb) = Inr ()\<close> assms(8)]
  have n: "0 < unat (ae_Seq a)" "unat (ae_Seq a) \<le> length (order_asc ae_Seq (au_log adb))" by simp_all
  show ?thesis
  proof (intro exI [of _ entries] exI [of _ e] exI [of _ st] exI [of _ "unat (ae_Seq a)"] conjI allI impI)
    show "VerifyAnchored (Some st) (\<lambda>seq hash. VerifyFrom no_faults H seq hash adb') = Inr ()"
      if "(\<forall>t. col t = t) \<and> (audit_step H col)\<^sup>*\<^sup>* adb adb' \<and> length (au_log adb') < 2 ^ 64" for col adb'
      unfolding check using that by (intro audit_anchor_stays [of _ adb _ col, OF assms(2) a(1)]) simp_all
  next
    fix F'' adb'
    assume that: "VerifyAnchored (Some st) (\<lambda>seq hash. VerifyFrom F'' H seq hash adb') = Inr ()
      \<and> list_all audit_fits (au_log adb') \<and> length (au_log adb') < 2 ^ 64"
    then have from_anchor: "VerifyFrom F'' H (ae_Seq a) (ae_Hash a) adb' = Inr ()" by (simp add: check)
    show "let es = order_asc ae_Seq (au_log adb); es' = order_asc ae_Seq (au_log adb');
        x = link_at audit_link (\<lambda>x. base64 (H x)) [] es; y = link_at audit_link (\<lambda>x. base64 (H x)) [] es'
      in 0 < unat (ae_Seq a) \<and> unat (ae_Seq a) \<le> length es \<and> unat (ae_Seq a) \<le> length es'
        \<and> (map audit_core (take (unat (ae_Seq a)) es') = map audit_core (take (unat (ae_Seq a)) es)
           \<or> (\<exists>i<length es. \<exists>j<length es'. x i \<noteq> y j \<and> H (x i) = H (y j)))"
      using audit_anchor_pins [OF assms(3,4) _ ver a(1) assms(8) from_anchor] that n unfolding Let_def by blast
  qed (use log anchor in simp_all)
qed

theorem scheduled_anchor_guards_audit_witness:
  "\<exists>st. LogState demo_crypto no_faults ''acct'' (demo_anchored_db (ae_Hash demo_audit_entry)) = Inr st
     \<and> VerifyAnchored (Some st) (\<lambda>seq hash. VerifyFrom no_faults demo_sha seq hash demo_audit2) = Inr ()"
proof -
  have head: "AccountHead no_faults ''acct'' demo_audit = Inr (1, ae_Hash demo_audit_entry)"
    by (simp add: AccountHead_def no_faults_def demo_audit_log order_desc_def demo_audit_entry_def)
  have inv: "audit_inv demo_sha demo_audit"
    by (simp add: audit_inv_def demo_audit_log demo_audit_entry_def chainHash_def demo_base64)
  have sha: "length (demo_sha x) = 32" for x by (simp add: demo_sha_def)
  have fits: "fits32 (ae_Hash demo_audit_entry)" by (simp add: demo_audit_entry_def length_base64)
  from demo_Tick [of "\<lambda>acct. AccountHead no_faults acct demo_audit", OF head fits] obtain s' where
    tick: "Tick demo_crypto no_faults (\<lambda>acct. AccountHead no_faults acct demo_audit) 60000000000 9 demo_scheduler demo_short_db
      = (demo_anchored_db (ae_Hash demo_audit_entry), s', Inr ())" by blast
  have "list_all audit_fits (au_log demo_audit)" by (simp add: demo_audit_log audit_fits_def demo_audit_entry_def length_base64)
  note guards = scheduled_anchor_guards_audit [OF demo_short_inv inv sha this tick]
  have "demo_anchored_db (ae_Hash demo_audit_entry) \<noteq> demo_short_db"
    by (auto simp: demo_anchored_db_def demo_short_db_def demo_short_def)
  moreover have "length (bd_log (demo_anchored_db (ae_Hash demo_audit_entry))) < 2 ^ 64"
    by (simp add: demo_anchored_db_def demo_short_db_def demo_short_def)
  moreover have "length (au_log demo_audit) < 2 ^ 64" by (simp add: demo_audit_log)
  ultimately obtain st where "LogState demo_crypto no_faults (sc_AccountID demo_scheduler) (demo_anchored_db (ae_Hash demo_audit_entry)) = Inr st"
    and later: "\<forall>col adb'. (\<forall>t. col t = t) \<and> (audit_step demo_sha col)\<^sup>*\<^sup>* demo_audit adb' \<and> length (au_log adb') < 2 ^ 64 \<longrightarrow>
      VerifyAnchored (Some st) (\<lambda>seq hash. VerifyFrom no_faults demo_sha seq hash adb') = Inr ()"
    by (rule guards [THEN exE]) (elim exE conjE, rule that, assumption+)
  then have st: "LogState demo_crypto no_faults ''acct'' (demo_anchored_db (ae_Hash demo_audit_entry)) = Inr st" by (simp add: demo_scheduler_def)
  have "(audit_step demo_sha id)\<^sup>*\<^sup>* demo_audit demo_audit2" using audit_step.append [OF demo_audit2_step] by blast
  with later [rule_format, of id demo_audit2] st show ?thesis by (simp add: demo_audit2_log)
qed

end
